(* ===== verification/Prelude.thy ===== *)
theory Prelude
  imports Main "HOL-Library.Word"
begin

text \<open>
  What every component of the model shares: the machine-integer types of the C++ sources, the
  failures an operation can end with, sequencing of operations that can fail, bounds-checked reads
  of a byte buffer, and little-endian 32-bit fields.

  A C++ exception is the value \<open>Inl (CodegenException message offset)\<close>; a read or write past the end
  of a buffer, undefined behaviour in C++, is the value \<open>Inl OutOfBounds\<close>, so that memory safety is a
  theorem about the model and not an assumption of it.
\<close>

unbundle bit_operations_syntax

type_synonym u8 = "8 word"
type_synonym u16 = "16 word"
type_synonym u32 = "32 word"
type_synonym u64 = "64 word"

text \<open>\<open>codec\<close> collects the byte-encoding equations, \<open>safe\<close> the facts that exclude \<open>OutOfBounds\<close>.\<close>

named_theorems codec
named_theorems safe

datatype failure = CodegenException string u64 | OutOfBounds

type_synonym 'a result = "failure + 'a"

abbreviation throw :: "string \<Rightarrow> 'a result" where
  "throw message \<equiv> Inl (CodegenException message 0)"

text \<open>Sequencing: the first failure ends the computation, as an exception does.\<close>

definition bindE :: "'e + 'a \<Rightarrow> ('a \<Rightarrow> 'e + 'b) \<Rightarrow> 'e + 'b" where
  "bindE m f = (case m of Inl e \<Rightarrow> Inl e | Inr a \<Rightarrow> f a)"

lemma bindE_simps [simp]:
  "bindE (Inl e) f = Inl e"
  "bindE (Inr a) f = f a"
  by (simp_all add: bindE_def)

lemma bindE_eq_Inr: "bindE m f = Inr b \<longleftrightarrow> (\<exists>a. m = Inr a \<and> f a = Inr b)"
  by (cases m) simp_all

lemma bindE_eq_Inl: "bindE m f = Inl e \<longleftrightarrow> m = Inl e \<or> (\<exists>a. m = Inr a \<and> f a = Inl e)"
  by (cases m) simp_all

lemma bindE_cong [fundef_cong]:
  "m = m' \<Longrightarrow> (\<And>a. m' = Inr a \<Longrightarrow> f a = f' a) \<Longrightarrow> bindE m f = bindE m' f'"
  by (cases m') simp_all

text \<open>No undefined behaviour: the outcome is a value or an exception.\<close>

definition in_bounds :: "'a result \<Rightarrow> bool" where
  "in_bounds r \<longleftrightarrow> r \<noteq> Inl OutOfBounds"

lemma in_bounds_simps [simp]:
  "in_bounds (Inr a)"
  "in_bounds (Inl (CodegenException m off))"
  "\<not> in_bounds (Inl OutOfBounds)"
  by (simp_all add: in_bounds_def)

lemma in_bounds_bindE [safe]:
  "in_bounds m \<Longrightarrow> (\<And>a. m = Inr a \<Longrightarrow> in_bounds (f a)) \<Longrightarrow> in_bounds (bindE m f)"
  by (cases m) (auto simp: in_bounds_def)

lemma in_bounds_if [safe]:
  "(c \<Longrightarrow> in_bounds a) \<Longrightarrow> (\<not> c \<Longrightarrow> in_bounds b) \<Longrightarrow> in_bounds (if c then a else b)"
  by simp

lemma unat_of_nat64 [simp]: "n < 2 ^ 64 \<Longrightarrow> unat (of_nat n :: u64) = n"
  by (simp add: unat_of_nat take_bit_nat_eq_self)

subsection \<open>Reading a byte buffer\<close>

definition byte_at :: "u8 list \<Rightarrow> nat \<Rightarrow> u8 result" where
  "byte_at data pos = (if pos < length data then Inr (data ! pos) else Inl OutOfBounds)"

lemma byte_at_Inr [simp]: "pos < length data \<Longrightarrow> byte_at data pos = Inr (data ! pos)"
  by (simp add: byte_at_def)

lemma byte_at_eq_Inr: "byte_at data pos = Inr b \<longleftrightarrow> pos < length data \<and> b = data ! pos"
  by (auto simp: byte_at_def)

lemma byte_at_eq_Inl: "byte_at data pos = Inl e \<longleftrightarrow> length data \<le> pos \<and> e = OutOfBounds"
  by (auto simp: byte_at_def)

lemma byte_at_in_bounds [safe]: "pos < length data \<Longrightarrow> in_bounds (byte_at data pos)"
  by simp

subsection \<open>Little-endian 32-bit fields\<close>

text \<open>
  \<open>le32\<close> assembles four bytes as \<open>data[0] | data[1] << 8 | data[2] << 16 | data[3] << 24\<close> and
  \<open>le32_bytes\<close> takes a value apart again.
\<close>

definition le32 :: "u8 \<Rightarrow> u8 \<Rightarrow> u8 \<Rightarrow> u8 \<Rightarrow> u32" where
  "le32 b0 b1 b2 b3 =
     ucast b0 OR push_bit 8 (ucast b1) OR push_bit 16 (ucast b2) OR push_bit 24 (ucast b3)"

definition le32_bytes :: "u32 \<Rightarrow> u8 list" where
  "le32_bytes v = [ucast v, ucast (drop_bit 8 v), ucast (drop_bit 16 v), ucast (drop_bit 24 v)]"

lemma length_le32_bytes [simp]: "length (le32_bytes v) = 4"
  by (simp add: le32_bytes_def)

lemma nth_le32_bytes [codec]:
  "le32_bytes v ! 0 = ucast v"
  "le32_bytes v ! Suc 0 = ucast (drop_bit 8 v)"
  "le32_bytes v ! 2 = ucast (drop_bit 16 v)"
  "le32_bytes v ! 3 = ucast (drop_bit 24 v)"
  by (simp_all add: le32_bytes_def)

lemma le32_of_bytes [codec]:
  "le32 (ucast v) (ucast (drop_bit 8 v)) (ucast (drop_bit 16 v)) (ucast (drop_bit 24 v)) = v"
proof (rule bit_word_eqI)
  fix n assume "n < LENGTH(32)"
  then have "n < 32" by simp
  then consider "n < 8" | "8 \<le> n" "n < 16" | "16 \<le> n" "n < 24" | "24 \<le> n" "n < 32" by linarith
  then show "bit (le32 (ucast v) (ucast (drop_bit 8 v)) (ucast (drop_bit 16 v)) (ucast (drop_bit 24 v))) n
      = bit v n"
    by cases (auto simp: le32_def bit_simps)
qed

definition read_le32 :: "u8 list \<Rightarrow> nat \<Rightarrow> u32 result" where
  "read_le32 data pos =
     (if pos + 4 \<le> length data
      then Inr (le32 (data ! pos) (data ! (pos + 1)) (data ! (pos + 2)) (data ! (pos + 3)))
      else Inl OutOfBounds)"

lemma read_le32_in_bounds [safe]: "pos + 4 \<le> length data \<Longrightarrow> in_bounds (read_le32 data pos)"
  by (simp add: read_le32_def)

text \<open>Overwriting the bytes from a position on; \<open>length\<close> and everything outside stay as they are.\<close>

definition write_bytes :: "'a list \<Rightarrow> nat \<Rightarrow> 'a list \<Rightarrow> 'a list" where
  "write_bytes data pos bs = take pos data @ bs @ drop (pos + length bs) data"

lemma length_write_bytes [simp]:
  "pos + length bs \<le> length data \<Longrightarrow> length (write_bytes data pos bs) = length data"
  by (simp add: write_bytes_def)

lemma nth_write_bytes:
  assumes "pos + length bs \<le> length data" "i < length data"
  shows "write_bytes data pos bs ! i =
    (if pos \<le> i \<and> i < pos + length bs then bs ! (i - pos) else data ! i)"
  using assms by (auto simp: write_bytes_def nth_append min_def)

lemma read_le32_write_same [codec]:
  assumes "pos + 4 \<le> length data"
  shows "read_le32 (write_bytes data pos (le32_bytes v)) pos = Inr v"
  using assms
  by (simp add: read_le32_def nth_write_bytes codec)

lemma read_le32_write_other [codec]:
  assumes "pos + length bs \<le> length data" "q + 4 \<le> pos \<or> pos + length bs \<le> q"
  shows "read_le32 (write_bytes data pos bs) q = read_le32 data q"
  using assms by (auto simp: read_le32_def nth_write_bytes)

end
