(* ===== verification/X64_Decoder.thy ===== *)
theory X64_Decoder
  imports X64_Opcodes
begin

text \<open>
  The x86-64 instruction decoder of \<open>core/relinker/codegen/src/x86/X64InstructionDecoder.cpp\<close>:
  \<open>decode\<close> is \<open>Decode\<close> (the length of the first instruction of a buffer), in four parts that follow
  one another in the function, and \<open>decode_instruction\<close> is \<open>DecodeInstruction\<close> (the classification
  that the scanner, the rewriter and the converter use). A buffer \<open>data, available\<close> is the list of
  its \<open>available\<close> bytes, and every read that the code does not guard in the same condition is a
  checked read.
\<close>

subsection \<open>Prefixes (the first loop of \<open>Decode\<close>)\<close>

definition maxInstructionLength :: nat where "maxInstructionLength = 15"

record prefixes =
  p_pos :: nat
  p_rexPresent :: bool
  p_rex :: u8
  p_operandSizeOverride :: bool
  p_addressSizeOverride :: bool
  p_repnePrefix :: bool

definition no_prefixes :: prefixes where
  "no_prefixes = \<lparr>p_pos = 0, p_rexPresent = False, p_rex = 0, p_operandSizeOverride = False,
     p_addressSizeOverride = False, p_repnePrefix = False\<rparr>"

text \<open>A legacy prefix cancels a REX prefix before it.\<close>

definition legacy_prefix :: "prefixes \<Rightarrow> prefixes" where
  "legacy_prefix p = p\<lparr>p_rexPresent := False, p_rex := 0, p_pos := p_pos p + 1\<rparr>"

fun decode_prefixes :: "u8 list \<Rightarrow> prefixes \<Rightarrow> prefixes result" where
  "decode_prefixes [] p = Inr p"
| "decode_prefixes (b # rest) p =
    (if p_pos p = maxInstructionLength then throw ''Instruction exceeds 15 bytes''
     else if RexMin \<le> b \<and> b \<le> RexMax then
       decode_prefixes rest (p\<lparr>p_rexPresent := True, p_rex := b, p_pos := p_pos p + 1\<rparr>)
     else if b = PrefixRepne then
       decode_prefixes rest (legacy_prefix (p\<lparr>p_repnePrefix := True\<rparr>))
     else if b = PrefixOperandSize then
       decode_prefixes rest (legacy_prefix (p\<lparr>p_operandSizeOverride := True\<rparr>))
     else if b = PrefixAddressSize then
       decode_prefixes rest (legacy_prefix (p\<lparr>p_addressSizeOverride := True\<rparr>))
     else if b \<noteq> PrefixLock \<and> b \<noteq> PrefixRep \<and>
             b \<noteq> PrefixSegCs \<and> b \<noteq> PrefixSegSs \<and> b \<noteq> PrefixSegDs \<and>
             b \<noteq> PrefixSegEs \<and> b \<noteq> PrefixSegFs \<and> b \<noteq> PrefixSegGs then Inr p
     else decode_prefixes rest (legacy_prefix p))"

definition rexW :: "prefixes \<Rightarrow> bool" where
  "rexW p \<longleftrightarrow> p_rexPresent p \<and> p_rex p AND RexWBit \<noteq> 0"

definition operandImmediateSize :: "prefixes \<Rightarrow> nat" where
  "operandImmediateSize p = (if p_operandSizeOverride p \<and> \<not> rexW p then ImmSize16 else ImmSize32)"

subsection \<open>Opcode escapes and VEX, EVEX and XOP prefixes\<close>

record escape =
  e_pos :: nat
  e_opcode :: u8
  e_twoByteOpcode :: bool
  e_vexPresent :: bool
  e_evexPresent :: bool
  e_vexMap :: u8
  e_xopMap :: u8
  e_threeByteMap :: u8
  e_threeByteEscape :: bool

definition plain_opcode :: "u8 \<Rightarrow> nat \<Rightarrow> escape" where
  "plain_opcode op pos = \<lparr>e_pos = pos, e_opcode = op, e_twoByteOpcode = False, e_vexPresent = False,
     e_evexPresent = False, e_vexMap = 0, e_xopMap = 0, e_threeByteMap = 0, e_threeByteEscape = False\<rparr>"

definition escape_bytes :: "u8 list \<Rightarrow> u8 \<Rightarrow> nat \<Rightarrow> escape result" where
  "escape_bytes data op pos =
    (let e = plain_opcode op pos; available = length data in
     if op = OneByteVex2 then
       (if available \<le> pos then throw ''Instruction truncated after VEX2 prefix''
        else Inr (e\<lparr>e_vexPresent := True, e_vexMap := 1, e_pos := pos + 1\<rparr>))
     else if op = OneByteVex3 then
       (if available \<le> pos then throw ''Instruction truncated after VEX3 prefix''
        else bindE (byte_at data pos) (\<lambda>b.
          if available \<le> pos + 1 then throw ''Instruction truncated after VEX3 prefix''
          else Inr (e\<lparr>e_vexPresent := True, e_vexMap := b AND Vex3MapMask, e_pos := pos + 2\<rparr>)))
     else if op = XopPrefix \<and> pos < available \<and> XopMapMin \<le> (data ! pos) AND Vex3MapMask then
       (if available \<le> pos + 1 then throw ''Instruction truncated after XOP prefix''
        else bindE (byte_at data pos) (\<lambda>b.
          Inr (e\<lparr>e_xopMap := b AND Vex3MapMask, e_pos := pos + 2\<rparr>)))
     else if op = EvexPrefix then
       (if available \<le> pos + 2 then throw ''Instruction truncated after EVEX prefix''
        else bindE (byte_at data pos) (\<lambda>b.
          Inr (e\<lparr>e_evexPresent := True, e_vexMap := b AND EvexMapMask, e_pos := pos + 3\<rparr>)))
     else if op = TwoByteOpcodeEscape then
       (if available \<le> pos then throw ''Instruction truncated after two-byte opcode escape''
        else bindE (byte_at data pos) (\<lambda>b.
          let e2 = e\<lparr>e_twoByteOpcode := True, e_opcode := b, e_pos := pos + 1\<rparr> in
          if b = ThreeByteEscape38 \<or> b = ThreeByteEscape3A then
            (if available \<le> pos + 1 then throw ''Instruction truncated after three-byte opcode escape''
             else bindE (byte_at data (pos + 1)) (\<lambda>c.
               Inr (e2\<lparr>e_threeByteEscape := True, e_threeByteMap := b, e_opcode := c, e_pos := pos + 2\<rparr>)))
          else Inr e2))
     else Inr e)"

text \<open>The opcode after a VEX, EVEX or XOP prefix.\<close>

definition escaped_opcode :: "u8 list \<Rightarrow> escape \<Rightarrow> escape result" where
  "escaped_opcode data e =
    (if e_vexPresent e \<or> e_evexPresent e \<or> e_xopMap e \<noteq> 0 then
       if length data \<le> e_pos e then throw ''Instruction truncated after VEX prefix''
       else bindE (byte_at data (e_pos e)) (\<lambda>op. Inr (e\<lparr>e_opcode := op, e_pos := e_pos e + 1\<rparr>))
     else Inr e)"

definition decode_escape :: "u8 list \<Rightarrow> nat \<Rightarrow> escape result" where
  "decode_escape data pos =
    (if length data \<le> pos then throw ''Instruction truncated after prefixes''
     else bindE (byte_at data pos) (\<lambda>op.
       bindE (escape_bytes data op (pos + 1)) (escaped_opcode data)))"

subsection \<open>Does the opcode take a ModRM byte, and how long is its immediate\<close>

definition one_byte_has_modrm :: "u8 \<Rightarrow> bool" where
  "one_byte_has_modrm op \<longleftrightarrow>
     (OneByteModRmRangeAMin \<le> op \<and> op \<le> OneByteModRmRangeAMax) \<or>
     (OneByteModRmRangeBMin \<le> op \<and> op \<le> OneByteModRmRangeBMax) \<or>
     (OneByteModRmRangeCMin \<le> op \<and> op \<le> OneByteModRmRangeCMax) \<or>
     (OneByteModRmRangeDMin \<le> op \<and> op \<le> OneByteModRmRangeDMax) \<or>
     (OneByteModRmRangeEMin \<le> op \<and> op \<le> OneByteModRmRangeEMax) \<or>
     (OneByteModRmRangeFMin \<le> op \<and> op \<le> OneByteModRmRangeFMax) \<or>
     (OneByteModRmRangeGMin \<le> op \<and> op \<le> OneByteModRmRangeGMax) \<or>
     (OneByteModRmRangeHMin \<le> op \<and> op \<le> OneByteModRmRangeHMax) \<or>
     op = OneByteArpl \<or> op = OneByteMovsxd \<or>
     (OneByteModRmRangeIMin \<le> op \<and> op \<le> OneByteModRmRangeIMax) \<or>
     op = OneByteGrp2Rm8Imm8 \<or> op = OneByteGrp2RmImm8 \<or>
     op = OneByteMovImm8 \<or> op = OneByteMovImm32 \<or>
     op = OneByteImm32AluCmp \<or> op = OneByteImm8Grp1 \<or>
     op = OneByteImm8AluCmp \<or>
     op = OneByteImulRm32Imm32 \<or> op = OneByteImulRm32Imm8 \<or>
     op = OneByteShiftRm8By1 \<or> op = OneByteShiftRmBy1 \<or>
     op = OneByteShiftRm8ByCl \<or> op = OneByteShiftRmByCl \<or>
     op = OneByteTestGrp3Rm8 \<or> op = OneByteTestGrp3Rm \<or>
     op = OneByteIncDecRm8 \<or> op = OneByteGrp5Rm \<or>
     (OneByteModRmRangeJMin \<le> op \<and> op \<le> OneByteModRmRangeJMax) \<or>
     (OneByteX87Min \<le> op \<and> op \<le> OneByteX87Max)"

text \<open>The chain of assignments to \<open>immediateSize\<close> for a one-byte opcode; a later one wins.\<close>

definition one_byte_immediate :: "prefixes \<Rightarrow> u8 \<Rightarrow> nat" where
  "one_byte_immediate p op =
    (let imm1 =
       (if op = OneByteImm8AluOrGrp3 \<or> op = OneByteImm8AluCmp \<or>
           op = OneByteImm8AddAl \<or> op = OneByteImm8OrAl \<or>
           op = OneByteImm8AdcAl \<or> op = OneByteImm8SbbAl \<or>
           op = OneByteImm8AndAl \<or> op = OneByteImm8SubAl \<or>
           op = OneByteImm8XorAl \<or> op = OneByteImm8CmpAl \<or>
           op = OneByteGrp2Rm8Imm8 \<or> op = OneByteGrp2RmImm8 \<or>
           (OneByteMovImm8RegMin \<le> op \<and> op \<le> OneByteMovImm8RegMax) \<or>
           op = OneBytePushImm8 \<or>
           op = OneByteTestAlImm8 then ImmSize8
        else if op = OneByteImm32AluCmp \<or> op = OneByteMovImm32 \<or>
           op = OneByteImulRm32Imm32 \<or>
           op = OneByteImm32AddEax \<or> op = OneByteImm32OrEax \<or>
           op = OneByteImm32AdcEax \<or> op = OneByteImm32SbbEax \<or>
           op = OneByteImm32AndEax \<or> op = OneByteImm32SubEax \<or>
           op = OneByteImm32XorEax \<or> op = OneByteImm32CmpEax \<or>
           op = OneBytePushImm32 \<or>
           op = OneByteTestEaxImm32 \<or>
           (OneByteMovImm32RegMin \<le> op \<and> op \<le> OneByteMovImm32RegMax) then
          (if OneByteMovImm32RegMin \<le> op \<and> op \<le> OneByteMovImm32RegMax
           then (if rexW p then ImmSize64 else operandImmediateSize p)
           else operandImmediateSize p)
        else if op = OneByteImm8Grp1 \<or> op = OneByteImulRm32Imm8 then ImmSize8
        else ImmSizeNone);
      imm2 = (if OneByteJccRel8Min \<le> op \<and> op \<le> OneByteJccRel8Max then ImmSize8 else imm1);
      imm3 = (if op = OneByteCallRel32 \<or> op = OneByteJmpRel32 then ImmSize32 else imm2);
      imm4 = (if op = OneByteJmpRel8 \<or> op = OneByteJrcxz \<or>
                 (OneByteLoop \<le> op \<and> op \<le> OneByteLoopMax) \<or>
                 (OneByteInOutImm8Min \<le> op \<and> op \<le> OneByteInOutImm8Max) \<or>
                 op = OneByteInt then ImmSize8 else imm3);
      imm5 = (if op = OneByteRetImm16 \<or> op = OneByteRetFarImm16 then ImmSize16 else imm4);
      imm6 = (if op = OneByteEnter then ImmSizeEnter else imm5)
     in if OneByteMovMoffsMin \<le> op \<and> op \<le> OneByteMovMoffsMax
        then (if p_addressSizeOverride p then ImmSize32 else ImmSize64)
        else imm6)"

text \<open>The \<open>0F xx\<close> opcodes: whether a ModRM byte follows, and the size of the immediate.\<close>

definition two_byte_modrm_plain :: "u8 \<Rightarrow> bool" where
  "two_byte_modrm_plain op \<longleftrightarrow>
     (TwoByteCmovRangeMin \<le> op \<and> op \<le> TwoByteCmovRangeMax) \<or>
     (TwoByteModRmRangeAMin \<le> op \<and> op \<le> TwoByteModRmRangeAMax) \<or>
     op = TwoByteBts \<or>
     (TwoByteModRmRangeBMin \<le> op \<and> op \<le> TwoByteModRmRangeBMax) \<or>
     (TwoByteModRmRangeCMin \<le> op \<and> op \<le> TwoByteModRmRangeCMax) \<or>
     (TwoByteModRmRangeDMin \<le> op \<and> op \<le> TwoByteModRmRangeDMax) \<or>
     (TwoByteModRmRangeEMin \<le> op \<and> op \<le> TwoByteModRmRangeEMax) \<or>
     (TwoByteModRmRangeGMin \<le> op \<and> op \<le> TwoByteModRmRangeGMax \<and> op \<noteq> TwoByteEmms) \<or>
     (TwoByteModRmRangeHMin \<le> op \<and> op \<le> TwoByteModRmRangeHMax) \<or>
     (TwoByteModRmRangeIMin \<le> op \<and> op \<le> TwoByteModRmRangeIMax) \<or>
     (TwoBytePrefetchGrpMin \<le> op \<and> op \<le> TwoBytePrefetchGrpMax) \<or>
     (TwoByteSetccMin \<le> op \<and> op \<le> TwoByteSetccMax) \<or>
     op = TwoByteImulRmModRm \<or>
     op = TwoByteGrp7 \<or>
     op = TwoByteGrp15 \<or>
     op = TwoByteXadd \<or>
     op = TwoByteGrp9 \<or>
     op = TwoByteNopModRm \<or> op = TwoByteEndbr"

definition two_byte_layout :: "prefixes \<Rightarrow> u8 \<Rightarrow> (bool \<times> nat) result" where
  "two_byte_layout p op =
    (if op = TwoByteExtrqInsertqImm8Imm8 then
       (if \<not> p_operandSizeOverride p \<and> \<not> p_repnePrefix p
        then throw ''Unsupported 0F 78 opcode without SSE4A prefix''
        else Inr (True, ImmSize16))
     else if op = TwoByteExtrqInsertqModRm then
       (if \<not> p_operandSizeOverride p \<and> \<not> p_repnePrefix p
        then throw ''Unsupported 0F 79 opcode without SSE4A prefix''
        else Inr (True, ImmSizeNone))
     else if TwoByteJccRel32Min \<le> op \<and> op \<le> TwoByteJccRel32Max then Inr (False, ImmSize32)
     else if op = TwoByteMovImm8ModRm \<or> op = TwoByte3DNow then Inr (True, ImmSize8)
     else if TwoByteShiftImm8Min \<le> op \<and> op \<le> TwoByteShiftImm8Max then Inr (True, ImmSize8)
     else if op = TwoByteShldImm8 \<or> op = TwoByteShrdImm8 \<or>
             op = TwoByteShufpsImm8 \<or> op = TwoByteShufpdImm8 \<or>
             op = TwoBytePextrw \<or> op = TwoBytePinsrw then Inr (True, ImmSize8)
     else if op = TwoByteShldCl \<or> op = TwoByteShrdCl \<or>
             op = TwoBytePopcnt \<or> op = TwoByteUd1 \<or> op = TwoByteBtc \<or>
             op = TwoBytePrefetchw \<or> op = TwoByteXaddRm8 \<or>
             op = TwoByteMovnti \<or> op = TwoByteGrp6 \<or>
             op = TwoByteLar \<or> op = TwoByteLsl \<or>
             (TwoByteMovCrDrMin \<le> op \<and> op \<le> TwoByteMovCrDrMax) then Inr (True, ImmSizeNone)
     else if two_byte_modrm_plain op then Inr (True, ImmSizeNone)
     else Inr (False, ImmSizeNone))"

definition operand_layout :: "prefixes \<Rightarrow> escape \<Rightarrow> (bool \<times> nat) result" where
  "operand_layout p e =
    (let op = e_opcode e;
         vectorImmediate = (e_vexMap e = 1 \<and>
           ((0x70 \<le> op \<and> op \<le> 0x73) \<or> op = 0xC2 \<or> op = 0xC4 \<or> op = 0xC5 \<or> op = 0xC6)) in
     if e_xopMap e \<noteq> 0 then
       Inr (True, if e_xopMap e = XopMap8 then ImmSize8
                  else if e_xopMap e = XopMapA then ImmSize32 else ImmSizeNone)
     else if e_vexPresent e then
       (if e_vexMap e = 1 \<and> VexNoModRmMin \<le> op \<and> op \<le> VexNoModRmMax then Inr (False, ImmSizeNone)
        else Inr (True, if e_vexMap e = Vex3Map0F3A \<or> vectorImmediate then ImmSize8 else ImmSizeNone))
     else if e_evexPresent e then
       Inr (True, if e_vexMap e = EvexMap0F3A \<or> vectorImmediate then ImmSize8 else ImmSizeNone)
     else if e_threeByteEscape e then
       Inr (True, if e_threeByteMap e = ThreeByteEscape3A then ImmSize8 else ImmSizeNone)
     else if \<not> e_twoByteOpcode e then Inr (one_byte_has_modrm op, one_byte_immediate p op)
     else two_byte_layout p op)"

subsection \<open>ModRM, SIB, displacement and the length\<close>

definition modrm_mod :: "u8 \<Rightarrow> u8" where
  "modrm_mod modrm = drop_bit ModRmModShift modrm AND ModRmModMask"

definition modrm_reg :: "u8 \<Rightarrow> u8" where
  "modrm_reg modrm = drop_bit ModRmRegShift modrm AND ModRmRegMask"

definition modrm_rm :: "u8 \<Rightarrow> u8" where
  "modrm_rm modrm = modrm AND ModRmRmMask"

text \<open>The SIB byte and the SIB form of a 32-bit displacement; the result is the new position.\<close>

definition skip_sib :: "u8 list \<Rightarrow> u8 \<Rightarrow> u8 \<Rightarrow> nat \<Rightarrow> nat result" where
  "skip_sib data md rm pos =
    (if md \<noteq> ModRmModRegister \<and> rm = ModRmRmSibPresent then
       if length data \<le> pos then throw ''Instruction truncated before SIB byte''
       else bindE (byte_at data pos) (\<lambda>sib.
         let base = sib AND SibBaseMask in
         Inr (if md = ModRmModIndirect \<and> base = SibBaseDisp32 then pos + 1 + Disp32Size else pos + 1))
     else Inr pos)"

definition displacement_end :: "u8 \<Rightarrow> u8 \<Rightarrow> nat \<Rightarrow> nat" where
  "displacement_end md rm pos =
    (if md = ModRmModDisp8 then pos + Disp8Size
     else if md = ModRmModDisp32 then pos + Disp32Size
     else if md = ModRmModIndirect \<and> rm = ModRmRmRipRelative then pos + Disp32Size
     else pos)"

text \<open>Moves to and from control registers always take a register, whatever their \<open>mod\<close> field says.\<close>

definition register_only :: "escape \<Rightarrow> bool" where
  "register_only e \<longleftrightarrow> e_twoByteOpcode e \<and> \<not> e_threeByteEscape e \<and>
     TwoByteMovCrDrMin \<le> e_opcode e \<and> e_opcode e \<le> TwoByteMovCrDrMax"

definition tail_mod :: "escape \<Rightarrow> u8 \<Rightarrow> u8" where
  "tail_mod e modrm = (if register_only e then ModRmModRegister else modrm_mod modrm)"

text \<open>Only the TEST forms of group 3 have an immediate, which the \<open>reg\<close> field decides.\<close>

definition tail_immediate :: "prefixes \<Rightarrow> escape \<Rightarrow> u8 \<Rightarrow> nat \<Rightarrow> nat" where
  "tail_immediate p e modrm immediateSize =
    (if \<not> e_vexPresent e \<and> \<not> e_evexPresent e \<and> \<not> e_twoByteOpcode e \<and>
        (e_opcode e = OneByteTestGrp3Rm8 \<or> e_opcode e = OneByteTestGrp3Rm) \<and>
        modrm_reg modrm \<le> Grp3RegTestMax
     then (if e_opcode e = OneByteTestGrp3Rm8 then ImmSize8 else operandImmediateSize p)
     else immediateSize)"

definition decode_tail :: "u8 list \<Rightarrow> prefixes \<Rightarrow> escape \<Rightarrow> bool \<Rightarrow> nat \<Rightarrow> nat result" where
  "decode_tail data p e hasModRm immediateSize =
    (let pos = e_pos e; available = length data in
     if \<not> hasModRm then
       if maxInstructionLength < pos + immediateSize then throw ''Instruction exceeds 15 bytes''
       else if available < pos + immediateSize then throw ''Instruction truncated in immediate operand''
       else Inr (pos + immediateSize)
     else if available \<le> pos then throw ''Instruction truncated before ModRM byte''
     else bindE (byte_at data pos) (\<lambda>modrm.
       let md = tail_mod e modrm; rm = modrm_rm modrm in
       bindE (skip_sib data md rm (pos + 1)) (\<lambda>pos2.
         let pos3 = displacement_end md rm pos2 + tail_immediate p e modrm immediateSize in
         if maxInstructionLength < pos3 then throw ''Instruction exceeds 15 bytes''
         else if available < pos3 then throw ''Instruction truncated in displacement or immediate operand''
         else Inr pos3)))"

definition decode :: "u8 list \<Rightarrow> nat result" where
  "decode data =
    bindE (decode_prefixes data no_prefixes) (\<lambda>p.
    bindE (decode_escape data (p_pos p)) (\<lambda>e.
    bindE (operand_layout p e) (\<lambda>(hasModRm, immediateSize).
    decode_tail data p e hasModRm immediateSize)))"

subsection \<open>\<open>DecodeInstruction\<close>\<close>

datatype ControlFlowKind =
    Sequential
  | ConditionalBranch
  | UnconditionalJump
  | Call
  | Return
  | IndirectJump
  | IndirectCall
  | Trap

record DecodedInstructionInfo =
  Length :: nat
  OpcodeOffset :: nat
  SegmentPrefix :: u8
  RexPrefix :: u8
  FlowKind :: ControlFlowKind
  HasRipRelativeDisp :: bool
  AddressSize32 :: bool
  RipRelativeDispOffset :: nat
  HasModRm :: bool
  ModRmByte :: u8
  HasBranchTarget :: bool
  BranchDisp :: int
  IsTwoByteOpcode :: bool
  Opcode :: u8
  ModRmRegField :: u8

definition empty_info :: DecodedInstructionInfo where
  "empty_info = \<lparr>Length = 0, OpcodeOffset = 0, SegmentPrefix = 0, RexPrefix = 0, FlowKind = Sequential,
     HasRipRelativeDisp = False, AddressSize32 = False, RipRelativeDispOffset = 0, HasModRm = False,
     ModRmByte = 0, HasBranchTarget = False, BranchDisp = 0, IsTwoByteOpcode = False, Opcode = 0,
     ModRmRegField = 0\<rparr>"

definition is_legacy_prefix :: "u8 \<Rightarrow> bool" where
  "is_legacy_prefix b \<longleftrightarrow>
     b = PrefixLock \<or> b = PrefixRepne \<or> b = PrefixRep \<or>
     b = PrefixSegCs \<or> b = PrefixSegSs \<or> b = PrefixSegDs \<or>
     b = PrefixSegEs \<or> b = PrefixSegFs \<or> b = PrefixSegGs \<or>
     b = PrefixOperandSize \<or> b = PrefixAddressSize"

text \<open>The prefix loop, over the bytes below \<open>info.Length\<close>; the second result is \<open>pos\<close>.\<close>

fun info_prefixes :: "u8 list \<Rightarrow> nat \<Rightarrow> DecodedInstructionInfo \<Rightarrow> DecodedInstructionInfo \<times> nat" where
  "info_prefixes [] pos info = (info, pos)"
| "info_prefixes (b # rest) pos info =
    (if RexMin \<le> b \<and> b \<le> RexMax then info_prefixes rest (pos + 1) (info\<lparr>RexPrefix := b\<rparr>)
     else if is_legacy_prefix b then
       (let info1 = (if PrefixSegFs \<le> b \<and> b \<le> PrefixSegGs then info\<lparr>SegmentPrefix := b\<rparr> else info);
            info2 = (if b = PrefixAddressSize then info1\<lparr>AddressSize32 := True\<rparr> else info1)
        in info_prefixes rest (pos + 1) (info2\<lparr>RexPrefix := 0\<rparr>))
     else (info, pos))"

text \<open>The lambda \<open>readModRm\<close>.\<close>

definition read_modrm ::
    "u8 list \<Rightarrow> DecodedInstructionInfo \<Rightarrow> nat \<Rightarrow> bool \<Rightarrow> DecodedInstructionInfo result" where
  "read_modrm data info modrmPos registerOnly =
    bindE (byte_at data modrmPos) (\<lambda>modrm.
      let info1 = info\<lparr>HasModRm := True, ModRmByte := modrm, ModRmRegField := modrm_reg modrm\<rparr>;
          md = (if registerOnly then ModRmModRegister else modrm_mod modrm);
          rm = modrm_rm modrm
      in Inr (if md = ModRmModIndirect \<and> rm = ModRmRmRipRelative
              then info1\<lparr>HasRipRelativeDisp := True, RipRelativeDispOffset := modrmPos + 1\<rparr>
              else info1))"

text \<open>\<open>memcpy\<close> of four bytes into an \<open>int32_t\<close>, and a byte as an \<open>int8_t\<close>.\<close>

definition read_s32 :: "u8 list \<Rightarrow> nat \<Rightarrow> int result" where
  "read_s32 data pos = bindE (read_le32 data pos) (\<lambda>v. Inr (sint v))"

definition read_s8 :: "u8 list \<Rightarrow> nat \<Rightarrow> int result" where
  "read_s8 data pos = bindE (byte_at data pos) (\<lambda>b. Inr (sint b))"

definition branch :: "DecodedInstructionInfo \<Rightarrow> ControlFlowKind \<Rightarrow> int result \<Rightarrow> DecodedInstructionInfo result" where
  "branch info kind disp = bindE disp (\<lambda>d.
     Inr (info\<lparr>FlowKind := kind, HasBranchTarget := True, BranchDisp := d\<rparr>))"

text \<open>The lists of opcodes that take a ModRM byte, as \<open>DecodeInstruction\<close> repeats them.\<close>

definition info_one_byte_has_modrm :: "u8 \<Rightarrow> bool" where
  "info_one_byte_has_modrm op \<longleftrightarrow>
     (OneByteModRmRangeAMin \<le> op \<and> op \<le> OneByteModRmRangeAMax) \<or>
     (OneByteModRmRangeBMin \<le> op \<and> op \<le> OneByteModRmRangeBMax) \<or>
     (OneByteModRmRangeCMin \<le> op \<and> op \<le> OneByteModRmRangeCMax) \<or>
     (OneByteModRmRangeDMin \<le> op \<and> op \<le> OneByteModRmRangeDMax) \<or>
     (OneByteModRmRangeEMin \<le> op \<and> op \<le> OneByteModRmRangeEMax) \<or>
     (OneByteModRmRangeFMin \<le> op \<and> op \<le> OneByteModRmRangeFMax) \<or>
     (OneByteModRmRangeGMin \<le> op \<and> op \<le> OneByteModRmRangeGMax) \<or>
     (OneByteModRmRangeHMin \<le> op \<and> op \<le> OneByteModRmRangeHMax) \<or>
     (OneByteModRmRangeIMin \<le> op \<and> op \<le> OneByteModRmRangeIMax) \<or>
     (OneByteModRmRangeJMin \<le> op \<and> op \<le> OneByteModRmRangeJMax) \<or>
     op = OneByteArpl \<or> op = OneByteMovsxd \<or>
     op = OneByteGrp2Rm8Imm8 \<or> op = OneByteGrp2RmImm8 \<or>
     op = OneByteMovImm8 \<or> op = OneByteMovImm32 \<or>
     op = OneByteImm32AluCmp \<or> op = OneByteImm8Grp1 \<or>
     op = OneByteImm8AluCmp \<or>
     op = OneByteImulRm32Imm32 \<or> op = OneByteImulRm32Imm8 \<or>
     op = OneByteShiftRm8By1 \<or> op = OneByteShiftRmBy1 \<or>
     op = OneByteShiftRm8ByCl \<or> op = OneByteShiftRmByCl \<or>
     op = OneByteTestGrp3Rm8 \<or> op = OneByteTestGrp3Rm \<or>
     op = OneByteIncDecRm8 \<or> op = OneByteGrp5Rm \<or>
     (OneByteX87Min \<le> op \<and> op \<le> OneByteX87Max)"

definition info_two_byte_has_modrm :: "u8 \<Rightarrow> bool" where
  "info_two_byte_has_modrm op \<longleftrightarrow>
     (TwoByteCmovRangeMin \<le> op \<and> op \<le> TwoByteCmovRangeMax) \<or>
     (TwoByteModRmRangeAMin \<le> op \<and> op \<le> TwoByteModRmRangeAMax) \<or>
     op = TwoByteBts \<or>
     (TwoByteModRmRangeBMin \<le> op \<and> op \<le> TwoByteModRmRangeBMax) \<or>
     (TwoByteModRmRangeCMin \<le> op \<and> op \<le> TwoByteModRmRangeCMax) \<or>
     (TwoByteModRmRangeDMin \<le> op \<and> op \<le> TwoByteModRmRangeDMax) \<or>
     (TwoByteModRmRangeEMin \<le> op \<and> op \<le> TwoByteModRmRangeEMax) \<or>
     (TwoByteModRmRangeGMin \<le> op \<and> op \<le> TwoByteModRmRangeGMax) \<or>
     (TwoByteModRmRangeHMin \<le> op \<and> op \<le> TwoByteModRmRangeHMax) \<or>
     (TwoByteModRmRangeIMin \<le> op \<and> op \<le> TwoByteModRmRangeIMax) \<or>
     (TwoBytePrefetchGrpMin \<le> op \<and> op \<le> TwoBytePrefetchGrpMax) \<or>
     (TwoByteSetccMin \<le> op \<and> op \<le> TwoByteSetccMax) \<or>
     op = TwoByteImulRmModRm \<or> op = TwoByteGrp7 \<or>
     op = TwoByteGrp15 \<or> op = TwoByteXadd \<or>
     op = TwoByteGrp9 \<or> op = TwoByteNopModRm \<or>
     op = TwoByteEndbr \<or> op = TwoByteMovImm8ModRm \<or> op = TwoByte3DNow \<or>
     op = ThreeByteEscape38 \<or> op = ThreeByteEscape3A \<or>
     (TwoByteShiftImm8Min \<le> op \<and> op \<le> TwoByteShiftImm8Max) \<or>
     op = TwoByteShldImm8 \<or> op = TwoByteShrdImm8 \<or>
     op = TwoByteShufpsImm8 \<or> op = TwoByteShufpdImm8 \<or>
     op = TwoBytePextrw \<or> op = TwoBytePinsrw \<or>
     op = TwoByteShldCl \<or> op = TwoByteShrdCl \<or>
     op = TwoBytePopcnt \<or> op = TwoByteUd1 \<or> op = TwoByteBtc \<or>
     op = TwoBytePrefetchw \<or> op = TwoByteXaddRm8 \<or>
     op = TwoByteMovnti \<or> op = TwoByteGrp6 \<or>
     op = TwoByteLar \<or> op = TwoByteLsl \<or>
     (TwoByteMovCrDrMin \<le> op \<and> op \<le> TwoByteMovCrDrMax)"

text \<open>The end of \<open>DecodeInstruction\<close>: an instruction that transfers no control.\<close>

definition info_sequential ::
    "u8 list \<Rightarrow> DecodedInstructionInfo \<Rightarrow> nat \<Rightarrow> u8 \<Rightarrow> bool \<Rightarrow> DecodedInstructionInfo result" where
  "info_sequential data info pos op twoByte =
    (let hasModRm = (if \<not> twoByte then info_one_byte_has_modrm op else info_two_byte_has_modrm op) in
     bindE (if hasModRm \<and> pos < Length info
            then read_modrm data info pos (twoByte \<and> TwoByteMovCrDrMin \<le> op \<and> op \<le> TwoByteMovCrDrMax)
            else Inr info) (\<lambda>info. Inr (info\<lparr>FlowKind := Sequential\<rparr>)))"

text \<open>Group 5 (\<open>FF\<close>): indirect calls and jumps, RIP-relative or through a register or memory.\<close>

definition info_group5 ::
    "u8 list \<Rightarrow> DecodedInstructionInfo \<Rightarrow> nat \<Rightarrow> u8 \<Rightarrow> DecodedInstructionInfo result" where
  "info_group5 data info0 pos op =
    bindE (byte_at data pos) (\<lambda>modrm.
      let reg = modrm_reg modrm; md = modrm_mod modrm; rm = modrm_rm modrm;
          info = info0\<lparr>HasModRm := True, ModRmByte := modrm, ModRmRegField := reg\<rparr>;
          rip = (md = ModRmModIndirect \<and> rm = ModRmRmRipRelative);
          info_rip = info\<lparr>HasRipRelativeDisp := True, RipRelativeDispOffset := pos + 1\<rparr> in
      if reg = 2 then
        Inr (if rip then info_rip\<lparr>FlowKind := Call\<rparr> else info\<lparr>FlowKind := IndirectCall\<rparr>)
      else if reg = 4 then
        (if rip then branch info_rip UnconditionalJump (read_s32 data (pos + 1))
         else Inr (info\<lparr>FlowKind := IndirectJump\<rparr>))
      else if reg = 3 \<or> reg = 5 then
        Inr ((if rip then info_rip else info)\<lparr>FlowKind := if reg = 3 then IndirectCall else IndirectJump\<rparr>)
      else info_sequential data info pos op False)"

definition info_one_byte ::
    "u8 list \<Rightarrow> DecodedInstructionInfo \<Rightarrow> nat \<Rightarrow> u8 \<Rightarrow> DecodedInstructionInfo result" where
  "info_one_byte data info pos op =
    (if op = OneByteCallRel32 then branch info Call (read_s32 data pos)
     else if op = OneByteJmpRel32 then branch info UnconditionalJump (read_s32 data pos)
     else if op = OneByteJmpRel8 then branch info UnconditionalJump (read_s8 data pos)
     else if OneByteJccRel8Min \<le> op \<and> op \<le> OneByteJccRel8Max then
       branch info ConditionalBranch (read_s8 data pos)
     else if op = OneByteJrcxz \<or> (OneByteLoop \<le> op \<and> op \<le> OneByteLoopMax) then
       branch info ConditionalBranch (read_s8 data pos)
     else if op = 0xC3 \<or> op = 0xCB \<or> op = 0xC2 \<or> op = 0xCA then Inr (info\<lparr>FlowKind := Return\<rparr>)
     else if op = OneByteGrp5Rm \<and> pos < Length info then info_group5 data info pos op
     else info_sequential data info pos op False)"

definition info_two_byte ::
    "u8 list \<Rightarrow> DecodedInstructionInfo \<Rightarrow> nat \<Rightarrow> u8 \<Rightarrow> DecodedInstructionInfo result" where
  "info_two_byte data info pos op =
    (if op = 0x0B then Inr (info\<lparr>FlowKind := Trap\<rparr>)
     else if op = TwoByteUd1 then
       bindE (if pos < Length info then read_modrm data info pos False else Inr info)
         (\<lambda>info. Inr (info\<lparr>FlowKind := Trap\<rparr>))
     else if TwoByteJccRel32Min \<le> op \<and> op \<le> TwoByteJccRel32Max then
       branch info ConditionalBranch (read_s32 data pos)
     else info_sequential data info pos op True)"

text \<open>The body of \<open>DecodeInstruction\<close> after its prefix loop, at the opcode byte.\<close>

definition info_opcode ::
    "u8 list \<Rightarrow> DecodedInstructionInfo \<Rightarrow> nat \<Rightarrow> u8 \<Rightarrow> DecodedInstructionInfo result" where
  "info_opcode data info pos op =
    (let xop = (op = XopPrefix \<and> pos < Length info \<and> XopMapMin \<le> (data ! pos) AND Vex3MapMask) in
     if op = OneByteVex2 \<or> op = OneByteVex3 \<or> op = EvexPrefix \<or> xop then
       (let pos2 = pos + (if op = OneByteVex2 then 1
                          else if op = OneByteVex3 \<or> xop then 2 else EvexPrefixLength - 1) + 1 in
        bindE (if pos2 < Length info then read_modrm data info pos2 False else Inr info)
          (\<lambda>info. Inr (info\<lparr>FlowKind := Sequential\<rparr>)))
     else if op = TwoByteOpcodeEscape \<and> pos < Length info then
       bindE (byte_at data pos) (\<lambda>op2.
         info_two_byte data (info\<lparr>Opcode := op2, IsTwoByteOpcode := True\<rparr>)
           (if op2 = ThreeByteEscape38 \<or> op2 = ThreeByteEscape3A then pos + 2 else pos + 1) op2)
     else info_one_byte data (info\<lparr>Opcode := op, IsTwoByteOpcode := False\<rparr>) pos op)"

definition decode_instruction :: "u8 list \<Rightarrow> DecodedInstructionInfo result" where
  "decode_instruction data =
    bindE (decode data) (\<lambda>n.
      let (info, pos) = info_prefixes (take n data) 0 (empty_info\<lparr>Length := n\<rparr>);
          info = info\<lparr>OpcodeOffset := pos\<rparr> in
      if n \<le> pos then Inr info
      else bindE (byte_at data pos) (info_opcode data info (pos + 1)))"

end
