(* ===== verification/X64_Decoder_Props.thy ===== *)
theory X64_Decoder_Props
  imports X64_Decoder
begin

text \<open>
  The decoder: it never reads outside its window, the position only grows, and the outcome depends on the bytes of the
  instruction only, so that a longer window changes nothing.
\<close>

definition is_prefix :: "u8 \<Rightarrow> bool" where
  "is_prefix b \<longleftrightarrow> (RexMin \<le> b \<and> b \<le> RexMax) \<or> is_legacy_prefix b"

definition prefix_length :: "u8 list \<Rightarrow> nat" where
  "prefix_length data = length (takeWhile is_prefix data)"

lemma legacy_prefix_pos [simp]: "p_pos (legacy_prefix p) = p_pos p + 1"
  by (simp add: legacy_prefix_def)

lemma decode_prefixes_Cons_prefix:
  "is_prefix b \<Longrightarrow> decode_prefixes (b # rest) p =
     (if p_pos p = maxInstructionLength then throw ''Instruction exceeds 15 bytes''
      else decode_prefixes rest
        (if RexMin \<le> b \<and> b \<le> RexMax then p\<lparr>p_rexPresent := True, p_rex := b, p_pos := p_pos p + 1\<rparr>
         else legacy_prefix
           (if b = PrefixRepne then p\<lparr>p_repnePrefix := True\<rparr>
            else if b = PrefixOperandSize then p\<lparr>p_operandSizeOverride := True\<rparr>
            else if b = PrefixAddressSize then p\<lparr>p_addressSizeOverride := True\<rparr> else p)))"
  by (auto simp: is_prefix_def is_legacy_prefix_def)

lemma decode_prefixes_Cons_other:
  "\<not> is_prefix b \<Longrightarrow> decode_prefixes (b # rest) p =
     (if p_pos p = maxInstructionLength then throw ''Instruction exceeds 15 bytes'' else Inr p)"
  by (auto simp: is_prefix_def is_legacy_prefix_def)

declare decode_prefixes.simps(2) [simp del]

lemma decode_prefixes_pos:
  "decode_prefixes data p = Inr q \<Longrightarrow> p_pos q = p_pos p + prefix_length data"
proof (induction data arbitrary: p)
  case (Cons b rest)
  then show ?case
    by (cases "is_prefix b")
      (auto simp: decode_prefixes_Cons_prefix decode_prefixes_Cons_other prefix_length_def split: if_splits)
qed (simp add: prefix_length_def)

lemma decode_prefixes_max:
  "decode_prefixes data p = Inr q \<Longrightarrow> p_pos p \<le> maxInstructionLength \<Longrightarrow> p_pos q \<le> maxInstructionLength"
proof (induction data arbitrary: p)
  case (Cons b rest)
  show ?case
  proof (cases "is_prefix b")
    case True
    with Cons.prems Cons.IH show ?thesis
      by (fastforce simp: decode_prefixes_Cons_prefix split: if_splits)
  next
    case False
    with Cons.prems show ?thesis by (auto simp: decode_prefixes_Cons_other split: if_splits)
  qed
qed simp

lemma decode_prefixes_safe [safe]: "in_bounds (decode_prefixes data p)"
proof (induction data arbitrary: p)
  case (Cons b rest)
  then show ?case
    by (cases "is_prefix b") (auto simp: decode_prefixes_Cons_prefix decode_prefixes_Cons_other)
qed simp

text \<open>Only the prefixes and the byte after them decide the outcome.\<close>

lemma decode_prefixes_append:
  "\<forall>b \<in> set pre. is_prefix b \<Longrightarrow> \<not> is_prefix c \<Longrightarrow>
   decode_prefixes (pre @ c # rest) p = decode_prefixes (pre @ c # rest') p"
  by (induction pre arbitrary: p) (simp_all add: decode_prefixes_Cons_prefix decode_prefixes_Cons_other)

lemma prefix_length_le: "prefix_length data \<le> length data"
  by (simp add: prefix_length_def length_takeWhile_le)

lemma prefix_length_split:
  assumes "prefix_length data < length data"
  shows "data = take (prefix_length data) data @ data ! prefix_length data # drop (Suc (prefix_length data)) data"
    and "\<forall>b \<in> set (take (prefix_length data) data). is_prefix b"
    and "\<not> is_prefix (data ! prefix_length data)"
proof -
  show "data = take (prefix_length data) data @ data ! prefix_length data # drop (Suc (prefix_length data)) data"
    using assms by (simp add: id_take_nth_drop)
  have "take (prefix_length data) data = takeWhile is_prefix data"
    by (simp add: prefix_length_def takeWhile_eq_take [symmetric])
  then show "\<forall>b \<in> set (take (prefix_length data) data). is_prefix b"
    by (metis set_takeWhileD)
  show "\<not> is_prefix (data ! prefix_length data)"
    using assms unfolding prefix_length_def by (rule nth_length_takeWhile)
qed

lemma prefix_length_append_eq:
  "\<forall>b \<in> set pre. is_prefix b \<Longrightarrow> \<not> is_prefix c \<Longrightarrow> prefix_length (pre @ c # rest) = length pre"
  by (simp add: prefix_length_def takeWhile_append2)

subsection \<open>The escape bytes\<close>

lemma escape_bytes_safe [safe]: "in_bounds (escape_bytes data op pos)"
  by (auto simp: escape_bytes_def Let_def)

lemma escaped_opcode_safe [safe]: "in_bounds (escaped_opcode data e)"
  by (auto simp: escaped_opcode_def)

lemma decode_escape_safe [safe]: "in_bounds (decode_escape data pos)"
  unfolding decode_escape_def by (intro safe) simp_all

lemma decode_escape_pos:
  "decode_escape data pos = Inr e \<Longrightarrow> pos < e_pos e \<and> e_pos e \<le> length data"
  by (auto simp: decode_escape_def escape_bytes_def escaped_opcode_def plain_opcode_def Let_def bindE_eq_Inr
      split: if_splits)

lemma operand_layout_safe [safe]: "in_bounds (operand_layout p e)"
  by (auto simp: operand_layout_def two_byte_layout_def Let_def)

lemma skip_sib_safe [safe]: "in_bounds (skip_sib data md rm pos)"
  by (auto simp: skip_sib_def Let_def)

lemma skip_sib_pos:
  "skip_sib data md rm pos = Inr q \<Longrightarrow> pos \<le> q"
  by (auto simp: skip_sib_def Let_def bindE_eq_Inr split: if_splits)

lemma displacement_end_ge: "pos \<le> displacement_end md rm pos"
  by (simp add: displacement_end_def)

lemma decode_tail_safe [safe]: "in_bounds (decode_tail data p e h imm)"
  unfolding decode_tail_def Let_def by (intro safe) simp_all

lemma decode_tail_no_modrm:
  "decode_tail data p e False imm = Inr n \<longleftrightarrow>
     n = e_pos e + imm \<and> n \<le> maxInstructionLength \<and> n \<le> length data"
  by (auto simp: decode_tail_def Let_def)

lemma decode_tail_modrm:
  assumes "decode_tail data p e True imm = Inr n"
  shows "e_pos e < n" "n \<le> maxInstructionLength" "n \<le> length data"
    "\<lbrakk>\<not> register_only e; modrm_mod (data ! e_pos e) = ModRmModIndirect;
      modrm_rm (data ! e_pos e) = ModRmRmRipRelative\<rbrakk> \<Longrightarrow> e_pos e + 5 \<le> n"
proof -
  let ?md = "tail_mod e (data ! e_pos e)" and ?rm = "modrm_rm (data ! e_pos e)"
  from assms obtain pos2 where pos2: "skip_sib data ?md ?rm (e_pos e + 1) = Inr pos2"
    and n: "n = displacement_end ?md ?rm pos2 + tail_immediate p e (data ! e_pos e) imm"
    and bounds: "n \<le> maxInstructionLength" "n \<le> length data"
    by (auto simp: decode_tail_def Let_def bindE_eq_Inr byte_at_eq_Inr split: if_splits)
  show "n \<le> maxInstructionLength" "n \<le> length data" by fact+
  from skip_sib_pos [OF pos2] n displacement_end_ge [of pos2 ?md ?rm] show "e_pos e < n" by linarith
  show "\<lbrakk>\<not> register_only e; modrm_mod (data ! e_pos e) = ModRmModIndirect;
      modrm_rm (data ! e_pos e) = ModRmRmRipRelative\<rbrakk> \<Longrightarrow> e_pos e + 5 \<le> n"
    using pos2 n by (auto simp: skip_sib_def displacement_end_def tail_mod_def)
qed

lemma decode_elim:
  assumes "decode data = Inr n"
  obtains p e h imm where
    "decode_prefixes data no_prefixes = Inr p" "p_pos p = prefix_length data"
    "decode_escape data (prefix_length data) = Inr e"
    "operand_layout p e = Inr (h, imm)" "decode_tail data p e h imm = Inr n"
proof -
  from assms obtain p e h imm where *: "decode_prefixes data no_prefixes = Inr p"
      "decode_escape data (p_pos p) = Inr e" "operand_layout p e = Inr (h, imm)"
      "decode_tail data p e h imm = Inr n"
    by (auto simp: decode_def bindE_eq_Inr)
  moreover from *(1) have "p_pos p = prefix_length data"
    using decode_prefixes_pos by (fastforce simp: no_prefixes_def)
  ultimately show thesis using that by metis
qed

lemma decode_bounds:
  assumes "decode data = Inr n"
  shows "prefix_length data < n" "n \<le> maxInstructionLength" "n \<le> length data"
proof -
  from assms obtain p e h imm where d: "decode_escape data (prefix_length data) = Inr e"
      "decode_tail data p e h imm = Inr n" by (rule decode_elim)
  from decode_escape_pos [OF d(1)] have e: "prefix_length data < e_pos e" by simp
  show "prefix_length data < n" "n \<le> maxInstructionLength" "n \<le> length data"
    using d(2) e decode_tail_modrm [of data p e imm n]
    by (cases h; force simp: decode_tail_no_modrm)+
qed

lemma decode_safe [safe]: "in_bounds (decode data)"
  unfolding decode_def by (intro safe) (auto intro: safe)

subsection \<open>The outcome depends on the instruction's own bytes only\<close>

text \<open>Two buffers that agree on their first \<open>m\<close> bytes.\<close>

definition same_prefix :: "nat \<Rightarrow> u8 list \<Rightarrow> u8 list \<Rightarrow> bool" where
  "same_prefix m data data' \<longleftrightarrow>
     m \<le> length data \<and> m \<le> length data' \<and> (\<forall>i < m. data' ! i = data ! i)"

lemma same_prefixD:
  assumes "same_prefix m data data'"
  shows "m \<le> length data" "m \<le> length data'" "i < m \<Longrightarrow> data' ! i = data ! i"
  using assms by (auto simp: same_prefix_def)

lemma same_prefix_byte_at:
  "same_prefix m data data' \<Longrightarrow> i < m \<Longrightarrow> byte_at data' i = byte_at data i"
  by (auto simp: same_prefix_def)

lemma escape_bytes_local:
  assumes "escape_bytes data op pos = Inr e" "same_prefix m data data'" "e_pos e \<le> m"
    "op = XopPrefix \<Longrightarrow> pos < m"
  shows "escape_bytes data' op pos = Inr e"
  using assms(1,3,4) same_prefixD [OF assms(2)]
  by (auto simp: escape_bytes_def plain_opcode_def Let_def bindE_eq_Inr byte_at_eq_Inr not_le
      split: if_splits)

lemma escaped_opcode_local:
  assumes "escaped_opcode data e0 = Inr e" "same_prefix m data data'" "e_pos e \<le> m"
  shows "escaped_opcode data' e0 = Inr e"
  using assms(1,3) same_prefixD [OF assms(2)]
  by (auto simp: escaped_opcode_def bindE_eq_Inr byte_at_eq_Inr not_le split: if_splits)

lemma escaped_opcode_pos: "escaped_opcode data e0 = Inr e \<Longrightarrow> e_pos e0 \<le> e_pos e"
  by (auto simp: escaped_opcode_def bindE_eq_Inr split: if_splits)

lemma decode_escape_local:
  assumes "decode_escape data pos = Inr e" "same_prefix m data data'" "e_pos e \<le> m"
    "data ! pos = XopPrefix \<Longrightarrow> pos + 1 < m"
  shows "decode_escape data' pos = Inr e"
proof -
  from assms(1) obtain e0 where e0: "escape_bytes data (data ! pos) (pos + 1) = Inr e0"
      "escaped_opcode data e0 = Inr e" and pos: "pos < length data"
    by (auto simp: decode_escape_def bindE_eq_Inr byte_at_eq_Inr split: if_splits)
  have "pos < m" using decode_escape_pos [OF assms(1)] assms(3) by auto
  with assms(2) have op: "data' ! pos = data ! pos" "pos < length data'" by (auto simp: same_prefix_def)
  have "escape_bytes data' (data ! pos) (pos + 1) = Inr e0"
    using e0(1) assms(2) _ assms(4) by (rule escape_bytes_local)
      (use escaped_opcode_pos [OF e0(2)] assms(3) in simp)
  moreover have "escaped_opcode data' e0 = Inr e"
    using e0(2) assms(2,3) by (rule escaped_opcode_local)
  ultimately show ?thesis using op by (simp add: decode_escape_def)
qed

lemma skip_sib_local:
  assumes "skip_sib data md rm pos = Inr q" "same_prefix m data data'" "q \<le> m"
  shows "skip_sib data' md rm pos = Inr q"
  using assms(1,3) same_prefixD [OF assms(2)]
  by (auto simp: skip_sib_def Let_def bindE_eq_Inr byte_at_eq_Inr not_le split: if_splits)

lemma decode_tail_local:
  assumes tail: "decode_tail data p e h imm = Inr n" and same: "same_prefix n data data'"
  shows "decode_tail data' p e h imm = Inr n"
proof (cases h)
  case False
  with assms show ?thesis by (auto simp: decode_tail_no_modrm same_prefix_def)
next
  case True
  let ?md = "tail_mod e (data ! e_pos e)" and ?rm = "modrm_rm (data ! e_pos e)"
  from tail True obtain pos2 where pos2: "skip_sib data ?md ?rm (e_pos e + 1) = Inr pos2"
    and n: "n = displacement_end ?md ?rm pos2 + tail_immediate p e (data ! e_pos e) imm"
    and bounds: "n \<le> maxInstructionLength" "n \<le> length data"
    by (auto simp: decode_tail_def Let_def bindE_eq_Inr byte_at_eq_Inr split: if_splits)
  have "pos2 \<le> n" using n displacement_end_ge [of pos2 ?md ?rm] by linarith
  with pos2 same have "skip_sib data' ?md ?rm (e_pos e + 1) = Inr pos2" by (rule skip_sib_local)
  moreover have "e_pos e < n" using tail True decode_tail_modrm(1) by simp
  moreover from same have "n \<le> length data'" by (simp add: same_prefix_def)
  ultimately show ?thesis
    using True bounds n same_prefixD [OF same] by (simp add: decode_tail_def Let_def)
qed

lemma decode_tail_ge: "decode_tail data p e h imm = Inr n \<Longrightarrow> e_pos e \<le> n"
  using decode_tail_modrm(1) by (cases h) (fastforce simp: decode_tail_no_modrm)+

text \<open>An \<open>8F\<close> that is not an XOP prefix is POP, which has a ModRM byte.\<close>

lemma decode_escape_pop:
  "decode_escape data pos = Inr e \<Longrightarrow> data ! pos = XopPrefix \<Longrightarrow>
     pos + 1 < e_pos e \<or> e = plain_opcode XopPrefix (pos + 1)"
  by (auto simp: decode_escape_def escape_bytes_def escaped_opcode_def plain_opcode_def Let_def
      bindE_eq_Inr byte_at_eq_Inr split: if_splits)

lemma decode_pop_has_modrm:
  assumes "decode_escape data pos = Inr e" "operand_layout p e = Inr (h, imm)"
    "decode_tail data p e h imm = Inr n" "data ! pos = XopPrefix"
  shows "pos + 1 < n"
  using decode_escape_pop [OF assms(1,4)]
proof
  assume "e = plain_opcode XopPrefix (pos + 1)"
  with assms(2) have "h" by (simp add: operand_layout_def plain_opcode_def one_byte_has_modrm_def)
  with assms(3) have "e_pos e < n" using decode_tail_modrm(1) by simp
  with \<open>e = _\<close> show ?thesis by (simp add: plain_opcode_def)
qed (use decode_tail_ge [OF assms(3)] in simp)

lemma prefix_length_local:
  assumes "same_prefix m data data'" "prefix_length data < m"
  shows "prefix_length data' = prefix_length data"
proof -
  let ?k = "prefix_length data"
  from assms have "?k < length data" "?k < length data'" by (auto simp: same_prefix_def)
  have t: "take ?k data' = take ?k data" "data' ! ?k = data ! ?k"
    using assms by (auto simp: same_prefix_def list_eq_iff_nth_eq)
  have "data' = take ?k data' @ data' ! ?k # drop (Suc ?k) data'"
    using \<open>?k < length data'\<close> by (simp add: id_take_nth_drop)
  then show ?thesis
    using prefix_length_split [OF \<open>?k < length data\<close>] t \<open>?k < length data\<close>
    by (metis length_take min.absorb4 prefix_length_append_eq)
qed

lemma decode_prefixes_local:
  assumes "same_prefix m data data'" "prefix_length data < m"
  shows "decode_prefixes data' p = decode_prefixes data p"
proof -
  let ?k = "prefix_length data"
  from assms have k: "?k < length data" "?k < length data'" by (auto simp: same_prefix_def)
  have t: "take ?k data' = take ?k data" "data' ! ?k = data ! ?k"
    using assms by (auto simp: same_prefix_def list_eq_iff_nth_eq)
  have "data' = take ?k data @ data ! ?k # drop (Suc ?k) data'"
    using k t by (metis id_take_nth_drop)
  then show ?thesis
    using prefix_length_split [OF k(1)] decode_prefixes_append by metis
qed


lemma decode_local:
  assumes "decode data = Inr n" "same_prefix n data data'"
  shows "decode data' = Inr n"
proof -
  from assms(1) obtain p e h imm where d: "decode_prefixes data no_prefixes = Inr p"
      "p_pos p = prefix_length data" "decode_escape data (prefix_length data) = Inr e"
      "operand_layout p e = Inr (h, imm)" "decode_tail data p e h imm = Inr n"
    by (rule decode_elim)
  have k: "prefix_length data < n" using assms(1) by (rule decode_bounds)
  have "decode_prefixes data' no_prefixes = Inr p"
    using decode_prefixes_local [OF assms(2) k] d(1) by simp
  moreover have "decode_escape data' (prefix_length data) = Inr e"
    using d(3) assms(2) decode_tail_ge [OF d(5)] decode_pop_has_modrm [OF d(3,4,5)]
    by (rule decode_escape_local)
  moreover have "decode_tail data' p e h imm = Inr n"
    using d(5) assms(2) by (rule decode_tail_local)
  ultimately show ?thesis using d(2,4) by (simp add: decode_def)
qed

end
