(* ===== verification/X64_Info_Props.thy ===== *)
theory X64_Info_Props
  imports X64_Decoder_Props
begin

text \<open>
  What \<open>DecodeInstruction\<close> tells the scanner, the rewriter and the converter about an instruction that
  \<open>Decode\<close> accepts: it succeeds, reports the length \<open>Decode\<close> found and the position of the opcode, and
  the fields it locates lie inside the instruction. The proof follows the three ways an opcode can be
  encoded: behind VEX, EVEX or XOP, behind \<open>0F\<close>, or as a single byte.
\<close>

lemma info_prefixes_pos:
  "snd (info_prefixes data pos info) = pos + prefix_length data"
  by (induction data pos info rule: info_prefixes.induct)
    (auto simp: prefix_length_def is_prefix_def Let_def)

lemma info_prefixes_frame [simp]:
  "Length (fst (info_prefixes data pos info)) = Length info"
  "OpcodeOffset (fst (info_prefixes data pos info)) = OpcodeOffset info"
  "HasRipRelativeDisp (fst (info_prefixes data pos info)) = HasRipRelativeDisp info"
  "HasBranchTarget (fst (info_prefixes data pos info)) = HasBranchTarget info"
  by (induction data pos info rule: info_prefixes.induct) (auto simp: Let_def)

text \<open>
  What the rewriter and the stub builder rely on: a RIP-relative displacement is four bytes inside the
  instruction, behind a ModRM byte, and a relative branch ends with the field that holds its
  displacement.
\<close>

definition rel32_branch :: "DecodedInstructionInfo \<Rightarrow> bool" where
  "rel32_branch info \<longleftrightarrow> IsTwoByteOpcode info \<or> Opcode info = OneByteCallRel32 \<or> Opcode info = OneByteJmpRel32"

definition rip_field_ok :: "u8 list \<Rightarrow> DecodedInstructionInfo \<Rightarrow> bool" where
  "rip_field_ok data info \<longleftrightarrow> (HasRipRelativeDisp info \<longrightarrow>
     HasModRm info \<and> OpcodeOffset info + 2 \<le> RipRelativeDispOffset info \<and>
     RipRelativeDispOffset info + Disp32Size \<le> Length info \<and>
     data ! (RipRelativeDispOffset info - 1) = ModRmByte info)"

definition branch_field_ok :: "u8 list \<Rightarrow> DecodedInstructionInfo \<Rightarrow> bool" where
  "branch_field_ok data info \<longleftrightarrow> (HasBranchTarget info \<longrightarrow>
     (if HasRipRelativeDisp info then read_s32 data (RipRelativeDispOffset info) = Inr (BranchDisp info)
      else if rel32_branch info then
        OpcodeOffset info + 1 + Disp32Size \<le> Length info \<and>
        read_s32 data (Length info - Disp32Size) = Inr (BranchDisp info)
      else OpcodeOffset info + 1 + Disp8Size \<le> Length info \<and>
        read_s8 data (Length info - Disp8Size) = Inr (BranchDisp info)))"

definition info_ok :: "u8 list \<Rightarrow> nat \<Rightarrow> nat \<Rightarrow> DecodedInstructionInfo result \<Rightarrow> bool" where
  "info_ok data n k r \<longleftrightarrow> (\<exists>info. r = Inr info \<and> Length info = n \<and> OpcodeOffset info = k \<and>
     rip_field_ok data info \<and> branch_field_ok data info)"

lemma info_okI [intro]:
  "Length info = n \<Longrightarrow> OpcodeOffset info = k \<Longrightarrow> rip_field_ok data info \<Longrightarrow> branch_field_ok data info \<Longrightarrow>
   info_ok data n k (Inr info)"
  by (simp add: info_ok_def)

lemma info_ok_if:
  "(c \<Longrightarrow> info_ok data n k a) \<Longrightarrow> (\<not> c \<Longrightarrow> info_ok data n k b) \<Longrightarrow> info_ok data n k (if c then a else b)"
  by simp

text \<open>The state before the opcode is classified.\<close>

definition fresh_info :: "nat \<Rightarrow> nat \<Rightarrow> DecodedInstructionInfo \<Rightarrow> bool" where
  "fresh_info n k info \<longleftrightarrow> Length info = n \<and> OpcodeOffset info = k \<and>
     \<not> HasRipRelativeDisp info \<and> \<not> HasBranchTarget info"

lemma fresh_info_ok: "fresh_info n k info \<Longrightarrow> info_ok data n k (Inr (info\<lparr>FlowKind := f\<rparr>))"
  by (auto simp: fresh_info_def rip_field_ok_def branch_field_ok_def)

lemma read_modrm_ok:
  assumes "fresh_info n k info" "pos < n" "n \<le> length data" "k < pos"
    "\<lbrakk>\<not> ro; modrm_mod (data ! pos) = ModRmModIndirect; modrm_rm (data ! pos) = ModRmRmRipRelative\<rbrakk>
       \<Longrightarrow> pos + 5 \<le> n"
  shows "info_ok data n k (bindE (read_modrm data info pos ro) (\<lambda>i. Inr (i\<lparr>FlowKind := f\<rparr>)))"
  using assms by (cases ro)
    (auto simp: read_modrm_def Let_def fresh_info_def info_ok_def rip_field_ok_def branch_field_ok_def)

lemma branch32_ok:
  assumes "fresh_info n k info" "rel32_branch info" "n = pos + 4" "n \<le> length data" "k < pos"
  shows "info_ok data n k (branch info kind (read_s32 data pos))"
proof -
  from assms obtain v where "read_s32 data pos = Inr v" by (simp add: read_s32_def read_le32_def)
  with assms show ?thesis
    by (auto simp: branch_def fresh_info_def info_ok_def rip_field_ok_def branch_field_ok_def rel32_branch_def)
qed

lemma branch8_ok:
  assumes "fresh_info n k info" "\<not> rel32_branch info" "n = pos + 1" "n \<le> length data" "k < pos"
  shows "info_ok data n k (branch info kind (read_s8 data pos))"
proof -
  from assms obtain v where "read_s8 data pos = Inr v" by (simp add: read_s8_def)
  with assms show ?thesis
    by (auto simp: branch_def fresh_info_def info_ok_def rip_field_ok_def branch_field_ok_def rel32_branch_def)
qed

lemma info_one_byte_table: "info_one_byte_has_modrm op = one_byte_has_modrm op"
  unfolding info_one_byte_has_modrm_def one_byte_has_modrm_def by (simp only: disj_ac)

subsubsection \<open>VEX, EVEX and XOP\<close>

definition vector_opcode :: "u8 list \<Rightarrow> nat \<Rightarrow> bool" where
  "vector_opcode data k \<longleftrightarrow> data ! k = OneByteVex2 \<or> data ! k = OneByteVex3 \<or> data ! k = EvexPrefix \<or>
     (data ! k = XopPrefix \<and> k + 1 < length data \<and> XopMapMin \<le> (data ! (k + 1)) AND Vex3MapMask)"

lemma escape_vector:
  assumes "decode_escape data k = Inr e" "vector_opcode data k"
  shows "\<not> e_twoByteOpcode e" "e_vexPresent e \<or> e_evexPresent e \<or> e_xopMap e \<noteq> 0"
    "e_pos e = k + 1 + (if data ! k = OneByteVex2 then 1
                        else if data ! k = OneByteVex3 \<or> data ! k = XopPrefix then 2 else EvexPrefixLength - 1) + 1"
  using assms
  by (auto simp: vector_opcode_def decode_escape_def escape_bytes_def escaped_opcode_def plain_opcode_def Let_def
      bindE_eq_Inr byte_at_eq_Inr split: if_splits)

lemma vector_layout:
  "operand_layout p e = Inr (h, imm) \<Longrightarrow> e_vexPresent e \<or> e_evexPresent e \<or> e_xopMap e \<noteq> 0 \<Longrightarrow> h \<or> imm = 0"
  by (auto simp: operand_layout_def Let_def split: if_splits)

text \<open>Where a ModRM byte may be read: it is the decoder's ModRM byte, or there is none left.\<close>

lemma modrm_at:
  assumes "decode_tail data p e h imm = Inr n" "h \<or> imm = 0" "e_pos e < n"
  shows "\<lbrakk>\<not> register_only e; modrm_mod (data ! e_pos e) = ModRmModIndirect;
      modrm_rm (data ! e_pos e) = ModRmRmRipRelative\<rbrakk> \<Longrightarrow> e_pos e + 5 \<le> n"
  using assms decode_tail_modrm(4) by (cases h) (auto simp: decode_tail_no_modrm)


lemma vector_info_ok:
  assumes "decode data = Inr n" "k = prefix_length data" "vector_opcode data k" "fresh_info n k info"
  shows "info_ok data n k (info_opcode data info (k + 1) (data ! k))"
proof -
  from assms(1) obtain p e h imm where d: "decode_escape data k = Inr e"
      "operand_layout p e = Inr (h, imm)" "decode_tail data p e h imm = Inr n"
    unfolding assms(2) by (rule decode_elim)
  note b = decode_bounds [OF assms(1)]
  from b assms(2) have k: "k < n" "n \<le> length data" by auto
  have L: "Length info = n" using assms(4) by (simp add: fresh_info_def)
  have v: "\<not> e_twoByteOpcode e" "h \<or> imm = 0"
    "e_pos e = k + 1 + (if data ! k = OneByteVex2 then 1
                        else if data ! k = OneByteVex3 \<or> data ! k = XopPrefix then 2 else EvexPrefixLength - 1) + 1"
    using escape_vector [OF d(1) assms(3)] vector_layout [OF d(2)] by auto
  have ro: "\<not> register_only e" using v(1) by (simp add: register_only_def)
  have xop: "data ! k = XopPrefix \<Longrightarrow> k + 1 < n"
    using decode_pop_has_modrm [OF d] by simp
  have main: "info_ok data n k (bindE (if e_pos e < n then read_modrm data info (e_pos e) False else Inr info)
      (\<lambda>i. Inr (i\<lparr>FlowKind := Sequential\<rparr>)))"
  proof (cases "e_pos e < n")
    case True
    show ?thesis using True assms(4) k v(3) modrm_at [OF d(3) v(2) True ro]
      by (auto intro!: read_modrm_ok)
  next
    case False
    then show ?thesis using assms(4) by (simp add: fresh_info_ok)
  qed
  have "info_opcode data info (k + 1) (data ! k) =
      bindE (if e_pos e < n then read_modrm data info (e_pos e) False else Inr info)
        (\<lambda>i. Inr (i\<lparr>FlowKind := Sequential\<rparr>))"
    using assms(3) xop L v(3) unfolding vector_opcode_def
    by (elim disjE) (simp_all add: info_opcode_def Let_def)
  with main show ?thesis by simp
qed


subsubsection \<open>Two-byte opcodes\<close>

lemma escape_two_byte:
  assumes "decode_escape data k = Inr e" "data ! k = TwoByteOpcodeEscape"
  shows "e_twoByteOpcode e" "\<not> e_vexPresent e" "\<not> e_evexPresent e" "e_xopMap e = 0" "k + 1 < length data"
    "e_threeByteEscape e \<longleftrightarrow> data ! (k + 1) = ThreeByteEscape38 \<or> data ! (k + 1) = ThreeByteEscape3A"
    "e_pos e = (if e_threeByteEscape e then k + 3 else k + 2)"
    "\<not> e_threeByteEscape e \<Longrightarrow> e_opcode e = data ! (k + 1)"
  using assms
  by (auto simp: decode_escape_def escape_bytes_def escaped_opcode_def plain_opcode_def Let_def
      bindE_eq_Inr byte_at_eq_Inr split: if_splits)

lemma two_byte_layout_imm:
  "two_byte_layout p op = Inr (h, imm) \<Longrightarrow> \<not> (TwoByteJccRel32Min \<le> op \<and> op \<le> TwoByteJccRel32Max) \<Longrightarrow> h \<or> imm = 0"
  by (auto simp: two_byte_layout_def split: if_splits)

lemma two_byte_layout_jcc:
  "two_byte_layout p op = Inr (h, imm) \<Longrightarrow> TwoByteJccRel32Min \<le> op \<Longrightarrow> op \<le> TwoByteJccRel32Max \<Longrightarrow> \<not> h \<and> imm = 4"
  by (auto simp: two_byte_layout_def split: if_splits)

lemma info_sequential_ok:
  assumes "fresh_info n k info" "k < pos" "n \<le> length data"
    "pos < n \<Longrightarrow> \<not> (twoByte \<and> TwoByteMovCrDrMin \<le> op \<and> op \<le> TwoByteMovCrDrMax) \<Longrightarrow>
       modrm_mod (data ! pos) = ModRmModIndirect \<Longrightarrow> modrm_rm (data ! pos) = ModRmRmRipRelative \<Longrightarrow> pos + 5 \<le> n"
  shows "info_ok data n k (info_sequential data info pos op twoByte)"
proof -
  have "Length info = n" using assms(1) by (simp add: fresh_info_def)
  then show ?thesis
    using read_modrm_ok [OF assms(1) _ assms(3,2), of "twoByte \<and> TwoByteMovCrDrMin \<le> op \<and> op \<le> TwoByteMovCrDrMax"]
      assms(4) fresh_info_ok [OF assms(1)]
    by (auto simp: info_sequential_def Let_def)
qed

lemma two_byte_info_ok:
  assumes "decode data = Inr n" "k = prefix_length data" "data ! k = TwoByteOpcodeEscape" "fresh_info n k info"
  shows "info_ok data n k (info_opcode data info (k + 1) (data ! k))"
proof -
  from assms(1) obtain p e h imm where d: "decode_escape data k = Inr e"
      "operand_layout p e = Inr (h, imm)" "decode_tail data p e h imm = Inr n"
    unfolding assms(2) by (rule decode_elim)
  note e = escape_two_byte [OF d(1) assms(3)]
  have n: "n \<le> length data" "e_pos e \<le> n" using decode_bounds [OF assms(1)] decode_tail_ge [OF d(3)] by auto
  have k: "k < e_pos e" "k + 1 < n" using e(7) n by (auto split: if_splits)
  let ?op = "data ! (k + 1)"
  let ?info = "info\<lparr>Opcode := ?op, IsTwoByteOpcode := True\<rparr>"
  have fresh: "fresh_info n k ?info" using assms(4) by (simp add: fresh_info_def)
  have L: "Length info = n" using assms(4) by (simp add: fresh_info_def)
  have step: "info_opcode data info (k + 1) (data ! k) = info_two_byte data ?info (e_pos e) ?op"
    using assms(3) k(2) n(1) L e(6,7) by (simp add: info_opcode_def Let_def numeral_3_eq_3)
  show ?thesis
  proof (cases "TwoByteJccRel32Min \<le> ?op \<and> ?op \<le> TwoByteJccRel32Max")
    case True
    then have "\<not> e_threeByteEscape e" using e(6) by auto
    with e d(2) have "two_byte_layout p ?op = Inr (h, imm)" by (simp add: operand_layout_def)
    with True have "\<not> h" "imm = 4" using two_byte_layout_jcc by auto
    with d(3) have "n = e_pos e + 4" by (simp add: decode_tail_no_modrm)
    moreover have "info_two_byte data ?info (e_pos e) ?op = branch ?info ConditionalBranch (read_s32 data (e_pos e))"
      using True by (auto simp: info_two_byte_def)
    ultimately show ?thesis
      unfolding step using fresh k n by (simp add: branch32_ok rel32_branch_def)
  next
    case False
    have imm: "h \<or> imm = 0"
      using d(2) e False two_byte_layout_imm by (cases "e_threeByteEscape e") (auto simp: operand_layout_def)
    have ro: "register_only e \<longleftrightarrow> TwoByteMovCrDrMin \<le> ?op \<and> ?op \<le> TwoByteMovCrDrMax"
      using e by (auto simp: register_only_def)
    note at = modrm_at [OF d(3) imm]
    have seq: "info_ok data n k (info_sequential data ?info (e_pos e) ?op True)"
      using fresh k(1) n(1) by (rule info_sequential_ok) (use at ro in auto)
    have ud1: "?op = TwoByteUd1 \<Longrightarrow> info_ok data n k (bindE (if e_pos e < n then read_modrm data ?info (e_pos e) False else Inr ?info)
         (\<lambda>info. Inr (info\<lparr>FlowKind := Trap\<rparr>)))"
      using read_modrm_ok [OF fresh _ n(1) k(1)] at ro fresh_info_ok [OF fresh] by auto
    show ?thesis
      unfolding step info_two_byte_def using False seq ud1 fresh_info_ok [OF fresh] fresh
      by (auto simp: fresh_info_def)
  qed
qed

subsubsection \<open>One-byte opcodes\<close>

lemma escape_one_byte:
  assumes "decode_escape data k = Inr e" "\<not> vector_opcode data k" "data ! k \<noteq> TwoByteOpcodeEscape"
  shows "e = plain_opcode (data ! k) (k + 1)"
  using assms
  by (auto simp: vector_opcode_def decode_escape_def escape_bytes_def escaped_opcode_def plain_opcode_def Let_def
      bindE_eq_Inr byte_at_eq_Inr split: if_splits)

definition rel8_opcode :: "u8 \<Rightarrow> bool" where
  "rel8_opcode op \<longleftrightarrow> op = OneByteJmpRel8 \<or> (OneByteJccRel8Min \<le> op \<and> op \<le> OneByteJccRel8Max) \<or>
     op = OneByteJrcxz \<or> (OneByteLoop \<le> op \<and> op \<le> OneByteLoopMax)"

lemma rel8_no_modrm: "rel8_opcode op \<Longrightarrow> \<not> one_byte_has_modrm op"
  unfolding rel8_opcode_def one_byte_has_modrm_def
  by (auto simp: word_le_def)


lemma rel8_immediate:
  assumes "rel8_opcode op"
  shows "one_byte_immediate p op = 1"
proof -
  have "op \<noteq> OneByteCallRel32" "op \<noteq> OneByteJmpRel32" "op \<noteq> OneByteRetImm16" "op \<noteq> OneByteRetFarImm16"
    "op \<noteq> OneByteEnter" "\<not> (OneByteMovMoffsMin \<le> op \<and> op \<le> OneByteMovMoffsMax)"
    using assms by (auto simp: rel8_opcode_def word_le_def)
  with assms show ?thesis
    unfolding one_byte_immediate_def Let_def rel8_opcode_def by (simp only: if_True if_False HOL.simp_thms) auto
qed

lemma rel32_layout:
  assumes "op = OneByteCallRel32 \<or> op = OneByteJmpRel32"
  shows "\<not> one_byte_has_modrm op" "one_byte_immediate p op = 4"
  using assms by (elim disjE; simp add: one_byte_has_modrm_def one_byte_immediate_def)+

lemma info_group5_ok:
  assumes "fresh_info n k info" "pos < n" "n \<le> length data" "k < pos"
    "modrm_mod (data ! pos) = ModRmModIndirect \<Longrightarrow> modrm_rm (data ! pos) = ModRmRmRipRelative \<Longrightarrow> pos + 5 \<le> n"
  shows "info_ok data n k (info_group5 data info pos op)"
proof -
  let ?modrm = "data ! pos"
  let ?rip = "modrm_mod ?modrm = ModRmModIndirect \<and> modrm_rm ?modrm = ModRmRmRipRelative"
  let ?info = "info\<lparr>HasModRm := True, ModRmByte := ?modrm, ModRmRegField := modrm_reg ?modrm\<rparr>"
  let ?rinfo = "?info\<lparr>HasRipRelativeDisp := True, RipRelativeDispOffset := pos + 1\<rparr>"
  have fresh: "fresh_info n k ?info" using assms(1) by (simp add: fresh_info_def)
  have flow: "info_ok data n k (Inr (?info\<lparr>FlowKind := f\<rparr>))" for f
    using fresh by (rule fresh_info_ok)
  have rflow: "?rip \<Longrightarrow> info_ok data n k (Inr (?rinfo\<lparr>FlowKind := f\<rparr>))" for f
    using fresh assms by (auto simp: fresh_info_def info_ok_def rip_field_ok_def branch_field_ok_def)
  have rjump: "?rip \<Longrightarrow> info_ok data n k (branch ?rinfo UnconditionalJump (read_s32 data (pos + 1)))"
    using fresh assms
    by (auto simp: fresh_info_def info_ok_def rip_field_ok_def branch_field_ok_def branch_def read_s32_def read_le32_def)
  have seq: "info_ok data n k (info_sequential data ?info pos op False)"
    using fresh assms(4,3) by (rule info_sequential_ok) (use assms(5) in auto)
  have "byte_at data pos = Inr ?modrm" using assms(2,3) by simp
  then have step: "info_group5 data info pos op =
      (if modrm_reg ?modrm = 2 then
         (if ?rip then Inr (?rinfo\<lparr>FlowKind := Call\<rparr>) else Inr (?info\<lparr>FlowKind := IndirectCall\<rparr>))
       else if modrm_reg ?modrm = 4 then
         (if ?rip then branch ?rinfo UnconditionalJump (read_s32 data (pos + 1))
          else Inr (?info\<lparr>FlowKind := IndirectJump\<rparr>))
       else if modrm_reg ?modrm = 3 \<or> modrm_reg ?modrm = 5 then
         (if ?rip then Inr (?rinfo\<lparr>FlowKind := if modrm_reg ?modrm = 3 then IndirectCall else IndirectJump\<rparr>)
          else Inr (?info\<lparr>FlowKind := if modrm_reg ?modrm = 3 then IndirectCall else IndirectJump\<rparr>))
       else info_sequential data ?info pos op False)"
    by (simp add: info_group5_def Let_def)
  show ?thesis
    unfolding step by (intro info_ok_if flow rflow rjump seq)
qed

lemma one_byte_info_ok:
  assumes "decode data = Inr n" "k = prefix_length data" "\<not> vector_opcode data k"
    "data ! k \<noteq> TwoByteOpcodeEscape" "fresh_info n k info"
  shows "info_ok data n k (info_opcode data info (k + 1) (data ! k))"
proof -
  from assms(1) obtain p e h imm where d: "decode_escape data k = Inr e"
      "operand_layout p e = Inr (h, imm)" "decode_tail data p e h imm = Inr n"
    unfolding assms(2) by (rule decode_elim)
  let ?op = "data ! k"
  let ?info = "info\<lparr>Opcode := ?op, IsTwoByteOpcode := False\<rparr>"
  have e: "e = plain_opcode ?op (k + 1)" using d(1) assms(3,4) by (rule escape_one_byte)
  have L: "Length info = n" using assms(5) by (simp add: fresh_info_def)
  have fresh: "fresh_info n k ?info" using assms(5) by (simp add: fresh_info_def)
  have lay: "h = one_byte_has_modrm ?op" "imm = one_byte_immediate p ?op"
    using d(2) e by (simp_all add: operand_layout_def plain_opcode_def Let_def)
  have n: "n \<le> length data" "k + 1 \<le> n"
    using decode_bounds [OF assms(1)] decode_tail_ge [OF d(3)] e by (auto simp: plain_opcode_def)
  have xop: "?op = XopPrefix \<Longrightarrow> k + 1 < n" using decode_pop_has_modrm [OF d] by simp
  have step: "info_opcode data info (k + 1) ?op = info_one_byte data ?info (k + 1) ?op"
    using assms(3,4) L n xop by (auto simp: info_opcode_def vector_opcode_def Let_def)
  have ro: "\<not> register_only e" by (simp add: e register_only_def plain_opcode_def)
  have pos: "e_pos e = k + 1" by (simp add: e plain_opcode_def)
  have at: "one_byte_has_modrm ?op \<Longrightarrow> modrm_mod (data ! (k + 1)) = ModRmModIndirect \<Longrightarrow>
      modrm_rm (data ! (k + 1)) = ModRmRmRipRelative \<Longrightarrow> k + 1 < n \<Longrightarrow> k + 1 + 5 \<le> n"
    using modrm_at [OF d(3)] ro pos lay by simp
  have rel32: "info_ok data n k (branch ?info kind (read_s32 data (k + 1)))"
    if "?op = OneByteCallRel32 \<or> ?op = OneByteJmpRel32" for kind
  proof -
    from rel32_layout [OF that] lay have "\<not> h" "imm = 4" by simp_all
    with d(3) pos have "n = k + 1 + 4" by (simp add: decode_tail_no_modrm)
    with that fresh n show ?thesis by (intro branch32_ok) (auto simp: rel32_branch_def)
  qed
  have rel8: "info_ok data n k (branch ?info kind (read_s8 data (k + 1)))" if r: "rel8_opcode ?op" for kind
  proof -
    from rel8_no_modrm [OF r] rel8_immediate [OF r] lay have "\<not> h" "imm = 1" by auto
    with d(3) pos have "n = k + 1 + 1" by (simp add: decode_tail_no_modrm)
    moreover have "\<not> rel32_branch ?info" using r by (auto simp: rel32_branch_def rel8_opcode_def word_le_def)
    ultimately show ?thesis using fresh n by (intro branch8_ok) auto
  qed
  have seq: "info_ok data n k (info_sequential data ?info (k + 1) ?op False)"
  proof (cases "one_byte_has_modrm ?op")
    case True
    from fresh _ n(1) show ?thesis by (rule info_sequential_ok) (use at [OF True] in auto)
  next
    case False
    then show ?thesis using fresh_info_ok [OF fresh] by (simp add: info_sequential_def info_one_byte_table)
  qed
  have grp5: "info_ok data n k (info_group5 data ?info (k + 1) ?op)" if "?op = OneByteGrp5Rm" "k + 1 < n"
    using fresh that(2) n(1) _
    by (rule info_group5_ok) (use at that in \<open>auto simp: one_byte_has_modrm_def\<close>)
  have "info_ok data n k (info_one_byte data ?info (k + 1) ?op)"
    unfolding info_one_byte_def
    by (intro info_ok_if rel32 rel8 seq grp5 fresh_info_ok [OF fresh]; simp add: rel8_opcode_def L)
  then show ?thesis unfolding step .
qed

lemma decode_instruction_ok:
  assumes "decode data = Inr n"
  shows "\<exists>info. decode_instruction data = Inr info \<and> Length info = n \<and>
    OpcodeOffset info = prefix_length data \<and> rip_field_ok data info \<and> branch_field_ok data info"
proof -
  let ?k = "prefix_length data"
  note b = decode_bounds [OF assms]
  have k: "prefix_length (take n data) = ?k"
    using b prefix_length_local [of n data "take n data"] by (simp add: same_prefix_def)
  let ?r = "info_prefixes (take n data) 0 (empty_info\<lparr>Length := n\<rparr>)"
  let ?info = "fst ?r\<lparr>OpcodeOffset := ?k\<rparr>"
  have "fresh_info n ?k ?info" by (simp add: fresh_info_def empty_info_def)
  then have "info_ok data n ?k (info_opcode data ?info (?k + 1) (data ! ?k))"
    using vector_info_ok two_byte_info_ok one_byte_info_ok assms by metis
  moreover have "decode_instruction data = info_opcode data ?info (?k + 1) (data ! ?k)"
    using assms b k
    by (simp add: decode_instruction_def info_prefixes_pos case_prod_unfold Let_def)
  ultimately show ?thesis by (simp add: info_ok_def)
qed


subsection \<open>Properties of the decoder\<close>

text \<open>C20. The decoder never reads outside its buffer: it throws, or returns a length that lies behind the
  prefixes, inside the buffer and within the 15 bytes of an x86 instruction.\<close>

theorem decode_length_bounds:
  "case decode data of
     Inr n \<Rightarrow> prefix_length data < n \<and> n \<le> maxInstructionLength \<and> n \<le> length data
   | Inl e \<Rightarrow> \<exists>message offset. e = CodegenException message offset"
  using decode_bounds [of data] decode_safe [of data]
  by (auto simp: in_bounds_def split: sum.split) (metis failure.exhaust)

text \<open>C21. Instructions are self-delimiting: the length found is decided by the instruction's own bytes, so
  whatever stands behind it, and whatever follows the end of the buffer, the decoder finds the same.\<close>

theorem decode_self_delimiting:
  assumes "decode data = Inr n" "same_prefix n data data'"
  shows "decode data' = Inr n"
  using assms by (rule decode_local)

theorem decode_self_delimiting_witness:
  "decode [0x48, 0x89, 0xD8, 0x90] = Inr 3 \<and> decode [0x48, 0x89, 0xD8, 0x0F, 0x05] = Inr 3"
proof
  show 1: "decode [0x48, 0x89, 0xD8, 0x90] = Inr 3" by code_simp
  show "decode [0x48, 0x89, 0xD8, 0x0F, 0x05] = Inr 3"
    by (rule decode_self_delimiting [OF 1])
      (simp add: same_prefix_def numeral_3_eq_3 All_less_Suc)
qed

text \<open>C22. Whatever \<open>Decode\<close> accepts \<open>DecodeInstruction\<close> classifies, with the same length: a RIP-relative
  displacement it reports is four bytes of the instruction behind a ModRM byte, and a relative branch it
  reports ends with the field its displacement was read from.\<close>

theorem decode_instruction_fields:
  assumes "decode data = Inr n"
  shows "\<exists>info. decode_instruction data = Inr info \<and> Length info = n \<and>
    OpcodeOffset info = prefix_length data \<and> rip_field_ok data info \<and> branch_field_ok data info"
  using assms by (rule decode_instruction_ok)

theorem decode_instruction_fields_witness:
  "\<exists>info. decode_instruction [0x48, 0x8D, 0x05, 1, 2, 3, 4] = Inr info \<and> Length info = 7 \<and>
    OpcodeOffset info = prefix_length [0x48, 0x8D, 0x05, 1, 2, 3, 4] \<and>
    rip_field_ok [0x48, 0x8D, 0x05, 1, 2, 3, 4] info \<and> branch_field_ok [0x48, 0x8D, 0x05, 1, 2, 3, 4] info"
  by (rule decode_instruction_fields) code_simp

text \<open>C23. The two opcode tables of the file agree on the one-byte opcodes: \<open>DecodeInstruction\<close> takes a ModRM
  byte for exactly the opcodes for which \<open>Decode\<close> does.\<close>

theorem one_byte_tables_agree: "info_one_byte_has_modrm op = one_byte_has_modrm op"
  by (rule info_one_byte_table)

end
