(* ===== verification/InstructionScanner.thy ===== *)
theory InstructionScanner
  imports X64_Info_Props
begin

text \<open>
  The scanner of \<open>core/relinker/codegen/src/InstructionScanner.cpp\<close>: it walks a code section from
  instruction to instruction, hands each to a visitor, and stops at the section's end or at a tail of
  zero bytes that does not decode. The locale \<open>instruction_decoder\<close> states what a walk needs of the
  decoder; \<open>X64InstructionDecoder\<close> provides it.
\<close>

subsection \<open>The code\<close>

record InstructionMatch =
  m_Offset :: u64
  m_Length :: nat

type_synonym progress_report = "u64 \<times> u64"

text \<open>
  The loop. \<open>cursor\<close> is the part of the section from position \<open>i\<close> on; the visitor passes a state on
  (the vector it appends to, say) and may throw; \<open>reports\<close> are the calls of the progress callback.
\<close>

function scan_loop ::
    "(InstructionMatch \<Rightarrow> 's \<Rightarrow> 's result) \<Rightarrow> bool \<Rightarrow> u64 \<Rightarrow> nat \<Rightarrow> nat \<Rightarrow> nat \<Rightarrow> progress_report list \<Rightarrow>
     u8 list \<Rightarrow> 's \<Rightarrow> ('s \<times> progress_report list) result" where
  "scan_loop visit progress base limit i lastReport reports cursor s =
    (if cursor = [] then Inr (s, reports)
     else case decode cursor of
       Inl (CodegenException message _) \<Rightarrow>
         if list_all (\<lambda>b. b = 0) cursor then Inr (s, reports)
         else Inl (CodegenException (''Cannot decode instruction: '' @ message) (base + of_nat i))
     | Inl OutOfBounds \<Rightarrow> Inl OutOfBounds
     | Inr n \<Rightarrow>
         bindE (visit \<lparr>m_Offset = base + of_nat i, m_Length = n\<rparr> s) (\<lambda>s.
           let report = (progress \<and> 65536 \<le> i + n - lastReport) in
           scan_loop visit progress base limit (i + n)
             (if report then i + n else lastReport)
             (if report then reports @ [(of_nat (i + n), of_nat limit)] else reports)
             (drop n cursor) s))"
  by pat_completeness auto

termination
proof (relation "measure (\<lambda>(visit, progress, base, limit, i, lastReport, reports, cursor, s). length cursor)",
    goal_cases)
  case (2 visit progress base limit i lastReport reports cursor s n s' report)
  then have "0 < n" using decode_bounds(1) [of cursor n] by simp
  with 2 show ?case by simp
qed simp

declare scan_loop.simps [simp del]

definition VisitCodeSection ::
    "bool \<Rightarrow> u8 list \<Rightarrow> u64 \<Rightarrow> u64 \<Rightarrow> (InstructionMatch \<Rightarrow> 's \<Rightarrow> 's result) \<Rightarrow> 's \<Rightarrow>
     ('s \<times> progress_report list) result" where
  "VisitCodeSection progress codeSection codeSectionOffset codeSectionSize visit s =
    (if length codeSection < unat codeSectionSize
     then Inl (CodegenException ''Code section exceeds the input buffer'' codeSectionOffset)
     else if - 1 - codeSectionOffset < codeSectionSize
     then Inl (CodegenException ''Code section offset overflow'' codeSectionOffset)
     else let limit = unat codeSectionSize in
       bindE (scan_loop visit progress codeSectionOffset limit 0 0
           (if progress then [(0, of_nat limit)] else []) (take limit codeSection) s)
         (\<lambda>(s, reports). Inr (s, if progress then reports @ [(of_nat limit, of_nat limit)] else reports)))"

definition push_match :: "InstructionMatch \<Rightarrow> InstructionMatch list \<Rightarrow> InstructionMatch list result" where
  "push_match match matches = Inr (matches @ [match])"

definition ScanCodeSection :: "bool \<Rightarrow> u8 list \<Rightarrow> u64 \<Rightarrow> u64 \<Rightarrow> InstructionMatch list result" where
  "ScanCodeSection progress codeSection codeSectionOffset codeSectionSize =
     bindE (VisitCodeSection progress codeSection codeSectionOffset codeSectionSize push_match [])
       (\<lambda>(matches, _). Inr matches)"

subsection \<open>Tilings of a section, for any decoder with the laws of the interface\<close>

text \<open>
  \<open>tiles dec base section ms\<close>: the matches \<open>ms\<close> are the instructions of \<open>section\<close>, one after the
  other without a gap from its first byte on, and what is left is empty or a run of zeros that does
  not decode.
\<close>

fun tiles :: "(u8 list \<Rightarrow> nat result) \<Rightarrow> u64 \<Rightarrow> u8 list \<Rightarrow> InstructionMatch list \<Rightarrow> bool" where
  "tiles dec base sec [] \<longleftrightarrow> sec = [] \<or> (\<forall>n. dec sec \<noteq> Inr n) \<and> list_all (\<lambda>b. b = 0) sec"
| "tiles dec base sec (m # ms) \<longleftrightarrow> sec \<noteq> [] \<and> m_Offset m = base \<and> dec sec = Inr (m_Length m) \<and>
     tiles dec (base + of_nat (m_Length m)) (drop (m_Length m) sec) ms"

text \<open>The position of the \<open>k\<close>-th instruction, relative to the section.\<close>

definition start_of :: "InstructionMatch list \<Rightarrow> nat \<Rightarrow> nat" where
  "start_of ms k = sum_list (map m_Length (take k ms))"

lemma start_of_0 [simp]: "start_of ms 0 = 0"
  by (simp add: start_of_def)

lemma start_of_Cons_Suc [simp]: "start_of (m # ms) (Suc k) = m_Length m + start_of ms k"
  by (simp add: start_of_def)

lemma start_of_Suc: "k < length ms \<Longrightarrow> start_of ms (Suc k) = start_of ms k + m_Length (ms ! k)"
  by (simp add: start_of_def take_Suc_conv_app_nth)

lemma start_of_mono: "j \<le> k \<Longrightarrow> start_of ms j \<le> start_of ms k"
proof -
  assume "j \<le> k"
  then have "take k ms = take j ms @ take (k - j) (drop j ms)" by (metis le_add_diff_inverse take_add)
  then show ?thesis by (simp add: start_of_def)
qed

locale instruction_decoder =
  fixes dec :: "u8 list \<Rightarrow> nat result"
  assumes dec_length: "dec data = Inr n \<Longrightarrow> 0 < n \<and> n \<le> length data"
    and dec_local: "dec data = Inr n \<Longrightarrow> same_prefix n data data' \<Longrightarrow> dec data' = Inr n"
begin

lemma tiles_start_le: "tiles dec base sec ms \<Longrightarrow> start_of ms k \<le> length sec"
proof (induction ms arbitrary: base sec k)
  case (Cons m ms)
  show ?case
  proof (cases k)
    case (Suc j)
    from Cons.prems have "m_Length m \<le> length sec" using dec_length [of sec "m_Length m"] by simp
    with Cons.prems Cons.IH [of "base + of_nat (m_Length m)" "drop (m_Length m) sec" j] Suc
    show ?thesis by simp
  qed simp
qed (simp add: start_of_def)

lemma tiles_nth:
  assumes "tiles dec base sec ms" "k < length ms"
  shows "m_Offset (ms ! k) = base + of_nat (start_of ms k)"
    and "dec (drop (start_of ms k) sec) = Inr (m_Length (ms ! k))"
    and "0 < m_Length (ms ! k)"
    and "start_of ms k + m_Length (ms ! k) \<le> length sec"
proof -
  from assms have "m_Offset (ms ! k) = base + of_nat (start_of ms k) \<and>
      dec (drop (start_of ms k) sec) = Inr (m_Length (ms ! k))"
  proof (induction ms arbitrary: base sec k)
    case (Cons m ms)
    show ?case
    proof (cases k)
      case (Suc j)
      with Cons.prems Cons.IH [of "base + of_nat (m_Length m)" "drop (m_Length m) sec" j]
      show ?thesis by (simp add: add.assoc add.commute)
    qed (use Cons.prems in simp)
  qed simp
  then show "m_Offset (ms ! k) = base + of_nat (start_of ms k)"
    "dec (drop (start_of ms k) sec) = Inr (m_Length (ms ! k))" by simp_all
  then show "0 < m_Length (ms ! k)" using dec_length by blast
  show "start_of ms k + m_Length (ms ! k) \<le> length sec"
    using tiles_start_le [OF assms(1), of "Suc k"] assms(2) by (simp add: start_of_Suc)
qed

text \<open>A section has one tiling.\<close>

lemma tiles_unique:
  "tiles dec base sec ms \<Longrightarrow> tiles dec base sec ms' \<Longrightarrow> ms = ms'"
proof (induction ms arbitrary: base sec ms')
  case Nil
  then show ?case by (cases ms') auto
next
  case (Cons m ms)
  from Cons.prems obtain m' rest where ms': "ms' = m' # rest" by (cases ms') auto
  with Cons.prems have "m_Offset m' = m_Offset m" "m_Length m' = m_Length m" by auto
  then have "m' = m" by simp
  with Cons.prems Cons.IH ms' show ?case by auto
qed

text \<open>No two instructions of a tiling share a byte.\<close>

lemma tiles_disjoint:
  assumes "tiles dec base sec ms" "j < k" "k < length ms"
  shows "start_of ms j + m_Length (ms ! j) \<le> start_of ms k"
  using start_of_mono [of "Suc j" k ms] assms by (simp add: start_of_Suc)

text \<open>
  Overwriting one instruction by another of the same length leaves every other instruction where it
  is: this is where locality is needed, as the bytes in front of each later instruction change.
\<close>

lemma tiles_patch:
  assumes "tiles dec base sec ms" "k < length ms" "length new = m_Length (ms ! k)"
    and "dec (new @ drop (start_of ms k + length new) sec) = Inr (length new)"
  shows "tiles dec base (write_bytes sec (start_of ms k) new) ms"
  using assms
proof (induction ms arbitrary: base sec k)
  case (Cons m ms)
  show ?case
  proof (cases k)
    case 0
    from Cons.prems 0 have "dec sec = Inr (length new)" by simp
    from dec_length [OF this] have "0 < length new" "length new \<le> length sec" by auto
    with Cons.prems 0 show ?thesis by (auto simp: write_bytes_def)
  next
    case (Suc j)
    let ?n = "m_Length m" and ?p = "start_of ms j"
    from Cons.prems Suc have IH: "tiles dec (base + of_nat ?n)
        (write_bytes (drop ?n sec) ?p new) ms"
      by (intro Cons.IH) (simp_all add: ac_simps)
    have n: "0 < ?n" "?n \<le> length sec" "dec sec = Inr ?n" using Cons.prems dec_length [of sec ?n] by auto
    have le: "?n + ?p + length new \<le> length sec"
      using tiles_nth(4) [OF Cons.prems(1,2)] Cons.prems(3) Suc by simp
    have "same_prefix ?n sec (write_bytes sec (?n + ?p) new)"
      using n le by (auto simp: same_prefix_def nth_write_bytes)
    with n have "dec (write_bytes sec (?n + ?p) new) = Inr ?n" by (blast intro: dec_local)
    moreover have "drop ?n (write_bytes sec (?n + ?p) new) = write_bytes (drop ?n sec) ?p new"
      using n le by (simp add: write_bytes_def take_drop ac_simps)
    moreover have "write_bytes sec (?n + ?p) new \<noteq> []"
      using n le by (metis length_write_bytes add_0_right le_zero_eq length_0_conv less_nat_zero_code)
    ultimately show ?thesis using IH Cons.prems Suc by simp
  qed
qed simp

end

interpretation x64: instruction_decoder decode
  by unfold_locales (use decode_bounds in fastforce, rule decode_local)

subsection \<open>The scanner finds the tiling\<close>

lemma scan_loop_push:
  "scan_loop push_match progress base limit i lastReport reports cursor ms = Inr (ms', reports') \<Longrightarrow>
   \<exists>new. ms' = ms @ new \<and> tiles decode (base + of_nat i) cursor new"
proof (induction "length cursor" arbitrary: i lastReport reports cursor ms rule: less_induct)
  case less
  show ?case
  proof (cases "cursor = []")
    case True
    with less.prems show ?thesis by (intro exI [of _ "[]"]) (simp add: scan_loop.simps)
  next
    case False
    show ?thesis
    proof (cases "decode cursor")
      case (Inl e)
      with less.prems False have "ms' = ms" "list_all (\<lambda>b. b = 0) cursor"
        by (auto simp: scan_loop.simps split: failure.splits if_splits)
      with Inl False show ?thesis by (intro exI [of _ "[]"]) simp
    next
      case (Inr n)
      let ?m = "\<lparr>m_Offset = base + of_nat i, m_Length = n\<rparr>"
      from Inr have n: "0 < n" "n \<le> length cursor" using x64.dec_length by auto
      from less.prems False Inr obtain l r where
        "scan_loop push_match progress base limit (i + n) l r (drop n cursor) (ms @ [?m]) = Inr (ms', reports')"
        by (subst (asm) scan_loop.simps) (auto simp: push_match_def Let_def split: if_splits)
      with less.hyps n False obtain new where
        "ms' = (ms @ [?m]) @ new" "tiles decode (base + of_nat (i + n)) (drop n cursor) new"
        by (metis diff_less length_drop length_greater_0_conv)
      with Inr False show ?thesis
        by (intro exI [of _ "?m # new"]) (simp add: add.assoc)
    qed
  qed
qed

lemma scan_loop_complete:
  "tiles decode (base + of_nat i) cursor new \<Longrightarrow>
   \<exists>reports'. scan_loop push_match progress base limit i lastReport reports cursor ms = Inr (ms @ new, reports')"
proof (induction new arbitrary: i lastReport reports cursor ms)
  case Nil
  then show ?case
    using decode_safe [of cursor] by (auto simp: scan_loop.simps in_bounds_def split: sum.splits failure.splits)
next
  case (Cons m new)
  let ?n = "m_Length m"
  from Cons.prems have m: "m = \<lparr>m_Offset = base + of_nat i, m_Length = ?n\<rparr>" by simp
  from Cons.prems have "tiles decode (base + of_nat (i + ?n)) (drop ?n cursor) new" by (simp add: add.assoc)
  note IH = Cons.IH [OF this, of _ _ "ms @ [m]"]
  have push: "push_match \<lparr>m_Offset = base + of_nat i, m_Length = ?n\<rparr> ms = Inr (ms @ [m])"
    using m by (simp add: push_match_def)
  from Cons.prems have cursor: "cursor \<noteq> []" "decode cursor = Inr ?n" by auto
  show ?case
    by (subst scan_loop.simps) (simp only: cursor push sum.case bindE_simps if_False Let_def IH [simplified])
qed

lemma ScanCodeSection_tiles:
  "ScanCodeSection progress codeSection off sz = Inr ms \<longleftrightarrow>
     unat sz \<le> length codeSection \<and> sz \<le> - 1 - off \<and> tiles decode off (take (unat sz) codeSection) ms"
proof
  assume "ScanCodeSection progress codeSection off sz = Inr ms"
  then show "unat sz \<le> length codeSection \<and> sz \<le> - 1 - off \<and> tiles decode off (take (unat sz) codeSection) ms"
    by (auto simp: ScanCodeSection_def VisitCodeSection_def Let_def bindE_eq_Inr split: if_splits
        dest!: scan_loop_push)
next
  assume *: "unat sz \<le> length codeSection \<and> sz \<le> - 1 - off \<and> tiles decode off (take (unat sz) codeSection) ms"
  then obtain r where "scan_loop push_match progress off (unat sz) 0 0
      (if progress then [(0, of_nat (unat sz))] else []) (take (unat sz) codeSection) [] = Inr (ms, r)"
    using scan_loop_complete [of off 0 _ ms progress "unat sz" 0 "if progress then [(0, of_nat (unat sz))] else []" "[]"]
    by fastforce
  with * show "ScanCodeSection progress codeSection off sz = Inr ms"
    by (simp add: ScanCodeSection_def VisitCodeSection_def Let_def not_less)
qed


text \<open>
  The positions a walk from the start of a section can reach, and the scanner's only failure past its
  two guards: an instruction at such a position that does not decode and is not a tail of zeros.
\<close>

inductive boundary :: "u8 list \<Rightarrow> nat \<Rightarrow> bool" for sec where
  start: "boundary sec 0"
| step: "boundary sec k \<Longrightarrow> decode (drop k sec) = Inr n \<Longrightarrow> boundary sec (k + n)"

lemma boundary_le: "boundary sec k \<Longrightarrow> k \<le> length sec"
proof (induction rule: boundary.induct)
  case (step k n)
  from x64.dec_length [OF step.hyps(2)] step.IH show ?case by (simp add: le_diff_conv2)
qed simp

lemma tiles_boundary:
  assumes "tiles decode base sec ms" "k \<le> length ms"
  shows "boundary sec (start_of ms k)"
  using assms(2)
proof (induction k)
  case (Suc k)
  with x64.tiles_nth(2) [OF assms(1), of k] show ?case
    by (simp add: start_of_Suc boundary.step)
qed (simp add: boundary.start)

definition undecodable_at :: "u8 list \<Rightarrow> nat \<Rightarrow> string \<Rightarrow> bool" where
  "undecodable_at sec k message \<longleftrightarrow> k < length sec \<and> boundary sec k \<and>
     (\<exists>off. decode (drop k sec) = Inl (CodegenException message off)) \<and>
     \<not> list_all (\<lambda>b. b = 0) (drop k sec)"

lemma scan_loop_error:
  "boundary sec i \<Longrightarrow>
   scan_loop push_match progress base limit i lastReport reports (drop i sec) ms = Inl e \<Longrightarrow>
   \<exists>k message. undecodable_at sec k message \<and>
     e = CodegenException (''Cannot decode instruction: '' @ message) (base + of_nat k)"
proof (induction "length sec - i" arbitrary: i lastReport reports ms rule: less_induct)
  case less
  let ?cursor = "drop i sec"
  from less.prems(2) have ne: "?cursor \<noteq> []" by (auto simp: scan_loop.simps)
  show ?case
  proof (cases "decode ?cursor")
    case (Inl f)
    with decode_safe [of ?cursor] obtain message off where f: "f = CodegenException message off"
      by (cases f) (auto simp: in_bounds_def)
    with Inl less.prems ne have "undecodable_at sec i message"
        "e = CodegenException (''Cannot decode instruction: '' @ message) (base + of_nat i)"
      by (auto simp: scan_loop.simps undecodable_at_def split: if_splits)
    then show ?thesis by blast
  next
    case (Inr n)
    then have n: "0 < n" "i < length sec" using x64.dec_length [OF Inr] ne by auto
    from less.prems(2) ne Inr obtain l r ms' where
      "scan_loop push_match progress base limit (i + n) l r (drop n ?cursor) ms' = Inl e"
      by (subst (asm) scan_loop.simps) (auto simp: push_match_def Let_def split: if_splits)
    then have "scan_loop push_match progress base limit (i + n) l r (drop (i + n) sec) ms' = Inl e"
      by (simp add: add.commute)
    moreover have "boundary sec (i + n)" using less.prems(1) Inr by (rule boundary.step)
    ultimately show ?thesis using less.hyps [of "i + n"] n by simp
  qed
qed

lemma ScanCodeSection_error:
  assumes "ScanCodeSection progress codeSection off sz = Inl e" "unat sz \<le> length codeSection" "sz \<le> - 1 - off"
  shows "\<exists>k message. undecodable_at (take (unat sz) codeSection) k message \<and>
    e = CodegenException (''Cannot decode instruction: '' @ message) (off + of_nat k)"
proof -
  have guards: "\<not> length codeSection < unat sz" "\<not> - 1 - off < sz" using assms(2,3) by auto
  from assms(1) guards obtain r where "scan_loop push_match progress off (unat sz) 0 0 r
      (drop 0 (take (unat sz) codeSection)) [] = Inl e"
    unfolding ScanCodeSection_def VisitCodeSection_def Let_def
    by (auto simp: bindE_eq_Inl split: prod.splits)
  from scan_loop_error [OF boundary.start this] show ?thesis by simp
qed

lemma ScanCodeSection_safe [safe]: "in_bounds (ScanCodeSection progress codeSection off sz)"
proof (cases "ScanCodeSection progress codeSection off sz")
  case (Inl e)
  have "e \<noteq> OutOfBounds"
  proof (cases "unat sz \<le> length codeSection \<and> sz \<le> - 1 - off")
    case True
    with Inl ScanCodeSection_error show ?thesis by blast
  next
    case False
    then consider "length codeSection < unat sz" | "- 1 - off < sz" by fastforce
    with Inl show ?thesis by cases (auto simp: ScanCodeSection_def VisitCodeSection_def split: if_splits)
  qed
  with Inl show ?thesis by (simp add: in_bounds_def)
qed simp


subsection \<open>Properties\<close>

text \<open>C24. The scanner succeeds exactly on a section inside its buffer whose instructions tile it, and returns
  that tiling: the instructions follow each other without gap or overlap from the first byte on, each with the
  length the decoder gives it, and what is left over is a run of zeros that does not decode.\<close>

theorem scan_returns_tiling:
  "ScanCodeSection progress codeSection off sz = Inr ms \<longleftrightarrow>
     unat sz \<le> length codeSection \<and> sz \<le> - 1 - off \<and> tiles decode off (take (unat sz) codeSection) ms"
  by (rule ScanCodeSection_tiles)

text \<open>C25. When a section inside its buffer is refused, the failure names the first instruction that does not
  decode: the offset is that of an instruction boundary at which the decoder throws and behind which not every
  byte is zero, and the message is the decoder's.\<close>

theorem scan_failure_located:
  assumes "ScanCodeSection progress codeSection off sz = Inl e" "unat sz \<le> length codeSection" "sz \<le> - 1 - off"
  shows "\<exists>k message. undecodable_at (take (unat sz) codeSection) k message \<and>
    e = CodegenException (''Cannot decode instruction: '' @ message) (off + of_nat k)"
  using assms by (rule ScanCodeSection_error)

theorem scan_failure_located_witness:
  "\<exists>k message. undecodable_at (take 3 [0x90, 0x0F, 0x78]) k message \<and>
    CodegenException ''Cannot decode instruction: Unsupported 0F 78 opcode without SSE4A prefix'' 0x1001 =
    CodegenException (''Cannot decode instruction: '' @ message) (0x1000 + of_nat k)"
proof -
  have "ScanCodeSection False [0x90, 0x0F, 0x78] 0x1000 3 =
      Inl (CodegenException ''Cannot decode instruction: Unsupported 0F 78 opcode without SSE4A prefix'' 0x1001)"
    by code_simp
  from scan_failure_located [OF this] show ?thesis by simp
qed

text \<open>C26. Overwriting one instruction by bytes that decode to the same length leaves the result of a scan
  unchanged: every other instruction stays where it is.\<close>

theorem scan_patch_stable:
  assumes "ScanCodeSection progress codeSection off (of_nat (length codeSection)) = Inr ms" "length codeSection < 2 ^ 64"
    "k < length ms" "length new = m_Length (ms ! k)"
    "decode (new @ drop (start_of ms k + length new) codeSection) = Inr (length new)"
  shows "ScanCodeSection progress (write_bytes codeSection (start_of ms k) new) off (of_nat (length codeSection)) = Inr ms"
proof -
  from assms(1,2) have t: "tiles decode off codeSection ms" "of_nat (length codeSection) \<le> - 1 - off"
    by (simp_all add: ScanCodeSection_tiles)
  from x64.tiles_nth(4) [OF t(1) assms(3)] assms(4)
  have "length (write_bytes codeSection (start_of ms k) new) = length codeSection" by simp
  with x64.tiles_patch [OF t(1) assms(3-5)] t(2) assms(2) show ?thesis by (simp add: ScanCodeSection_tiles)
qed

theorem scan_patch_stable_witness:
  "ScanCodeSection False (write_bytes [0x90, 0x89, 0xD8, 0xC3] 1 [0x31, 0xC0]) 0 (of_nat (length [0x90, 0x89, 0xD8, 0xC3 :: u8])) =
     Inr [\<lparr>m_Offset = 0, m_Length = 1\<rparr>, \<lparr>m_Offset = 1, m_Length = 2\<rparr>, \<lparr>m_Offset = 3, m_Length = 1\<rparr>]"
proof -
  let ?ms = "[\<lparr>m_Offset = 0, m_Length = 1\<rparr>, \<lparr>m_Offset = 1, m_Length = 2\<rparr>, \<lparr>m_Offset = 3, m_Length = 1\<rparr>]"
  have s: "start_of ?ms 1 = 1" by code_simp
  have "ScanCodeSection False [0x90, 0x89, 0xD8, 0xC3] 0 (of_nat (length [0x90, 0x89, 0xD8, 0xC3 :: u8])) = Inr ?ms"
    by code_simp
  moreover have "decode ([0x31, 0xC0] @ drop (start_of ?ms 1 + length [0x31, 0xC0 :: u8]) [0x90, 0x89, 0xD8, 0xC3]) =
      Inr (length [0x31, 0xC0 :: u8])" by code_simp
  ultimately show ?thesis
    using scan_patch_stable [of False "[0x90, 0x89, 0xD8, 0xC3]" 0 ?ms 1 "[0x31, 0xC0]"] by (simp add: s)
qed

end
