(* ===== verification/X64_Rewriter.thy ===== *)
theory X64_Rewriter
  imports InstructionScanner
begin

text \<open>
  The instruction rewriter of \<open>core/relinker/codegen/src/x86/X64InstructionRewriter.cpp\<close>: it replaces
  one instruction by bytes of another length and moves everything behind it, so every relative branch
  and every RIP-relative operand whose instruction and target shift by different amounts gets a new
  displacement. Positions and displacements are the \<open>int64_t\<close> of the code, as \<open>int\<close>.
\<close>

subsection \<open>The code\<close>

record RewriteRequest =
  req_Offset :: u64
  NewBytes :: "u8 list"

record AddressAdjustment =
  OriginalOffset :: u64
  AdjustedOffset :: u64
  Delta :: int

record RewriteResult =
  res_Bytes :: "u8 list"
  Adjustments :: "AddressAdjustment list"

datatype ReferenceKind = NoReference | Rel8Branch | Rel32Branch | RipRelativeDisp32

record ReferenceSite =
  Kind :: ReferenceKind
  FieldOffset :: nat

definition ClassifyInstruction :: "u8 list \<Rightarrow> ReferenceSite result" where
  "ClassifyInstruction data =
    bindE (decode_instruction data) (\<lambda>info.
      if HasRipRelativeDisp info
      then Inr \<lparr>Kind = RipRelativeDisp32, FieldOffset = RipRelativeDispOffset info\<rparr>
      else if \<not> HasBranchTarget info then Inr \<lparr>Kind = NoReference, FieldOffset = 0\<rparr>
      else let rel32 = (IsTwoByteOpcode info \<or> Opcode info = OneByteCallRel32 \<or> Opcode info = OneByteJmpRel32)
        in Inr (if rel32 then \<lparr>Kind = Rel32Branch, FieldOffset = Length info - Disp32Size\<rparr>
                else \<lparr>Kind = Rel8Branch, FieldOffset = Length info - Disp8Size\<rparr>))"

definition ReadInt32 :: "u8 list \<Rightarrow> nat \<Rightarrow> int result" where
  "ReadInt32 data pos = bindE (read_le32 data pos) (\<lambda>v. Inr (sint v))"

definition WriteInt32 :: "u8 list \<Rightarrow> nat \<Rightarrow> int \<Rightarrow> u8 list result" where
  "WriteInt32 data pos value =
    (if pos + 4 \<le> length data then Inr (write_bytes data pos (le32_bytes (word_of_int value)))
     else Inl OutOfBounds)"

definition AdjustedDelta :: "int \<Rightarrow> int \<Rightarrow> int \<Rightarrow> int \<Rightarrow> int \<Rightarrow> int \<Rightarrow> int" where
  "AdjustedDelta instrPosition targetPosition cutStart cutEnd sliceSize delta =
    (let instrShifts = (cutEnd \<le> instrPosition \<and> instrPosition < sliceSize);
         targetShifts = (cutEnd \<le> targetPosition \<and> targetPosition < sliceSize)
     in if instrShifts = targetShifts then 0 else if instrShifts then - delta else delta)"

text \<open>
  The displacement of a field, and the two branches of the loop body that replace it: \<open>rewritten\<close> is
  the new section, and a write past its end is a failure.
\<close>

definition read_field :: "u8 list \<Rightarrow> ReferenceKind \<Rightarrow> nat \<Rightarrow> int result" where
  "read_field code kind pos =
    (if kind = Rel8Branch then bindE (byte_at code pos) (\<lambda>b. Inr (sint b)) else ReadInt32 code pos)"

definition write_field :: "u8 list \<Rightarrow> ReferenceKind \<Rightarrow> u64 \<Rightarrow> nat \<Rightarrow> int \<Rightarrow> u8 list result" where
  "write_field rewritten kind matchOffset pos newDisp =
    (if kind = Rel8Branch then
       if newDisp < - 128 \<or> 127 < newDisp
       then Inl (CodegenException ''Rel8 branch displacement overflow after rewrite'' matchOffset)
       else if pos < length rewritten then Inr (rewritten[pos := word_of_int newDisp]) else Inl OutOfBounds
     else
       if newDisp < - (2 ^ 31) \<or> 2 ^ 31 - 1 < newDisp
       then Inl (CodegenException ''Rel32/disp32 displacement overflow after rewrite'' matchOffset)
       else WriteInt32 rewritten pos newDisp)"

text \<open>One round of the loop over the matches.\<close>

definition rewrite_match ::
    "u8 list \<Rightarrow> int \<Rightarrow> int \<Rightarrow> int \<Rightarrow> InstructionMatch \<Rightarrow> u8 list \<times> AddressAdjustment list \<Rightarrow>
     (u8 list \<times> AddressAdjustment list) result" where
  "rewrite_match code cutStart cutEnd delta match st =
    (let (rewritten, adjustments) = st; matchOffset = int (unat (m_Offset match)) in
     if cutStart \<le> matchOffset \<and> matchOffset < cutEnd then Inr st
     else
       bindE (ClassifyInstruction (take (m_Length match) (drop (unat (m_Offset match)) code))) (\<lambda>site.
       bindE
         (if Kind site \<noteq> NoReference then
            let instrEnd = matchOffset + int (m_Length match);
                fieldPosition = unat (m_Offset match) + FieldOffset site in
            bindE (read_field code (Kind site) fieldPosition) (\<lambda>disp.
              let targetPosition = instrEnd + disp;
                  adjust = AdjustedDelta matchOffset targetPosition cutStart cutEnd (int (length code)) delta in
              if adjust \<noteq> 0 then
                let newMatchOffset = (if matchOffset < cutStart then matchOffset else matchOffset + delta) in
                write_field rewritten (Kind site) (m_Offset match)
                  (nat (newMatchOffset + int (FieldOffset site))) (disp + adjust)
              else Inr rewritten)
          else Inr rewritten) (\<lambda>rewritten.
       Inr (rewritten,
         if cutEnd \<le> matchOffset \<and> delta \<noteq> 0
         then adjustments @ [\<lparr>OriginalOffset = m_Offset match,
                AdjustedOffset = word_of_int (matchOffset + delta), Delta = delta\<rparr>]
         else adjustments))))"

fun rewrite_matches ::
    "u8 list \<Rightarrow> int \<Rightarrow> int \<Rightarrow> int \<Rightarrow> InstructionMatch list \<Rightarrow> u8 list \<times> AddressAdjustment list \<Rightarrow>
     (u8 list \<times> AddressAdjustment list) result" where
  "rewrite_matches code cutStart cutEnd delta [] st = Inr st"
| "rewrite_matches code cutStart cutEnd delta (m # ms) st =
     bindE (rewrite_match code cutStart cutEnd delta m st) (rewrite_matches code cutStart cutEnd delta ms)"

definition Rewrite :: "u8 list \<Rightarrow> RewriteRequest \<Rightarrow> RewriteResult result" where
  "Rewrite codeSection request =
    (let offset = unat (req_Offset request) in
     if length codeSection < offset
     then Inl (CodegenException ''Rewrite offset is out of bounds'' (req_Offset request))
     else bindE (ScanCodeSection False codeSection 0 (of_nat (length codeSection))) (\<lambda>matches.
       if \<not> list_ex (\<lambda>match. m_Offset match = req_Offset request) matches
       then Inl (CodegenException ''Rewrite offset is not an instruction boundary'' (req_Offset request))
       else bindE (decode (drop offset codeSection)) (\<lambda>decodedLength.
         let oldLength = int decodedLength; newLength = int (length (NewBytes request));
             delta = newLength - oldLength; cutStart = int offset; cutEnd = cutStart + oldLength;
             rewritten = take offset codeSection @ NewBytes request @ drop (offset + decodedLength) codeSection
         in bindE (rewrite_matches codeSection cutStart cutEnd delta matches (rewritten, []))
              (\<lambda>(rewritten, adjustments). Inr \<lparr>res_Bytes = rewritten, Adjustments = adjustments\<rparr>))))"

end
