(* ===== verification/X64_Rewriter_Props.thy ===== *)
theory X64_Rewriter_Props
  imports X64_Rewriter
begin

text \<open>
  What the rewriter guarantees: no access outside the two buffers, the bytes outside the displacement
  fields it corrects are moved unchanged, and every relative branch and RIP-relative operand outside
  the replaced instruction still refers to its (moved) target.
\<close>

definition field_size :: "ReferenceKind \<Rightarrow> nat" where
  "field_size kind = (if kind = Rel8Branch then 1 else 4)"

lemma ClassifyInstruction_ok:
  assumes "decode data = Inr n"
  obtains site where "ClassifyInstruction data = Inr site"
    "Kind site \<noteq> NoReference \<Longrightarrow> FieldOffset site + field_size (Kind site) \<le> n"
proof -
  from decode_instruction_ok [OF assms] obtain info where
    info: "decode_instruction data = Inr info" "Length info = n" "rip_field_ok data info" "branch_field_ok data info"
    by blast
  show thesis
  proof (cases "ClassifyInstruction data")
    case (Inl e)
    with info show ?thesis by (auto simp: ClassifyInstruction_def Let_def split: if_splits)
  next
    case (Inr site)
    have "Kind site \<noteq> NoReference \<Longrightarrow> FieldOffset site + field_size (Kind site) \<le> n"
      using Inr info
      by (auto simp: ClassifyInstruction_def Let_def field_size_def rip_field_ok_def branch_field_ok_def
          rel32_branch_def split: if_splits)
    with Inr show ?thesis by (rule that)
  qed
qed

subsection \<open>Fields\<close>

lemma read_field_Inr:
  "pos + field_size kind \<le> length code \<Longrightarrow> \<exists>d. read_field code kind pos = Inr d"
  by (cases "kind = Rel8Branch") (simp_all add: read_field_def field_size_def ReadInt32_def read_le32_def)

text \<open>A field's value depends on its own bytes.\<close>

lemma read_field_cong:
  assumes "pos + field_size kind \<le> length code" "pos' + field_size kind \<le> length code'"
    "\<And>i. i < field_size kind \<Longrightarrow> code' ! (pos' + i) = code ! (pos + i)"
  shows "read_field code' kind pos' = read_field code kind pos"
proof (cases "kind = Rel8Branch")
  case True
  with assms(1,2) assms(3) [of 0] show ?thesis by (simp add: read_field_def field_size_def)
next
  case False
  then have "field_size kind = 4" by (simp add: field_size_def)
  with assms(1,2) assms(3) [of 0] assms(3) [of 1] assms(3) [of 2] assms(3) [of 3] False show ?thesis
    by (simp add: read_field_def ReadInt32_def read_le32_def)
qed

lemma sint_word_of_int_s8: "- 128 \<le> d \<Longrightarrow> d \<le> 127 \<Longrightarrow> sint (word_of_int d :: u8) = d"
  by (simp add: signed_of_int signed_take_bit_int_eq_self)

lemma sint_word_of_int_s32: "- (2 ^ 31) \<le> d \<Longrightarrow> d \<le> 2 ^ 31 - 1 \<Longrightarrow> sint (word_of_int d :: u32) = d"
  by (simp add: signed_of_int signed_take_bit_int_eq_self)

lemma write_field_Inr:
  assumes "write_field rw kind off pos d = Inr rw'" "pos + field_size kind \<le> length rw"
  shows "length rw' = length rw" "read_field rw' kind pos = Inr d"
    "\<And>i. i < pos \<or> pos + field_size kind \<le> i \<Longrightarrow> i < length rw \<Longrightarrow> rw' ! i = rw ! i"
proof -
  show "length rw' = length rw" "read_field rw' kind pos = Inr d"
    using assms
    by (auto simp: write_field_def read_field_def field_size_def ReadInt32_def WriteInt32_def codec
        sint_word_of_int_s8 sint_word_of_int_s32 split: if_splits)
  show "i < pos \<or> pos + field_size kind \<le> i \<Longrightarrow> i < length rw \<Longrightarrow> rw' ! i = rw ! i" for i
    using assms
    by (auto simp: write_field_def field_size_def WriteInt32_def nth_write_bytes nth_list_update split: if_splits)
qed

lemma write_field_safe [safe]:
  "pos + field_size kind \<le> length rw \<Longrightarrow> in_bounds (write_field rw kind off pos d)"
  by (cases "kind = Rel8Branch") (simp_all add: write_field_def field_size_def WriteInt32_def)

subsection \<open>One match\<close>

text \<open>
  The shape of a cut: the instruction at \<open>[cs, ce)\<close> of the section gives way to \<open>newlen\<close> bytes.
  \<open>moved\<close> is where a position outside it ends up, and \<open>outside\<close> the matches on either side.
\<close>

definition moved :: "nat \<Rightarrow> nat \<Rightarrow> nat \<Rightarrow> nat \<Rightarrow> nat" where
  "moved cs ce newlen p = (if p < cs then p else p - ce + (cs + newlen))"

definition outside :: "u8 list \<Rightarrow> nat \<Rightarrow> nat \<Rightarrow> InstructionMatch \<Rightarrow> bool" where
  "outside code cs ce m \<longleftrightarrow>
     decode (drop (unat (m_Offset m)) code) = Inr (m_Length m) \<and>
     (unat (m_Offset m) + m_Length m \<le> cs \<or> ce \<le> unat (m_Offset m))"

text \<open>The bytes a match occupies in the new section.\<close>

definition own :: "nat \<Rightarrow> nat \<Rightarrow> nat \<Rightarrow> InstructionMatch \<Rightarrow> nat set" where
  "own cs ce newlen m =
     {moved cs ce newlen (unat (m_Offset m)) ..< moved cs ce newlen (unat (m_Offset m)) + m_Length m}"

text \<open>Where a target ends up, as the code has it: behind the cut and inside the section it shifts.\<close>

definition shifted_target :: "nat \<Rightarrow> nat \<Rightarrow> nat \<Rightarrow> nat \<Rightarrow> int \<Rightarrow> int" where
  "shifted_target cs ce newlen sliceSize t =
     (if int ce \<le> t \<and> t < int sliceSize then t + (int newlen - int (ce - cs)) else t)"

lemma outside_bounds:
  assumes "outside code cs ce m"
  shows "0 < m_Length m" "unat (m_Offset m) + m_Length m \<le> length code" "unat (m_Offset m) < length code"
    "decode (take (m_Length m) (drop (unat (m_Offset m)) code)) = Inr (m_Length m)"
proof -
  let ?d = "drop (unat (m_Offset m)) code"
  from assms have d: "decode ?d = Inr (m_Length m)" by (simp add: outside_def)
  from x64.dec_length [OF d] show "0 < m_Length m" "unat (m_Offset m) + m_Length m \<le> length code"
    "unat (m_Offset m) < length code" by auto
  from d show "decode (take (m_Length m) ?d) = Inr (m_Length m)"
    by (rule x64.dec_local) (use x64.dec_length [OF d] in \<open>auto simp: same_prefix_def\<close>)
qed

lemma rewrite_match_classified:
  assumes "rewrite_match code cs ce delta m (rw, adj) = Inr (rw', adj')" "\<not> (cs \<le> int (unat (m_Offset m)) \<and> int (unat (m_Offset m)) < ce)"
    and "ClassifyInstruction (take (m_Length m) (drop (unat (m_Offset m)) code)) = Inr site"
  shows "Kind site = NoReference \<Longrightarrow> rw' = rw"
    and "Kind site \<noteq> NoReference \<Longrightarrow> read_field code (Kind site) (unat (m_Offset m) + FieldOffset site) = Inr disp \<Longrightarrow>
      AdjustedDelta (int (unat (m_Offset m))) (int (unat (m_Offset m)) + int (m_Length m) + disp) cs ce (int (length code)) delta = adjust \<Longrightarrow>
      (if adjust \<noteq> 0 then write_field rw (Kind site) (m_Offset m)
          (nat ((if int (unat (m_Offset m)) < cs then int (unat (m_Offset m)) else int (unat (m_Offset m)) + delta) + int (FieldOffset site)))
          (disp + adjust) else Inr rw) = Inr rw'"
  using assms by (auto simp: rewrite_match_def Let_def bindE_eq_Inr split: if_splits)

lemma rewrite_match_effect:
  fixes code cs ce newlen m rw
  defines "off \<equiv> unat (m_Offset m)" and "delta \<equiv> int newlen - int (ce - cs)"
  assumes out: "outside code cs ce m" and cut: "cs < ce" "ce \<le> length code"
    and len: "length rw = cs + newlen + (length code - ce)"
    and step: "rewrite_match code (int cs) (int ce) delta m (rw, adj) = Inr (rw', adj')"
  shows "length rw' = length rw"
    and "\<And>i. i < length rw \<Longrightarrow> i \<notin> own cs ce newlen m \<Longrightarrow> rw' ! i = rw ! i"
    and "ClassifyInstruction (take (m_Length m) (drop off code)) = Inr site \<Longrightarrow> Kind site \<noteq> NoReference \<Longrightarrow>
      (\<forall>i < m_Length m. rw ! (moved cs ce newlen off + i) = code ! (off + i)) \<Longrightarrow>
      read_field code (Kind site) (off + FieldOffset site) = Inr disp \<Longrightarrow>
      \<exists>disp'. read_field rw' (Kind site) (moved cs ce newlen off + FieldOffset site) = Inr disp' \<and>
        int (moved cs ce newlen off + m_Length m) + disp' =
        shifted_target cs ce newlen (length code) (int (off + m_Length m) + disp)"
    and "ClassifyInstruction (take (m_Length m) (drop off code)) = Inr site \<Longrightarrow> i < m_Length m \<Longrightarrow>
      (Kind site \<noteq> NoReference \<Longrightarrow> i < FieldOffset site \<or> FieldOffset site + field_size (Kind site) \<le> i) \<Longrightarrow>
      rw' ! (moved cs ce newlen off + i) = rw ! (moved cs ce newlen off + i)"
proof -
  let ?new = "moved cs ce newlen off"
  note b = outside_bounds [OF out, folded off_def]
  from out have side: "off + m_Length m \<le> cs \<or> ce \<le> off" by (simp add: outside_def off_def)
  have new: "?new + m_Length m \<le> length rw" using side b(1,2) cut len by (auto simp: moved_def)
  have newint: "(if int off < int cs then int off else int off + delta) = int ?new"
    using side b(1) cut by (auto simp: moved_def delta_def of_nat_diff)
  have uncut: "\<not> (int cs \<le> int off \<and> int off < int ce)" using side b(1) by auto
  obtain st where st: "ClassifyInstruction (take (m_Length m) (drop off code)) = Inr st"
    and fo: "Kind st \<noteq> NoReference \<Longrightarrow> FieldOffset st + field_size (Kind st) \<le> m_Length m"
    using ClassifyInstruction_ok [OF b(4)] by blast
  note classified = rewrite_match_classified [OF step, folded off_def, OF uncut st]
  let ?field = "?new + FieldOffset st"
  have main: "length rw' = length rw \<and>
    (\<forall>i < length rw. \<not> (Kind st \<noteq> NoReference \<and> ?field \<le> i \<and> i < ?field + field_size (Kind st)) \<longrightarrow> rw' ! i = rw ! i) \<and>
    (\<forall>disp. Kind st \<noteq> NoReference \<longrightarrow> read_field code (Kind st) (off + FieldOffset st) = Inr disp \<longrightarrow>
      read_field rw (Kind st) ?field = Inr disp \<longrightarrow>
      (\<exists>disp'. read_field rw' (Kind st) ?field = Inr disp' \<and>
        int (?new + m_Length m) + disp' =
        shifted_target cs ce newlen (length code) (int (off + m_Length m) + disp)))"
  proof (cases "Kind st = NoReference")
    case True
    with classified(1) show ?thesis by simp
  next
    case kind: False
    have fit: "off + FieldOffset st + field_size (Kind st) \<le> length code" "?field + field_size (Kind st) \<le> length rw"
      using fo [OF kind] b(2) new by linarith+
    from read_field_Inr [OF fit(1)] obtain disp
      where disp: "read_field code (Kind st) (off + FieldOffset st) = Inr disp" ..
    define adjust where "adjust = AdjustedDelta (int off) (int off + int (m_Length m) + disp) (int cs) (int ce) (int (length code)) delta"
    have w: "(if adjust \<noteq> 0 then write_field rw (Kind st) (m_Offset m) ?field (disp + adjust) else Inr rw) = Inr rw'"
      using classified(2) [OF kind disp adjust_def [symmetric]] unfolding newint by (simp only: nat_int_add)
    have tgt: "int (?new + m_Length m) + (disp + adjust) = shifted_target cs ce newlen (length code) (int (off + m_Length m) + disp)"
      using side b(1,2) cut newint
      by (auto simp: adjust_def AdjustedDelta_def shifted_target_def Let_def delta_def split: if_splits)
    show ?thesis
    proof (cases "adjust = 0")
      case True
      with w tgt disp show ?thesis by simp
    next
      case False
      with w have "write_field rw (Kind st) (m_Offset m) ?field (disp + adjust) = Inr rw'" by simp
      from write_field_Inr [OF this fit(2)] tgt disp kind show ?thesis by auto
    qed
  qed
  show "length rw' = length rw" using main by blast
  show "rw' ! i = rw ! i" if "i < length rw" "i \<notin> own cs ce newlen m" for i
    using that main fo by (auto simp: own_def off_def [symmetric] not_le not_less)
  show "rw' ! (?new + i) = rw ! (?new + i)"
    if "ClassifyInstruction (take (m_Length m) (drop off code)) = Inr site" "i < m_Length m"
      "Kind site \<noteq> NoReference \<Longrightarrow> i < FieldOffset site \<or> FieldOffset site + field_size (Kind site) \<le> i"
  proof -
    from that(1) st have "site = st" by simp
    with that(2,3) new have "?new + i < length rw"
      "\<not> (Kind st \<noteq> NoReference \<and> ?field \<le> ?new + i \<and> ?new + i < ?field + field_size (Kind st))" by auto
    with main show ?thesis by blast
  qed
  show "\<exists>disp'. read_field rw' (Kind site) (?new + FieldOffset site) = Inr disp' \<and>
      int (?new + m_Length m) + disp' = shifted_target cs ce newlen (length code) (int (off + m_Length m) + disp)"
    if "ClassifyInstruction (take (m_Length m) (drop off code)) = Inr site" "Kind site \<noteq> NoReference"
      "\<forall>i < m_Length m. rw ! (?new + i) = code ! (off + i)"
      "read_field code (Kind site) (off + FieldOffset site) = Inr disp"
  proof -
    from that(1) st have eq: "site = st" by simp
    have "read_field rw (Kind st) ?field = read_field code (Kind st) (off + FieldOffset st)"
      using fo that(2) b(2) new that(3) unfolding eq
      by (intro read_field_cong) (auto simp: add.assoc)
    with main that eq show ?thesis by metis
  qed
qed


subsection \<open>All matches\<close>

definition replaced :: "nat \<Rightarrow> nat \<Rightarrow> InstructionMatch \<Rightarrow> bool" where
  "replaced cs ce m \<longleftrightarrow> cs \<le> unat (m_Offset m) \<and> unat (m_Offset m) < ce"

lemma rewrite_match_replaced:
  assumes "replaced cs ce m"
  shows "rewrite_match code (int cs) (int ce) delta m st = Inr st"
proof -
  from assms have "int cs \<le> int (unat (m_Offset m)) \<and> int (unat (m_Offset m)) < int ce"
    by (simp only: replaced_def of_nat_le_iff of_nat_less_iff)
  then show ?thesis unfolding rewrite_match_def Let_def by (simp only: if_True simp_thms prod.case_eq_if if_P)
qed

lemma rewrite_matches_append:
  "rewrite_matches code cs ce delta (xs @ ys) st =
     bindE (rewrite_matches code cs ce delta xs st) (rewrite_matches code cs ce delta ys)"
proof (induction xs arbitrary: st)
  case (Cons x xs)
  then show ?case by (cases "rewrite_match code cs ce delta x st") simp_all
qed simp

lemma rewrite_matches_frame:
  assumes "\<forall>m \<in> set ms. replaced cs ce m \<or> outside code cs ce m" "cs < ce" "ce \<le> length code"
    "length rw = cs + newlen + (length code - ce)"
    "rewrite_matches code (int cs) (int ce) (int newlen - int (ce - cs)) ms (rw, adj) = Inr (rw', adj')"
  shows "length rw' = length rw \<and>
    (\<forall>i < length rw. (\<forall>m \<in> set ms. replaced cs ce m \<or> i \<notin> own cs ce newlen m) \<longrightarrow> rw' ! i = rw ! i)"
  using assms
proof (induction ms arbitrary: rw adj)
  case (Cons m ms)
  let ?delta = "int newlen - int (ce - cs)"
  from Cons.prems(5) obtain rw1 adj1 where
    1: "rewrite_match code (int cs) (int ce) ?delta m (rw, adj) = Inr (rw1, adj1)"
    and 2: "rewrite_matches code (int cs) (int ce) ?delta ms (rw1, adj1) = Inr (rw', adj')"
    by (auto simp: bindE_eq_Inr)
  have m: "length rw1 = length rw \<and> (\<forall>i < length rw. replaced cs ce m \<or> i \<notin> own cs ce newlen m \<longrightarrow> rw1 ! i = rw ! i)"
  proof (cases "replaced cs ce m")
    case True
    with 1 rewrite_match_replaced show ?thesis by simp
  next
    case False
    with Cons.prems(1) have "outside code cs ce m" by simp
    from rewrite_match_effect(1,2) [OF this Cons.prems(2-4) 1] False show ?thesis by blast
  qed
  with Cons.IH [OF _ Cons.prems(2,3) _ 2] Cons.prems(1,4) show ?case by auto
qed simp

lemma rewrite_match_in_bounds:
  assumes "replaced cs ce m \<or> outside code cs ce m" "cs < ce" "ce \<le> length code"
    "length rw = cs + newlen + (length code - ce)"
  shows "in_bounds (rewrite_match code (int cs) (int ce) (int newlen - int (ce - cs)) m (rw, adj))"
proof (cases "replaced cs ce m")
  case True
  then show ?thesis by (simp add: rewrite_match_replaced)
next
  case False
  with assms(1) have out: "outside code cs ce m" by simp
  let ?off = "unat (m_Offset m)"
  note b = outside_bounds [OF out]
  from out have side: "?off + m_Length m \<le> cs \<or> ce \<le> ?off" by (simp add: outside_def)
  have newint: "(if int ?off < int cs then int ?off else int ?off + (int newlen - int (ce - cs))) = int (moved cs ce newlen ?off)"
    using side b(1) assms(2) unfolding of_nat_less_iff by (auto simp: moved_def of_nat_diff simp del: of_nat_unat)
  have new: "moved cs ce newlen ?off + m_Length m \<le> length rw"
    using side b(1,2) assms by (auto simp: moved_def)
  obtain st where st: "ClassifyInstruction (take (m_Length m) (drop ?off code)) = Inr st"
    and fo: "Kind st \<noteq> NoReference \<Longrightarrow> FieldOffset st + field_size (Kind st) \<le> m_Length m"
    using ClassifyInstruction_ok [OF b(4)] by blast
  show ?thesis
  proof (cases "Kind st = NoReference")
    case True
    with st show ?thesis by (simp add: rewrite_match_def Let_def)
  next
    case kind: False
    then have fit: "?off + FieldOffset st + field_size (Kind st) \<le> length code"
      "moved cs ce newlen ?off + FieldOffset st + field_size (Kind st) \<le> length rw"
      using fo b(2) new by fastforce+
    from read_field_Inr [OF fit(1)] obtain disp
      where disp: "read_field code (Kind st) (?off + FieldOffset st) = Inr disp" ..
    have "in_bounds (write_field rw (Kind st) (m_Offset m) (moved cs ce newlen ?off + FieldOffset st) d)" for d
      using fit(2) by (rule write_field_safe)
    then show ?thesis
      unfolding rewrite_match_def Let_def prod.case newint nat_int_add
      by (simp add: st disp) (auto intro!: in_bounds_bindE)
  qed
qed

lemma rewrite_matches_in_bounds:
  assumes "\<forall>m \<in> set ms. replaced cs ce m \<or> outside code cs ce m" "cs < ce" "ce \<le> length code"
    "length rw = cs + newlen + (length code - ce)"
  shows "in_bounds (rewrite_matches code (int cs) (int ce) (int newlen - int (ce - cs)) ms (rw, adj))"
  using assms
proof (induction ms arbitrary: rw adj)
  case (Cons m ms)
  let ?r = "rewrite_match code (int cs) (int ce) (int newlen - int (ce - cs)) m (rw, adj)"
  have "in_bounds ?r" using Cons.prems by (intro rewrite_match_in_bounds) auto
  moreover have "in_bounds (rewrite_matches code (int cs) (int ce) (int newlen - int (ce - cs)) ms (rw1, adj1))"
    if "?r = Inr (rw1, adj1)" for rw1 adj1
  proof -
    have "length rw1 = length rw"
      using rewrite_matches_frame [of "[m]" cs ce code rw newlen adj rw1 adj1] Cons.prems that by simp
    with Cons show ?thesis by simp
  qed
  ultimately show ?case by (auto intro!: in_bounds_bindE)
qed simp

text \<open>The adjustments are the matches behind the cut, in order.\<close>

lemma rewrite_matches_adjustments:
  "rewrite_matches code cs ce delta ms (rw, adj) = Inr (rw', adj') \<Longrightarrow> cs \<le> ce \<Longrightarrow>
   adj' = adj @ (if delta = 0 then [] else
     map (\<lambda>m. \<lparr>OriginalOffset = m_Offset m, AdjustedOffset = word_of_int (int (unat (m_Offset m)) + delta), Delta = delta\<rparr>)
       (filter (\<lambda>m. ce \<le> int (unat (m_Offset m))) ms))"
proof (induction ms arbitrary: rw adj)
  case (Cons m ms)
  from Cons.prems(1) obtain rw1 adj1 where
    1: "rewrite_match code cs ce delta m (rw, adj) = Inr (rw1, adj1)"
    and 2: "rewrite_matches code cs ce delta ms (rw1, adj1) = Inr (rw', adj')"
    by (auto simp: bindE_eq_Inr)
  from 1 have "adj1 = (if ce \<le> int (unat (m_Offset m)) \<and> delta \<noteq> 0
      then adj @ [\<lparr>OriginalOffset = m_Offset m, AdjustedOffset = word_of_int (int (unat (m_Offset m)) + delta), Delta = delta\<rparr>]
      else adj)"
    by (auto simp: rewrite_match_def Let_def bindE_eq_Inr split: if_splits)
  with Cons.IH [OF 2 Cons.prems(2)] show ?case by auto
qed simp


subsection \<open>\<open>Rewrite\<close>\<close>

lemma tiles_offsets:
  assumes "tiles decode 0 code ms" "length code < 2 ^ 64" "k < length ms"
  shows "unat (m_Offset (ms ! k)) = start_of ms k"
proof -
  have "start_of ms k \<le> length code" using assms(1) by (rule x64.tiles_start_le)
  with assms(2) x64.tiles_nth(1) [OF assms(1,3)] show ?thesis by simp
qed

lemma tiles_cut:
  assumes "tiles decode 0 code ms" "length code < 2 ^ 64" "c < length ms" "m \<in> set ms"
  defines "cs \<equiv> start_of ms c" and "ce \<equiv> start_of ms c + m_Length (ms ! c)"
  shows "m = ms ! c \<and> replaced cs ce m \<or> m \<noteq> ms ! c \<and> \<not> replaced cs ce m \<and> outside code cs ce m"
proof -
  from assms(4) obtain k where k: "k < length ms" "m = ms ! k" by (auto simp: in_set_conv_nth)
  note off = tiles_offsets [OF assms(1,2)]
  have pos: "0 < m_Length (ms ! j)" if "j < length ms" for j using x64.tiles_nth(3) [OF assms(1) that] .
  consider "k = c" | "k < c" | "c < k" by linarith
  then show ?thesis
  proof cases
    case 1
    then show ?thesis using k off [OF k(1)] pos [OF k(1)] by (simp add: replaced_def cs_def ce_def)
  next
    case 2
    from x64.tiles_disjoint [OF assms(1) 2 assms(3)] have "start_of ms k + m_Length m \<le> cs" using k by (simp add: cs_def)
    moreover from this k off [OF k(1)] off [OF assms(3)] pos [OF k(1)] have "m \<noteq> ms ! c" by (auto simp: cs_def)
    ultimately show ?thesis using k off [OF k(1)] pos [OF k(1)] x64.tiles_nth(2) [OF assms(1) k(1)]
      by (auto simp: replaced_def outside_def)
  next
    case 3
    from x64.tiles_disjoint [OF assms(1) 3 k(1)] have "ce \<le> start_of ms k" by (simp add: ce_def)
    moreover from this k off [OF k(1)] off [OF assms(3)] pos [OF assms(3)] have "m \<noteq> ms ! c" by (auto simp: ce_def)
    ultimately show ?thesis using k off [OF k(1)] x64.tiles_nth(2) [OF assms(1) k(1)]
      by (auto simp: replaced_def outside_def)
  qed
qed

lemma tiles_own_disjoint:
  assumes "tiles decode 0 code ms" "length code < 2 ^ 64" "c < length ms" "j < length ms" "k < length ms" "j \<noteq> k"
    "j \<noteq> c" "k \<noteq> c"
  defines "cs \<equiv> start_of ms c" and "ce \<equiv> start_of ms c + m_Length (ms ! c)"
  shows "own cs ce newlen (ms ! j) \<inter> own cs ce newlen (ms ! k) = {}"
  using assms(4-8)
proof (induction j k rule: linorder_wlog)
  case (sym j k)
  then show ?case by (metis Int_commute)
next
  case (le j k)
  then have jk: "j < k" by simp
  have off: "unat (m_Offset (ms ! j)) = start_of ms j" "unat (m_Offset (ms ! k)) = start_of ms k"
    using tiles_offsets [OF assms(1,2)] le by auto
  have d: "start_of ms j + m_Length (ms ! j) \<le> start_of ms k" using x64.tiles_disjoint [OF assms(1) jk] le by simp
  have pos: "0 < m_Length (ms ! j)" "0 < m_Length (ms ! c)" using x64.tiles_nth(3) [OF assms(1)] le assms(3) by auto
  have jc: "j < c \<Longrightarrow> start_of ms j + m_Length (ms ! j) \<le> cs" using x64.tiles_disjoint [OF assms(1) _ assms(3)] by (simp add: cs_def)
  have cj: "c < j \<Longrightarrow> ce \<le> start_of ms j" using x64.tiles_disjoint [OF assms(1), of c j] le by (simp add: ce_def)
  have ck: "c < k \<Longrightarrow> ce \<le> start_of ms k" using x64.tiles_disjoint [OF assms(1), of c k] le by (simp add: ce_def)
  have kc: "k < c \<Longrightarrow> start_of ms k < cs" using x64.tiles_disjoint [OF assms(1), of k c] x64.tiles_nth(3) [OF assms(1), of k] le assms(3) by (simp add: cs_def)
  have cece: "cs < ce" using pos by (simp add: cs_def ce_def)
  consider "k < c" | "j < c" "c < k" | "c < j" using le jk by linarith
  then have "moved cs ce newlen (start_of ms j) + m_Length (ms ! j) \<le> moved cs ce newlen (start_of ms k)"
  proof cases
    case 1
    with jc kc d jk pos show ?thesis by (simp add: moved_def)
  next
    case 2
    with jc ck cece pos show ?thesis by (simp add: moved_def)
  next
    case 3
    with cj ck cece d jk show ?thesis by (simp add: moved_def)
  qed
  then show ?case by (auto simp: own_def off)
qed

text \<open>What a successful rewrite has done, in the terms above.\<close>

lemma Rewrite_elim:
  assumes "Rewrite code req = Inr res" "length code < 2 ^ 64"
  obtains ms c where "tiles decode 0 code ms" "c < length ms" "unat (req_Offset req) = start_of ms c"
    "decode (drop (start_of ms c) code) = Inr (m_Length (ms ! c))"
    "rewrite_matches code (int (start_of ms c)) (int (start_of ms c + m_Length (ms ! c)))
       (int (length (NewBytes req)) - int (start_of ms c + m_Length (ms ! c) - start_of ms c)) ms
       (take (start_of ms c) code @ NewBytes req @ drop (start_of ms c + m_Length (ms ! c)) code, [])
     = Inr (res_Bytes res, Adjustments res)"
proof -
  from assms(1) obtain ms n adj bytes where ms: "ScanCodeSection False code 0 (of_nat (length code)) = Inr ms"
    and ex: "list_ex (\<lambda>match. m_Offset match = req_Offset req) ms"
    and n: "decode (drop (unat (req_Offset req)) code) = Inr n"
    and run: "rewrite_matches code (int (unat (req_Offset req))) (int (unat (req_Offset req)) + int n)
       (int (length (NewBytes req)) - int n) ms
       (take (unat (req_Offset req)) code @ NewBytes req @ drop (unat (req_Offset req) + n) code, []) = Inr (bytes, adj)"
    and res: "res = \<lparr>res_Bytes = bytes, Adjustments = adj\<rparr>"
    by (auto simp: Rewrite_def Let_def bindE_eq_Inr simp del: of_nat_unat split: if_splits)
  from ms assms(2) have t: "tiles decode 0 code ms"
    by (simp add: ScanCodeSection_tiles)
  from ex obtain c where c: "c < length ms" "m_Offset (ms ! c) = req_Offset req"
    by (auto simp: list_ex_iff in_set_conv_nth)
  with tiles_offsets [OF t assms(2) c(1)] have off: "unat (req_Offset req) = start_of ms c" by simp
  from n x64.tiles_nth(2) [OF t c(1)] have "n = m_Length (ms ! c)" unfolding off by simp
  with t c off run res x64.tiles_nth(2) [OF t c(1)] show thesis by (intro that [of ms c]) auto
qed


text \<open>A match's bytes after all rounds: only its own round writes them.\<close>

lemma rewrite_matches_at:
  assumes run: "rewrite_matches code (int cs) (int ce) (int newlen - int (ce - cs)) (xs @ m # ys) (rw, adj) = Inr (rw', adj')"
    and sides: "\<forall>m' \<in> set (xs @ ys). replaced cs ce m' \<or> outside code cs ce m' \<and> own cs ce newlen m' \<inter> own cs ce newlen m = {}"
    and out: "outside code cs ce m" and cut: "cs < ce" "ce \<le> length code"
    and len: "length rw = cs + newlen + (length code - ce)"
  obtains rw1 adj1 rw2 adj2 where
    "rewrite_match code (int cs) (int ce) (int newlen - int (ce - cs)) m (rw1, adj1) = Inr (rw2, adj2)"
    "length rw1 = length rw" "length rw2 = length rw" "length rw' = length rw"
    "\<forall>i. i \<in> own cs ce newlen m \<longrightarrow> i < length rw \<longrightarrow> rw1 ! i = rw ! i \<and> rw' ! i = rw2 ! i"
proof -
  let ?delta = "int newlen - int (ce - cs)"
  from run obtain rw1 adj1 rw2 adj2 where
    r1: "rewrite_matches code (int cs) (int ce) ?delta xs (rw, adj) = Inr (rw1, adj1)"
    and r2: "rewrite_match code (int cs) (int ce) ?delta m (rw1, adj1) = Inr (rw2, adj2)"
    and r3: "rewrite_matches code (int cs) (int ce) ?delta ys (rw2, adj2) = Inr (rw', adj')"
    by (auto simp: rewrite_matches_append bindE_eq_Inr)
  have f1: "length rw1 = length rw \<and> (\<forall>i < length rw. (\<forall>m \<in> set xs. replaced cs ce m \<or> i \<notin> own cs ce newlen m) \<longrightarrow> rw1 ! i = rw ! i)"
    using sides by (intro rewrite_matches_frame [OF _ cut len r1]) auto
  with len have len1: "length rw1 = cs + newlen + (length code - ce)" by simp
  from rewrite_match_effect(1) [OF out cut len1 r2] f1 have len2: "length rw2 = length rw" by simp
  with len have len2': "length rw2 = cs + newlen + (length code - ce)" by simp
  have f3: "length rw' = length rw2 \<and> (\<forall>i < length rw2. (\<forall>m \<in> set ys. replaced cs ce m \<or> i \<notin> own cs ce newlen m) \<longrightarrow> rw' ! i = rw2 ! i)"
    using sides by (intro rewrite_matches_frame [OF _ cut len2' r3]) auto
  have "rw1 ! i = rw ! i \<and> rw' ! i = rw2 ! i" if "i \<in> own cs ce newlen m" "i < length rw" for i
  proof -
    from that sides have "\<forall>m' \<in> set xs \<union> set ys. replaced cs ce m' \<or> i \<notin> own cs ce newlen m'" by auto
    with f1 f3 that len2 show ?thesis by simp
  qed
  with r2 f1 len2 f3 show thesis by (intro that [of rw1 adj1 rw2 adj2]) auto
qed

lemma tiles_around:
  assumes "tiles decode 0 code ms" "length code < 2 ^ 64" "c < length ms" "m \<in> set ms" "m \<noteq> ms ! c"
  defines "cs \<equiv> start_of ms c" and "ce \<equiv> start_of ms c + m_Length (ms ! c)"
  obtains xs ys where "ms = xs @ m # ys"
    "\<forall>m' \<in> set (xs @ ys). replaced cs ce m' \<or> outside code cs ce m' \<and> own cs ce newlen m' \<inter> own cs ce newlen m = {}"
proof -
  from assms(4) obtain k where k: "k < length ms" "m = ms ! k" by (auto simp: in_set_conv_nth)
  have kc: "k \<noteq> c" using assms(5) k by auto
  let ?xs = "take k ms" and ?ys = "drop (Suc k) ms"
  have "replaced cs ce m' \<or> outside code cs ce m' \<and> own cs ce newlen m' \<inter> own cs ce newlen m = {}"
    if j: "j < length ms" "j \<noteq> k" "m' = ms ! j" for j m'
  proof (cases "j = c")
    case True
    with tiles_cut [OF assms(1-3) nth_mem [OF assms(3)]] j show ?thesis by (auto simp: cs_def ce_def)
  next
    case False
    from tiles_own_disjoint [OF assms(1-3) j(1) k(1) j(2) False kc, of newlen]
      tiles_cut [OF assms(1-3) nth_mem [OF j(1)]]
    show ?thesis unfolding j(3) k(2) cs_def ce_def by blast
  qed
  moreover have "\<exists>j. j < length ms \<and> j \<noteq> k \<and> m' = ms ! j" if "m' \<in> set (?xs @ ?ys)" for m'
  proof -
    from that consider "m' \<in> set ?xs" | "m' \<in> set ?ys" by auto
    then show ?thesis
    proof cases
      case 1
      then obtain i where "i < k" "m' = ms ! i" by (auto simp: in_set_conv_nth)
      with k show ?thesis by (intro exI [of _ i]) simp
    next
      case 2
      then obtain i where "i < length ms - Suc k" "m' = ms ! (Suc k + i)" by (auto simp: in_set_conv_nth)
      then show ?thesis by (intro exI [of _ "Suc k + i"]) simp
    qed
  qed
  ultimately have "\<forall>m' \<in> set (?xs @ ?ys). replaced cs ce m' \<or> outside code cs ce m' \<and> own cs ce newlen m' \<inter> own cs ce newlen m = {}"
    by metis
  moreover have "ms = ?xs @ m # ?ys" using k by (simp add: id_take_nth_drop)
  ultimately show thesis by (rule that [rotated])
qed


lemma Rewrite_context:
  assumes "Rewrite code req = Inr res" "length code < 2 ^ 64"
    "ScanCodeSection False code 0 (of_nat (length code)) = Inr ms" "m \<in> set ms" "m_Offset m \<noteq> req_Offset req"
    "decode (drop (unat (req_Offset req)) code) = Inr n"
  defines "cs \<equiv> unat (req_Offset req)" and "newlen \<equiv> length (NewBytes req)"
  obtains xs ys where "cs < cs + n" "cs + n \<le> length code" "outside code cs (cs + n) m"
    "\<forall>m' \<in> set (xs @ ys). replaced cs (cs + n) m' \<or>
       outside code cs (cs + n) m' \<and> own cs (cs + n) newlen m' \<inter> own cs (cs + n) newlen m = {}"
    "rewrite_matches code (int cs) (int (cs + n)) (int newlen - int (cs + n - cs)) (xs @ m # ys)
       (take cs code @ NewBytes req @ drop (cs + n) code, []) = Inr (res_Bytes res, Adjustments res)"
proof -
  from assms(1,2) obtain ms' c where t: "tiles decode 0 code ms'" and c: "c < length ms'" and cs: "unat (req_Offset req) = start_of ms' c"
    and dec: "decode (drop (start_of ms' c) code) = Inr (m_Length (ms' ! c))"
    and run: "rewrite_matches code (int (start_of ms' c)) (int (start_of ms' c + m_Length (ms' ! c)))
       (int (length (NewBytes req)) - int (start_of ms' c + m_Length (ms' ! c) - start_of ms' c)) ms'
       (take (start_of ms' c) code @ NewBytes req @ drop (start_of ms' c + m_Length (ms' ! c)) code, [])
     = Inr (res_Bytes res, Adjustments res)" by (rule Rewrite_elim)
  have eq: "ms' = ms" using t assms(2,3) by (intro x64.tiles_unique) (auto simp: ScanCodeSection_tiles)
  note t = t [unfolded eq] and c = c [unfolded eq]
  have csd: "start_of ms c = cs" and n: "m_Length (ms ! c) = n" using cs dec assms(6) by (simp_all add: eq cs_def)
  have cut: "cs < cs + n" "cs + n \<le> length code" using x64.tiles_nth(3,4) [OF t c] by (simp_all add: n csd)
  have mc: "m \<noteq> ms ! c" using assms(5) cs tiles_offsets [OF t assms(2) c] by (auto simp: eq word_unat_eq_iff)
  have out: "outside code cs (cs + n) m" using tiles_cut [OF t assms(2) c assms(4)] mc unfolding csd n by blast
  obtain xs ys where ms: "ms = xs @ m # ys" and
    sides: "\<forall>m' \<in> set (xs @ ys). replaced cs (cs + n) m' \<or> outside code cs (cs + n) m' \<and> own cs (cs + n) newlen m' \<inter> own cs (cs + n) newlen m = {}"
    using tiles_around [OF t assms(2) c assms(4) mc, of newlen] unfolding csd n by metis
  from run have "rewrite_matches code (int cs) (int (cs + n)) (int newlen - int (cs + n - cs)) (xs @ m # ys)
      (take cs code @ NewBytes req @ drop (cs + n) code, []) = Inr (res_Bytes res, Adjustments res)"
    unfolding eq csd n newlen_def ms [symmetric] .
  with cut out sides show thesis by (rule that)
qed

lemma moved_bytes:
  assumes "off + len \<le> cs \<or> ce \<le> off" "cs < ce" "ce \<le> length code" "off + len \<le> length code" "0 < len"
  shows "moved cs ce (length new) off + len \<le> length (take cs code @ new @ drop ce code)"
    and "i < len \<Longrightarrow> (take cs code @ new @ drop ce code) ! (moved cs ce (length new) off + i) = code ! (off + i)"
  using assms by (auto simp: moved_def nth_append min_def)

lemma Rewrite_match:
  assumes "Rewrite code req = Inr res" "length code < 2 ^ 64"
    "ScanCodeSection False code 0 (of_nat (length code)) = Inr ms" "m \<in> set ms" "m_Offset m \<noteq> req_Offset req"
    "decode (drop (unat (req_Offset req)) code) = Inr n"
    "ClassifyInstruction (take (m_Length m) (drop (unat (m_Offset m)) code)) = Inr site"
  defines "cs \<equiv> unat (req_Offset req)" and "newlen \<equiv> length (NewBytes req)" and "off \<equiv> unat (m_Offset m)"
  shows "Kind site \<noteq> NoReference \<Longrightarrow>
      \<exists>disp disp'. read_field code (Kind site) (off + FieldOffset site) = Inr disp \<and>
        read_field (res_Bytes res) (Kind site) (moved cs (cs + n) newlen off + FieldOffset site) = Inr disp' \<and>
        int (moved cs (cs + n) newlen off + m_Length m) + disp' =
        shifted_target cs (cs + n) newlen (length code) (int (off + m_Length m) + disp)"
    and "i < m_Length m \<Longrightarrow>
      (Kind site \<noteq> NoReference \<Longrightarrow> i < FieldOffset site \<or> FieldOffset site + field_size (Kind site) \<le> i) \<Longrightarrow>
      res_Bytes res ! (moved cs (cs + n) newlen off + i) = code ! (off + i)"
proof -
  let ?ce = "cs + n" and ?init = "take cs code @ NewBytes req @ drop (cs + n) code"
  let ?new = "moved cs ?ce newlen off"
  obtain xs ys where cut: "cs < ?ce" "?ce \<le> length code" and out: "outside code cs ?ce m"
    and sides: "\<forall>m' \<in> set (xs @ ys). replaced cs ?ce m' \<or> outside code cs ?ce m' \<and> own cs ?ce newlen m' \<inter> own cs ?ce newlen m = {}"
    and run: "rewrite_matches code (int cs) (int ?ce) (int newlen - int (?ce - cs)) (xs @ m # ys) (?init, []) = Inr (res_Bytes res, Adjustments res)"
    using assms(1-6) unfolding cs_def newlen_def by (rule Rewrite_context)
  have len: "length ?init = cs + newlen + (length code - ?ce)" using cut by (simp add: newlen_def)
  from run sides out cut len obtain rw1 adj1 rw2 adj2 where
    step: "rewrite_match code (int cs) (int ?ce) (int newlen - int (?ce - cs)) m (rw1, adj1) = Inr (rw2, adj2)"
    and lens: "length rw1 = length ?init" "length rw2 = length ?init" "length (res_Bytes res) = length ?init"
    and at: "\<forall>i. i \<in> own cs ?ce newlen m \<longrightarrow> i < length ?init \<longrightarrow> rw1 ! i = ?init ! i \<and> res_Bytes res ! i = rw2 ! i"
    by (rule rewrite_matches_at)
  note b = outside_bounds [OF out, folded off_def]
  from out have side: "off + m_Length m \<le> cs \<or> ?ce \<le> off" by (simp add: outside_def off_def)
  note mb = moved_bytes [OF side cut b(2,1), where new = "NewBytes req", folded newlen_def]
  have init: "rw1 ! (?new + i) = code ! (off + i)" and fin: "res_Bytes res ! (?new + i) = rw2 ! (?new + i)"
    if "i < m_Length m" for i
  proof -
    from that mb(1) have "?new + i \<in> own cs ?ce newlen m" "?new + i < length ?init" by (simp_all add: own_def off_def)
    with at mb(2) [OF that] show "rw1 ! (?new + i) = code ! (off + i)" "res_Bytes res ! (?new + i) = rw2 ! (?new + i)" by auto
  qed
  have len1: "length rw1 = cs + newlen + (length code - ?ce)" using lens len by simp
  note e = rewrite_match_effect [OF out cut len1 step, folded off_def] and cls = assms(7) [folded off_def]
  show "res_Bytes res ! (?new + i) = code ! (off + i)"
    if "i < m_Length m" "Kind site \<noteq> NoReference \<Longrightarrow> i < FieldOffset site \<or> FieldOffset site + field_size (Kind site) \<le> i"
    using e(4) [OF cls that] init [OF that(1)] fin [OF that(1)] by simp
  show "\<exists>disp disp'. read_field code (Kind site) (off + FieldOffset site) = Inr disp \<and>
        read_field (res_Bytes res) (Kind site) (?new + FieldOffset site) = Inr disp' \<and>
        int (?new + m_Length m) + disp' = shifted_target cs ?ce newlen (length code) (int (off + m_Length m) + disp)"
    if kind: "Kind site \<noteq> NoReference"
  proof -
    have fo: "FieldOffset site + field_size (Kind site) \<le> m_Length m"
      using ClassifyInstruction_ok [OF b(4)] assms(7) kind by (metis off_def Inr_inject)
    then obtain disp where disp: "read_field code (Kind site) (off + FieldOffset site) = Inr disp"
      using read_field_Inr [of "off + FieldOffset site" "Kind site" code] b(2) by auto
    have "read_field (res_Bytes res) (Kind site) (?new + FieldOffset site) = read_field rw2 (Kind site) (?new + FieldOffset site)"
      using fo mb(1) lens fin by (intro read_field_cong) (auto simp: add.assoc)
    with e(3) [OF cls kind _ disp] init disp show ?thesis by auto
  qed
qed


lemma Rewrite_safe [safe]:
  assumes "length code < 2 ^ 64"
  shows "in_bounds (Rewrite code req)"
proof -
  let ?cs = "unat (req_Offset req)" and ?newlen = "length (NewBytes req)"
  have "in_bounds (rewrite_matches code (int ?cs) (int ?cs + int n) (int ?newlen - int n) ms
      (take ?cs code @ NewBytes req @ drop (?cs + n) code, []))"
    if ms: "ScanCodeSection False code 0 (of_nat (length code)) = Inr ms" and m: "m \<in> set ms" "m_Offset m = req_Offset req"
      and n: "decode (drop ?cs code) = Inr n" for ms m n
  proof -
    from ms assms have t: "tiles decode 0 code ms" by (simp add: ScanCodeSection_tiles)
    from m obtain c where c: "c < length ms" "m_Offset (ms ! c) = req_Offset req" by (auto simp: in_set_conv_nth)
    with tiles_offsets [OF t assms c(1)] have cs: "?cs = start_of ms c" by simp
    with n x64.tiles_nth(2) [OF t c(1)] have len: "n = m_Length (ms ! c)" by simp
    have "\<forall>m \<in> set ms. replaced ?cs (?cs + n) m \<or> outside code ?cs (?cs + n) m"
      using tiles_cut [OF t assms c(1)] unfolding cs len by blast
    then have "in_bounds (rewrite_matches code (int ?cs) (int (?cs + n)) (int ?newlen - int (?cs + n - ?cs)) ms
        (take ?cs code @ NewBytes req @ drop (?cs + n) code, []))"
      by (rule rewrite_matches_in_bounds) (use x64.tiles_nth(3,4) [OF t c(1)] cs len in auto)
    then show ?thesis by (simp only: of_nat_add add_diff_cancel_left')
  qed
  then show ?thesis
    unfolding Rewrite_def Let_def
    by (intro safe in_bounds_bindE) (auto simp: list_ex_iff split: prod.splits)
qed

subsection \<open>Properties\<close>

text \<open>C5. After a rewrite every relative branch and every RIP-relative operand outside the replaced
  instruction refers to the target it referred to before, moved by the change of length where the target
  lies behind the replaced instruction: the field is found at the instruction's new position, and the
  instruction's new end plus the new displacement is the moved target.\<close>

theorem Rewrite_preserves_references:
  assumes "Rewrite code req = Inr res" "length code < 2 ^ 64"
    "ScanCodeSection False code 0 (of_nat (length code)) = Inr ms" "m \<in> set ms" "m_Offset m \<noteq> req_Offset req"
    "decode (drop (unat (req_Offset req)) code) = Inr n"
    "ClassifyInstruction (take (m_Length m) (drop (unat (m_Offset m)) code)) = Inr site" "Kind site \<noteq> NoReference"
  defines "cs \<equiv> unat (req_Offset req)" and "newlen \<equiv> length (NewBytes req)" and "off \<equiv> unat (m_Offset m)"
  shows "\<exists>disp disp'. read_field code (Kind site) (off + FieldOffset site) = Inr disp \<and>
        read_field (res_Bytes res) (Kind site) (moved cs (cs + n) newlen off + FieldOffset site) = Inr disp' \<and>
        int (moved cs (cs + n) newlen off + m_Length m) + disp' =
        shifted_target cs (cs + n) newlen (length code) (int (off + m_Length m) + disp)"
  using Rewrite_match(1) [OF assms(1-8)] unfolding cs_def newlen_def off_def .

text \<open>The jump over a NOP that becomes two NOPs: its displacement grows from 1 to 2.\<close>

theorem Rewrite_preserves_references_witness:
  "\<exists>disp disp'. read_field [0xEB, 0x01, 0x90, 0xC3] Rel8Branch 1 = Inr disp \<and>
     read_field [0xEB, 0x02, 0x90, 0x90, 0xC3] Rel8Branch (moved 2 3 2 0 + 1) = Inr disp' \<and>
     int (moved 2 3 2 0 + 2) + disp' = shifted_target 2 3 2 4 (2 + disp)"
proof -
  let ?code = "[0xEB, 0x01, 0x90, 0xC3] :: u8 list" and ?req = "\<lparr>req_Offset = 2, NewBytes = [0x90, 0x90]\<rparr>"
  let ?m = "\<lparr>m_Offset = 0, m_Length = 2\<rparr>"
  have 1: "Rewrite ?code ?req = Inr \<lparr>res_Bytes = [0xEB, 0x02, 0x90, 0x90, 0xC3],
      Adjustments = [\<lparr>OriginalOffset = 3, AdjustedOffset = 4, Delta = 1\<rparr>]\<rparr>"
    and 2: "ScanCodeSection False ?code 0 (of_nat (length ?code)) =
      Inr [?m, \<lparr>m_Offset = 2, m_Length = 1\<rparr>, \<lparr>m_Offset = 3, m_Length = 1\<rparr>]"
    and 3: "decode (drop (unat (req_Offset ?req)) ?code) = Inr 1"
    and 4: "ClassifyInstruction (take (m_Length ?m) (drop (unat (m_Offset ?m)) ?code)) =
      Inr \<lparr>Kind = Rel8Branch, FieldOffset = 1\<rparr>"
    by code_simp+
  from Rewrite_preserves_references [OF 1 _ 2 _ _ 3 4] show ?thesis by (simp add: numeral_2_eq_2 [symmetric])
qed


text \<open>C27. A rewrite moves every byte outside the replaced instruction and outside the displacement fields
  unchanged to its new position.\<close>

theorem Rewrite_moves_bytes:
  assumes "Rewrite code req = Inr res" "length code < 2 ^ 64"
    "ScanCodeSection False code 0 (of_nat (length code)) = Inr ms" "m \<in> set ms" "m_Offset m \<noteq> req_Offset req"
    "decode (drop (unat (req_Offset req)) code) = Inr n"
    "ClassifyInstruction (take (m_Length m) (drop (unat (m_Offset m)) code)) = Inr site" "i < m_Length m"
    "Kind site = NoReference \<or> i < FieldOffset site \<or> FieldOffset site + field_size (Kind site) \<le> i"
  defines "cs \<equiv> unat (req_Offset req)"
  shows "res_Bytes res ! (moved cs (cs + n) (length (NewBytes req)) (unat (m_Offset m)) + i) = code ! (unat (m_Offset m) + i)"
  using Rewrite_match(2) [OF assms(1-8)] assms(9) unfolding cs_def by blast

theorem Rewrite_moves_bytes_witness:
  "([0xEB, 0x02, 0x90, 0x90, 0xC3] :: u8 list) ! (moved 2 3 2 3 + 0) = [0xEB, 0x01, 0x90, 0xC3] ! 3"
proof -
  let ?code = "[0xEB, 0x01, 0x90, 0xC3] :: u8 list" and ?req = "\<lparr>req_Offset = 2, NewBytes = [0x90, 0x90]\<rparr>"
  let ?m = "\<lparr>m_Offset = 3, m_Length = 1\<rparr>"
  have 1: "Rewrite ?code ?req = Inr \<lparr>res_Bytes = [0xEB, 0x02, 0x90, 0x90, 0xC3],
      Adjustments = [\<lparr>OriginalOffset = 3, AdjustedOffset = 4, Delta = 1\<rparr>]\<rparr>"
    and 2: "ScanCodeSection False ?code 0 (of_nat (length ?code)) =
      Inr [\<lparr>m_Offset = 0, m_Length = 2\<rparr>, \<lparr>m_Offset = 2, m_Length = 1\<rparr>, ?m]"
    and 3: "decode (drop (unat (req_Offset ?req)) ?code) = Inr 1"
    and 4: "ClassifyInstruction (take (m_Length ?m) (drop (unat (m_Offset ?m)) ?code)) =
      Inr \<lparr>Kind = NoReference, FieldOffset = 0\<rparr>"
    by code_simp+
  from Rewrite_moves_bytes [OF 1 _ 2 _ _ 3 4, of 0] show ?thesis by (simp add: numeral_2_eq_2 [symmetric])
qed

text \<open>C28. The rewriter reads and writes inside its buffers only, whatever the section and the request:
  it returns a result or throws.\<close>

theorem Rewrite_in_bounds: "length code < 2 ^ 64 \<Longrightarrow> in_bounds (Rewrite code req)"
  by (rule Rewrite_safe)

theorem Rewrite_in_bounds_witness: "in_bounds (Rewrite [0xEB, 0x7F, 0x90] \<lparr>req_Offset = 2, NewBytes = []\<rparr>)"
  by (rule Rewrite_in_bounds) simp

end
