(* ===== verification/Amd64_Table.thy ===== *)
theory Amd64_Table
  imports X64_Opcodes
begin

text \<open>
  The data of the conversion of AMD-only instructions: the byte sequences and names of
  \<open>core/relinker/codegen/include/codegen/x86/Amd64OnlySubstitutionTable.hpp\<close> and the types of
  \<open>Amd64OnlySubstitutionTypes.hpp\<close>. An \<open>Entry\<close> without bytes has the empty list; \<open>Size\<close> is the
  length of \<open>Bytes\<close>.
\<close>

record Entry =
  Name :: string
  Bytes :: "u8 list"

definition Size :: "Entry \<Rightarrow> nat" where "Size entry = length (Bytes entry)"

definition kJmpRel32 :: Entry where
  "kJmpRel32 = \<lparr>Name = ''JmpRel32'', Bytes = [0xE9, 0x00, 0x00, 0x00, 0x00]\<rparr>"

definition kLeaRspBelowRedZone :: Entry where
  "kLeaRspBelowRedZone = \<lparr>Name = ''LeaRspBelowRedZone'', Bytes = [0x48, 0x8D, 0xA4, 0x24, 0x70, 0xFF, 0xFF, 0xFF]\<rparr>"

definition kLeaRspRestore :: Entry where
  "kLeaRspRestore = \<lparr>Name = ''LeaRspRestore'', Bytes = [0x48, 0x8D, 0xA4, 0x24, 0x90, 0x00, 0x00, 0x00]\<rparr>"

definition kNop1 :: Entry where
  "kNop1 = \<lparr>Name = ''Nop1'', Bytes = [0x90]\<rparr>"

definition kNop2 :: Entry where
  "kNop2 = \<lparr>Name = ''Nop2'', Bytes = [0x66, 0x90]\<rparr>"

definition kNop3 :: Entry where
  "kNop3 = \<lparr>Name = ''Nop3'', Bytes = [0x0F, 0x1F, 0x00]\<rparr>"

definition kNop4 :: Entry where
  "kNop4 = \<lparr>Name = ''Nop4'', Bytes = [0x0F, 0x1F, 0x40, 0x00]\<rparr>"

definition kNop5 :: Entry where
  "kNop5 = \<lparr>Name = ''Nop5'', Bytes = [0x0F, 0x1F, 0x44, 0x00, 0x00]\<rparr>"

definition kNop6 :: Entry where
  "kNop6 = \<lparr>Name = ''Nop6'', Bytes = [0x66, 0x0F, 0x1F, 0x44, 0x00, 0x00]\<rparr>"

definition kNop7 :: Entry where
  "kNop7 = \<lparr>Name = ''Nop7'', Bytes = [0x0F, 0x1F, 0x80, 0x00, 0x00, 0x00, 0x00]\<rparr>"

definition kPause :: Entry where
  "kPause = \<lparr>Name = ''Pause'', Bytes = [0xF3, 0x90]\<rparr>"

definition kNops :: "Entry list" where
  "kNops = [kNop1, kNop2, kNop3, kNop4, kNop5, kNop6, kNop7]"

definition kMonitorx :: Entry where "kMonitorx = \<lparr>Name = ''MONITORX'', Bytes = []\<rparr>"

definition kMwaitx :: Entry where "kMwaitx = \<lparr>Name = ''MWAITX'', Bytes = []\<rparr>"

definition kClzero :: Entry where "kClzero = \<lparr>Name = ''CLZERO'', Bytes = []\<rparr>"

definition kRdpru :: Entry where "kRdpru = \<lparr>Name = ''RDPRU'', Bytes = []\<rparr>"

definition kMcommit :: Entry where "kMcommit = \<lparr>Name = ''MCOMMIT'', Bytes = []\<rparr>"

definition kRdseed :: Entry where "kRdseed = \<lparr>Name = ''RDSEED'', Bytes = []\<rparr>"

definition kRdpid :: Entry where "kRdpid = \<lparr>Name = ''RDPID'', Bytes = []\<rparr>"

definition kClwb :: Entry where "kClwb = \<lparr>Name = ''CLWB'', Bytes = []\<rparr>"

definition kWideStore :: Entry where "kWideStore = \<lparr>Name = ''256-bit store'', Bytes = []\<rparr>"

definition kScalarCompare :: Entry where "kScalarCompare = \<lparr>Name = ''scalar compare'', Bytes = []\<rparr>"

definition kExtrq :: Entry where "kExtrq = \<lparr>Name = ''EXTRQ'', Bytes = []\<rparr>"

definition kInsertq :: Entry where "kInsertq = \<lparr>Name = ''INSERTQ'', Bytes = []\<rparr>"

definition kExtrqRegisterForm :: Entry where "kExtrqRegisterForm = \<lparr>Name = ''EXTRQ register form'', Bytes = []\<rparr>"

definition kInsertqRegisterForm :: Entry where "kInsertqRegisterForm = \<lparr>Name = ''INSERTQ register form'', Bytes = []\<rparr>"

definition kMovntss :: Entry where "kMovntss = \<lparr>Name = ''MOVNTSS'', Bytes = []\<rparr>"

definition kMovntsd :: Entry where "kMovntsd = \<lparr>Name = ''MOVNTSD'', Bytes = []\<rparr>"

definition kVrcpps :: Entry where "kVrcpps = \<lparr>Name = ''VRCPPS'', Bytes = []\<rparr>"

definition kVrsqrtps :: Entry where "kVrsqrtps = \<lparr>Name = ''VRSQRTPS'', Bytes = []\<rparr>"

definition kRcpps :: Entry where "kRcpps = \<lparr>Name = ''RCPPS'', Bytes = []\<rparr>"

definition kRsqrtps :: Entry where "kRsqrtps = \<lparr>Name = ''RSQRTPS'', Bytes = []\<rparr>"

definition kSha256rnds2 :: Entry where "kSha256rnds2 = \<lparr>Name = ''SHA256RNDS2'', Bytes = []\<rparr>"

definition kSha256msg1 :: Entry where "kSha256msg1 = \<lparr>Name = ''SHA256MSG1'', Bytes = []\<rparr>"

definition kSha256msg2 :: Entry where "kSha256msg2 = \<lparr>Name = ''SHA256MSG2'', Bytes = []\<rparr>"

definition kSha1rnds4 :: Entry where "kSha1rnds4 = \<lparr>Name = ''SHA1RNDS4'', Bytes = []\<rparr>"

definition kSha1nexte :: Entry where "kSha1nexte = \<lparr>Name = ''SHA1NEXTE'', Bytes = []\<rparr>"

definition kSha1msg1 :: Entry where "kSha1msg1 = \<lparr>Name = ''SHA1MSG1'', Bytes = []\<rparr>"

definition kSha1msg2 :: Entry where "kSha1msg2 = \<lparr>Name = ''SHA1MSG2'', Bytes = []\<rparr>"

abbreviation (input) kMovsStoreOpcode :: u8 where "kMovsStoreOpcode \<equiv> 0x11"

abbreviation (input) kPshufbZero :: u8 where "kPshufbZero \<equiv> 0x80"

abbreviation (input) kTrapFill :: u8 where "kTrapFill \<equiv> 0xCC"

abbreviation (input) kStubAlignment :: nat where "kStubAlignment \<equiv> 16"

abbreviation (input) kRedZoneSpillFrame :: nat where "kRedZoneSpillFrame \<equiv> 0x90"

subsection \<open>Types\<close>

datatype Amd64OnlyTarget = Intel | Rosetta

datatype Amd64OnlyLowering = InPlace | Trampoline | Unsupported | Kept

record StubRelocation =
  DisplacementOffset :: nat
  InstructionEnd :: nat
  SiteTarget :: int

record Amd64OnlyMatch =
  InstructionName :: string
  match_Length :: nat
  Lowering :: Amd64OnlyLowering
  ReplacementBytes :: "u8 list"
  StubBody :: "u8 list"
  ReturnBranchOffset :: nat
  Optional :: bool
  match_Relocations :: "StubRelocation list"
  RelocatableWindow :: bool

record Amd64OnlySubstitutionReport =
  report_InstructionName :: string
  report_Offset :: u64
  OriginalLength :: nat
  ReplacementLength :: nat
  report_Lowering :: Amd64OnlyLowering

text \<open>Every NOP of the table has the length its name says, which \<open>_nopFill\<close> and \<open>_inPlace\<close> rely on.\<close>

lemma kNops_length [simp]: "length kNops = 7"
  by (simp add: kNops_def)

lemma kNops_Size: "i < 7 \<Longrightarrow> length (Bytes (kNops ! i)) = Suc i"
  by (simp add: less_Suc_eq numeral_eq_Suc kNops_def kNop1_def kNop2_def kNop3_def kNop4_def kNop5_def kNop6_def kNop7_def)
    auto

end
