(* ===== verification/Stub_Body.thy ===== *)
theory Stub_Body
  imports Amd64_Table X64_Decoder
begin

text \<open>
  The builder of out-of-line stubs, \<open>core/relinker/codegen/src/x86/StubBodyBuilder.cpp\<close>. A stub is code that
  runs instead of an instruction at its site; \<open>_siteOffset\<close> is the position, relative to the site, of the
  instruction being lowered. An operation that cannot fail maps a builder to a builder; one that throws
  returns a result.
\<close>

abbreviation (input) kPrefixPacked :: u8 where "kPrefixPacked \<equiv> 0x66"
abbreviation (input) kPrefixScalar :: u8 where "kPrefixScalar \<equiv> 0xF3"
abbreviation (input) kRexBase :: u8 where "kRexBase \<equiv> 0x40"
abbreviation (input) kRexR :: u8 where "kRexR \<equiv> 0x04"
abbreviation (input) kRexX :: u8 where "kRexX \<equiv> 0x02"
abbreviation (input) kRexB :: u8 where "kRexB \<equiv> 0x01"
abbreviation (input) kModRmRegister :: u8 where "kModRmRegister \<equiv> 0xC0"
abbreviation (input) kModRmRip :: u8 where "kModRmRip \<equiv> 0x05"
abbreviation (input) kModRmRspBase :: u8 where "kModRmRspBase \<equiv> 0x04"
abbreviation (input) kSibRsp :: u8 where "kSibRsp \<equiv> 0x24"
abbreviation (input) kShiftDwords :: u8 where "kShiftDwords \<equiv> 0x72"
abbreviation (input) kShiftQwords :: u8 where "kShiftQwords \<equiv> 0x73"
abbreviation (input) kMovdqu :: u8 where "kMovdqu \<equiv> 0x6F"

subsection \<open>Instruction encodings\<close>

definition stub_rex :: "u8 \<Rightarrow> u8 \<Rightarrow> u8" where
  "stub_rex reg rm = kRexBase OR (if reg AND 8 \<noteq> 0 then kRexR else 0) OR (if rm AND 8 \<noteq> 0 then kRexB else 0)"

text \<open>\<open>_emit\<close>: the bytes it appends.\<close>

definition emit_bytes :: "u8 \<Rightarrow> u8 \<Rightarrow> u8 \<Rightarrow> u8 list \<Rightarrow> u8 \<Rightarrow> u8 list" where
  "emit_bytes prefix reg rm opcode modrm =
    [prefix] @ (let rex = stub_rex reg rm in if rex \<noteq> kRexBase then [rex] else []) @ opcode @ [modrm]"

definition displacementSize :: "u8 \<Rightarrow> u8 \<Rightarrow> u8 \<Rightarrow> nat" where
  "displacementSize md rm sib =
    (if md = ModRmModDisp8 then Disp8Size
     else if md = ModRmModDisp32 \<or> (md = ModRmModIndirect \<and> rm = ModRmRmRipRelative) \<or>
             (md = ModRmModIndirect \<and> rm = ModRmRmSibPresent \<and> sib AND SibBaseMask = SibBaseDisp32) then Disp32Size
     else 0)"

definition shift_imm_bytes :: "u8 \<Rightarrow> u8 \<Rightarrow> u8 \<Rightarrow> u8 \<Rightarrow> u8 list" where
  "shift_imm_bytes opcode extension reg imm =
     emit_bytes kPrefixPacked 0 reg [0x0F, opcode] (kModRmRegister OR push_bit 3 extension OR (reg AND 7)) @ [imm]"

definition EmitSse :: "u8 list \<Rightarrow> u8 \<Rightarrow> u8 list \<Rightarrow> u8 \<Rightarrow> u8 \<Rightarrow> u8 list" where
  "EmitSse out prefix opcode dst src =
     out @ emit_bytes prefix dst src opcode (kModRmRegister OR push_bit 3 (dst AND 7) OR (src AND 7))"

definition EmitShiftImm :: "u8 list \<Rightarrow> u8 \<Rightarrow> u8 \<Rightarrow> u8 \<Rightarrow> u8 list" where
  "EmitShiftImm out extension reg imm = out @ shift_imm_bytes kShiftQwords extension reg imm"

subsection \<open>Memory operands\<close>

record MemoryOperand =
  mo_Prefixes :: "u8 list"
  mo_RexIndexBase :: u8
  mo_Mod :: u8
  mo_Rm :: u8
  mo_Sib :: u8
  mo_Displacement :: int
  mo_StackBase :: bool
  mo_EncodedSize :: nat
  mo_RipRelative :: bool
  mo_InstructionLength :: nat

text \<open>The SIB byte, whether it names \<open>RSP\<close> as the base, and the position behind it.\<close>

definition operand_sib :: "u8 list \<Rightarrow> u8 \<Rightarrow> u8 \<Rightarrow> nat \<Rightarrow> (u8 \<times> bool \<times> nat) result" where
  "operand_sib data rm rex pos =
    (if rm = ModRmRmSibPresent then
       if length data \<le> pos then throw ''Memory operand truncated before its SIB byte''
       else bindE (byte_at data pos) (\<lambda>sib.
         Inr (sib, sib AND SibBaseMask = ModRmRmSibPresent \<and> rex AND kRexB = 0, pos + 1))
     else Inr (0, False, pos))"

definition operand_displacement :: "u8 list \<Rightarrow> nat \<Rightarrow> nat \<Rightarrow> int result" where
  "operand_displacement data pos sz =
    (if length data < pos + sz then throw ''Memory operand truncated in its displacement''
     else if sz = Disp8Size then read_s8 data pos
     else if sz = Disp32Size then read_s32 data pos else Inr 0)"

definition DecodeMemoryOperand :: "u8 list \<Rightarrow> nat \<Rightarrow> u8 \<Rightarrow> u8 list \<Rightarrow> MemoryOperand result" where
  "DecodeMemoryOperand data modRmOffset rex prefixes =
    (if length data \<le> modRmOffset then throw ''Memory operand truncated before its ModRM byte''
     else bindE (byte_at data modRmOffset) (\<lambda>modrm.
       let md = modrm_mod modrm; rm = modrm_rm modrm in
       if md = ModRmModRegister then throw ''Register operand where a memory operand was expected''
       else
         bindE (operand_sib data rm rex (modRmOffset + 1)) (\<lambda>(sib, stackBase, pos).
           let sz = displacementSize md rm sib in
           bindE (operand_displacement data pos sz) (\<lambda>displacement.
             Inr \<lparr>mo_Prefixes = prefixes, mo_RexIndexBase = rex AND (kRexX OR kRexB), mo_Mod = md, mo_Rm = rm,
               mo_Sib = sib, mo_Displacement = displacement, mo_StackBase = stackBase,
               mo_EncodedSize = pos + sz - modRmOffset,
               mo_RipRelative = (md = ModRmModIndirect \<and> rm = ModRmRmRipRelative),
               mo_InstructionLength = length data\<rparr>))))"

subsection \<open>The builder\<close>

type_synonym StubConstant = "u8 list"

record LoweredBody =
  lb_Bytes :: "u8 list"
  lb_ReturnBranchOffset :: nat
  lb_Relocations :: "StubRelocation list"

record Fixup =
  fx_DisplacementOffset :: nat
  fx_InstructionEnd :: nat
  fx_ConstantIndex :: nat

record StubBodyBuilder =
  sb_bytes :: "u8 list"
  sb_fixups :: "Fixup list"
  sb_constants :: "StubConstant list"
  sb_relocations :: "StubRelocation list"
  sb_stackDepth :: u64
  sb_siteOffset :: int

definition new_builder :: StubBodyBuilder where
  "new_builder = \<lparr>sb_bytes = [], sb_fixups = [], sb_constants = [], sb_relocations = [], sb_stackDepth = 0,
     sb_siteOffset = 0\<rparr>"

definition Raw :: "u8 list \<Rightarrow> StubBodyBuilder \<Rightarrow> StubBodyBuilder" where
  "Raw bytes b = b\<lparr>sb_bytes := sb_bytes b @ bytes\<rparr>"

definition Sse :: "u8 \<Rightarrow> u8 list \<Rightarrow> u8 \<Rightarrow> u8 \<Rightarrow> StubBodyBuilder \<Rightarrow> StubBodyBuilder" where
  "Sse prefix opcode dst src b = b\<lparr>sb_bytes := EmitSse (sb_bytes b) prefix opcode dst src\<rparr>"

definition SsePlain :: "u8 list \<Rightarrow> u8 \<Rightarrow> u8 \<Rightarrow> StubBodyBuilder \<Rightarrow> StubBodyBuilder" where
  "SsePlain opcode dst src b =
    (let rex = stub_rex dst src in
     Raw ((if rex \<noteq> kRexBase then [rex] else []) @ opcode @
       [kModRmRegister OR push_bit 3 (dst AND 7) OR (src AND 7)]) b)"

definition SseImm :: "u8 \<Rightarrow> u8 list \<Rightarrow> u8 \<Rightarrow> u8 \<Rightarrow> u8 \<Rightarrow> StubBodyBuilder \<Rightarrow> StubBodyBuilder" where
  "SseImm prefix opcode dst src imm b =
     b\<lparr>sb_bytes := EmitSse (sb_bytes b) prefix opcode dst src @ [imm]\<rparr>"

definition ShiftImm :: "u8 \<Rightarrow> u8 \<Rightarrow> u8 \<Rightarrow> StubBodyBuilder \<Rightarrow> StubBodyBuilder" where
  "ShiftImm extension reg imm = Raw (shift_imm_bytes kShiftQwords extension reg imm)"

definition ShiftDwordImm :: "u8 \<Rightarrow> u8 \<Rightarrow> u8 \<Rightarrow> StubBodyBuilder \<Rightarrow> StubBodyBuilder" where
  "ShiftDwordImm extension reg imm = Raw (shift_imm_bytes kShiftDwords extension reg imm)"

definition RipOperand :: "u8 list \<Rightarrow> u8 \<Rightarrow> StubConstant \<Rightarrow> StubBodyBuilder \<Rightarrow> StubBodyBuilder" where
  "RipOperand opcode reg constant b =
    (let bytes = sb_bytes b @ emit_bytes kPrefixPacked reg 0 opcode (push_bit 3 (reg AND 7) OR kModRmRip) in
     b\<lparr>sb_fixups := sb_fixups b @ [\<lparr>fx_DisplacementOffset = length bytes, fx_InstructionEnd = length bytes + 4,
         fx_ConstantIndex = length (sb_constants b)\<rparr>],
       sb_bytes := bytes @ replicate 4 0,
       sb_constants := sb_constants b @ [constant]\<rparr>)"

text \<open>Adding a relocation for the four zero bytes just appended.\<close>

definition push_relocation :: "nat \<Rightarrow> nat \<Rightarrow> int \<Rightarrow> StubBodyBuilder \<Rightarrow> StubBodyBuilder" where
  "push_relocation displacement end target b =
     b\<lparr>sb_relocations := sb_relocations b @
       [\<lparr>DisplacementOffset = displacement, InstructionEnd = end, SiteTarget = target\<rparr>]\<rparr>"

text \<open>\<open>Load\<close>: the bytes before the displacement, then the operation.\<close>

definition load_bytes :: "u8 \<Rightarrow> MemoryOperand \<Rightarrow> u8 \<Rightarrow> u8 list" where
  "load_bytes reg operand md =
    (let rex = kRexBase OR (if reg AND 8 \<noteq> 0 then kRexR else 0) OR mo_RexIndexBase operand in
     mo_Prefixes operand @ [kPrefixScalar] @ (if rex \<noteq> kRexBase then [rex] else []) @
     [TwoByteOpcodeEscape, kMovdqu, push_bit ModRmModShift md OR push_bit ModRmRegShift (reg AND 7) OR mo_Rm operand] @
     (if mo_Rm operand = ModRmRmSibPresent then [mo_Sib operand] else []))"

definition Load :: "u8 \<Rightarrow> MemoryOperand \<Rightarrow> StubBodyBuilder \<Rightarrow> StubBodyBuilder result" where
  "Load reg operand b =
    (let displacement = mo_Displacement operand + (if mo_StackBase operand then sint (sb_stackDepth b) else 0) in
     if 2 ^ 31 - 1 < displacement then throw ''Stack displacement does not fit after spilling''
     else
       let md = (if mo_StackBase operand \<and> sb_stackDepth b \<noteq> 0 then ModRmModDisp32 else mo_Mod operand);
           b1 = Raw (load_bytes reg operand md) b; pos = length (sb_bytes b1) in
       if mo_RipRelative operand then
         Inr (push_relocation pos (pos + Disp32Size)
           (sb_siteOffset b + int (mo_InstructionLength operand) + mo_Displacement operand)
           (Raw (replicate Disp32Size 0) b1))
       else
         Inr (Raw (take (displacementSize md (mo_Rm operand) (mo_Sib operand))
           (le32_bytes (word_of_int displacement))) b1))"

definition Spill :: "u8 \<Rightarrow> StubBodyBuilder \<Rightarrow> StubBodyBuilder" where
  "Spill reg b =
     Raw (Bytes kLeaRspBelowRedZone @
       emit_bytes kPrefixScalar reg 0 [0x0F, 0x7F] (push_bit 3 (reg AND 7) OR kModRmRspBase) @ [kSibRsp])
     (b\<lparr>sb_stackDepth := sb_stackDepth b + of_nat kRedZoneSpillFrame\<rparr>)"

definition Restore :: "u8 \<Rightarrow> StubBodyBuilder \<Rightarrow> StubBodyBuilder" where
  "Restore reg b =
    (let b1 = Raw (emit_bytes kPrefixScalar reg 0 [0x0F, 0x6F] (push_bit 3 (reg AND 7) OR kModRmRspBase) @
         [kSibRsp] @ Bytes kLeaRspRestore) b
     in b1\<lparr>sb_stackDepth := sb_stackDepth b1 - of_nat kRedZoneSpillFrame\<rparr>)"

definition Advance :: "nat \<Rightarrow> StubBodyBuilder \<Rightarrow> StubBodyBuilder" where
  "Advance len b = b\<lparr>sb_siteOffset := sb_siteOffset b + int len\<rparr>"

definition Seek :: "int \<Rightarrow> StubBodyBuilder \<Rightarrow> StubBodyBuilder" where
  "Seek siteOffset b = b\<lparr>sb_siteOffset := siteOffset\<rparr>"

definition Move :: "u8 list \<Rightarrow> nat option \<Rightarrow> StubBodyBuilder \<Rightarrow> StubBodyBuilder result" where
  "Move instruction ripDisplacementOffset b =
    (let start = length (sb_bytes b); b1 = Raw instruction b in
     bindE (case ripDisplacementOffset of
       None \<Rightarrow> Inr b1
     | Some off \<Rightarrow>
         if length instruction < off \<or> length instruction - off < Disp32Size
         then throw ''RIP-relative displacement lies outside its instruction''
         else bindE (read_s32 instruction off) (\<lambda>value.
           Inr (push_relocation (start + off) (start + length instruction)
             (sb_siteOffset b + int (length instruction) + value)
             (b1\<lparr>sb_bytes := write_bytes (sb_bytes b1) (start + off) (replicate Disp32Size 0)\<rparr>))))
       (\<lambda>b2. Inr (Advance (length instruction) b2)))"

definition RipRelative :: "u8 list \<Rightarrow> nat \<Rightarrow> int \<Rightarrow> StubBodyBuilder \<Rightarrow> StubBodyBuilder result" where
  "RipRelative instruction displacementOffset target b =
    (if length instruction < displacementOffset \<or> length instruction - displacementOffset < Disp32Size
     then throw ''RIP-relative displacement lies outside its instruction''
     else let start = length (sb_bytes b); b1 = Raw instruction b in
       Inr (push_relocation (start + displacementOffset) (start + length instruction) (sb_siteOffset b + target)
         (b1\<lparr>sb_bytes := write_bytes (sb_bytes b1) (start + displacementOffset) (replicate Disp32Size 0)\<rparr>)))"

definition rel32 :: "u8 list \<Rightarrow> int \<Rightarrow> StubBodyBuilder \<Rightarrow> StubBodyBuilder" where
  "rel32 opcode siteTarget b =
    (let b1 = Raw opcode b; displacement = length (sb_bytes b1); b2 = Raw (replicate Disp32Size 0) b1 in
     push_relocation displacement (length (sb_bytes b2)) siteTarget b2)"

definition pushReturnAddress :: "int \<Rightarrow> StubBodyBuilder \<Rightarrow> StubBodyBuilder" where
  "pushReturnAddress siteTarget b =
     Raw [0x48, 0x89, 0x44, 0x24, 0x08, 0x58] (rel32 [0x48, 0x8D, 0x05] siteTarget
       (Raw [0x48, 0x8D, 0x64, 0x24, 0xF8, 0x50] b))"

definition JumpTo :: "int \<Rightarrow> StubBodyBuilder \<Rightarrow> StubBodyBuilder" where
  "JumpTo siteTarget = rel32 [OneByteJmpRel32] siteTarget"

text \<open>The prefixes of a branch that may move: the loop of \<open>MoveControlFlow\<close> over the bytes before the opcode.\<close>

fun check_branch_prefixes :: "u8 list \<Rightarrow> unit result" where
  "check_branch_prefixes [] = Inr ()"
| "check_branch_prefixes (prefix # rest) =
    (if prefix \<noteq> PrefixSegCs \<and> prefix \<noteq> PrefixSegDs \<and> prefix \<noteq> PrefixRepne \<and> prefix \<noteq> PrefixAddressSize \<and>
        prefix AND 0xF0 \<noteq> kRexBase
     then throw ''A relative branch with this prefix cannot move into a stub''
     else check_branch_prefixes rest)"

definition MoveControlFlow :: "u8 list \<Rightarrow> DecodedInstructionInfo \<Rightarrow> StubBodyBuilder \<Rightarrow> StubBodyBuilder result" where
  "MoveControlFlow instruction info b =
    (let end = sb_siteOffset b + int (length instruction) in
     if FlowKind info = IndirectCall then throw ''A register or memory call cannot move into a stub''
     else if FlowKind info = Call \<and> HasRipRelativeDisp info then
       let b1 = pushReturnAddress end b; at = RipRelativeDispOffset info - 1 in
       bindE (byte_at instruction at) (\<lambda>modrm.
         let jump = instruction[at := (modrm AND NOT (push_bit ModRmRegShift ModRmRegMask)) OR push_bit ModRmRegShift 4] in
         Move jump (Some (RipRelativeDispOffset info)) b1)
     else if \<not> HasBranchTarget info \<or> HasRipRelativeDisp info then
       Move instruction (if HasRipRelativeDisp info then Some (RipRelativeDispOffset info) else None) b
     else
       bindE (if length instruction < OpcodeOffset info then Inl OutOfBounds
              else check_branch_prefixes (take (OpcodeOffset info) instruction)) (\<lambda>_.
         let target = end + BranchDisp info in
         bindE
           (if IsTwoByteOpcode info then Inr (rel32 [TwoByteOpcodeEscape, Opcode info] target b)
            else if Opcode info = OneByteCallRel32 then
              Inr (rel32 [OneByteJmpRel32] target (pushReturnAddress end b))
            else if Opcode info = OneByteJmpRel32 \<or> Opcode info = OneByteJmpRel8 then
              Inr (rel32 [OneByteJmpRel32] target b)
            else if OneByteJccRel8Min \<le> Opcode info \<and> Opcode info \<le> OneByteJccRel8Max then
              Inr (rel32 [TwoByteOpcodeEscape, TwoByteJccRel32Min OR (Opcode info AND 0x0F)] target b)
            else throw ''A LOOP or JRCXZ branch cannot move into a stub'')
           (\<lambda>b1. Inr (Advance (length instruction) b1))))"

subsection \<open>\<open>Finish\<close>\<close>

function pad_trap :: "u8 list \<Rightarrow> u8 list" where
  "pad_trap bytes = (if length bytes mod kStubAlignment \<noteq> 0 then pad_trap (bytes @ [kTrapFill]) else bytes)"
  by pat_completeness auto

termination
proof (relation "measure (\<lambda>bytes. (16 - length bytes mod 16) mod 16)", goal_cases)
  case (2 bytes)
  moreover have "length bytes mod 16 < 16" by simp
  ultimately show ?case by (simp add: mod_Suc) linarith
qed simp

declare pad_trap.simps [simp del]

fun place_constants :: "StubConstant list \<Rightarrow> u8 list \<Rightarrow> u8 list \<times> nat list" where
  "place_constants [] bytes = (bytes, [])"
| "place_constants (constant # rest) bytes =
    (let padded = pad_trap bytes; (bytes, offsets) = place_constants rest (padded @ constant)
     in (bytes, length padded # offsets))"

text \<open>The displacement is written byte by byte; a position past the end would be an invalid access.\<close>

fun apply_fixups :: "nat list \<Rightarrow> Fixup list \<Rightarrow> u8 list \<Rightarrow> u8 list result" where
  "apply_fixups constantOffsets [] bytes = Inr bytes"
| "apply_fixups constantOffsets (fixup # rest) bytes =
    (if length constantOffsets \<le> fx_ConstantIndex fixup \<or> length bytes < fx_DisplacementOffset fixup + 4
     then Inl OutOfBounds
     else let displacement = int (constantOffsets ! fx_ConstantIndex fixup) - int (fx_InstructionEnd fixup) in
       apply_fixups constantOffsets rest
         (write_bytes bytes (fx_DisplacementOffset fixup) (le32_bytes (word_of_int displacement))))"

definition Finish :: "StubBodyBuilder \<Rightarrow> LoweredBody result" where
  "Finish b =
    (let returnBranchOffset = length (sb_bytes b);
         (bytes, constantOffsets) = place_constants (sb_constants b) (sb_bytes b @ Bytes kJmpRel32) in
     bindE (apply_fixups constantOffsets (sb_fixups b) bytes) (\<lambda>bytes.
       Inr \<lparr>lb_Bytes = bytes, lb_ReturnBranchOffset = returnBranchOffset, lb_Relocations = sb_relocations b\<rparr>))"

subsection \<open>\<open>ApplyStubRelocations\<close>\<close>

definition relocation_value :: "u64 \<Rightarrow> u64 \<Rightarrow> StubRelocation \<Rightarrow> int" where
  "relocation_value siteAddress stubAddress relocation =
    (let target = siteAddress + word_of_int (SiteTarget relocation)
     in sint (target - (stubAddress + of_nat (InstructionEnd relocation))))"

fun ApplyStubRelocations ::
    "u8 list \<Rightarrow> StubRelocation list \<Rightarrow> u64 \<Rightarrow> u64 \<Rightarrow> u64 \<Rightarrow> u8 list result" where
  "ApplyStubRelocations body [] siteAddress stubAddress failureOffset = Inr body"
| "ApplyStubRelocations body (relocation # rest) siteAddress stubAddress failureOffset =
    (if length body < InstructionEnd relocation \<or> InstructionEnd relocation < DisplacementOffset relocation \<or>
        InstructionEnd relocation - DisplacementOffset relocation < Disp32Size
     then Inl (CodegenException ''Stub relocation lies outside the stub body'' failureOffset)
     else let displacement = relocation_value siteAddress stubAddress relocation in
       if displacement < - (2 ^ 31) \<or> 2 ^ 31 - 1 < displacement
       then Inl (CodegenException ''RIP-relative operand is out of rel32 range from its stub'' failureOffset)
       else ApplyStubRelocations
         (write_bytes body (DisplacementOffset relocation) (le32_bytes (word_of_int displacement)))
         rest siteAddress stubAddress failureOffset)"

end
