(* ===== verification/Operands.thy ===== *)
theory Operands
  imports Stub_Body
begin

text \<open>
  The operand decoders of the instructions that are converted, one per file of
  \<open>core/relinker/codegen/src/x86\<close>: \<open>ClzeroOperands\<close>, \<open>ReciprocalOperands\<close>, \<open>ScalarCompareOperands\<close>,
  \<open>Sha1Operands\<close>, \<open>Sha256Operands\<close>, \<open>Sse4aOperands\<close>, \<open>WideStoreOperands\<close> and \<open>DecodeAndn\<close> of
  \<open>AndnLowering\<close>. A decoder that returns \<open>std::optional\<close> returns an option here; the reads that a condition
  does not guard itself are checked reads.
\<close>

text \<open>The loops \<open>while (pos < length && p(data[pos])) ++pos\<close>.\<close>

fun count_while :: "(u8 \<Rightarrow> bool) \<Rightarrow> u8 list \<Rightarrow> nat" where
  "count_while P [] = 0"
| "count_while P (b # rest) = (if P b then count_while P rest + 1 else 0)"

text \<open>The register number of a ModRM field with its extension bit.\<close>

definition reg_operand :: "u8 \<Rightarrow> bool \<Rightarrow> u8" where
  "reg_operand modrm extension = modrm_reg modrm OR (if extension then 8 else 0)"

definition rm_operand :: "u8 \<Rightarrow> bool \<Rightarrow> u8" where
  "rm_operand modrm extension = modrm_rm modrm OR (if extension then 8 else 0)"

subsection \<open>CLZERO\<close>

record ClzeroOperands =
  cz_AddressSize32 :: bool

abbreviation (input) kMaxInstructionLength :: nat where "kMaxInstructionLength \<equiv> 15"

fun clzero_prefixes :: "u8 list \<Rightarrow> nat \<Rightarrow> bool \<Rightarrow> (nat \<times> bool) result" where
  "clzero_prefixes [] pos address32 = Inr (pos, address32)"
| "clzero_prefixes (b # rest) pos address32 =
    (if RexMin \<le> b \<and> b \<le> RexMax then clzero_prefixes rest (pos + 1) address32
     else if b = PrefixLock then throw ''CLZERO with a LOCK prefix''
     else if b = PrefixSegFs \<or> b = PrefixSegGs then throw ''CLZERO with an FS or GS segment override''
     else if b = PrefixOperandSize \<or> b = PrefixRepne \<or> b = PrefixRep then throw ''Not a CLZERO instruction''
     else if b = PrefixAddressSize then clzero_prefixes rest (pos + 1) True
     else if b \<noteq> PrefixSegCs \<and> b \<noteq> PrefixSegSs \<and> b \<noteq> PrefixSegDs \<and> b \<noteq> PrefixSegEs then Inr (pos, address32)
     else clzero_prefixes rest (pos + 1) address32)"

definition DecodeClzero :: "u8 list \<Rightarrow> ClzeroOperands result" where
  "DecodeClzero data =
    (if kMaxInstructionLength < length data then throw ''CLZERO longer than 15 bytes''
     else bindE (clzero_prefixes data 0 False) (\<lambda>(pos, address32).
       if pos + 3 \<noteq> length data \<or> data ! pos \<noteq> TwoByteOpcodeEscape \<or> data ! (pos + 1) \<noteq> TwoByteGrp7 \<or>
          data ! (pos + 2) \<noteq> 0xFC
       then throw ''Not a CLZERO instruction''
       else Inr \<lparr>cz_AddressSize32 = address32\<rparr>))"

subsection \<open>RCPPS, RSQRTPS and their VEX forms\<close>

datatype ReciprocalOperation = Reciprocal | ReciprocalSquareRoot

record ReciprocalOperands =
  rc_Operation :: ReciprocalOperation
  rc_Destination :: u8
  rc_Source :: u8
  rc_Vex :: bool

definition reciprocal_body ::
    "u8 list \<Rightarrow> bool \<Rightarrow> bool \<Rightarrow> u8 \<Rightarrow> nat \<Rightarrow> bool \<Rightarrow> ReciprocalOperands option result" where
  "reciprocal_body data registerExtension rmExtension payload opcodeOffset vex =
    (let vvvv = drop_bit 3 payload AND 0x0F; wide = (payload AND 0x04 \<noteq> 0); pp = payload AND 0x03 in
     if vex \<and> (vvvv \<noteq> 0x0F \<or> wide \<or> pp \<noteq> 0) then Inr None
     else bindE (byte_at data opcodeOffset) (\<lambda>opcode.
       if opcode \<noteq> 0x52 \<and> opcode \<noteq> 0x53 then Inr None
       else bindE (byte_at data (opcodeOffset + 1)) (\<lambda>modrm.
         if modrm_mod modrm \<noteq> ModRmModRegister then Inr None
         else Inr (Some \<lparr>rc_Operation = (if opcode = 0x52 then ReciprocalSquareRoot else Reciprocal),
           rc_Destination = reg_operand modrm registerExtension,
           rc_Source = rm_operand modrm rmExtension, rc_Vex = vex\<rparr>))))"

definition DecodeReciprocal :: "u8 list \<Rightarrow> ReciprocalOperands option result" where
  "DecodeReciprocal data =
    (if length data < 3 then Inr None
     else if data ! 0 = OneByteVex2 \<and> length data = 4 then
       reciprocal_body data (data ! 1 AND 0x80 = 0) False (data ! 1) 2 True
     else if data ! 0 = OneByteVex3 \<and> length data = 5 then
       (if data ! 1 AND Vex3MapMask \<noteq> 0x01 then Inr None
        else reciprocal_body data (data ! 1 AND 0x80 = 0) (data ! 1 AND 0x20 = 0) (data ! 2) 3 True)
     else if data ! 0 = TwoByteOpcodeEscape \<and> length data = 3 then reciprocal_body data False False 0 1 False
     else if RexMin \<le> data ! 0 \<and> data ! 0 \<le> RexMax \<and> length data = 4 \<and> data ! 1 = TwoByteOpcodeEscape then
       reciprocal_body data (data ! 0 AND 0x04 \<noteq> 0) (data ! 0 AND 0x01 \<noteq> 0) 0 2 False
     else Inr None)"

subsection \<open>Scalar compares with a predicate Rosetta lacks\<close>

record ScalarCompareOperands =
  sc_RipDisplacementOffset :: "nat option"
  sc_RipTarget :: int

definition segmentPrefix :: "u8 \<Rightarrow> bool" where
  "segmentPrefix prefix \<longleftrightarrow> prefix = PrefixSegCs \<or> prefix = PrefixSegSs \<or> prefix = PrefixSegDs \<or>
     prefix = PrefixSegEs \<or> prefix = PrefixSegFs \<or> prefix = PrefixSegGs"

fun compare_prefixes :: "u8 list \<Rightarrow> nat \<Rightarrow> bool \<Rightarrow> bool \<Rightarrow> nat \<times> bool \<times> bool" where
  "compare_prefixes [] pos single double = (pos, single, double)"
| "compare_prefixes (b # rest) pos single double =
    (if b = PrefixRep then compare_prefixes rest (pos + 1) True double
     else if b = PrefixRepne then compare_prefixes rest (pos + 1) single True
     else if \<not> segmentPrefix b then (pos, single, double)
     else compare_prefixes rest (pos + 1) single double)"

text \<open>The position of the ModRM byte, if the encoding is that of a scalar compare.\<close>

definition compare_modrm :: "u8 list \<Rightarrow> nat option" where
  "compare_modrm data =
    (let pos = count_while segmentPrefix data; length = length data in
     if pos < length \<and> data ! pos = OneByteVex2 then
       (if length < pos + 4 \<or> data ! (pos + 1) AND 0x03 < 0x02 \<or> data ! (pos + 2) \<noteq> 0xC2 then None
        else Some (pos + 3))
     else if pos < length \<and> data ! pos = OneByteVex3 then
       (if length < pos + 5 \<or> data ! (pos + 1) AND Vex3MapMask \<noteq> 0x01 \<or> data ! (pos + 2) AND 0x03 < 0x02 \<or>
           data ! (pos + 3) \<noteq> 0xC2 then None
        else Some (pos + 4))
     else
       (let (pos, single, double) = compare_prefixes (drop pos data) pos False False in
        if single = double then None
        else let pos = (if pos < length \<and> RexMin \<le> data ! pos \<and> data ! pos \<le> RexMax then pos + 1 else pos) in
          if length < pos + 3 \<or> data ! pos \<noteq> TwoByteOpcodeEscape \<or> data ! (pos + 1) \<noteq> 0xC2 then None
          else Some (pos + 2)))"

text \<open>The SIB byte and the size of the displacement, as \<open>DecodeScalarCompare\<close> and \<open>DecodeVexWideStore\<close> find them.\<close>

definition optional_sib :: "u8 list \<Rightarrow> bool \<Rightarrow> nat \<Rightarrow> (u8 option \<times> nat) option result" where
  "optional_sib data present cursor =
    (if present then
       if length data \<le> cursor then Inr None
       else bindE (byte_at data cursor) (\<lambda>sib. Inr (Some (Some sib, cursor + 1)))
     else Inr (Some (None, cursor)))"

definition sib_absolute :: "u8 \<Rightarrow> u8 option \<Rightarrow> bool" where
  "sib_absolute md sib \<longleftrightarrow> md = ModRmModIndirect \<and> (case sib of None \<Rightarrow> False | Some s \<Rightarrow> s AND SibBaseMask = SibBaseDisp32)"

definition operand_displacement_size :: "u8 \<Rightarrow> bool \<Rightarrow> bool \<Rightarrow> nat" where
  "operand_displacement_size md ripRelative absolute =
    (if md = ModRmModDisp8 then Disp8Size
     else if md = ModRmModDisp32 \<or> ripRelative \<or> absolute then Disp32Size else 0)"

definition DecodeScalarCompare :: "u8 list \<Rightarrow> ScalarCompareOperands option result" where
  "DecodeScalarCompare data =
    (case compare_modrm data of None \<Rightarrow> Inr None
     | Some modRmOffset \<Rightarrow>
       bindE (byte_at data modRmOffset) (\<lambda>modrm.
         let md = modrm_mod modrm; rm = modrm_rm modrm in
         bindE (optional_sib data (md \<noteq> ModRmModRegister \<and> rm = ModRmRmSibPresent) (modRmOffset + 1)) (\<lambda>r.
           case r of None \<Rightarrow> Inr None
           | Some (sib, cursor) \<Rightarrow>
             let ripRelative = (md = ModRmModIndirect \<and> rm = ModRmRmRipRelative);
                 sz = operand_displacement_size md ripRelative (sib_absolute md sib) in
             if cursor + sz + ImmSize8 \<noteq> length data \<or> data ! (length data - 1) \<le> 0x02 then Inr None
             else if ripRelative then
               bindE (read_s32 data cursor) (\<lambda>displacement.
                 Inr (Some \<lparr>sc_RipDisplacementOffset = Some cursor, sc_RipTarget = int (length data) + displacement\<rparr>))
             else Inr (Some \<lparr>sc_RipDisplacementOffset = None, sc_RipTarget = 0\<rparr>))))"

subsection \<open>SHA-1 and SHA-256\<close>

text \<open>The prefix loop of \<open>DecodeSha1\<close> and \<open>DecodeSha256\<close>: position, REX and the prefixes that are kept.\<close>

fun sha_prefixes :: "string \<Rightarrow> u8 list \<Rightarrow> nat \<Rightarrow> u8 \<Rightarrow> u8 list \<Rightarrow> (nat \<times> u8 \<times> u8 list) result" where
  "sha_prefixes message [] pos rex prefixes = Inr (pos, rex, prefixes)"
| "sha_prefixes message (b # rest) pos rex prefixes =
    (if RexMin \<le> b \<and> b \<le> RexMax then sha_prefixes message rest (pos + 1) b prefixes
     else if b = PrefixOperandSize \<or> b = PrefixRepne \<or> b = PrefixRep then throw message
     else if b \<noteq> PrefixLock \<and> b \<noteq> PrefixAddressSize \<and>
             b \<noteq> PrefixSegCs \<and> b \<noteq> PrefixSegSs \<and> b \<noteq> PrefixSegDs \<and>
             b \<noteq> PrefixSegEs \<and> b \<noteq> PrefixSegFs \<and> b \<noteq> PrefixSegGs then Inr (pos, rex, prefixes)
     else sha_prefixes message rest (pos + 1) 0 (if b \<noteq> PrefixLock then prefixes @ [b] else prefixes))"

datatype Sha1Operation = Sha1Rnds4 | Sha1Nexte | Sha1Msg1 | Sha1Msg2

record Sha1Operands =
  s1_Operation :: Sha1Operation
  s1_Destination :: u8
  s1_Source :: u8
  s1_Function :: u8
  s1_Memory :: "MemoryOperand option"

definition DecodeSha1 :: "u8 list \<Rightarrow> Sha1Operands result" where
  "DecodeSha1 data =
    bindE (sha_prefixes ''Not a SHA-1 instruction'' data 0 0 []) (\<lambda>(pos, rex, prefixes).
    if length data < pos + 4 \<or> data ! pos \<noteq> TwoByteOpcodeEscape then throw ''Not a SHA-1 instruction''
    else bindE
      (if data ! (pos + 1) = ThreeByteEscape3A \<and> data ! (pos + 2) = 0xCC then Inr Sha1Rnds4
       else if data ! (pos + 1) = ThreeByteEscape38 \<and> data ! (pos + 2) = 0xC8 then Inr Sha1Nexte
       else if data ! (pos + 1) = ThreeByteEscape38 \<and> data ! (pos + 2) = 0xC9 then Inr Sha1Msg1
       else if data ! (pos + 1) = ThreeByteEscape38 \<and> data ! (pos + 2) = 0xCA then Inr Sha1Msg2
       else throw ''Not a SHA-1 instruction'') (\<lambda>operation.
    let modRmOffset = pos + 3 in
    bindE (byte_at data modRmOffset) (\<lambda>modrm.
    bindE
      (if modrm_mod modrm \<noteq> ModRmModRegister then
         bindE (DecodeMemoryOperand data modRmOffset rex prefixes) (\<lambda>memory.
           Inr (0, Some memory, modRmOffset + mo_EncodedSize memory))
       else Inr (rm_operand modrm (rex AND 0x1 \<noteq> 0), None, modRmOffset + 1)) (\<lambda>(source, memory, immediateOffset).
    bindE
      (if operation = Sha1Rnds4 then
         if length data \<le> immediateOffset then throw ''SHA1RNDS4 truncated before its immediate''
         else bindE (byte_at data immediateOffset) (\<lambda>imm. Inr (imm AND 3))
       else Inr 0) (\<lambda>func.
    if (case memory of None \<Rightarrow> False | Some m \<Rightarrow> mo_RipRelative m) \<and>
       immediateOffset + (if operation = Sha1Rnds4 then 1 else 0) \<noteq> length data
    then throw ''RIP-relative SHA-1 operand does not end the instruction''
    else Inr \<lparr>s1_Operation = operation, s1_Destination = reg_operand modrm (rex AND 0x4 \<noteq> 0),
      s1_Source = source, s1_Function = func, s1_Memory = memory\<rparr>)))))"

datatype Sha256Operation = Sha256Rnds2 | Sha256Msg1 | Sha256Msg2

record Sha256Operands =
  s256_Operation :: Sha256Operation
  s256_Destination :: u8
  s256_Source :: u8
  s256_Memory :: "MemoryOperand option"

definition DecodeSha256 :: "u8 list \<Rightarrow> Sha256Operands result" where
  "DecodeSha256 data =
    bindE (sha_prefixes ''Not a SHA-256 instruction'' data 0 0 []) (\<lambda>(pos, rex, prefixes).
    if length data < pos + 4 \<or> data ! pos \<noteq> TwoByteOpcodeEscape \<or> data ! (pos + 1) \<noteq> ThreeByteEscape38
    then throw ''Not a SHA-256 instruction''
    else bindE
      (if data ! (pos + 2) = 0xCB then Inr Sha256Rnds2
       else if data ! (pos + 2) = 0xCC then Inr Sha256Msg1
       else if data ! (pos + 2) = 0xCD then Inr Sha256Msg2
       else throw ''Not a SHA-256 instruction'') (\<lambda>operation.
    bindE (byte_at data (pos + 3)) (\<lambda>modrm.
    let destination = reg_operand modrm (rex AND 0x4 \<noteq> 0) in
    if modrm_mod modrm \<noteq> ModRmModRegister then
      bindE (DecodeMemoryOperand data (pos + 3) rex prefixes) (\<lambda>memory.
        if mo_RipRelative memory \<and> pos + 3 + mo_EncodedSize memory \<noteq> length data
        then throw ''RIP-relative SHA-256 operand does not end the instruction''
        else Inr \<lparr>s256_Operation = operation, s256_Destination = destination, s256_Source = 0, s256_Memory = Some memory\<rparr>)
    else Inr \<lparr>s256_Operation = operation, s256_Destination = destination,
      s256_Source = rm_operand modrm (rex AND 0x1 \<noteq> 0), s256_Memory = None\<rparr>)))"

subsection \<open>EXTRQ and INSERTQ\<close>

record Sse4aOperands =
  s4_Insertq :: bool
  s4_RegisterForm :: bool
  s4_Destination :: u8
  s4_Source :: u8
  s4_Length :: u8
  s4_Index :: u8

text \<open>The prefix loop: position, \<open>operandSizeOverride\<close>, \<open>repnePrefix\<close> and REX.\<close>

fun sse4a_prefixes :: "u8 list \<Rightarrow> nat \<Rightarrow> bool \<Rightarrow> bool \<Rightarrow> u8 \<Rightarrow> nat \<times> bool \<times> bool \<times> u8" where
  "sse4a_prefixes [] pos operandSize repne rex = (pos, operandSize, repne, rex)"
| "sse4a_prefixes (b # rest) pos operandSize repne rex =
    (if RexMin \<le> b \<and> b \<le> RexMax then sse4a_prefixes rest (pos + 1) operandSize repne b
     else if b = PrefixOperandSize then sse4a_prefixes rest (pos + 1) True repne 0
     else if b = PrefixRepne then sse4a_prefixes rest (pos + 1) operandSize True 0
     else if b \<noteq> PrefixLock \<and> b \<noteq> PrefixRep \<and> b \<noteq> PrefixAddressSize \<and>
             b \<noteq> PrefixSegCs \<and> b \<noteq> PrefixSegSs \<and> b \<noteq> PrefixSegDs \<and>
             b \<noteq> PrefixSegEs \<and> b \<noteq> PrefixSegFs \<and> b \<noteq> PrefixSegGs then (pos, operandSize, repne, rex)
     else sse4a_prefixes rest (pos + 1) operandSize repne 0)"

definition DecodeSse4a :: "u8 list \<Rightarrow> Sse4aOperands result" where
  "DecodeSse4a data =
    (let (pos, operandSize, repne, rex) = sse4a_prefixes data 0 False False 0 in
     if length data < pos + 3 \<or> data ! pos \<noteq> TwoByteOpcodeEscape \<or>
        (data ! (pos + 1) \<noteq> TwoByteExtrqInsertqImm8Imm8 \<and> data ! (pos + 1) \<noteq> TwoByteExtrqInsertqModRm) \<or>
        (\<not> operandSize \<and> \<not> repne)
     then throw ''Not an SSE4a instruction''
     else
       let opcode = data ! (pos + 1); modrm = data ! (pos + 2); pos = pos + 3 in
       if modrm_mod modrm \<noteq> ModRmModRegister then throw ''SSE4a instruction with a memory operand''
       else
         let reg = reg_operand modrm (rex AND 0x4 \<noteq> 0); rm = rm_operand modrm (rex AND 0x1 \<noteq> 0);
             operands = \<lparr>s4_Insertq = repne, s4_RegisterForm = (opcode = TwoByteExtrqInsertqModRm),
               s4_Destination = reg, s4_Source = rm, s4_Length = 0, s4_Index = 0\<rparr> in
         if s4_RegisterForm operands then Inr operands
         else if length data < pos + 2 then throw ''SSE4a instruction truncated before its immediates''
         else if \<not> s4_Insertq operands \<and> modrm_reg modrm \<noteq> 0
         then throw ''EXTRQ immediate form with a non-zero reg field''
         else
           bindE (byte_at data pos) (\<lambda>b0.
           bindE (byte_at data (pos + 1)) (\<lambda>b1.
             let rawLength = b0 AND 0x3F;
                 operands = operands\<lparr>s4_Destination := if s4_Insertq operands then reg else rm,
                   s4_Length := if rawLength = 0 then 64 else rawLength, s4_Index := b1 AND 0x3F\<rparr> in
             if 64 < unat (s4_Length operands) + unat (s4_Index operands) then throw ''SSE4a field exceeds 64 bits''
             else Inr operands)))"

subsection \<open>256-bit stores\<close>

record WideStoreHalf =
  wh_Bytes :: "u8 list"
  wh_RipDisplacementOffset :: "nat option"
  wh_RipTarget :: int

record WideStoreOperands =
  ws_Low :: WideStoreHalf
  ws_High :: WideStoreHalf

abbreviation (input) kVexLength256 :: u8 where "kVexLength256 \<equiv> 0x04"
abbreviation (input) kHalfBytes :: int where "kHalfBytes \<equiv> 16"

definition unalignedStore :: "u8 \<Rightarrow> u8 \<Rightarrow> bool" where
  "unalignedStore pp opcode \<longleftrightarrow> ((pp = 0x00 \<or> pp = 0x01) \<and> opcode = 0x11) \<or> (pp = 0x02 \<and> opcode = 0x7F)"

definition legacyPrefixAllowed :: "u8 \<Rightarrow> bool" where
  "legacyPrefixAllowed prefix \<longleftrightarrow> prefix = PrefixSegCs \<or> prefix = PrefixSegSs \<or> prefix = PrefixSegDs \<or>
     prefix = PrefixSegEs \<or> prefix = PrefixSegFs \<or> prefix = PrefixSegGs \<or> prefix = PrefixAddressSize"

text \<open>The VEX prefix at \<open>vex\<close>: the inverted register bits, the payload byte and the position behind it.\<close>

definition store_vex :: "u8 list \<Rightarrow> nat \<Rightarrow> (u8 \<times> u8 \<times> nat) option" where
  "store_vex data vex =
    (if length data < vex + 2 then None
     else if data ! vex = OneByteVex2 then
       Some ((data ! (vex + 1) AND 0x80) OR 0x60, data ! (vex + 1), vex + Vex2PrefixLength)
     else if data ! vex = OneByteVex3 then
       if length data < vex + Vex3PrefixLength \<or> data ! (vex + 1) AND Vex3MapMask \<noteq> 0x01 then None
       else Some (data ! (vex + 1) AND 0xE0, data ! (vex + 2), vex + Vex3PrefixLength)
     else None)"

text \<open>The mode and displacement size of the upper half, whose displacement is 16 larger.\<close>

definition high_mode :: "u8 \<Rightarrow> nat \<Rightarrow> bool \<Rightarrow> bool \<Rightarrow> int \<Rightarrow> u8 \<times> nat" where
  "high_mode md dispSize ripRelative absolute highDisplacement =
    (if \<not> ripRelative \<and> \<not> absolute \<and>
        (md = ModRmModIndirect \<or> (md = ModRmModDisp8 \<and> 127 < highDisplacement)) then
       if 127 < highDisplacement then (ModRmModDisp32, Disp32Size) else (ModRmModDisp8, Disp8Size)
     else (md, dispSize))"

text \<open>The bytes of the upper half's \<open>VEXTRACTF128\<close> up to its displacement, and the displacement.\<close>

definition high_front :: "u8 list \<Rightarrow> nat \<Rightarrow> u8 \<Rightarrow> u8 \<Rightarrow> u8 \<Rightarrow> u8 option \<Rightarrow> u8 list" where
  "high_front data vex inverted highMod modrm sib =
     take vex data @ [OneByteVex3, inverted OR Vex3Map0F3A, 0x7D, 0x19] @
     [push_bit ModRmModShift highMod OR (modrm AND push_bit ModRmRegShift ModRmRegMask) OR modrm_rm modrm] @
     (case sib of None \<Rightarrow> [] | Some s \<Rightarrow> [s])"

definition high_displacement_bytes :: "nat \<Rightarrow> bool \<Rightarrow> int \<Rightarrow> u8 list" where
  "high_displacement_bytes sz ripRelative highDisplacement =
    (if sz = Disp8Size then [word_of_int highDisplacement]
     else if ripRelative then le32_bytes 0
     else if sz = Disp32Size then le32_bytes (word_of_int highDisplacement) else [])"

definition wide_store_operands ::
    "u8 list \<Rightarrow> nat \<Rightarrow> u8 \<Rightarrow> u8 \<Rightarrow> u8 option \<Rightarrow> nat \<Rightarrow> nat \<Rightarrow> bool \<Rightarrow> bool \<Rightarrow> int \<Rightarrow> WideStoreOperands option result" where
  "wide_store_operands data vex inverted modrm sib cursor dispSize ripRelative absolute displacement =
    (let at = (if data ! vex = OneByteVex2 then vex + 1 else vex + 2);
         low = \<lparr>wh_Bytes = data[at := data ! at AND NOT kVexLength256],
           wh_RipDisplacementOffset = (if ripRelative then Some cursor else None),
           wh_RipTarget = (if ripRelative then int (length data) + displacement else 0)\<rparr>;
         highDisplacement = displacement + kHalfBytes;
         (highMod, highSize) = high_mode (modrm_mod modrm) dispSize ripRelative absolute highDisplacement in
     if \<not> ripRelative \<and> 2 ^ 31 - 1 < highDisplacement
     then throw ''256-bit store displacement leaves no room for its upper half''
     else
       let front = high_front data vex inverted highMod modrm sib;
           high = \<lparr>wh_Bytes = front @ high_displacement_bytes highSize ripRelative highDisplacement @ [0x01],
             wh_RipDisplacementOffset = (if ripRelative then Some (length front) else None),
             wh_RipTarget = (if ripRelative then int (length data) + displacement + kHalfBytes else 0)\<rparr>
       in Inr (Some \<lparr>ws_Low = low, ws_High = high\<rparr>))"

definition DecodeVexWideStore :: "u8 list \<Rightarrow> WideStoreOperands option result" where
  "DecodeVexWideStore data =
    (let vex = count_while legacyPrefixAllowed data in
     case store_vex data vex of None \<Rightarrow> Inr None
     | Some (inverted, payload, pos) \<Rightarrow>
       if payload AND kVexLength256 = 0 \<or> drop_bit 3 payload AND 0x0F \<noteq> 0x0F then Inr None
       else if length data < pos + 2 \<or> \<not> unalignedStore (payload AND 0x03) (data ! pos) then Inr None
       else
         bindE (byte_at data (pos + 1)) (\<lambda>modrm.
           let md = modrm_mod modrm; rm = modrm_rm modrm in
           if md = ModRmModRegister then Inr None
           else bindE (optional_sib data (rm = ModRmRmSibPresent) (pos + 2)) (\<lambda>r.
             case r of None \<Rightarrow> Inr None
             | Some (sib, cursor) \<Rightarrow>
               let ripRelative = (md = ModRmModIndirect \<and> rm = ModRmRmRipRelative);
                   absolute = sib_absolute md sib;
                   sz = operand_displacement_size md ripRelative absolute in
               if cursor + sz \<noteq> length data then Inr None
               else bindE (if sz = Disp8Size then read_s8 data cursor
                           else if sz = Disp32Size then read_s32 data cursor else Inr 0) (\<lambda>displacement.
                 wide_store_operands data vex inverted modrm sib cursor sz ripRelative absolute displacement))))"

subsection \<open>ANDN\<close>

record AndnOperands =
  an_Destination :: u8
  an_InvertedSource :: u8
  an_Source :: u8
  an_Wide :: bool
  an_Memory :: "MemoryOperand option"

definition andn_prefix :: "u8 \<Rightarrow> bool" where
  "andn_prefix v \<longleftrightarrow> v = 0x2E \<or> v = 0x36 \<or> v = 0x3E \<or> v = 0x26 \<or> v = 0x64 \<or> v = 0x65 \<or> v = 0x67"

definition DecodeAndn :: "u8 list \<Rightarrow> AndnOperands option result" where
  "DecodeAndn data =
    (let vex = count_while andn_prefix data in
     if length data < vex + 5 \<or> data ! vex \<noteq> 0xC4 \<or> data ! (vex + 1) AND 0x1F \<noteq> 2 \<or> data ! (vex + 3) \<noteq> 0xF2
     then Inr None
     else if data ! (vex + 2) AND 7 \<noteq> 0 then throw ''ANDN requires VEX.L=0 and VEX.pp=0''
     else
       let extensions = NOT (data ! (vex + 1)); modrm = data ! (vex + 4);
           operands = \<lparr>an_Destination = (drop_bit 3 modrm AND 7) OR drop_bit 4 (extensions AND 0x80),
             an_InvertedSource = drop_bit 3 (NOT (data ! (vex + 2))) AND 15,
             an_Source = (modrm AND 7) OR drop_bit 2 (extensions AND 0x20),
             an_Wide = (data ! (vex + 2) AND 0x80 \<noteq> 0), an_Memory = None\<rparr> in
       if drop_bit 6 modrm = 3 then
         if vex + 5 \<noteq> length data then throw ''ANDN register operand has trailing bytes'' else Inr (Some operands)
       else
         let rex = drop_bit 5 (extensions AND 0x20) OR drop_bit 5 (extensions AND 0x40) in
         bindE (DecodeMemoryOperand data (vex + 4) rex (take vex data)) (\<lambda>memory.
           if vex + 4 + mo_EncodedSize memory \<noteq> length data then throw ''ANDN memory operand has trailing bytes''
           else Inr (Some (operands\<lparr>an_Memory := Some memory\<rparr>))))"

end
