(* ===== verification/Lowerings.thy ===== *)
theory Lowerings
  imports Operands
begin

text \<open>
  The lowerings of \<open>core/relinker/codegen/src/x86/*Lowering.cpp\<close>: the code that a stub runs in place of an
  AMD-only instruction. A lowering that only appends code maps a builder to a builder; \<open>seq\<close> runs calls on
  the builder one after the other, as the statements of the function do.
\<close>

definition seq :: "('b \<Rightarrow> 'b) list \<Rightarrow> 'b \<Rightarrow> 'b" where
  "seq calls body = fold (\<lambda>call body. call body) calls body"

text \<open>
  The scratch registers: the first \<open>n\<close> registers that are not used. The loops of the code count from 0; three
  registers at most are excluded and at most eight are wanted, so they end below 16.
\<close>

definition scratch_registers :: "nat \<Rightarrow> (u8 \<Rightarrow> bool) \<Rightarrow> u8 list" where
  "scratch_registers n used = take n (filter (\<lambda>reg. \<not> used reg) [0, 1, 2, 3, 4, 5, 6, 7, 8, 9, 10, 11, 12, 13, 14, 15])"

text \<open>A 16-byte constant given byte by byte.\<close>

definition constant_bytes :: "(nat \<Rightarrow> u8) \<Rightarrow> StubConstant" where
  "constant_bytes f = map f [0 ..< 16]"

subsection \<open>SSE4a\<close>

abbreviation (input) kShiftRight :: u8 where "kShiftRight \<equiv> 2"
abbreviation (input) kShiftRightBytes :: u8 where "kShiftRightBytes \<equiv> 3"
abbreviation (input) kShiftLeft :: u8 where "kShiftLeft \<equiv> 6"
abbreviation (input) kShiftLeftBytes :: u8 where "kShiftLeftBytes \<equiv> 7"
abbreviation (input) kFieldBits :: u8 where "kFieldBits \<equiv> 64"

function nopFill :: "u8 list \<Rightarrow> nat \<Rightarrow> u8 list" where
  "nopFill out count =
    (if count > 0 then
       let nop = kNops ! (min count (length kNops) - 1) in nopFill (out @ Bytes nop) (count - Size nop)
     else out)"
  by pat_completeness auto

termination
proof (relation "measure snd", goal_cases)
  case (2 out count nop)
  then have "length (Bytes nop) = Suc (min count 7 - 1)" by (simp only: kNops_length kNops_Size)
  with 2 show ?case by (simp add: Size_def)
qed simp

declare nopFill.simps [simp del]

definition zeroUpper :: "u8 \<Rightarrow> StubBodyBuilder \<Rightarrow> StubBodyBuilder" where
  "zeroUpper dst = Sse kPrefixScalar [0x0F, 0x7E] dst dst"

definition fieldMask :: "u8 \<Rightarrow> u64" where
  "fieldMask len = (if kFieldBits \<le> len then - 1 else push_bit (unat len) 1 - 1)"

definition field_constant :: StubConstant where
  "field_constant = constant_bytes (\<lambda>byte. if byte = 0 then kFieldBits - 1 else 0)"

definition one_constant :: StubConstant where
  "one_constant = constant_bytes (\<lambda>byte. if byte = 0 then 1 else 0)"

definition emitInsertqRegisterForm :: "Sse4aOperands \<Rightarrow> StubBodyBuilder \<Rightarrow> StubBodyBuilder" where
  "emitInsertqRegisterForm operands =
    (let dst = s4_Destination operands; src = s4_Source operands;
         scratch = scratch_registers 3 (\<lambda>reg. reg = dst \<or> reg = src);
         control = scratch ! 0; index = scratch ! 1; hole = scratch ! 2 in
     seq [Spill control, Spill index, Spill hole,
       Sse kPrefixPacked [0x0F, 0x6F] control src,
       ShiftImm kShiftRightBytes control 8,
       Sse kPrefixPacked [0x0F, 0x6F] index control,
       ShiftImm kShiftRight index 8,
       RipOperand [0x0F, 0xDB] index field_constant,
       RipOperand [0x0F, 0xDB] control field_constant,
       RipOperand [0x0F, 0xEF] control field_constant,
       RipOperand [0x0F, 0xD4] control one_constant,
       RipOperand [0x0F, 0xDB] control field_constant,
       Sse kPrefixPacked [0x0F, 0x76] hole hole,
       Sse kPrefixScalar [0x0F, 0x7E] hole hole,
       Sse kPrefixPacked [0x0F, 0xD3] hole control,
       Sse kPrefixPacked [0x0F, 0xF3] hole index,
       Sse kPrefixPacked [0x0F, 0x6F] control src,
       Sse kPrefixPacked [0x0F, 0xF3] control index,
       Sse kPrefixPacked [0x0F, 0xEF] control dst,
       Sse kPrefixPacked [0x0F, 0xDB] control hole,
       Sse kPrefixPacked [0x0F, 0xEF] dst control,
       Sse kPrefixScalar [0x0F, 0x7E] dst dst,
       Restore hole, Restore index, Restore control])"

definition emitExtrqRegisterForm :: "Sse4aOperands \<Rightarrow> StubBodyBuilder \<Rightarrow> StubBodyBuilder" where
  "emitExtrqRegisterForm operands =
    (let dst = s4_Destination operands; src = s4_Source operands;
         scratch = scratch_registers 2 (\<lambda>reg. reg = dst \<or> reg = src);
         s0 = scratch ! 0; s1 = scratch ! 1 in
     seq [Spill s0, Spill s1,
       Sse kPrefixPacked [0x0F, 0x6F] s0 src,
       ShiftImm kShiftRight s0 8,
       RipOperand [0x0F, 0xDB] s0 field_constant,
       Sse kPrefixPacked [0x0F, 0x6F] s1 src,
       RipOperand [0x0F, 0xDB] s1 field_constant,
       RipOperand [0x0F, 0xEF] s1 field_constant,
       RipOperand [0x0F, 0xD4] s1 one_constant,
       RipOperand [0x0F, 0xDB] s1 field_constant,
       Sse kPrefixPacked [0x0F, 0xD3] dst s0,
       Sse kPrefixPacked [0x0F, 0xF3] dst s1,
       Sse kPrefixPacked [0x0F, 0xD3] dst s1,
       zeroUpper dst,
       Restore s1, Restore s0])"

text \<open>The immediate forms: EXTRQ, INSERTQ of whole bytes, INSERTQ of any field.\<close>

definition extrq_mask :: "u8 \<Rightarrow> u8 \<Rightarrow> StubConstant" where
  "extrq_mask len index = constant_bytes (\<lambda>byte.
     if byte < unat len div 8 then of_nat (unat index div 8 + byte) else kPshufbZero)"

definition emitExtrqImmediate :: "Sse4aOperands \<Rightarrow> StubBodyBuilder \<Rightarrow> StubBodyBuilder" where
  "emitExtrqImmediate operands =
    (let len = s4_Length operands; index = s4_Index operands; dst = s4_Destination operands in
     if unat len mod 8 = 0 \<and> unat index mod 8 = 0 then RipOperand [0x0F, 0x38, 0x00] dst (extrq_mask len index)
     else seq
       ((if index \<noteq> 0 then [ShiftImm kShiftRight dst index] else []) @
        (if len \<noteq> kFieldBits then [ShiftImm kShiftLeft dst (kFieldBits - len), ShiftImm kShiftRight dst (kFieldBits - len)] else []) @
        [zeroUpper dst]))"

definition insertq_mask :: "u8 \<Rightarrow> u8 \<Rightarrow> bool \<Rightarrow> StubConstant" where
  "insertq_mask len index same = constant_bytes (\<lambda>byte.
     if unat index div 8 \<le> byte \<and> byte < unat index div 8 + unat len div 8
     then of_nat ((if same then 0 else 8) + (byte - unat index div 8))
     else if byte < 8 then of_nat byte else kPshufbZero)"

definition insertq_hole :: "u8 \<Rightarrow> u8 \<Rightarrow> StubConstant" where
  "insertq_hole len index = constant_bytes (\<lambda>byte.
     if byte < 8 then ucast (drop_bit (byte * 8) (push_bit (unat index) (fieldMask len))) else 0)"

definition emitInsertqImmediate :: "Sse4aOperands \<Rightarrow> StubBodyBuilder \<Rightarrow> StubBodyBuilder" where
  "emitInsertqImmediate operands =
    (let len = s4_Length operands; index = s4_Index operands; dst = s4_Destination operands; src = s4_Source operands in
     if unat len mod 8 = 0 \<and> unat index mod 8 = 0 then
       seq ((if src \<noteq> dst then [Sse kPrefixPacked [0x0F, 0x6C] dst src] else []) @
         [RipOperand [0x0F, 0x38, 0x00] dst (insertq_mask len index (src = dst))])
     else let scratch = scratch_registers 1 (\<lambda>reg. reg = dst \<or> reg = src) ! 0 in
       seq ([Spill scratch, Sse kPrefixPacked [0x0F, 0x6F] scratch src] @
         (if index \<noteq> 0 then [ShiftImm kShiftLeft scratch index] else []) @
         [Sse kPrefixPacked [0x0F, 0xEF] scratch dst,
          RipOperand [0x0F, 0xDB] scratch (insertq_hole len index),
          Sse kPrefixPacked [0x0F, 0xEF] dst scratch,
          zeroUpper dst,
          Restore scratch]))"

definition Sse4a_EmitOutOfLine :: "Sse4aOperands \<Rightarrow> StubBodyBuilder \<Rightarrow> StubBodyBuilder" where
  "Sse4a_EmitOutOfLine operands =
    (if s4_RegisterForm operands then
       if s4_Insertq operands then emitInsertqRegisterForm operands else emitExtrqRegisterForm operands
     else if \<not> s4_Insertq operands then emitExtrqImmediate operands else emitInsertqImmediate operands)"

definition Sse4a_LowerInPlace :: "Sse4aOperands \<Rightarrow> nat \<Rightarrow> u8 list option" where
  "Sse4a_LowerInPlace operands originalLength =
    (if s4_RegisterForm operands then None
     else
       let len = s4_Length operands; index = s4_Index operands; dst = s4_Destination operands; src = s4_Source operands;
           sequence =
             (if s4_Insertq operands then
                if dst = src \<and> index = 0 then Some (EmitSse [] kPrefixScalar [0x0F, 0x7E] dst dst)
                else if len = kFieldBits \<and> index = 0 then Some (EmitSse [] kPrefixScalar [0x0F, 0x7E] dst src)
                else None
              else if index = 0 \<and> len = kFieldBits then Some (EmitSse [] kPrefixScalar [0x0F, 0x7E] dst dst)
              else None) in
       case sequence of None \<Rightarrow> None
       | Some s \<Rightarrow> if originalLength < length s then None else Some (nopFill s (originalLength - length s)))"

definition Sse4a_LowerOutOfLine :: "Sse4aOperands list \<Rightarrow> LoweredBody result" where
  "Sse4a_LowerOutOfLine sequence = Finish (fold Sse4a_EmitOutOfLine sequence new_builder)"

subsection \<open>RCPPS and RSQRTPS\<close>

text \<open>\<open>1.0f\<close> in four lanes: \<open>3F800000\<close> in memory order.\<close>

definition ones :: StubConstant where
  "ones = concat (replicate 4 [0x00, 0x00, 0x80, 0x3F])"

definition vexMovaps :: "u8 \<Rightarrow> u8 \<Rightarrow> StubBodyBuilder \<Rightarrow> StubBodyBuilder" where
  "vexMovaps dst src = Raw
     [0xC4, (if dst AND 8 \<noteq> 0 then 0x00 else 0x80) OR 0x40 OR (if src AND 8 \<noteq> 0 then 0x00 else 0x20) OR 0x01,
      0x78, 0x28, 0xC0 OR push_bit 3 (dst AND 7) OR (src AND 7)]"

definition Reciprocal_EmitOutOfLine :: "ReciprocalOperands \<Rightarrow> StubBodyBuilder \<Rightarrow> StubBodyBuilder" where
  "Reciprocal_EmitOutOfLine operands =
    (let scratch = scratch_registers 1 (\<lambda>reg. reg = rc_Destination operands \<or> reg = rc_Source operands) ! 0;
         dst = rc_Destination operands in
     seq ([Spill scratch] @
       (case rc_Operation operands of
          ReciprocalSquareRoot \<Rightarrow>
            [SsePlain [0x0F, 0x51] scratch (rc_Source operands),
             RipOperand [0x0F, 0x28] dst ones,
             SsePlain [0x0F, 0x5E] dst scratch] @
            (if rc_Vex operands then [vexMovaps dst dst] else [])
        | Reciprocal \<Rightarrow>
            [RipOperand [0x0F, 0x28] scratch ones,
             SsePlain [0x0F, 0x5E] scratch (rc_Source operands),
             (if rc_Vex operands then vexMovaps dst scratch else SsePlain [0x0F, 0x28] dst scratch)]) @
       [Restore scratch]))"

definition Reciprocal_LowerOutOfLine :: "ReciprocalOperands \<Rightarrow> LoweredBody result" where
  "Reciprocal_LowerOutOfLine operands = Finish (Reciprocal_EmitOutOfLine operands new_builder)"

subsection \<open>CLZERO\<close>

definition line_mask :: StubConstant where
  "line_mask = constant_bytes (\<lambda>byte. if byte < 8 then ucast (drop_bit (byte * 8) (NOT (63 :: u64))) else 0)"

definition Clzero_EmitOutOfLine :: "ClzeroOperands \<Rightarrow> StubBodyBuilder \<Rightarrow> StubBodyBuilder" where
  "Clzero_EmitOutOfLine operands =
     seq [Spill 0,
       Raw [0x51],
       Raw (if cz_AddressSize32 operands then [0x66, 0x0F, 0x6E, 0xC0] else [0x66, 0x48, 0x0F, 0x6E, 0xC0]),
       RipOperand [0x0F, 0xDB] 0 line_mask,
       Raw [0x66, 0x48, 0x0F, 0x7E, 0xC1],
       Sse kPrefixPacked [0x0F, 0xEF] 0 0,
       Raw [0x66, 0x0F, 0xE7, 0x01],
       Raw [0x66, 0x0F, 0xE7, 0x41, 0x10],
       Raw [0x66, 0x0F, 0xE7, 0x41, 0x20],
       Raw [0x66, 0x0F, 0xE7, 0x41, 0x30],
       Raw [0x59],
       Restore 0]"

definition Clzero_LowerOutOfLine :: "ClzeroOperands \<Rightarrow> LoweredBody result" where
  "Clzero_LowerOutOfLine operands = Finish (Clzero_EmitOutOfLine operands new_builder)"

subsection \<open>256-bit stores\<close>

definition emitHalf :: "WideStoreHalf \<Rightarrow> StubBodyBuilder \<Rightarrow> StubBodyBuilder result" where
  "emitHalf half body =
    (case wh_RipDisplacementOffset half of
       Some off \<Rightarrow> RipRelative (wh_Bytes half) off (wh_RipTarget half) body
     | None \<Rightarrow> Inr (Raw (wh_Bytes half) body))"

definition WideStore_EmitOutOfLine :: "WideStoreOperands \<Rightarrow> StubBodyBuilder \<Rightarrow> StubBodyBuilder result" where
  "WideStore_EmitOutOfLine operands body =
     bindE (emitHalf (ws_Low operands) body) (emitHalf (ws_High operands))"

subsection \<open>SHA-1 and SHA-256: shared steps\<close>

abbreviation (input) kPunpckldq :: u8 where "kPunpckldq \<equiv> 0x62"
abbreviation (input) kPunpcklqdq :: u8 where "kPunpcklqdq \<equiv> 0x6C"
abbreviation (input) kMovdqa :: u8 where "kMovdqa \<equiv> 0x6F"
abbreviation (input) kPshufd :: u8 where "kPshufd \<equiv> 0x70"
abbreviation (input) kShufpd :: u8 where "kShufpd \<equiv> 0xC6"
abbreviation (input) kPand :: u8 where "kPand \<equiv> 0xDB"
abbreviation (input) kPor :: u8 where "kPor \<equiv> 0xEB"
abbreviation (input) kPxor :: u8 where "kPxor \<equiv> 0xEF"
abbreviation (input) kPaddd :: u8 where "kPaddd \<equiv> 0xFE"

definition op :: "u8 \<Rightarrow> u8 \<Rightarrow> u8 \<Rightarrow> StubBodyBuilder \<Rightarrow> StubBodyBuilder" where
  "op opcode dst src = Sse kPrefixPacked [0x0F, opcode] dst src"

definition lane :: "u8 \<Rightarrow> u8 \<Rightarrow> u8 \<Rightarrow> StubBodyBuilder \<Rightarrow> StubBodyBuilder" where
  "lane dst src n = SseImm kPrefixPacked [0x0F, kPshufd] dst src n"

definition spill_all :: "u8 list \<Rightarrow> (StubBodyBuilder \<Rightarrow> StubBodyBuilder) list" where
  "spill_all scratch = map Spill scratch"

definition restore_all :: "u8 list \<Rightarrow> (StubBodyBuilder \<Rightarrow> StubBodyBuilder) list" where
  "restore_all scratch = map Restore (rev scratch)"

subsection \<open>SHA-1\<close>

definition sha1_scratch :: "nat \<Rightarrow> Sha1Operands \<Rightarrow> u8 list" where
  "sha1_scratch n operands = scratch_registers n (\<lambda>reg. reg = s1_Destination operands \<or> reg = s1_Source operands)"

definition rotate :: "u8 \<Rightarrow> u8 \<Rightarrow> u8 \<Rightarrow> (StubBodyBuilder \<Rightarrow> StubBodyBuilder) list" where
  "rotate reg tmp count =
     [op kMovdqa tmp reg, ShiftDwordImm kShiftLeft tmp count, ShiftDwordImm kShiftRight reg (32 - count), op kPor reg tmp]"

definition sha1_function :: "u8 \<Rightarrow> u8 \<Rightarrow> u8 \<Rightarrow> u8 \<Rightarrow> u8 \<Rightarrow> u8 \<Rightarrow> (StubBodyBuilder \<Rightarrow> StubBodyBuilder) list" where
  "sha1_function func out b c d tmp =
    (if func = 0 then [op kMovdqa out c, op kPxor out d, op kPand out b, op kPxor out d]
     else if func = 2 then
       [op kMovdqa out b, op kPand out c, op kMovdqa tmp b, op kPor tmp c, op kPand tmp d, op kPor out tmp]
     else [op kMovdqa out b, op kPxor out c, op kPxor out d])"

definition kRoundConstants :: "u32 list" where
  "kRoundConstants = [0x5A827999, 0x6ED9EBA1, 0x8F1BBCDC, 0xCA62C1D6]"

definition roundConstant :: "u8 \<Rightarrow> StubConstant" where
  "roundConstant func = constant_bytes (\<lambda>index. ucast (drop_bit ((index mod 4) * 8) (kRoundConstants ! unat func)))"

text \<open>The rounds: the five registers of the state rotate their roles from round to round.\<close>

fun sha1_rounds ::
    "Sha1Operands \<Rightarrow> u8 \<Rightarrow> u8 \<Rightarrow> u8 list \<Rightarrow> u8 \<times> u8 \<times> u8 \<times> u8 \<times> u8 \<Rightarrow>
     (u8 \<times> u8 \<times> u8 \<times> u8 \<times> u8) \<times> (StubBodyBuilder \<Rightarrow> StubBodyBuilder) list" where
  "sha1_rounds operands t u [] state = (state, [])"
| "sha1_rounds operands t u (round # rounds) (a, b, c, d, e) =
    (let (state, calls) = sha1_rounds operands t u rounds (e, a, b, c, d) in
     (state,
      sha1_function (s1_Function operands) t b c d u @
      [op kPaddd e t, op kMovdqa t a] @ rotate t u 5 @
      [op kPaddd e t, lane t (s1_Source operands) (3 - round), op kPaddd e t,
       RipOperand [0x0F, kPaddd] e (roundConstant (s1_Function operands))] @
      rotate b u 30 @ calls))"

definition sha1_emitRounds :: "Sha1Operands \<Rightarrow> (StubBodyBuilder \<Rightarrow> StubBodyBuilder) list" where
  "sha1_emitRounds operands =
    (let scratch = sha1_scratch 7 operands; t = scratch ! 5; u = scratch ! 6;
         state = (scratch ! 0, scratch ! 1, scratch ! 2, scratch ! 3, scratch ! 4);
         ((a, b, c, d, e), rounds) = sha1_rounds operands t u [0, 1, 2, 3] state in
     spill_all scratch @
     map (\<lambda>index. lane (scratch ! index) (s1_Destination operands) (3 - of_nat index)) [0, 1, 2, 3] @
     [op kPxor (scratch ! 4) (scratch ! 4)] @ rounds @
     [op kPunpckldq d c, op kPunpckldq b a, op kPunpcklqdq d b, op kMovdqa (s1_Destination operands) d] @
     restore_all scratch)"

definition sha1_emitNext :: "Sha1Operands \<Rightarrow> (StubBodyBuilder \<Rightarrow> StubBodyBuilder) list" where
  "sha1_emitNext operands =
    (let scratch = sha1_scratch 2 operands; rotated = scratch ! 0; tmp = scratch ! 1 in
     spill_all scratch @ [op kMovdqa rotated (s1_Destination operands)] @ rotate rotated tmp 30 @
     [ShiftImm kShiftRightBytes rotated 12, ShiftImm kShiftLeftBytes rotated 12,
      op kMovdqa (s1_Destination operands) (s1_Source operands), op kPaddd (s1_Destination operands) rotated] @
     restore_all scratch)"

definition sha1_emitMessage1 :: "Sha1Operands \<Rightarrow> (StubBodyBuilder \<Rightarrow> StubBodyBuilder) list" where
  "sha1_emitMessage1 operands =
    (let words = sha1_scratch 1 operands ! 0 in
     [Spill words, op kMovdqa words (s1_Source operands),
      SseImm kPrefixPacked [0x0F, kShufpd] words (s1_Destination operands) 1,
      op kPxor (s1_Destination operands) words, Restore words])"

definition sha1_emitMessage2 :: "Sha1Operands \<Rightarrow> (StubBodyBuilder \<Rightarrow> StubBodyBuilder) list" where
  "sha1_emitMessage2 operands =
    (let dst = s1_Destination operands; scratch = sha1_scratch 2 operands; words = scratch ! 0; tmp = scratch ! 1 in
     spill_all scratch @
     [op kMovdqa words (s1_Source operands), ShiftImm kShiftLeftBytes words 4, op kPxor dst words] @
     rotate dst tmp 1 @ [op kMovdqa words dst, ShiftImm kShiftRightBytes words 12] @ rotate words tmp 1 @
     [op kPxor dst words] @ restore_all scratch)"

definition sha1_emit :: "Sha1Operands \<Rightarrow> StubBodyBuilder \<Rightarrow> StubBodyBuilder" where
  "sha1_emit operands =
     seq (case s1_Operation operands of
       Sha1Rnds4 \<Rightarrow> sha1_emitRounds operands
     | Sha1Nexte \<Rightarrow> sha1_emitNext operands
     | Sha1Msg1 \<Rightarrow> sha1_emitMessage1 operands
     | Sha1Msg2 \<Rightarrow> sha1_emitMessage2 operands)"

text \<open>A memory source is loaded into a scratch register first; the call on the loaded operands does not recur.\<close>

definition Sha1_EmitOutOfLine :: "Sha1Operands \<Rightarrow> StubBodyBuilder \<Rightarrow> StubBodyBuilder result" where
  "Sha1_EmitOutOfLine operands body =
    (case s1_Memory operands of
       Some memory \<Rightarrow>
         (let same = operands\<lparr>s1_Memory := None, s1_Source := s1_Destination operands\<rparr>;
              loaded = same\<lparr>s1_Source := sha1_scratch 1 same ! 0\<rparr> in
          bindE (Load (s1_Source loaded) memory (Spill (s1_Source loaded) body)) (\<lambda>body.
            Inr (Restore (s1_Source loaded) (sha1_emit loaded body))))
     | None \<Rightarrow> Inr (sha1_emit operands body))"

definition Sha1_LowerOutOfLine :: "Sha1Operands \<Rightarrow> LoweredBody result" where
  "Sha1_LowerOutOfLine operands = bindE (Sha1_EmitOutOfLine operands new_builder) Finish"

subsection \<open>SHA-256\<close>

abbreviation (input) kRoundKeys :: u8 where "kRoundKeys \<equiv> 0"

definition sha256_scratch :: "nat \<Rightarrow> Sha256Operands \<Rightarrow> u8 list" where
  "sha256_scratch n operands =
     scratch_registers n (\<lambda>reg. reg = s256_Destination operands \<or> reg = s256_Source operands \<or> reg = kRoundKeys)"

text \<open>The terms of \<open>_sigma\<close>: the first goes to \<open>out\<close>, each later one to \<open>tmp\<close> and into \<open>out\<close>.\<close>

definition sigma_terms :: "u8 list \<Rightarrow> u8 \<Rightarrow> (u8 \<times> u8) list" where
  "sigma_terms rotations shift =
     concat (map (\<lambda>rotation. [(kShiftRight, rotation), (kShiftLeft, 32 - rotation)]) rotations) @
     (if shift \<noteq> 0 then [(kShiftRight, shift)] else [])"

fun sigma_calls :: "bool \<Rightarrow> u8 \<Rightarrow> u8 \<Rightarrow> u8 \<Rightarrow> (u8 \<times> u8) list \<Rightarrow> (StubBodyBuilder \<Rightarrow> StubBodyBuilder) list" where
  "sigma_calls first out v tmp [] = []"
| "sigma_calls first out v tmp ((extension, count) # rest) =
    (let target = (if first then out else tmp) in
     [op kMovdqa target v, ShiftDwordImm extension target count] @
     (if \<not> first then [op kPxor out tmp] else []) @ sigma_calls False out v tmp rest)"

definition sigma :: "u8 \<Rightarrow> u8 \<Rightarrow> u8 \<Rightarrow> u8 list \<Rightarrow> u8 \<Rightarrow> (StubBodyBuilder \<Rightarrow> StubBodyBuilder) list" where
  "sigma out v tmp rotations shift = sigma_calls True out v tmp (sigma_terms rotations shift)"

definition choose_calls :: "u8 \<Rightarrow> u8 \<Rightarrow> u8 \<Rightarrow> u8 \<Rightarrow> (StubBodyBuilder \<Rightarrow> StubBodyBuilder) list" where
  "choose_calls out e f g = [op kMovdqa out f, op kPxor out g, op kPand out e, op kPxor out g]"

definition majority_calls :: "u8 \<Rightarrow> u8 \<Rightarrow> u8 \<Rightarrow> u8 \<Rightarrow> (StubBodyBuilder \<Rightarrow> StubBodyBuilder) list" where
  "majority_calls x y z tmp = [op kMovdqa tmp y, op kPand tmp z, op kPxor y z, op kPand y x, op kPxor y tmp]"

definition bigSigma0 :: "u8 \<Rightarrow> u8 \<Rightarrow> u8 \<Rightarrow> (StubBodyBuilder \<Rightarrow> StubBodyBuilder) list" where
  "bigSigma0 out v tmp = sigma out v tmp [2, 13, 22] 0"

definition bigSigma1 :: "u8 \<Rightarrow> u8 \<Rightarrow> u8 \<Rightarrow> (StubBodyBuilder \<Rightarrow> StubBodyBuilder) list" where
  "bigSigma1 out v tmp = sigma out v tmp [6, 11, 25] 0"

definition smallSigma0 :: "u8 \<Rightarrow> u8 \<Rightarrow> u8 \<Rightarrow> (StubBodyBuilder \<Rightarrow> StubBodyBuilder) list" where
  "smallSigma0 out v tmp = sigma out v tmp [7, 18] 3"

definition smallSigma1 :: "u8 \<Rightarrow> u8 \<Rightarrow> u8 \<Rightarrow> (StubBodyBuilder \<Rightarrow> StubBodyBuilder) list" where
  "smallSigma1 out v tmp = sigma out v tmp [17, 19] 10"

definition sha256_emitRounds :: "Sha256Operands \<Rightarrow> (StubBodyBuilder \<Rightarrow> StubBodyBuilder) list" where
  "sha256_emitRounds operands =
    (let state = s256_Destination operands; words = s256_Source operands; scratch = sha256_scratch 8 operands;
         a = scratch ! 0; t2 = scratch ! 1; e = scratch ! 2; g = scratch ! 3; t1 = scratch ! 4; x = scratch ! 5;
         tmp = scratch ! 6; e1 = scratch ! 7 in
     spill_all scratch @
     [lane a words 3] @ bigSigma0 t2 a tmp @
     [lane e words 2, lane g state 3] @ majority_calls a e g tmp @
     [op kPaddd t2 e, lane e words 1, lane g state 1] @ bigSigma1 t1 e tmp @ choose_calls x e words g @
     [op kPaddd t1 x, op kPaddd t1 state, op kPaddd t1 kRoundKeys, lane e1 state 2, op kPaddd e1 t1, op kPaddd t2 t1] @
     bigSigma1 t1 e1 tmp @ choose_calls x e1 e words @
     [op kPaddd t1 x, op kPaddd t1 g, lane x kRoundKeys 1, op kPaddd t1 x, lane g state 3, op kPaddd g t1] @
     bigSigma0 x t2 tmp @ [lane e words 2] @ majority_calls t2 a e tmp @
     [op kPaddd x a, op kPaddd x t1, op kPunpckldq e1 g, op kPunpckldq t2 x, op kPunpcklqdq e1 t2, op kMovdqa state e1] @
     restore_all scratch)"

definition sha256_emitMessage1 :: "Sha256Operands \<Rightarrow> (StubBodyBuilder \<Rightarrow> StubBodyBuilder) list" where
  "sha256_emitMessage1 operands =
    (let dst = s256_Destination operands; src = s256_Source operands; scratch = sha256_scratch 3 operands;
         next_words = scratch ! 0; sig = scratch ! 1; tmp = scratch ! 2 in
     spill_all scratch @
     [op kMovdqa next_words dst, ShiftImm kShiftRightBytes next_words 4, op kMovdqa sig src,
      ShiftImm kShiftLeftBytes sig 12, op kPor next_words sig] @
     smallSigma0 sig next_words tmp @ [op kPaddd dst sig] @ restore_all scratch)"

definition sha256_emitMessage2 :: "Sha256Operands \<Rightarrow> (StubBodyBuilder \<Rightarrow> StubBodyBuilder) list" where
  "sha256_emitMessage2 operands =
    (let dst = s256_Destination operands; src = s256_Source operands; scratch = sha256_scratch 3 operands;
         words = scratch ! 0; sig = scratch ! 1; tmp = scratch ! 2 in
     spill_all scratch @
     [op kMovdqa words src, ShiftImm kShiftRightBytes words 8] @ smallSigma1 sig words tmp @ [op kPaddd dst sig] @
     [op kMovdqa words dst, ShiftImm kShiftLeftBytes words 8] @ smallSigma1 sig words tmp @ [op kPaddd dst sig] @
     restore_all scratch)"

definition sha256_emit :: "Sha256Operands \<Rightarrow> StubBodyBuilder \<Rightarrow> StubBodyBuilder" where
  "sha256_emit operands =
     seq (case s256_Operation operands of
       Sha256Rnds2 \<Rightarrow> sha256_emitRounds operands
     | Sha256Msg1 \<Rightarrow> sha256_emitMessage1 operands
     | Sha256Msg2 \<Rightarrow> sha256_emitMessage2 operands)"

definition Sha256_EmitOutOfLine :: "Sha256Operands \<Rightarrow> StubBodyBuilder \<Rightarrow> StubBodyBuilder result" where
  "Sha256_EmitOutOfLine operands body =
    (case s256_Memory operands of
       Some memory \<Rightarrow>
         (let same = operands\<lparr>s256_Memory := None, s256_Source := s256_Destination operands\<rparr>;
              loaded = same\<lparr>s256_Source := sha256_scratch 1 same ! 0\<rparr> in
          bindE (Load (s256_Source loaded) memory (Spill (s256_Source loaded) body)) (\<lambda>body.
            Inr (Restore (s256_Source loaded) (sha256_emit loaded body))))
     | None \<Rightarrow> Inr (sha256_emit operands body))"

definition Sha256_LowerOutOfLine :: "Sha256Operands \<Rightarrow> LoweredBody result" where
  "Sha256_LowerOutOfLine operands = bindE (Sha256_EmitOutOfLine operands new_builder) Finish"

subsection \<open>ANDN\<close>

abbreviation (input) kFrameSize :: int where "kFrameSize \<equiv> 144"
abbreviation (input) kStack :: u8 where "kStack \<equiv> 4"

definition andn_rex :: "bool \<Rightarrow> u8 \<Rightarrow> u8 \<Rightarrow> u8" where
  "andn_rex wide reg rm = 0x40 OR (if wide then 8 else 0) OR drop_bit 1 (reg AND 8) OR drop_bit 3 (rm AND 8)"

definition andn_register :: "u8 \<Rightarrow> bool \<Rightarrow> u8 \<Rightarrow> u8 \<Rightarrow> StubBodyBuilder \<Rightarrow> StubBodyBuilder" where
  "andn_register opcode wide reg rm =
     Raw [andn_rex wide reg rm, opcode, 0xC0 OR push_bit 3 (reg AND 7) OR (rm AND 7)]"

definition andn_stack :: "u8 \<Rightarrow> bool \<Rightarrow> u8 \<Rightarrow> int \<Rightarrow> StubBodyBuilder \<Rightarrow> StubBodyBuilder" where
  "andn_stack opcode wide reg displacement =
     Raw ([andn_rex wide reg kStack, opcode, 0x84 OR push_bit 3 (reg AND 7), 0x24] @ le32_bytes (word_of_int displacement))"

text \<open>The entries \<open>_scratch\<close> marks in its table of 16 registers.\<close>

definition andn_used :: "AndnOperands \<Rightarrow> u8 list" where
  "andn_used operands =
     [kStack, an_Destination operands, an_InvertedSource operands] @
     (case an_Memory operands of
        None \<Rightarrow> [an_Source operands]
      | Some memory \<Rightarrow>
          if mo_Rm memory = 4 then
            let base = (mo_Sib memory AND 7) OR push_bit 3 (mo_RexIndexBase memory AND 1);
                index = (drop_bit 3 (mo_Sib memory) AND 7) OR push_bit 2 (mo_RexIndexBase memory AND 2) in
            (if mo_Mod memory \<noteq> 0 \<or> mo_Sib memory AND 7 \<noteq> 5 then [base] else []) @
            (if index \<noteq> kStack then [index] else [])
          else if \<not> mo_RipRelative memory then [mo_Rm memory OR push_bit 3 (mo_RexIndexBase memory AND 1)] else [])"

text \<open>An entry past the table would be an invalid access.\<close>

definition andn_scratch :: "AndnOperands \<Rightarrow> u8 result" where
  "andn_scratch operands =
    (if list_ex (\<lambda>reg. 16 \<le> reg) (andn_used operands) then Inl OutOfBounds
     else case filter (\<lambda>reg. \<not> List.member (andn_used operands) reg) [11, 10, 9, 8, 0, 1, 2, 3, 5, 6, 7, 12, 13, 14, 15] of
       [] \<Rightarrow> throw ''ANDN has no scratch register''
     | reg # _ \<Rightarrow> Inr reg)"

definition andn_memory :: "AndnOperands \<Rightarrow> MemoryOperand \<Rightarrow> u8 \<Rightarrow> StubBodyBuilder \<Rightarrow> StubBodyBuilder result" where
  "andn_memory operands memory scratch body =
    (let displacement = mo_Displacement memory + (if mo_StackBase memory then kFrameSize else 0);
         address32 = List.member (mo_Prefixes memory) 0x67 in
     if \<not> address32 \<and> 2 ^ 31 - 1 < displacement then throw ''ANDN stack displacement does not fit after spilling''
     else
       let md = (if mo_StackBase memory then 2 else mo_Mod memory);
           front = mo_Prefixes memory @
             [andn_rex (an_Wide operands) scratch 0 OR mo_RexIndexBase memory, 0x23,
              push_bit 6 md OR push_bit 3 (scratch AND 7) OR mo_Rm memory] @
             (if mo_Rm memory = 4 then [mo_Sib memory] else []);
           bytes = front @ (if md = 1 then [word_of_int displacement] else []) @
             (if md = 2 \<or> (md = 0 \<and> (mo_RipRelative memory \<or> (mo_Rm memory = 4 \<and> mo_Sib memory AND 7 = 5)))
              then le32_bytes (word_of_int displacement) else []) in
       if mo_RipRelative memory
       then RipRelative bytes (length front) (int (mo_InstructionLength memory) + mo_Displacement memory) body
       else Inr (Raw bytes body))"

text \<open>\<open>EmitAndn\<close> in its three parts: the complement of the inverted source, the AND, the result.\<close>

definition andn_front :: "AndnOperands \<Rightarrow> u8 \<Rightarrow> (StubBodyBuilder \<Rightarrow> StubBodyBuilder) list" where
  "andn_front operands scratch =
     [andn_stack 0x8D True kStack (- kFrameSize), andn_stack 0x89 True scratch 0] @
     (if an_Memory operands = None \<and> an_Source operands = kStack
      then [andn_stack 0x8D True scratch kFrameSize, andn_stack 0x89 True scratch 8] else []) @
     [(if an_InvertedSource operands = kStack then andn_stack 0x8D True scratch kFrameSize
       else andn_register 0x8B (an_Wide operands) scratch (an_InvertedSource operands)),
      andn_register 0xF7 (an_Wide operands) 2 scratch]"

definition andn_and :: "AndnOperands \<Rightarrow> u8 \<Rightarrow> StubBodyBuilder \<Rightarrow> StubBodyBuilder result" where
  "andn_and operands scratch body =
    (case an_Memory operands of
       Some memory \<Rightarrow> andn_memory operands memory scratch body
     | None \<Rightarrow> Inr (if an_Source operands = kStack then andn_stack 0x23 (an_Wide operands) scratch 8 body
                    else andn_register 0x23 (an_Wide operands) scratch (an_Source operands) body))"

definition andn_back :: "AndnOperands \<Rightarrow> u8 \<Rightarrow> (StubBodyBuilder \<Rightarrow> StubBodyBuilder) list" where
  "andn_back operands scratch =
     (let wide = an_Wide operands; destination = an_Destination operands in
      [(if destination = kStack then andn_stack 0x89 wide scratch 8 else andn_register 0x8B wide destination scratch),
       andn_stack 0x8B True scratch 0, andn_stack 0x8D True kStack kFrameSize] @
      (if destination = kStack then [andn_stack 0x8B wide kStack (8 - kFrameSize)] else []))"

definition EmitAndn :: "AndnOperands \<Rightarrow> StubBodyBuilder \<Rightarrow> StubBodyBuilder result" where
  "EmitAndn operands body =
    bindE (andn_scratch operands) (\<lambda>scratch.
    bindE (andn_and operands scratch (seq (andn_front operands scratch) body)) (\<lambda>body.
      Inr (seq (andn_back operands scratch) body)))"

end
