(* ===== verification/Decoded_Instruction.thy ===== *)
theory Decoded_Instruction
  imports X64_Decoder
begin

text \<open>
  The predicates of \<open>core/relinker/codegen/src/x86/DecodedInstruction.cpp\<close>, which recognise the
  instructions the conversion treats. \<open>Data, Length\<close> is the list of the instruction's bytes. Every
  access of an opcode byte follows the early return that guards it, here the conjunct before it.
\<close>

record skipped =
  sk_pos :: nat
  sk_operandSize :: bool
  sk_repne :: bool
  sk_rep :: bool

definition skip_start :: skipped where
  "skip_start = \<lparr>sk_pos = 0, sk_operandSize = False, sk_repne = False, sk_rep = False\<rparr>"

text \<open>\<open>_skipPrefixesAndRex\<close>, the three out-parameters as fields beside the position it returns.\<close>

fun skip_prefixes :: "u8 list \<Rightarrow> skipped \<Rightarrow> skipped" where
  "skip_prefixes [] s = s"
| "skip_prefixes (b # rest) s =
    (let next = s\<lparr>sk_pos := sk_pos s + 1\<rparr> in
     if RexMin \<le> b \<and> b \<le> RexMax then skip_prefixes rest next
     else if b = PrefixRepne then skip_prefixes rest (next\<lparr>sk_repne := True\<rparr>)
     else if b = PrefixRep then skip_prefixes rest (next\<lparr>sk_rep := True\<rparr>)
     else if b = PrefixLock \<or>
             b = PrefixSegCs \<or> b = PrefixSegSs \<or> b = PrefixSegDs \<or> b = PrefixSegEs \<or>
             b = PrefixSegFs \<or> b = PrefixSegGs then skip_prefixes rest next
     else if b = PrefixOperandSize then skip_prefixes rest (next\<lparr>sk_operandSize := True\<rparr>)
     else if b = PrefixAddressSize then skip_prefixes rest next
     else s)"

definition skipPrefixesAndRex :: "u8 list \<Rightarrow> skipped" where
  "skipPrefixesAndRex data = skip_prefixes data skip_start"

definition instr_OpcodeOffset :: "u8 list \<Rightarrow> nat" where
  "instr_OpcodeOffset data = sk_pos (skipPrefixesAndRex data)"

definition IsShaNi :: "u8 list \<Rightarrow> bool" where
  "IsShaNi data =
    (let s = skipPrefixesAndRex data; pos = sk_pos s in
     if sk_operandSize s \<or> sk_repne s \<or> sk_rep s then False
     else if length data \<le> pos + 2 then False
     else if data ! pos \<noteq> TwoByteOpcodeEscape then False
     else if data ! (pos + 1) = ThreeByteEscape38 then
       (let opcode = data ! (pos + 2) in
        opcode = 0xC8 \<or> opcode = 0xC9 \<or> opcode = 0xCA \<or> opcode = 0xCB \<or> opcode = 0xCC \<or> opcode = 0xCD)
     else if data ! (pos + 1) = ThreeByteEscape3A then data ! (pos + 2) = 0xCC
     else False)"

definition IsSha256 :: "u8 list \<Rightarrow> bool" where
  "IsSha256 data =
    (let s = skipPrefixesAndRex data; pos = sk_pos s in
     if sk_operandSize s \<or> sk_repne s \<or> sk_rep s then False
     else if length data \<le> pos + 2 then False
     else if data ! pos \<noteq> TwoByteOpcodeEscape \<or> data ! (pos + 1) \<noteq> ThreeByteEscape38 then False
     else let opcode = data ! (pos + 2) in opcode = 0xCB \<or> opcode = 0xCC \<or> opcode = 0xCD)"

definition IsSha1 :: "u8 list \<Rightarrow> bool" where
  "IsSha1 data =
    (let s = skipPrefixesAndRex data; pos = sk_pos s in
     if sk_operandSize s \<or> sk_repne s \<or> sk_rep s then False
     else if length data \<le> pos + 2 \<or> data ! pos \<noteq> TwoByteOpcodeEscape then False
     else let opcode = data ! (pos + 2) in
       if data ! (pos + 1) = ThreeByteEscape38 then opcode = 0xC8 \<or> opcode = 0xC9 \<or> opcode = 0xCA
       else data ! (pos + 1) = ThreeByteEscape3A \<and> opcode = 0xCC)"

definition IsExtrq :: "u8 list \<Rightarrow> bool" where
  "IsExtrq data =
    (let s = skipPrefixesAndRex data; pos = sk_pos s in
     if \<not> sk_operandSize s \<or> sk_repne s \<or> sk_rep s then False
     else if length data \<le> pos + 1 then False
     else data ! pos = TwoByteOpcodeEscape \<and>
       (data ! (pos + 1) = TwoByteExtrqInsertqImm8Imm8 \<or> data ! (pos + 1) = TwoByteExtrqInsertqModRm))"

definition IsInsertq :: "u8 list \<Rightarrow> bool" where
  "IsInsertq data =
    (let s = skipPrefixesAndRex data; pos = sk_pos s in
     if sk_operandSize s \<or> \<not> sk_repne s \<or> sk_rep s then False
     else if length data \<le> pos + 1 then False
     else data ! pos = TwoByteOpcodeEscape \<and>
       (data ! (pos + 1) = TwoByteExtrqInsertqImm8Imm8 \<or> data ! (pos + 1) = TwoByteExtrqInsertqModRm))"

definition IsMonitorx :: "u8 list \<Rightarrow> bool" where
  "IsMonitorx data =
    (let s = skipPrefixesAndRex data; pos = sk_pos s in
     if sk_operandSize s \<or> sk_repne s \<or> sk_rep s then False
     else if length data \<le> pos + 2 then False
     else data ! pos = TwoByteOpcodeEscape \<and> data ! (pos + 1) = TwoByteGrp7 \<and> data ! (pos + 2) = 0xFA)"

definition IsMwaitx :: "u8 list \<Rightarrow> bool" where
  "IsMwaitx data =
    (let s = skipPrefixesAndRex data; pos = sk_pos s in
     if sk_operandSize s \<or> sk_repne s \<or> sk_rep s then False
     else if length data \<le> pos + 2 then False
     else data ! pos = TwoByteOpcodeEscape \<and> data ! (pos + 1) = TwoByteGrp7 \<and> data ! (pos + 2) = 0xFB)"

definition IsClzero :: "u8 list \<Rightarrow> bool" where
  "IsClzero data =
    (let s = skipPrefixesAndRex data; pos = sk_pos s in
     if sk_operandSize s \<or> sk_repne s \<or> sk_rep s then False
     else if length data \<le> pos + 2 then False
     else data ! pos = TwoByteOpcodeEscape \<and> data ! (pos + 1) = TwoByteGrp7 \<and> data ! (pos + 2) = 0xFC)"

definition IsRdpru :: "u8 list \<Rightarrow> bool" where
  "IsRdpru data =
    (let s = skipPrefixesAndRex data; pos = sk_pos s in
     if sk_operandSize s \<or> sk_repne s \<or> sk_rep s then False
     else if length data \<le> pos + 2 then False
     else data ! pos = TwoByteOpcodeEscape \<and> data ! (pos + 1) = TwoByteGrp7 \<and> data ! (pos + 2) = 0xFD)"

definition IsMcommit :: "u8 list \<Rightarrow> bool" where
  "IsMcommit data =
    (let s = skipPrefixesAndRex data; pos = sk_pos s in
     if sk_operandSize s \<or> sk_repne s \<or> \<not> sk_rep s then False
     else if length data \<le> pos + 2 then False
     else data ! pos = TwoByteOpcodeEscape \<and> data ! (pos + 1) = TwoByteGrp7 \<and> data ! (pos + 2) = 0xFA)"

definition IsRdseed :: "u8 list \<Rightarrow> bool" where
  "IsRdseed data =
    (let s = skipPrefixesAndRex data; pos = sk_pos s in
     if sk_repne s \<or> sk_rep s \<or> length data \<le> pos + 2 then False
     else let modrm = data ! (pos + 2) in
       data ! pos = TwoByteOpcodeEscape \<and> data ! (pos + 1) = TwoByteGrp9 \<and>
       modrm_mod modrm = ModRmModRegister \<and> modrm_reg modrm = 7)"

definition IsRdpid :: "u8 list \<Rightarrow> bool" where
  "IsRdpid data =
    (let s = skipPrefixesAndRex data; pos = sk_pos s in
     if sk_operandSize s \<or> sk_repne s \<or> \<not> sk_rep s \<or> length data \<le> pos + 2 then False
     else let modrm = data ! (pos + 2) in
       data ! pos = TwoByteOpcodeEscape \<and> data ! (pos + 1) = TwoByteGrp9 \<and>
       modrm_mod modrm = ModRmModRegister \<and> modrm_reg modrm = 7)"

definition IsClwb :: "u8 list \<Rightarrow> bool" where
  "IsClwb data =
    (let s = skipPrefixesAndRex data; pos = sk_pos s in
     if \<not> sk_operandSize s \<or> sk_repne s \<or> sk_rep s \<or> length data \<le> pos + 2 then False
     else let modrm = data ! (pos + 2) in
       data ! pos = TwoByteOpcodeEscape \<and> data ! (pos + 1) = TwoByteGrp15 \<and>
       modrm_mod modrm \<noteq> ModRmModRegister \<and> modrm_reg modrm = 6)"

definition IsMovntss :: "u8 list \<Rightarrow> bool" where
  "IsMovntss data =
    (let s = skipPrefixesAndRex data; pos = sk_pos s in
     if sk_operandSize s \<or> sk_repne s \<or> \<not> sk_rep s then False
     else if length data \<le> pos + 1 then False
     else data ! pos = TwoByteOpcodeEscape \<and> data ! (pos + 1) = 0x2B)"

definition IsMovntsd :: "u8 list \<Rightarrow> bool" where
  "IsMovntsd data =
    (let s = skipPrefixesAndRex data; pos = sk_pos s in
     if sk_operandSize s \<or> \<not> sk_repne s \<or> sk_rep s then False
     else if length data \<le> pos + 1 then False
     else data ! pos = TwoByteOpcodeEscape \<and> data ! (pos + 1) = 0x2B)"

subsection \<open>The predicates exclude each other\<close>

lemma skip_prefixes_pos: "sk_pos (skip_prefixes data s) \<le> sk_pos s + length data"
  by (induction data s rule: skip_prefixes.induct) (auto simp: Let_def)

lemma instr_OpcodeOffset_le: "instr_OpcodeOffset data \<le> length data"
  using skip_prefixes_pos [of data skip_start]
  by (simp add: instr_OpcodeOffset_def skipPrefixesAndRex_def skip_start_def)

lemmas instruction_predicates =
  IsShaNi_def IsSha256_def IsSha1_def IsExtrq_def IsInsertq_def IsMonitorx_def IsMwaitx_def IsClzero_def
  IsRdpru_def IsMcommit_def IsRdseed_def IsRdpid_def IsClwb_def IsMovntss_def IsMovntsd_def

text \<open>The matcher tries the predicates in a fixed order; at most one of them holds.\<close>

definition amd_predicates :: "(u8 list \<Rightarrow> bool) list" where
  "amd_predicates = [IsMovntss, IsMovntsd, IsExtrq, IsInsertq, IsSha256, IsSha1, IsMonitorx, IsMwaitx, IsClzero,
     IsRdpru, IsMcommit, IsRdseed, IsClwb, IsRdpid]"

lemma amd_predicates_exclusive:
  "length (filter (\<lambda>P. P data) amd_predicates) \<le> 1"
proof -
  define s where "s = skipPrefixesAndRex data"
  obtain m where m: "modrm_mod (data ! (sk_pos s + 2)) = m" by simp
  show ?thesis
  proof (cases "sk_pos s + 1 < length data")
    case False
    then show ?thesis
      by (simp add: amd_predicates_def instruction_predicates Let_def s_def [symmetric])
  next
    case True
    then show ?thesis
      by (cases "sk_operandSize s"; cases "sk_repne s"; cases "sk_rep s")
        (auto simp: amd_predicates_def instruction_predicates Let_def s_def [symmetric])
  qed
qed

lemma sha_predicates: "IsShaNi data \<longleftrightarrow> IsSha256 data \<or> IsSha1 data"
  by (auto simp: instruction_predicates Let_def split: if_splits)

end
