(* ===== verification/Matcher.thy ===== *)
theory Matcher
  imports Lowerings Decoded_Instruction
begin

text \<open>
  The instruction matcher of \<open>core/relinker/codegen/src/x86/Amd64OnlyInstructionMatcher.cpp\<close>: what the
  conversion does with an instruction. A \<open>DecodedInstruction\<close> is the list of its bytes. A function that
  returns \<open>std::optional\<close> and may throw returns a result of an option; an output parameter
  \<open>StubBodyBuilder&\<close> is passed and returned.
\<close>

subsection \<open>Matches\<close>

definition unsupported :: "Entry \<Rightarrow> nat \<Rightarrow> Amd64OnlyMatch" where
  "unsupported entry len = \<lparr>InstructionName = Name entry, match_Length = len, Lowering = Unsupported,
     ReplacementBytes = [], StubBody = [], ReturnBranchOffset = 0, Optional = False, match_Relocations = [],
     RelocatableWindow = False\<rparr>"

definition sse4aEntry :: "Sse4aOperands \<Rightarrow> Entry" where
  "sse4aEntry operands =
    (if s4_RegisterForm operands then (if s4_Insertq operands then kInsertqRegisterForm else kExtrqRegisterForm)
     else if s4_Insertq operands then kInsertq else kExtrq)"

definition reciprocalEntry :: "ReciprocalOperands \<Rightarrow> Entry" where
  "reciprocalEntry operands =
    (if \<not> rc_Vex operands then (if rc_Operation operands = ReciprocalSquareRoot then kRsqrtps else kRcpps)
     else if rc_Operation operands = ReciprocalSquareRoot then kVrsqrtps else kVrcpps)"

definition sha256Entry :: "Sha256Operands \<Rightarrow> Entry" where
  "sha256Entry operands =
    (case s256_Operation operands of Sha256Rnds2 \<Rightarrow> kSha256rnds2 | Sha256Msg1 \<Rightarrow> kSha256msg1 | Sha256Msg2 \<Rightarrow> kSha256msg2)"

definition sha1Entry :: "Sha1Operands \<Rightarrow> Entry" where
  "sha1Entry operands =
    (case s1_Operation operands of
       Sha1Rnds4 \<Rightarrow> kSha1rnds4 | Sha1Nexte \<Rightarrow> kSha1nexte | Sha1Msg1 \<Rightarrow> kSha1msg1 | Sha1Msg2 \<Rightarrow> kSha1msg2)"

definition trampoline :: "string \<Rightarrow> nat \<Rightarrow> LoweredBody \<Rightarrow> bool \<Rightarrow> bool \<Rightarrow> Amd64OnlyMatch" where
  "trampoline name len body optional window = \<lparr>InstructionName = name, match_Length = len, Lowering = Trampoline,
     ReplacementBytes = [], StubBody = lb_Bytes body, ReturnBranchOffset = lb_ReturnBranchOffset body,
     Optional = optional, match_Relocations = lb_Relocations body, RelocatableWindow = window\<rparr>"

definition in_place :: "string \<Rightarrow> nat \<Rightarrow> u8 list \<Rightarrow> Amd64OnlyMatch" where
  "in_place name len replacement = \<lparr>InstructionName = name, match_Length = len, Lowering = InPlace,
     ReplacementBytes = replacement, StubBody = [], ReturnBranchOffset = 0, Optional = False,
     match_Relocations = [], RelocatableWindow = False\<rparr>"

function moveTrailing :: "u8 list \<Rightarrow> StubBodyBuilder \<Rightarrow> StubBodyBuilder result" where
  "moveTrailing trailing body =
    (if trailing = [] then Inr body
     else bindE (decode_instruction trailing) (\<lambda>info.
       if Length info = 0 \<or> length trailing < Length info
       then throw ''Trailing bytes do not split into whole instructions''
       else bindE (Move (take (Length info) trailing)
           (if HasRipRelativeDisp info then Some (RipRelativeDispOffset info) else None) body) (\<lambda>body.
         moveTrailing (drop (Length info) trailing) body)))"
  by pat_completeness auto

termination by (relation "measure (\<lambda>(trailing, body). length trailing)") auto

declare moveTrailing.simps [simp del]

text \<open>\<open>_outOfLine\<close>; \<open>emit\<close> is its callable argument.\<close>

definition outOfLine :: "nat \<Rightarrow> u8 list \<Rightarrow> (StubBodyBuilder \<Rightarrow> StubBodyBuilder result) \<Rightarrow> LoweredBody result" where
  "outOfLine len trailing emit =
    bindE (emit new_builder) (\<lambda>body. bindE (moveTrailing trailing (Advance len body)) Finish)"

function pad_nops :: "nat \<Rightarrow> u8 list \<Rightarrow> u8 list" where
  "pad_nops len replacement =
    (if length replacement < len then
       pad_nops len (replacement @ Bytes (kNops ! (min (len - length replacement) (length kNops) - 1)))
     else replacement)"
  by pat_completeness auto

termination
proof (relation "measure (\<lambda>(len, replacement). len - length replacement)", goal_cases)
  case (2 len replacement)
  then have "length (Bytes (kNops ! (min (len - length replacement) 7 - 1))) =
      Suc (min (len - length replacement) 7 - 1)"
    by (intro kNops_Size) (auto simp: min_def)
  with 2 show ?case by (simp only: in_measure prod.case length_append kNops_length) linarith
qed simp

declare pad_nops.simps [simp del]

definition inPlace :: "Entry \<Rightarrow> nat \<Rightarrow> u8 list \<Rightarrow> Amd64OnlyMatch" where
  "inPlace entry len replacement = in_place (Name entry) len (pad_nops len replacement)"

definition emitScalarCompare :: "u8 list \<Rightarrow> ScalarCompareOperands \<Rightarrow> StubBodyBuilder \<Rightarrow> StubBodyBuilder result" where
  "emitScalarCompare data operands body =
    (case sc_RipDisplacementOffset operands of
       Some off \<Rightarrow> RipRelative data off (sc_RipTarget operands) body
     | None \<Rightarrow> Inr (Raw data body))"

definition isClzeroOpcode :: "u8 list \<Rightarrow> bool" where
  "isClzeroOpcode data =
    (let pos = instr_OpcodeOffset data in
     pos + 2 < length data \<and> data ! pos = TwoByteOpcodeEscape \<and> data ! (pos + 1) = TwoByteGrp7 \<and> data ! (pos + 2) = 0xFC)"

text \<open>The byte before the opcode is the REX prefix, if it is one; the byte behind the opcode is ModRM.\<close>

definition rdpidReplacement :: "u8 list \<Rightarrow> u8 list result" where
  "rdpidReplacement data =
    (let opcode = instr_OpcodeOffset data in
     bindE (if 0 < opcode then byte_at data (opcode - 1) else Inr 0) (\<lambda>previous.
     let rex = (if 0 < opcode \<and> RexMin \<le> previous \<and> previous \<le> RexMax then previous else 0) in
     bindE (byte_at data (opcode + 2)) (\<lambda>modrm.
     let reg = modrm_rm modrm OR push_bit 3 (rex AND 1) in
     Inr ((if 8 \<le> reg then [0x41] else []) @ [0xB8 + (reg AND 7)] @ replicate 4 0))))"

definition validWait :: "u8 list \<Rightarrow> bool" where
  "validWait data \<longleftrightarrow>
     length data \<le> kMaxInstructionLength \<and> \<not> list_ex (\<lambda>b. b = PrefixLock) (take (instr_OpcodeOffset data) data)"

subsection \<open>Matching one instruction\<close>

definition matchMovnts :: "u8 list \<Rightarrow> Entry \<Rightarrow> Amd64OnlyMatch result" where
  "matchMovnts data entry =
    (let opcodeOffset = instr_OpcodeOffset data in
     if length data \<le> opcodeOffset + 2 then throw ''MOVNTSS/MOVNTSD truncated before its ModRM byte''
     else bindE (byte_at data (opcodeOffset + 2)) (\<lambda>modrm.
       if modrm_mod modrm = ModRmModRegister then throw ''MOVNTSS/MOVNTSD with a register operand''
       else Inr (in_place (Name entry) (length data) (data[opcodeOffset + 1 := kMovsStoreOpcode]))))"

definition matchSse4a :: "u8 list \<Rightarrow> Entry \<Rightarrow> Entry \<Rightarrow> u8 list \<Rightarrow> Amd64OnlyMatch result" where
  "matchSse4a data entry registerFormEntry trailing =
    bindE (DecodeSse4a data) (\<lambda>operands.
      let name = Name (if s4_RegisterForm operands then registerFormEntry else entry);
          stub = bindE (outOfLine (length data) trailing (\<lambda>body. Inr (Sse4a_EmitOutOfLine operands body))) (\<lambda>body.
            Inr (trampoline name (length data) body False False)) in
      if \<not> s4_RegisterForm operands \<and> trailing = [] then
        (case Sse4a_LowerInPlace operands (length data) of
           Some replacement \<Rightarrow> Inr (in_place (Name entry) (length data) replacement)
         | None \<Rightarrow> stub)
      else stub)"

definition matchSha256 :: "u8 list \<Rightarrow> u8 list \<Rightarrow> Amd64OnlyMatch result" where
  "matchSha256 data trailing =
    bindE (DecodeSha256 data) (\<lambda>operands.
    bindE (outOfLine (length data) trailing (Sha256_EmitOutOfLine operands)) (\<lambda>body.
      Inr (trampoline (Name (sha256Entry operands)) (length data) body False False)))"

definition matchSha1 :: "u8 list \<Rightarrow> u8 list \<Rightarrow> Amd64OnlyMatch result" where
  "matchSha1 data trailing =
    bindE (DecodeSha1 data) (\<lambda>operands.
    bindE (outOfLine (length data) trailing (Sha1_EmitOutOfLine operands)) (\<lambda>body.
      Inr (trampoline (Name (sha1Entry operands)) (length data) body False False)))"

definition matchClzero :: "u8 list \<Rightarrow> u8 list \<Rightarrow> Amd64OnlyMatch result" where
  "matchClzero data trailing =
    bindE (DecodeClzero data) (\<lambda>operands.
    bindE (outOfLine (length data) trailing (\<lambda>body. Inr (Clzero_EmitOutOfLine operands body))) (\<lambda>body.
      Inr (trampoline (Name kClzero) (length data) body False False)))"

text \<open>A chain of attempts: the value of the first decoder that recognises the instruction, else the rest.\<close>

definition attempt :: "'a option result \<Rightarrow> ('a \<Rightarrow> 'b option result) \<Rightarrow> 'b option result \<Rightarrow> 'b option result" where
  "attempt decoder use rest = bindE decoder (\<lambda>found. case found of Some a \<Rightarrow> use a | None \<Rightarrow> rest)"

definition stub_match ::
    "string \<Rightarrow> u8 list \<Rightarrow> u8 list \<Rightarrow> bool \<Rightarrow> bool \<Rightarrow> (StubBodyBuilder \<Rightarrow> StubBodyBuilder result) \<Rightarrow> Amd64OnlyMatch option result" where
  "stub_match name data trailing optional window emit =
     bindE (outOfLine (length data) trailing emit) (\<lambda>body. Inr (Some (trampoline name (length data) body optional window)))"

definition rdseed_replacement :: "u8 list \<Rightarrow> u8 list" where
  "rdseed_replacement data =
    (let pos = instr_OpcodeOffset data + 2 in data[pos := data ! pos AND NOT (push_bit ModRmRegShift 1)])"

definition matchRosetta :: "Amd64OnlyTarget \<Rightarrow> u8 list \<Rightarrow> u8 list \<Rightarrow> Amd64OnlyMatch option result" where
  "matchRosetta target data trailing =
    (if target \<noteq> Rosetta then Inr None
     else attempt (DecodeAndn data) (\<lambda>andn. stub_match ''ANDN'' data trailing False False (EmitAndn andn))
       (if IsRdseed data then Inr (Some (in_place (Name kRdseed) (length data) (rdseed_replacement data)))
        else if IsClwb data then Inr (Some (inPlace kClwb (length data) []))
        else if IsRdpid data then
          stub_match (Name kRdpid) data trailing True False
            (\<lambda>body. bindE (rdpidReplacement data) (\<lambda>bytes. Inr (Raw bytes body)))
        else
          attempt (DecodeVexWideStore data)
            (\<lambda>wide. stub_match (Name kWideStore) data trailing False True (WideStore_EmitOutOfLine wide))
            (attempt (DecodeScalarCompare data)
              (\<lambda>compare. stub_match (Name kScalarCompare) data trailing True False (emitScalarCompare data compare))
              (Inr None))))"

definition some_match :: "Amd64OnlyMatch result \<Rightarrow> Amd64OnlyMatch option result" where
  "some_match m = bindE m (\<lambda>m. Inr (Some m))"

definition Match :: "Amd64OnlyTarget \<Rightarrow> u8 list \<Rightarrow> u8 list \<Rightarrow> Amd64OnlyMatch option result" where
  "Match target data trailing =
    (if IsMovntss data then some_match (matchMovnts data kMovntss)
     else if IsMovntsd data then some_match (matchMovnts data kMovntsd)
     else if IsExtrq data then some_match (matchSse4a data kExtrq kExtrqRegisterForm trailing)
     else if IsInsertq data then some_match (matchSse4a data kInsertq kInsertqRegisterForm trailing)
     else if IsSha256 data then some_match (matchSha256 data trailing)
     else if IsSha1 data then some_match (matchSha1 data trailing)
     else if IsMonitorx data then
       Inr (Some (if validWait data then inPlace kMonitorx (length data) [] else unsupported kMonitorx (length data)))
     else if IsMwaitx data then
       Inr (Some (if validWait data then inPlace kMwaitx (length data) (Bytes kPause) else unsupported kMwaitx (length data)))
     else attempt (DecodeReciprocal data)
       (\<lambda>reciprocal. stub_match (Name (reciprocalEntry reciprocal)) data trailing True False
          (\<lambda>body. Inr (Reciprocal_EmitOutOfLine reciprocal body)))
       (if IsClzero data then some_match (matchClzero data trailing)
        else if isClzeroOpcode data then Inr (Some (unsupported kClzero (length data)))
        else if IsRdpru data then Inr (Some (unsupported kRdpru (length data)))
        else if IsMcommit data then Inr (Some (unsupported kMcommit (length data)))
        else matchRosetta target data trailing))"

subsection \<open>Emitting into a builder\<close>

text \<open>\<open>_emitOutOfLine\<close>: the name it returns and the builder; \<open>None\<close> is \<open>nullptr\<close>, where nothing was emitted.\<close>

definition on_rosetta :: "Amd64OnlyTarget \<Rightarrow> 'a option result \<Rightarrow> 'a option result" where
  "on_rosetta target decoder = (if target = Rosetta then decoder else Inr None)"

definition named :: "string \<Rightarrow> StubBodyBuilder result \<Rightarrow> (string \<times> StubBodyBuilder) option result" where
  "named name m = bindE m (\<lambda>body. Inr (Some (name, body)))"

definition emitOutOfLine ::
    "Amd64OnlyTarget \<Rightarrow> u8 list \<Rightarrow> StubBodyBuilder \<Rightarrow> (string \<times> StubBodyBuilder) option result" where
  "emitOutOfLine target data body =
    (if IsExtrq data \<or> IsInsertq data then
       bindE (DecodeSse4a data) (\<lambda>operands. named (Name (sse4aEntry operands)) (Inr (Sse4a_EmitOutOfLine operands body)))
     else if IsSha256 data then
       bindE (DecodeSha256 data) (\<lambda>operands. named (Name (sha256Entry operands)) (Sha256_EmitOutOfLine operands body))
     else if IsSha1 data then
       bindE (DecodeSha1 data) (\<lambda>operands. named (Name (sha1Entry operands)) (Sha1_EmitOutOfLine operands body))
     else if IsClzero data then
       bindE (DecodeClzero data) (\<lambda>operands. named (Name kClzero) (Inr (Clzero_EmitOutOfLine operands body)))
     else attempt (DecodeReciprocal data)
       (\<lambda>reciprocal. named (Name (reciprocalEntry reciprocal)) (Inr (Reciprocal_EmitOutOfLine reciprocal body)))
       (if target = Rosetta \<and> IsRdpid data then
          bindE (rdpidReplacement data) (\<lambda>bytes. named (Name kRdpid) (Inr (Raw bytes body)))
        else attempt (on_rosetta target (DecodeAndn data)) (\<lambda>andn. named ''ANDN'' (EmitAndn andn body))
          (attempt (on_rosetta target (DecodeVexWideStore data))
            (\<lambda>wide. named (Name kWideStore) (WideStore_EmitOutOfLine wide body))
            (attempt (on_rosetta target (DecodeScalarCompare data))
              (\<lambda>compare. named (Name kScalarCompare) (emitScalarCompare data compare body))
              (Inr None)))))"

definition EmitOutOfLine :: "Amd64OnlyTarget \<Rightarrow> u8 list \<Rightarrow> StubBodyBuilder \<Rightarrow> StubBodyBuilder result" where
  "EmitOutOfLine target data body =
    bindE (emitOutOfLine target data body) (\<lambda>emitted. case emitted of
      None \<Rightarrow> throw ''AMD-only instruction has no out-of-line lowering''
    | Some (name, body) \<Rightarrow> Inr (Advance (length data) body))"

fun emit_sequence ::
    "Amd64OnlyTarget \<Rightarrow> u8 list list \<Rightarrow> string option \<Rightarrow> StubBodyBuilder \<Rightarrow> (string option \<times> StubBodyBuilder) option result" where
  "emit_sequence target [] name body = Inr (Some (name, body))"
| "emit_sequence target (data # rest) name body =
    bindE (emitOutOfLine target data body) (\<lambda>emitted. case emitted of
      None \<Rightarrow> Inr None
    | Some (entry, body) \<Rightarrow>
        emit_sequence target rest (if name = None then Some entry else name) (Advance (length data) body))"

text \<open>The name is that of the first instruction; a null name would not be a string.\<close>

definition MatchSequence :: "Amd64OnlyTarget \<Rightarrow> u8 list list \<Rightarrow> u8 list \<Rightarrow> Amd64OnlyMatch option result" where
  "MatchSequence target instructions trailing =
    (case instructions of
       [] \<Rightarrow> Inr None
     | first # _ \<Rightarrow>
         attempt (emit_sequence target instructions None new_builder) (\<lambda>(name, body).
           bindE (moveTrailing trailing body) (\<lambda>body.
           bindE (DecodeReciprocal first) (\<lambda>reciprocal.
             let optional = (reciprocal \<noteq> None \<or> (target = Rosetta \<and> IsRdpid first)) in
             bindE (Finish body) (\<lambda>lowered.
               case name of None \<Rightarrow> Inl OutOfBounds
               | Some name \<Rightarrow> Inr (Some (trampoline name (length first) lowered optional False))))))
           (Inr None))"

text \<open>The interface \<open>IAmd64OnlyInstructionMatcher\<close> and the object \<open>MakeAmd64OnlyInstructionMatcher\<close> returns.\<close>

record IAmd64OnlyInstructionMatcher =
  im_Match :: "u8 list \<Rightarrow> u8 list \<Rightarrow> Amd64OnlyMatch option result"
  im_MatchSequence :: "u8 list list \<Rightarrow> u8 list \<Rightarrow> Amd64OnlyMatch option result"
  im_EmitOutOfLine :: "u8 list \<Rightarrow> StubBodyBuilder \<Rightarrow> StubBodyBuilder result"

definition MakeAmd64OnlyInstructionMatcher :: "Amd64OnlyTarget \<Rightarrow> IAmd64OnlyInstructionMatcher" where
  "MakeAmd64OnlyInstructionMatcher target =
     \<lparr>im_Match = Match target, im_MatchSequence = MatchSequence target, im_EmitOutOfLine = EmitOutOfLine target\<rparr>"

end
