(* ===== verification/Domain_Types.thy ===== *)
theory Domain_Types
  imports Prelude
begin

text \<open>
  What the parts of the relinker share, \<open>core/relinker/domain/include/domain/Types.hpp\<close>: program headers, and the ways
  a part outside the code generator fails.
\<close>

record ProgramHeader =
  ph_Type :: u32
  ph_Flags :: u32
  ph_Offset :: u64
  ph_MappedAddress :: u64
  ph_PhysicalAddress :: u64
  ph_FileSize :: u64
  ph_MemorySize :: u64
  ph_Alignment :: u64

text \<open>A \<open>RelinkerException\<close> with its message and offset, a \<open>std::out_of_range\<close>, a \<open>std::runtime_error\<close>, or what the
  code generator threw.\<close>

datatype patch_failure = RelinkerException string u64 | OutOfRange string | RuntimeError string | CodegenFailure failure

type_synonym 'a patch_result = "patch_failure + 'a"

definition from_codegen :: "'a result \<Rightarrow> 'a patch_result" where
  "from_codegen r = (case r of Inl e \<Rightarrow> Inl (CodegenFailure e) | Inr a \<Rightarrow> Inr a)"

lemma from_codegen_Inr [simp]: "from_codegen r = Inr a \<longleftrightarrow> r = Inr a"
  by (auto simp: from_codegen_def split: sum.splits)

end
