(* ===== verification/Converter.thy ===== *)
theory Converter
  imports Matcher InstructionScanner Domain_Types
begin

text \<open>
  The converter of \<open>core/relinker/codegen/src/Amd64OnlyConverter.cpp\<close>: it scans the executable segments,
  asks the matcher what to do with each instruction, patches replacements in place, and collects the
  trampoline sites, each at least as long as the jump that will lead to its stub. The \<open>progress\<close> callback
  only observes the conversion and is left out. Addresses and file offsets are 64-bit words; positions in a
  segment and indices of instructions are natural numbers; the index sets are lists.
\<close>

subsection \<open>Types\<close>

record TrampolineSite =
  site_Offset :: u64
  site_Address :: u64
  site_Length :: nat
  OriginalBytes :: "u8 list"
  site_Body :: "u8 list"
  site_ReturnBranchOffset :: nat
  site_Relocations :: "StubRelocation list"

record ConvertResult =
  conv_Bytes :: "u8 list"
  ReplacedCount :: nat
  Trampolines :: "TrampolineSite list"
  Reports :: "Amd64OnlySubstitutionReport list"
  KeptCount :: nat

record Placement =
  Sites :: "TrampolineSite list"
  Claimed :: "nat list"
  Consumed :: "nat list"
  pl_ReplacementLength :: nat

abbreviation (input) kShortJumpSize :: nat where "kShortJumpSize \<equiv> 2"
abbreviation (input) kLoadSegment :: u32 where "kLoadSegment \<equiv> 1"
abbreviation (input) kExecutableSegment :: u32 where "kExecutableSegment \<equiv> 1"
abbreviation (input) kLea :: u8 where "kLea \<equiv> 0x8D"
abbreviation (input) kIslandSearchBytes :: u64 where "kIslandSearchBytes \<equiv> 0x100"

subsection \<open>Exceptions\<close>

text \<open>\<open>_atFileOffset\<close> adds the base to the offset of an exception.\<close>

definition atFileOffset :: "u64 \<Rightarrow> 'a result \<Rightarrow> 'a result" where
  "atFileOffset base operation =
    (case operation of
       Inl (CodegenException message off) \<Rightarrow> Inl (CodegenException message (base + off))
     | r \<Rightarrow> r)"

text \<open>\<open>catch (const CodegenException&) { return std::nullopt; }\<close>\<close>

definition catch_none :: "'a result \<Rightarrow> 'a option result" where
  "catch_none operation =
    (case operation of
       Inl (CodegenException message off) \<Rightarrow> Inr None
     | Inl OutOfBounds \<Rightarrow> Inl OutOfBounds
     | Inr a \<Rightarrow> Inr (Some a))"

subsection \<open>Placing the site of a short instruction\<close>

text \<open>The references a \<open>WindowPlacer\<close> holds. \<open>pl_seg\<close> is passed back where it is written to.\<close>

record WindowPlacer =
  pl_seg :: "u8 list"
  pl_matches :: "InstructionMatch list"
  pl_ph :: ProgramHeader
  pl_branchTargets :: "u64 list"
  pl_pending :: "nat list"
  pl_claimed :: "nat list"
  pl_matcher :: IAmd64OnlyInstructionMatcher

definition instruction_bytes :: "u8 list \<Rightarrow> InstructionMatch \<Rightarrow> u8 list" where
  "instruction_bytes seg match = take (m_Length match) (drop (unat (m_Offset match)) seg)"

definition pl_address :: "WindowPlacer \<Rightarrow> nat \<Rightarrow> u64" where
  "pl_address p index = ph_MappedAddress (pl_ph p) + m_Offset (pl_matches p ! index)"

definition pl_end :: "WindowPlacer \<Rightarrow> nat \<Rightarrow> u64" where
  "pl_end p index = pl_address p index + of_nat (m_Length (pl_matches p ! index))"

definition pl_bytes :: "WindowPlacer \<Rightarrow> nat \<Rightarrow> u8 list" where
  "pl_bytes p index = instruction_bytes (pl_seg p) (pl_matches p ! index)"

definition pl_info :: "WindowPlacer \<Rightarrow> nat \<Rightarrow> DecodedInstructionInfo result" where
  "pl_info p index = decode_instruction (pl_bytes p index)"

text \<open>\<open>std::set::upper_bound\<close>: the least target above a start.\<close>

definition upper_bound :: "u64 list \<Rightarrow> u64 \<Rightarrow> u64 option" where
  "upper_bound targets start =
    (case filter (\<lambda>target. start < target) targets of
       [] \<Rightarrow> None
     | target # rest \<Rightarrow> Some (fold min rest target))"

definition entered :: "u64 list \<Rightarrow> u64 \<Rightarrow> u64 \<Rightarrow> bool" where
  "entered targets start end =
    (case upper_bound targets start of None \<Rightarrow> False | Some hit \<Rightarrow> hit < end)"

definition blocksFollowing :: "WindowPlacer \<Rightarrow> nat \<Rightarrow> bool result" where
  "blocksFollowing p index =
    bindE (pl_info p index) (\<lambda>info. Inr (FlowKind info \<noteq> Sequential \<and> FlowKind info \<noteq> ConditionalBranch))"

fun segmentOverride :: "u8 list \<Rightarrow> bool" where
  "segmentOverride [] = False"
| "segmentOverride (byte # rest) =
    (if byte = 0x64 \<or> byte = 0x65 then True
     else if byte \<noteq> 0x66 \<and> byte \<noteq> 0x67 \<and> byte \<noteq> 0xF0 \<and> byte \<noteq> 0xF2 \<and> byte \<noteq> 0xF3 \<and> byte \<noteq> 0x2E \<and> byte \<noteq> 0x36 \<and>
       byte \<noteq> 0x3E \<and> byte \<noteq> 0x26 then False
     else segmentOverride rest)"

definition movable :: "WindowPlacer \<Rightarrow> nat \<Rightarrow> bool \<Rightarrow> bool result" where
  "movable p index latest =
    (if index \<in> set (pl_claimed p) \<or> index \<in> set (pl_pending p) \<or> segmentOverride (pl_bytes p index) then Inr False
     else if latest then Inr True
     else bindE (blocksFollowing p index) (\<lambda>blocks. Inr (\<not> blocks)))"

definition pl_site :: "WindowPlacer \<Rightarrow> u64 \<Rightarrow> nat \<Rightarrow> LoweredBody \<Rightarrow> TrampolineSite" where
  "pl_site p start len body =
    (let off = unat (start - ph_MappedAddress (pl_ph p)) in
     \<lparr>site_Offset = ph_Offset (pl_ph p) + of_nat off, site_Address = start, site_Length = len,
       OriginalBytes = take len (drop off (pl_seg p)), site_Body = lb_Bytes body,
       site_ReturnBranchOffset = lb_ReturnBranchOffset body, site_Relocations = lb_Relocations body\<rparr>)"

text \<open>The loop of \<open>_relocate\<close> over the instructions from \<open>first\<close> on: claimed and consumed indices, body.\<close>

fun relocate_loop ::
    "WindowPlacer \<Rightarrow> nat \<Rightarrow> nat list \<Rightarrow> nat list \<Rightarrow> nat list \<Rightarrow> StubBodyBuilder \<Rightarrow> (nat list \<times> nat list \<times> StubBodyBuilder) result" where
  "relocate_loop p index [] claimed consumed body = Inr (claimed, consumed, body)"
| "relocate_loop p index (k # ks) claimed consumed body =
    (if k \<in> set (pl_pending p) then
       bindE (im_EmitOutOfLine (pl_matcher p) (pl_bytes p k) body) (\<lambda>body.
         relocate_loop p index ks (claimed @ [k]) (if k \<noteq> index then consumed @ [k] else consumed) body)
     else
       bindE (pl_info p k) (\<lambda>info. bindE (MoveControlFlow (pl_bytes p k) info body) (\<lambda>body.
         relocate_loop p index ks (claimed @ [k]) consumed body)))"

definition relocate :: "WindowPlacer \<Rightarrow> nat \<Rightarrow> nat \<Rightarrow> nat \<Rightarrow> Placement option result" where
  "relocate p index first latest =
    (if entered (pl_branchTargets p) (pl_address p first) (pl_end p latest) then Inr None
     else bindE (catch_none (relocate_loop p index [first ..< Suc latest] [] [] new_builder)) (\<lambda>moved.
       case moved of None \<Rightarrow> Inr None
       | Some (claimed, consumed, body) \<Rightarrow>
           bindE (Finish body) (\<lambda>body.
             Inr (Some \<lparr>Sites = [pl_site p (pl_address p first) (unat (pl_end p latest - pl_address p first)) body],
               Claimed = claimed, Consumed = consumed, pl_ReplacementLength = length (lb_Bytes body)\<rparr>))))"

definition Window :: "WindowPlacer \<Rightarrow> nat \<Rightarrow> Placement option result" where
  "Window p index =
    bindE (if index + 1 < length (pl_matches p) then
             bindE (if index + 1 \<in> set (pl_pending p) then Inr True else movable p (index + 1) True) (\<lambda>follows.
               if follows then relocate p index index (index + 1) else Inr None)
           else Inr None) (\<lambda>placement.
      case placement of Some placement \<Rightarrow> Inr (Some placement)
      | None \<Rightarrow>
          if 0 < index then
            bindE (movable p (index - 1) False) (\<lambda>precedes.
              if precedes then relocate p index (index - 1) index else Inr None)
          else Inr None)"

subsection \<open>Islands\<close>

fun move_all :: "WindowPlacer \<Rightarrow> nat list \<Rightarrow> StubBodyBuilder \<Rightarrow> StubBodyBuilder result" where
  "move_all p [] body = Inr body"
| "move_all p (k # ks) body =
    bindE (pl_info p k) (\<lambda>info. bindE (MoveControlFlow (pl_bytes p k) info body) (move_all p ks))"

text \<open>The store itself becomes a short jump to the island, filled with traps.\<close>

definition patch_store :: "WindowPlacer \<Rightarrow> nat \<Rightarrow> u64 \<Rightarrow> u8 list" where
  "patch_store p index island =
    (let off = unat (m_Offset (pl_matches p ! index));
         filled = write_bytes (pl_seg p) off (replicate (m_Length (pl_matches p ! index)) kTrapFill);
         distance = sint island - sint (pl_address p index + of_nat kShortJumpSize) in
     filled[off := OneByteJmpRel8, off + 1 := word_of_int distance])"

definition buildIsland :: "WindowPlacer \<Rightarrow> nat \<Rightarrow> nat \<Rightarrow> nat \<Rightarrow> nat \<Rightarrow> (Placement \<times> u8 list) result" where
  "buildIsland p index start latest head =
    (let windowStart = pl_address p start; windowEnd = pl_end p latest; island = windowStart + of_nat head;
         store = pl_address p index in
     bindE (move_all p [start ..< Suc latest] new_builder) (\<lambda>moved.
     bindE (blocksFollowing p latest) (\<lambda>blocks.
     bindE (Finish (if blocks then moved else JumpTo (sint (windowEnd - windowStart)) moved)) (\<lambda>moved_body.
     bindE (im_EmitOutOfLine (pl_matcher p) (pl_bytes p index) (Seek (sint store - sint island) new_builder)) (\<lambda>lowered.
     bindE (Finish (JumpTo (sint (pl_end p index) - sint island) lowered)) (\<lambda>lowered_body.
       Inr (\<lparr>Sites = [pl_site p windowStart head moved_body, pl_site p island (Size kJmpRel32) lowered_body],
           Claimed = [start ..< Suc latest] @ [index], Consumed = [],
           pl_ReplacementLength = length (lb_Bytes lowered_body)\<rparr>,
         patch_store p index island)))))))"

text \<open>The loop of \<open>_islandAt\<close>; \<open>head\<close> is the length of the site in front of the island once it fits a jump.\<close>

function islandAt_loop :: "WindowPlacer \<Rightarrow> nat \<Rightarrow> nat \<Rightarrow> nat \<Rightarrow> nat \<Rightarrow> (Placement \<times> u8 list) option result" where
  "islandAt_loop p index start latest head =
    (if length (pl_matches p) \<le> latest then Inr None
     else bindE (movable p latest True) (\<lambda>moves.
       if \<not> moves \<or> entered (pl_branchTargets p) (pl_address p start) (pl_end p latest) then Inr None
       else
         let extent = unat (pl_end p latest - pl_address p start);
             head = (if head = 0 \<and> Size kJmpRel32 \<le> extent then extent else head);
             island = pl_address p start + of_nat head;
             reach = sint island - sint (pl_address p index + of_nat kShortJumpSize) in
         if head \<noteq> 0 \<and> (reach < - 128 \<or> 127 < reach) then Inr None
         else if head \<noteq> 0 \<and> island + of_nat (Size kJmpRel32) \<le> pl_end p latest
         then catch_none (buildIsland p index start latest head)
         else bindE (blocksFollowing p latest) (\<lambda>blocks.
           if blocks then Inr None else islandAt_loop p index start (latest + 1) head)))"
  by pat_completeness auto

termination by (relation "measure (\<lambda>(p, index, start, latest, head). length (pl_matches p) - latest)") auto

declare islandAt_loop.simps [simp del]

definition islandAt :: "WindowPlacer \<Rightarrow> nat \<Rightarrow> nat \<Rightarrow> (Placement \<times> u8 list) option result" where
  "islandAt p index start = islandAt_loop p index start start 0"

text \<open>The starts at a distance that are within the search range, the one before the store first.\<close>

definition island_starts :: "WindowPlacer \<Rightarrow> nat \<Rightarrow> nat \<Rightarrow> nat list" where
  "island_starts p index distance =
    (let store = pl_address p index in
     filter (\<lambda>start. \<not> (pl_address p start + kIslandSearchBytes < store \<or> store + kIslandSearchBytes < pl_address p start))
       ((if index < distance then [] else [index - distance]) @
        (if length (pl_matches p) \<le> index + distance then [] else [index + distance])))"

fun first_island :: "WindowPlacer \<Rightarrow> nat \<Rightarrow> nat list \<Rightarrow> (Placement \<times> u8 list) option result" where
  "first_island p index [] = Inr None"
| "first_island p index (start # rest) =
    bindE (islandAt p index start) (\<lambda>placement.
      case placement of Some placement \<Rightarrow> Inr (Some placement) | None \<Rightarrow> first_island p index rest)"

lemma island_starts_empty: "max (length (pl_matches p)) index < distance \<Longrightarrow> island_starts p index distance = []"
  by (simp add: island_starts_def)

function Island_loop :: "WindowPlacer \<Rightarrow> nat \<Rightarrow> nat \<Rightarrow> (Placement \<times> u8 list) option result" where
  "Island_loop p index distance =
    (let starts = island_starts p index distance in
     if starts = [] then Inr None
     else bindE (first_island p index starts) (\<lambda>placement.
       case placement of Some placement \<Rightarrow> Inr (Some placement) | None \<Rightarrow> Island_loop p index (distance + 1)))"
  by pat_completeness auto

termination
proof (relation "measure (\<lambda>(p, index, distance). Suc (max (length (pl_matches p)) index) - distance)", goal_cases)
  case (2 p index distance)
  then have "\<not> max (length (pl_matches p)) index < distance" using island_starts_empty by blast
  then show ?case by (simp only: in_measure prod.case)
qed simp

declare Island_loop.simps [simp del]

definition Island :: "WindowPlacer \<Rightarrow> nat \<Rightarrow> (Placement \<times> u8 list) option result" where
  "Island p index = Island_loop p index 1"

subsection \<open>Branch targets\<close>

text \<open>Whether an instruction starts at an address: the binary search over the sorted matches.\<close>

definition startsInstruction :: "ProgramHeader \<Rightarrow> InstructionMatch list \<Rightarrow> u64 \<Rightarrow> bool" where
  "startsInstruction ph matches address =
    (let off = address - ph_MappedAddress ph in
     case dropWhile (\<lambda>item. m_Offset item < off) matches of [] \<Rightarrow> False | match # _ \<Rightarrow> m_Offset match = off)"

text \<open>
  The entries of a jump table in one segment, from position \<open>pos\<close> of the segment's file bytes on, up to the
  first entry that does not lead to an instruction. The segment lies within the file.
\<close>

function table_entries ::
    "(u64 \<Rightarrow> bool) \<Rightarrow> u8 list \<Rightarrow> ProgramHeader \<Rightarrow> u64 \<Rightarrow> nat \<Rightarrow> u64 list \<Rightarrow> u64 list result" where
  "table_entries starts fileBytes data table pos targets =
    (if unat (ph_FileSize data) < pos + 4 then Inr targets
     else bindE (read_s32 fileBytes (unat (ph_Offset data) + pos)) (\<lambda>relative.
       let target = table + word_of_int relative in
       if \<not> starts target then Inr targets
       else table_entries starts fileBytes data table (pos + 4) (targets @ [target])))"
  by pat_completeness auto

termination by (relation "measure (\<lambda>(starts, fileBytes, data, table, pos, targets). unat (ph_FileSize data) - pos)") auto

declare table_entries.simps [simp del]

fun table_segments ::
    "(u64 \<Rightarrow> bool) \<Rightarrow> u8 list \<Rightarrow> u64 \<Rightarrow> ProgramHeader list \<Rightarrow> u64 list \<Rightarrow> u64 list result" where
  "table_segments starts fileBytes table [] targets = Inr targets"
| "table_segments starts fileBytes table (data # rest) targets =
    (if ph_Type data \<noteq> kLoadSegment \<or> table < ph_MappedAddress data \<or>
        ph_FileSize data \<le> table - ph_MappedAddress data then table_segments starts fileBytes table rest targets
     else if length fileBytes < unat (ph_Offset data) \<or>
             length fileBytes - unat (ph_Offset data) < unat (ph_FileSize data)
     then Inl (CodegenException ''Segment exceeds the file'' (ph_Offset data))
     else bindE (table_entries starts fileBytes data table (unat (table - ph_MappedAddress data)) targets)
       (table_segments starts fileBytes table rest))"

fun branch_targets_loop ::
    "u8 list \<Rightarrow> InstructionMatch list \<Rightarrow> ProgramHeader \<Rightarrow> u8 list \<Rightarrow> ProgramHeader list \<Rightarrow>
     InstructionMatch list \<Rightarrow> u64 list \<Rightarrow> u64 list result" where
  "branch_targets_loop seg matches ph fileBytes segments [] targets = Inr targets"
| "branch_targets_loop seg matches ph fileBytes segments (match # rest) targets =
    bindE (decode_instruction (instruction_bytes seg match)) (\<lambda>info.
      let next_address = sint (ph_MappedAddress ph + m_Offset match + of_nat (Length info)) in
      bindE
        (if HasBranchTarget info \<and> \<not> HasRipRelativeDisp info then
           let target = next_address + BranchDisp info in
           Inr (if 0 \<le> target then targets @ [word_of_int target] else targets)
         else if HasRipRelativeDisp info \<and> Opcode info = kLea then
           bindE (read_s32 seg (unat (m_Offset match) + RipRelativeDispOffset info)) (\<lambda>displacement.
             table_segments (startsInstruction ph matches) fileBytes (word_of_int (next_address + displacement)) segments targets)
         else Inr targets)
        (branch_targets_loop seg matches ph fileBytes segments rest))"

definition collectBranchTargets ::
    "u8 list \<Rightarrow> InstructionMatch list \<Rightarrow> ProgramHeader \<Rightarrow> u8 list \<Rightarrow> ProgramHeader list \<Rightarrow> u64 list result" where
  "collectBranchTargets seg matches ph fileBytes segments =
     branch_targets_loop seg matches ph fileBytes segments matches []"

subsection \<open>Converting a segment\<close>

record Pending =
  pend_Index :: nat
  Instruction :: InstructionMatch
  Substitution :: Amd64OnlyMatch

fun find_pending ::
    "IAmd64OnlyInstructionMatcher \<Rightarrow> u64 \<Rightarrow> u8 list \<Rightarrow> nat \<Rightarrow> InstructionMatch list \<Rightarrow> Pending list result" where
  "find_pending matcher base seg index [] = Inr []"
| "find_pending matcher base seg index (match # rest) =
    bindE (atFileOffset (base + m_Offset match) (im_Match matcher (instruction_bytes seg match) [])) (\<lambda>substitution.
    bindE (find_pending matcher base seg (index + 1) rest) (\<lambda>pending.
      Inr ((case substitution of None \<Rightarrow> []
            | Some substitution \<Rightarrow> [\<lparr>pend_Index = index, Instruction = match, Substitution = substitution\<rparr>]) @ pending)))"

text \<open>What the loop over the pending instructions carries: the segment, the result, the two index sets.\<close>

record conversion =
  cv_seg :: "u8 list"
  cv_result :: ConvertResult
  cv_claimed :: "nat list"
  cv_consumed :: "nat list"

record conversion_context =
  cx_matches :: "InstructionMatch list"
  cx_ph :: ProgramHeader
  cx_branchTargets :: "u64 list"
  cx_pendingIndices :: "nat list"
  cx_matcher :: IAmd64OnlyInstructionMatcher

definition file_offset :: "conversion_context \<Rightarrow> InstructionMatch \<Rightarrow> u64" where
  "file_offset cx match = ph_Offset (cx_ph cx) + m_Offset match"

definition push_report ::
    "conversion_context \<Rightarrow> Pending \<Rightarrow> nat \<Rightarrow> Amd64OnlyLowering \<Rightarrow> ConvertResult \<Rightarrow> ConvertResult" where
  "push_report cx item replacementLength lowering result =
     result\<lparr>Reports := Reports result @ [\<lparr>report_InstructionName = InstructionName (Substitution item),
       report_Offset = file_offset cx (Instruction item), OriginalLength = m_Length (Instruction item),
       ReplacementLength = replacementLength, report_Lowering = lowering\<rparr>]\<rparr>"

text \<open>A replacement in place.\<close>

definition convert_in_place :: "conversion_context \<Rightarrow> Pending \<Rightarrow> conversion \<Rightarrow> (conversion \<times> nat) result" where
  "convert_in_place cx item cv =
    (let match = Instruction item; bytes = ReplacementBytes (Substitution item); result = cv_result cv in
     if length bytes \<noteq> m_Length match
     then Inl (CodegenException ''Intel substitution changes the instruction length'' (file_offset cx match))
     else Inr (cv\<lparr>cv_seg := write_bytes (cv_seg cv) (unat (m_Offset match)) bytes,
         cv_result := result\<lparr>ReplacedCount := ReplacedCount result + 1\<rparr>\<rparr>, length bytes))"

text \<open>A relocatable window: the neighbours first, then an island.\<close>

definition placer :: "conversion_context \<Rightarrow> conversion \<Rightarrow> WindowPlacer" where
  "placer cx cv = \<lparr>pl_seg = cv_seg cv, pl_matches = cx_matches cx, pl_ph = cx_ph cx,
     pl_branchTargets = cx_branchTargets cx, pl_pending = cx_pendingIndices cx, pl_claimed = cv_claimed cv,
     pl_matcher = cx_matcher cx\<rparr>"

definition place_window :: "conversion_context \<Rightarrow> Pending \<Rightarrow> conversion \<Rightarrow> (Placement \<times> u8 list) option result" where
  "place_window cx item cv =
    bindE (Window (placer cx cv) (pend_Index item)) (\<lambda>placement.
      case placement of Some placement \<Rightarrow> Inr (Some (placement, cv_seg cv))
      | None \<Rightarrow> Island (placer cx cv) (pend_Index item))"

definition convert_window :: "conversion_context \<Rightarrow> Pending \<Rightarrow> conversion \<Rightarrow> (conversion \<times> nat) result" where
  "convert_window cx item cv =
    bindE (place_window cx item cv) (\<lambda>placement. case placement of
      None \<Rightarrow> Inl (CodegenException (''No room for a jump to the stub of '' @ InstructionName (Substitution item) @
          '' within its neighbours or a nearby island'') (file_offset cx (Instruction item)))
    | Some (placement, seg) \<Rightarrow>
        let result = cv_result cv in
        Inr (cv\<lparr>cv_seg := seg, cv_result := result\<lparr>Trampolines := Trampolines result @ Sites placement\<rparr>,
            cv_claimed := cv_claimed cv @ Claimed placement, cv_consumed := cv_consumed cv @ Consumed placement\<rparr>,
          pl_ReplacementLength placement))"

text \<open>
  The sequence a short instruction needs to make room for a jump: AMD-only instructions that follow it
  are lowered with it, then other instructions move behind them. \<open>following\<close> is the rest of the matches,
  \<open>index\<close> the index of its first.
\<close>

record gathered =
  ga_siteLength :: nat
  ga_sequence :: "u8 list list"
  ga_taken :: "nat list"
  ga_trailingBytes :: nat

fun gather ::
    "conversion_context \<Rightarrow> u8 list \<Rightarrow> InstructionMatch \<Rightarrow> nat \<Rightarrow> InstructionMatch list \<Rightarrow> gathered \<Rightarrow> gathered result" where
  "gather cx seg match index [] g =
    (if Size kJmpRel32 \<le> ga_siteLength g then Inr g
     else Inl (CodegenException ''AMD-only instruction too short for a jump and not followed by an instruction''
       (file_offset cx match)))"
| "gather cx seg match index (following # rest) g =
    (if Size kJmpRel32 \<le> ga_siteLength g then Inr g
     else if m_Offset following \<noteq> m_Offset match + of_nat (ga_siteLength g)
     then Inl (CodegenException ''AMD-only instruction too short for a jump and not followed by an instruction''
       (file_offset cx match))
     else
       let bytes = instruction_bytes seg following; longer = g\<lparr>ga_siteLength := ga_siteLength g + m_Length following\<rparr> in
       bindE (decode_instruction bytes) (\<lambda>info.
       bindE (im_Match (cx_matcher cx) bytes []) (\<lambda>amdOnly.
         if amdOnly \<noteq> None \<and> ga_trailingBytes g = 0 then
           gather cx seg match (index + 1) rest
             (longer\<lparr>ga_sequence := ga_sequence g @ [bytes], ga_taken := ga_taken g @ [index]\<rparr>)
         else if amdOnly \<noteq> None \<or> FlowKind info \<noteq> Sequential \<or> HasBranchTarget info
         then Inl (CodegenException ''AMD-only instruction too short for a jump is followed by an instruction that cannot move''
           (file_offset cx following))
         else gather cx seg match (index + 1) rest (longer\<lparr>ga_trailingBytes := ga_trailingBytes g + m_Length following\<rparr>))))"

definition gather_start :: "u8 list \<Rightarrow> InstructionMatch \<Rightarrow> gathered" where
  "gather_start seg match = \<lparr>ga_siteLength = m_Length match, ga_sequence = [instruction_bytes seg match], ga_taken = [],
     ga_trailingBytes = 0\<rparr>"

text \<open>The site's length, the stub, and the indices taken into it.\<close>

definition site_stub :: "conversion_context \<Rightarrow> Pending \<Rightarrow> u8 list \<Rightarrow> (nat \<times> Amd64OnlyMatch \<times> nat list) result" where
  "site_stub cx item seg =
    (let match = Instruction item in
     if Size kJmpRel32 \<le> m_Length match then Inr (m_Length match, Substitution item, [])
     else
       bindE (gather cx seg match (pend_Index item + 1) (drop (pend_Index item + 1) (cx_matches cx)) (gather_start seg match)) (\<lambda>g.
         let trailing = take (ga_trailingBytes g)
               (drop (unat (m_Offset match) + ga_siteLength g - ga_trailingBytes g) seg) in
         bindE (atFileOffset (file_offset cx match) (im_MatchSequence (cx_matcher cx) (ga_sequence g) trailing)) (\<lambda>relocated.
           case relocated of
             Some stub \<Rightarrow>
               if Lowering stub \<noteq> Trampoline
               then Inl (CodegenException ''AMD-only instruction sequence has no out-of-line lowering'' (file_offset cx match))
               else Inr (ga_siteLength g, stub, ga_taken g)
           | None \<Rightarrow> Inl (CodegenException ''AMD-only instruction sequence has no out-of-line lowering'' (file_offset cx match)))))"

definition claimed_from :: "InstructionMatch list \<Rightarrow> nat \<Rightarrow> u64 \<Rightarrow> nat list" where
  "claimed_from matches index limit =
     (let covered = takeWhile (\<lambda>match. m_Offset match < limit) (drop index matches)
      in [index ..< index + length covered])"

definition add_site ::
    "conversion_context \<Rightarrow> Pending \<Rightarrow> conversion \<Rightarrow> nat \<Rightarrow> Amd64OnlyMatch \<Rightarrow> nat list \<Rightarrow> conversion \<times> nat" where
  "add_site cx item cv siteLength stub taken =
    (let match = Instruction item; result = cv_result cv;
         site = \<lparr>site_Offset = file_offset cx match, site_Address = ph_MappedAddress (cx_ph cx) + m_Offset match,
           site_Length = siteLength, OriginalBytes = take siteLength (drop (unat (m_Offset match)) (cv_seg cv)),
           site_Body = StubBody stub, site_ReturnBranchOffset = ReturnBranchOffset stub,
           site_Relocations = match_Relocations stub\<rparr> in
     (cv\<lparr>cv_result := result\<lparr>Trampolines := Trampolines result @ [site]\<rparr>,
        cv_consumed := cv_consumed cv @ taken,
        cv_claimed := cv_claimed cv @
          claimed_from (cx_matches cx) (pend_Index item) (m_Offset match + of_nat siteLength)\<rparr>,
      length (StubBody stub)))"

definition trampoline_site :: "conversion_context \<Rightarrow> Pending \<Rightarrow> conversion \<Rightarrow> (conversion \<times> nat) result" where
  "trampoline_site cx item cv =
    (let address = ph_MappedAddress (cx_ph cx) + m_Offset (Instruction item) in
     bindE (site_stub cx item (cv_seg cv)) (\<lambda>(siteLength, stub, taken).
       if entered (cx_branchTargets cx) address (address + of_nat siteLength)
       then Inl (CodegenException ''Branch enters an AMD-only instruction''
         (ph_Offset (cx_ph cx) + (the (upper_bound (cx_branchTargets cx) address) - ph_MappedAddress (cx_ph cx))))
       else Inr (add_site cx item cv siteLength stub taken)))"

text \<open>One pending instruction, unless a window or a site before it has consumed it.\<close>

definition convert_kept :: "conversion_context \<Rightarrow> Pending \<Rightarrow> conversion \<Rightarrow> conversion" where
  "convert_kept cx item cv =
    (let result = cv_result cv in
     cv\<lparr>cv_result := push_report cx item 0 Kept (result\<lparr>KeptCount := KeptCount result + 1\<rparr>)\<rparr>)"

definition reported :: "conversion_context \<Rightarrow> Pending \<Rightarrow> (conversion \<times> nat) result \<Rightarrow> conversion result" where
  "reported cx item m = bindE m (\<lambda>(cv, replacementLength).
     Inr (cv\<lparr>cv_result := push_report cx item replacementLength (Lowering (Substitution item)) (cv_result cv)\<rparr>))"

definition convert_item :: "conversion_context \<Rightarrow> Pending \<Rightarrow> conversion \<Rightarrow> conversion result" where
  "convert_item cx item cv =
    (let substitution = Substitution item in
     if pend_Index item \<in> set (cv_consumed cv) then Inr cv
     else case Lowering substitution of
       InPlace \<Rightarrow> reported cx item (convert_in_place cx item cv)
     | Trampoline \<Rightarrow>
         if RelocatableWindow substitution \<and> m_Length (Instruction item) < Size kJmpRel32
         then reported cx item (convert_window cx item cv)
         else (case trampoline_site cx item cv of
             Inl (CodegenException message off) \<Rightarrow>
               if Optional substitution then Inr (convert_kept cx item cv) else Inl (CodegenException message off)
           | r \<Rightarrow> reported cx item r)
     | _ \<Rightarrow> Inl (CodegenException (''AMD-only instruction without Intel lowering: '' @ InstructionName substitution)
         (file_offset cx (Instruction item))))"

fun convert_items :: "conversion_context \<Rightarrow> Pending list \<Rightarrow> conversion \<Rightarrow> conversion result" where
  "convert_items cx [] cv = Inr cv"
| "convert_items cx (item # rest) cv = bindE (convert_item cx item cv) (convert_items cx rest)"

definition convert_pending ::
    "IAmd64OnlyInstructionMatcher \<Rightarrow> u8 list \<Rightarrow> ProgramHeader \<Rightarrow> ProgramHeader list \<Rightarrow> u8 list \<Rightarrow>
     InstructionMatch list \<Rightarrow> Pending list \<Rightarrow> ConvertResult \<Rightarrow> conversion result" where
  "convert_pending matcher fileBytes ph segments seg matches pending result =
    bindE (if list_ex (\<lambda>item. Lowering (Substitution item) = Trampoline) pending
           then collectBranchTargets seg matches ph fileBytes segments else Inr []) (\<lambda>branchTargets.
      convert_items \<lparr>cx_matches = matches, cx_ph = ph, cx_branchTargets = branchTargets,
          cx_pendingIndices = map pend_Index pending, cx_matcher = matcher\<rparr> pending
        \<lparr>cv_seg = seg, cv_result = result, cv_claimed = [], cv_consumed = []\<rparr>)"

definition convertSegment ::
    "IAmd64OnlyInstructionMatcher \<Rightarrow> ProgramHeader list \<Rightarrow> ProgramHeader \<Rightarrow> u8 list \<times> ConvertResult \<Rightarrow>
     (u8 list \<times> ConvertResult) result" where
  "convertSegment matcher segments ph = (\<lambda>(fileBytes, result).
    let segOffset = unat (ph_Offset ph); segSize = unat (ph_FileSize ph);
        seg = take segSize (drop segOffset fileBytes) in
    if length fileBytes < segOffset \<or> length fileBytes - segOffset < segSize
    then Inl (CodegenException ''Code segment exceeds the file'' (ph_Offset ph))
    else
      bindE (atFileOffset (ph_Offset ph) (ScanCodeSection False seg 0 (of_nat (length seg)))) (\<lambda>matches.
      bindE (find_pending matcher (ph_Offset ph) seg 0 matches) (\<lambda>pending.
        if pending = [] then Inr (fileBytes, result)
        else bindE (convert_pending matcher fileBytes ph segments seg matches pending result) (\<lambda>cv.
          if length (cv_seg cv) \<noteq> segSize
          then Inl (CodegenException ''Code segment size changed during Intel conversion'' (ph_Offset ph))
          else Inr (write_bytes fileBytes segOffset (cv_seg cv), cv_result cv)))))"

subsection \<open>Converting a file\<close>

definition executable_load :: "ProgramHeader \<Rightarrow> bool" where
  "executable_load ph \<longleftrightarrow> \<not> (ph_Type ph \<noteq> kLoadSegment \<or> ph_Flags ph AND kExecutableSegment = 0)"

fun progress_total :: "ProgramHeader list \<Rightarrow> u64 \<Rightarrow> u64 result" where
  "progress_total [] acc = Inr acc"
| "progress_total (ph # rest) acc =
    (if \<not> executable_load ph then progress_total rest acc
     else if (- 1 - acc) div 3 < ph_FileSize ph then throw ''Instruction conversion progress size overflow''
     else progress_total rest (acc + 3 * ph_FileSize ph))"

fun convert_segments ::
    "IAmd64OnlyInstructionMatcher \<Rightarrow> ProgramHeader list \<Rightarrow> ProgramHeader list \<Rightarrow> u8 list \<times> ConvertResult \<Rightarrow>
     (u8 list \<times> ConvertResult) result" where
  "convert_segments matcher segments [] state = Inr state"
| "convert_segments matcher segments (ph # rest) state =
    (if \<not> executable_load ph then convert_segments matcher segments rest state
     else bindE (convertSegment matcher segments ph state) (convert_segments matcher segments rest))"

definition empty_result :: ConvertResult where
  "empty_result = \<lparr>conv_Bytes = [], ReplacedCount = 0, Trampolines = [], Reports = [], KeptCount = 0\<rparr>"

definition Convert :: "IAmd64OnlyInstructionMatcher \<Rightarrow> u8 list \<Rightarrow> ProgramHeader list \<Rightarrow> ConvertResult result" where
  "Convert matcher fileBytes segments =
    bindE (progress_total segments 0) (\<lambda>_.
    bindE (convert_segments matcher segments segments (fileBytes, empty_result)) (\<lambda>(bytes, result).
      Inr (result\<lparr>conv_Bytes := bytes\<rparr>)))"

end
