(* ===== verification/Byte_Codec.thy ===== *)
theory Byte_Codec
  imports Domain_Types
begin

text \<open>
  Little-endian integers of any width in a byte buffer: what \<open>memcpy\<close> of an integer does on the host. The bounds
  checks are those of \<open>core/relinker/io/src/ByteWriter.cpp\<close> and \<open>BufferUtils.cpp\<close>.
\<close>

fun le_bytes :: "nat \<Rightarrow> 'a::len word \<Rightarrow> u8 list" where
  "le_bytes 0 v = []"
| "le_bytes (Suc n) v = ucast v # le_bytes n (drop_bit 8 v)"

fun le_word :: "u8 list \<Rightarrow> 'a::len word" where
  "le_word [] = 0"
| "le_word (b # bs) = ucast b OR push_bit 8 (le_word bs)"

lemma length_le_bytes [simp]: "length (le_bytes n v) = n"
  by (induction n arbitrary: v) simp_all

lemma bit_le_word:
  fixes v :: "'a::len word"
  shows "bit (le_word (le_bytes n v) :: 'a word) i \<longleftrightarrow> i < 8 * n \<and> bit v i"
proof (induction n arbitrary: v i)
  case (Suc n)
  have "bit v i \<Longrightarrow> i < LENGTH('a)" by (rule bit_imp_le_length)
  then show ?case using Suc.IH [of "drop_bit 8 v" "i - 8"]
    by (cases "i < 8") (auto simp: bit_or_iff bit_push_bit_iff bit_unsigned_iff bit_drop_bit_eq)
qed simp

lemma le_word_le_bytes: "LENGTH('a) \<le> 8 * n \<Longrightarrow> le_word (le_bytes n v) = v" for v :: "'a::len word"
  by (rule bit_word_eqI) (simp add: bit_le_word)

lemma le_word_bytes [codec]:
  "le_word (le_bytes 2 v16) = (v16 :: u16)" "le_word (le_bytes 4 v32) = (v32 :: u32)" "le_word (le_bytes 8 v64) = (v64 :: u64)"
  by (simp_all add: le_word_le_bytes)

lemma le_bytes_32: "le_bytes 4 v = le32_bytes v" for v :: u32
  by (simp add: le32_bytes_def numeral_eq_Suc drop_bit_drop_bit)

definition write_le :: "string \<Rightarrow> nat \<Rightarrow> u8 list \<Rightarrow> nat \<Rightarrow> 'a::len word \<Rightarrow> u8 list patch_result" where
  "write_le message n buf off v =
    (if length buf < off \<or> length buf - off < n then Inl (OutOfRange message) else Inr (write_bytes buf off (le_bytes n v)))"

definition WriteU16 :: "u8 list \<Rightarrow> nat \<Rightarrow> u16 \<Rightarrow> u8 list patch_result" where
  "WriteU16 = write_le ''ByteWriter::WriteU16 out of bounds'' 2"

text \<open>\<open>WriteU32\<close> of \<open>io/src/ByteWriter.cpp\<close>.\<close>

definition WriteU32 :: "u8 list \<Rightarrow> nat \<Rightarrow> u32 \<Rightarrow> u8 list patch_result" where
  "WriteU32 buf off v =
    (if length buf < off \<or> length buf - off < 4 then Inl (OutOfRange ''ByteWriter::WriteU32 out of bounds'')
     else Inr (write_bytes buf off (le32_bytes v)))"

definition WriteU64 :: "u8 list \<Rightarrow> nat \<Rightarrow> u64 \<Rightarrow> u8 list patch_result" where
  "WriteU64 = write_le ''ByteWriter::WriteU64 out of bounds'' 8"

lemma WriteU32_le: "WriteU32 = write_le ''ByteWriter::WriteU32 out of bounds'' 4"
  by (intro ext) (simp add: WriteU32_def write_le_def le_bytes_32)

lemmas writes = WriteU16_def WriteU32_le WriteU64_def

lemma write_le_Inr: "off + n \<le> length buf \<Longrightarrow> write_le message n buf off v = Inr (write_bytes buf off (le_bytes n v))"
  by (simp add: write_le_def)

lemma write_le_eq_Inr: "write_le message n buf off v = Inr out \<longleftrightarrow> off + n \<le> length buf \<and> out = write_bytes buf off (le_bytes n v)"
  by (auto simp: write_le_def)

text \<open>What a window of the buffer holds after a write: the bytes written, or what it held before.\<close>

lemma window_write_same: "pos + length bs \<le> length buf \<Longrightarrow> take (length bs) (drop pos (write_bytes buf pos bs)) = bs"
  by (simp add: write_bytes_def)

lemma window_write_other:
  assumes "pos + length bs \<le> length buf" "q + n \<le> pos \<or> pos + length bs \<le> q"
  shows "take n (drop q (write_bytes buf pos bs)) = take n (drop q buf)"
  using assms by (intro nth_equalityI) (auto simp: nth_write_bytes)

text \<open>Reads of \<open>BufferUtils.cpp\<close>, with the function's name in the message.\<close>

definition read_le :: "string \<Rightarrow> nat \<Rightarrow> u8 list \<Rightarrow> nat \<Rightarrow> 'a::len word patch_result" where
  "read_le message n buf off =
    (if length buf < off \<or> length buf - off < n then Inl (OutOfRange message) else Inr (le_word (take n (drop off buf))))"

definition ReadU16 :: "u8 list \<Rightarrow> nat \<Rightarrow> u16 patch_result" where
  "ReadU16 = read_le ''ReadU16 out of bounds'' 2"

definition ReadU32 :: "u8 list \<Rightarrow> nat \<Rightarrow> u32 patch_result" where
  "ReadU32 = read_le ''ReadU32 out of bounds'' 4"

definition ReadU64 :: "u8 list \<Rightarrow> nat \<Rightarrow> u64 patch_result" where
  "ReadU64 = read_le ''ReadU64 out of bounds'' 8"

text \<open>Writes and appends of \<open>BufferUtils.cpp\<close>, and those of \<open>ByteWriter.cpp\<close>, which append the same bytes.\<close>

definition Io_WriteU64 :: "u8 list \<Rightarrow> nat \<Rightarrow> u64 \<Rightarrow> u8 list patch_result" where
  "Io_WriteU64 = write_le ''WriteU64 out of bounds'' 8"

definition AppendU32 :: "u8 list \<Rightarrow> u32 \<Rightarrow> u8 list" where
  "AppendU32 buf v = buf @ le_bytes 4 v"

definition AppendU64 :: "u8 list \<Rightarrow> u64 \<Rightarrow> u8 list" where
  "AppendU64 buf v = buf @ le_bytes 8 v"

end
