(* ===== verification/Trampolines.thy ===== *)
theory Trampolines
  imports Converter Byte_Codec
begin

text \<open>
  Linking the stubs of a conversion into an ELF image: \<open>_appendTrampoline\<close> of
  \<open>core/relinker/elfpatcher/src/linux/LinuxElfPatcher.cpp\<close> and the loop of \<open>Patch\<close> over the sites. The image is
  a list of bytes; the stubs are appended to it behind \<open>extraBlockOffset\<close>, the size of the original image.
\<close>

text \<open>The address of a position in the block behind the original image.\<close>

definition vaddrOfExtraBlockOffset :: "u64 \<Rightarrow> u64 \<Rightarrow> u64 \<Rightarrow> u64 patch_result" where
  "vaddrOfExtraBlockOffset extraBlockOff extraBlockVaddr fileOffset =
    (if fileOffset < extraBlockOff then Inl (RelinkerException ''Extra block member offset lies before the extra block'' 0)
     else Inr (extraBlockVaddr + (fileOffset - extraBlockOff)))"

definition valid_site :: "TrampolineSite \<Rightarrow> bool" where
  "valid_site site \<longleftrightarrow> \<not> (site_Length site < Size kJmpRel32 \<or> length (OriginalBytes site) \<noteq> site_Length site \<or>
     length (site_Body site) < Size kJmpRel32 \<or>
     length (site_Body site) - Size kJmpRel32 < site_ReturnBranchOffset site \<or>
     site_Body site ! site_ReturnBranchOffset site \<noteq> Bytes kJmpRel32 ! 0)"

definition inRange :: "int \<Rightarrow> bool" where
  "inRange displacement \<longleftrightarrow> - (2 ^ 31) \<le> displacement \<and> displacement \<le> 2 ^ 31 - 1"

text \<open>The jump at the site: NOPs over the whole site, then the jump over its first five bytes.\<close>

definition patch_site :: "TrampolineSite \<Rightarrow> int \<Rightarrow> u8 list \<Rightarrow> u8 list patch_result" where
  "patch_site site jumpDisplacement buf =
    (let off = unat (site_Offset site);
         filled = write_bytes buf off (replicate (site_Length site) (Bytes kNop1 ! 0)) in
     WriteU32 (filled[off := Bytes kJmpRel32 ! 0]) (off + 1) (word_of_int jumpDisplacement))"

definition appendTrampoline ::
    "(u64 \<Rightarrow> u64 patch_result) \<Rightarrow> nat \<Rightarrow> TrampolineSite \<Rightarrow> u8 list \<Rightarrow> u8 list patch_result" where
  "appendTrampoline vaddrOf extraBlockOffset site buf =
    (let off = unat (site_Offset site); branch = site_ReturnBranchOffset site in
     if \<not> valid_site site then Inl (RelinkerException ''Invalid AMD-only trampoline site'' (site_Offset site))
     else if extraBlockOffset < off \<or> extraBlockOffset - off < site_Length site
     then Inl (RelinkerException ''AMD-only instruction is outside the original image'' (site_Offset site))
     else if OriginalBytes site \<noteq> take (site_Length site) (drop off buf)
     then Inl (RelinkerException ''AMD-only site bytes changed before patching'' (site_Offset site))
     else
       let padded = pad_trap buf; bodyOff = length padded in
       bindE (vaddrOf (of_nat bodyOff)) (\<lambda>bodyVaddr.
       bindE (from_codegen (ApplyStubRelocations (take branch (site_Body site)) (site_Relocations site)
           (site_Address site) bodyVaddr (site_Offset site))) (\<lambda>code.
         let appended = padded @ code @ drop branch (site_Body site);
             returnDisplacement = sint (site_Address site + of_nat (site_Length site)) -
               sint (bodyVaddr + of_nat (branch + Size kJmpRel32));
             jumpDisplacement = sint bodyVaddr - sint (site_Address site + of_nat (Size kJmpRel32)) in
         if \<not> inRange returnDisplacement \<or> \<not> inRange jumpDisplacement
         then Inl (RelinkerException ''AMD-only stub exceeds rel32 range'' (site_Offset site))
         else bindE (WriteU32 appended (bodyOff + branch + 1) (word_of_int returnDisplacement))
           (patch_site site jumpDisplacement))))"

fun append_trampolines ::
    "(u64 \<Rightarrow> u64 patch_result) \<Rightarrow> nat \<Rightarrow> TrampolineSite list \<Rightarrow> u8 list \<Rightarrow> u8 list patch_result" where
  "append_trampolines vaddrOf extraBlockOffset [] buf = Inr buf"
| "append_trampolines vaddrOf extraBlockOffset (site # rest) buf =
    bindE (appendTrampoline vaddrOf extraBlockOffset site buf) (append_trampolines vaddrOf extraBlockOffset rest)"

end
