(* ===== verification/Stub_Body_Props.thy ===== *)
theory Stub_Body_Props
  imports Stub_Body
begin

text \<open>
  The stub builder's invariant, that every operation keeps it, and what it is for: the constants a stub
  refers to are found where its fixups say, and its relocations can be applied independently.
\<close>

subsection \<open>The invariant\<close>

definition fixup_before :: "Fixup \<Rightarrow> Fixup \<Rightarrow> bool" where
  "fixup_before f g \<longleftrightarrow> fx_InstructionEnd f \<le> fx_DisplacementOffset g"

definition relocation_before :: "StubRelocation \<Rightarrow> StubRelocation \<Rightarrow> bool" where
  "relocation_before r s \<longleftrightarrow> DisplacementOffset r + 4 \<le> DisplacementOffset s"

definition apart :: "Fixup \<Rightarrow> StubRelocation \<Rightarrow> bool" where
  "apart f r \<longleftrightarrow> fx_InstructionEnd f \<le> DisplacementOffset r \<or> DisplacementOffset r + 4 \<le> fx_DisplacementOffset f"

definition fixup_in :: "nat \<Rightarrow> nat \<Rightarrow> nat \<Rightarrow> Fixup \<Rightarrow> bool" where
  "fixup_in lo hi n f \<longleftrightarrow> lo \<le> fx_DisplacementOffset f \<and> fx_InstructionEnd f = fx_DisplacementOffset f + 4 \<and>
     fx_InstructionEnd f \<le> hi \<and> fx_ConstantIndex f < n"

definition relocation_in :: "nat \<Rightarrow> nat \<Rightarrow> StubRelocation \<Rightarrow> bool" where
  "relocation_in lo hi r \<longleftrightarrow> lo \<le> DisplacementOffset r \<and> DisplacementOffset r + 4 \<le> InstructionEnd r \<and>
     InstructionEnd r \<le> hi"

definition builder_wf :: "StubBodyBuilder \<Rightarrow> bool" where
  "builder_wf b \<longleftrightarrow>
     (\<forall>c \<in> set (sb_constants b). length c = 16) \<and>
     (\<forall>f \<in> set (sb_fixups b). fixup_in 0 (length (sb_bytes b)) (length (sb_constants b)) f) \<and>
     (\<forall>r \<in> set (sb_relocations b). relocation_in 0 (length (sb_bytes b)) r) \<and>
     sorted_wrt fixup_before (sb_fixups b) \<and> sorted_wrt relocation_before (sb_relocations b) \<and>
     (\<forall>f \<in> set (sb_fixups b). \<forall>r \<in> set (sb_relocations b). apart f r)"

lemma new_builder_wf: "builder_wf new_builder"
  by (simp add: builder_wf_def new_builder_def)

text \<open>
  What an operation does: it appends code and adds fields in the code it appended. The stack depth changes
  by \<open>depth\<close>.
\<close>

definition grows :: "u64 \<Rightarrow> StubBodyBuilder \<Rightarrow> StubBodyBuilder \<Rightarrow> bool" where
  "grows depth b b' \<longleftrightarrow>
     (\<exists>code fixups constants relocations.
        sb_bytes b' = sb_bytes b @ code \<and> sb_fixups b' = sb_fixups b @ fixups \<and>
        sb_constants b' = sb_constants b @ constants \<and> sb_relocations b' = sb_relocations b @ relocations \<and>
        (\<forall>c \<in> set constants. length c = 16) \<and>
        (\<forall>f \<in> set fixups. fixup_in (length (sb_bytes b)) (length (sb_bytes b')) (length (sb_constants b')) f) \<and>
        (\<forall>r \<in> set relocations. relocation_in (length (sb_bytes b)) (length (sb_bytes b')) r) \<and>
        sorted_wrt fixup_before fixups \<and> sorted_wrt relocation_before relocations \<and>
        (\<forall>f \<in> set fixups. \<forall>r \<in> set relocations. apart f r)) \<and>
     sb_stackDepth b' = sb_stackDepth b + depth"

lemma growsE:
  assumes "grows depth b b'"
  obtains code fixups constants relocations where
    "sb_bytes b' = sb_bytes b @ code" "sb_fixups b' = sb_fixups b @ fixups"
    "sb_constants b' = sb_constants b @ constants" "sb_relocations b' = sb_relocations b @ relocations"
    "\<forall>c \<in> set constants. length c = 16"
    "\<forall>f \<in> set fixups. fixup_in (length (sb_bytes b)) (length (sb_bytes b')) (length (sb_constants b')) f"
    "\<forall>r \<in> set relocations. relocation_in (length (sb_bytes b)) (length (sb_bytes b')) r"
    "sorted_wrt fixup_before fixups" "sorted_wrt relocation_before relocations"
    "\<forall>f \<in> set fixups. \<forall>r \<in> set relocations. apart f r" "sb_stackDepth b' = sb_stackDepth b + depth"
  using assms unfolding grows_def by blast

lemma growsI:
  assumes "sb_bytes b' = sb_bytes b @ code" "sb_fixups b' = sb_fixups b @ fixups"
    "sb_constants b' = sb_constants b @ constants" "sb_relocations b' = sb_relocations b @ relocations"
    "\<forall>c \<in> set constants. length c = 16"
    "\<forall>f \<in> set fixups. fixup_in (length (sb_bytes b)) (length (sb_bytes b')) (length (sb_constants b')) f"
    "\<forall>r \<in> set relocations. relocation_in (length (sb_bytes b)) (length (sb_bytes b')) r"
    "sorted_wrt fixup_before fixups" "sorted_wrt relocation_before relocations"
    "\<forall>f \<in> set fixups. \<forall>r \<in> set relocations. apart f r" "sb_stackDepth b' = sb_stackDepth b + depth"
  shows "grows depth b b'"
  using assms unfolding grows_def by blast

lemma fixup_in_mono: "fixup_in lo hi n f \<Longrightarrow> lo' \<le> lo \<Longrightarrow> hi \<le> hi' \<Longrightarrow> n \<le> n' \<Longrightarrow> fixup_in lo' hi' n' f"
  by (simp add: fixup_in_def)

lemma relocation_in_mono: "relocation_in lo hi r \<Longrightarrow> lo' \<le> lo \<Longrightarrow> hi \<le> hi' \<Longrightarrow> relocation_in lo' hi' r"
  by (simp add: relocation_in_def)

text \<open>Fields of an earlier part of the code come before, and lie apart from, those of a later part.\<close>

lemma fields_before:
  "fixup_in lo mid n f \<Longrightarrow> fixup_in mid hi n' g \<Longrightarrow> fixup_before f g"
    "relocation_in lo mid r \<Longrightarrow> relocation_in mid hi s \<Longrightarrow> relocation_before r s"
    "fixup_in lo mid n f \<Longrightarrow> relocation_in mid hi s \<Longrightarrow> apart f s"
    "relocation_in lo mid r \<Longrightarrow> fixup_in mid hi n' g \<Longrightarrow> apart g r"
  by (auto simp: fixup_in_def relocation_in_def fixup_before_def relocation_before_def apart_def)

lemma grows_refl [simp]: "grows 0 b b"
  by (rule growsI [where code = "[]" and fixups = "[]" and constants = "[]" and relocations = "[]"]) simp_all

lemma grows_trans [trans]:
  assumes "grows d b b'" "grows d' b' b''"
  shows "grows (d + d') b b''"
proof -
  from assms(1) obtain c f k r where 1:
    "sb_bytes b' = sb_bytes b @ c" "sb_fixups b' = sb_fixups b @ f"
    "sb_constants b' = sb_constants b @ k" "sb_relocations b' = sb_relocations b @ r"
    "\<forall>c \<in> set k. length c = 16"
    "\<forall>f \<in> set f. fixup_in (length (sb_bytes b)) (length (sb_bytes b')) (length (sb_constants b')) f"
    "\<forall>r \<in> set r. relocation_in (length (sb_bytes b)) (length (sb_bytes b')) r"
    "sorted_wrt fixup_before f" "sorted_wrt relocation_before r"
    "\<forall>f \<in> set f. \<forall>r \<in> set r. apart f r" "sb_stackDepth b' = sb_stackDepth b + d" by (rule growsE)
  from assms(2) obtain c' f' k' r' where 2:
    "sb_bytes b'' = sb_bytes b' @ c'" "sb_fixups b'' = sb_fixups b' @ f'"
    "sb_constants b'' = sb_constants b' @ k'" "sb_relocations b'' = sb_relocations b' @ r'"
    "\<forall>c \<in> set k'. length c = 16"
    "\<forall>f \<in> set f'. fixup_in (length (sb_bytes b')) (length (sb_bytes b'')) (length (sb_constants b'')) f"
    "\<forall>r \<in> set r'. relocation_in (length (sb_bytes b')) (length (sb_bytes b'')) r"
    "sorted_wrt fixup_before f'" "sorted_wrt relocation_before r'"
    "\<forall>f \<in> set f'. \<forall>r \<in> set r'. apart f r" "sb_stackDepth b'' = sb_stackDepth b' + d'" by (rule growsE)
  note len = 1(1,3) 2(1,3)
  show ?thesis
  proof (rule growsI [where code = "c @ c'" and fixups = "f @ f'" and constants = "k @ k'" and relocations = "r @ r'"])
    show "\<forall>x \<in> set (f @ f'). fixup_in (length (sb_bytes b)) (length (sb_bytes b'')) (length (sb_constants b'')) x"
      using 1(6) 2(6) len by (auto elim!: fixup_in_mono)
    show "\<forall>x \<in> set (r @ r'). relocation_in (length (sb_bytes b)) (length (sb_bytes b'')) x"
      using 1(7) 2(7) len by (auto elim!: relocation_in_mono)
    show "sorted_wrt fixup_before (f @ f')"
      using 1(6,8) 2(6,8) fields_before(1) by (auto simp: sorted_wrt_append) blast
    show "sorted_wrt relocation_before (r @ r')"
      using 1(7,9) 2(7,9) fields_before(2) by (auto simp: sorted_wrt_append) blast
    show "\<forall>x \<in> set (f @ f'). \<forall>y \<in> set (r @ r'). apart x y"
      using 1(6,7,10) 2(6,7,10) fields_before(3,4) by auto blast+
  qed (use 1 2 in auto)
qed

lemma grows_wf:
  assumes "grows d b b'" "builder_wf b"
  shows "builder_wf b'"
proof -
  have *: "builder_wf x \<longleftrightarrow> grows (sb_stackDepth x) new_builder x" for x
    by (auto simp: builder_wf_def grows_def new_builder_def)
  from assms(2) * have "grows (sb_stackDepth b) new_builder b" by simp
  from grows_trans [OF this assms(1)] have "grows (sb_stackDepth b + d) new_builder b'" .
  moreover from assms(1) have "sb_stackDepth b' = sb_stackDepth b + d" by (rule growsE)
  ultimately show ?thesis using * by simp
qed


subsection \<open>Every operation grows the builder\<close>

named_theorems grow

lemma grows_code:
  assumes "sb_bytes b' = sb_bytes b @ code" "sb_fixups b' = sb_fixups b" "sb_constants b' = sb_constants b"
    "sb_relocations b' = sb_relocations b" "sb_stackDepth b' = sb_stackDepth b + depth"
  shows "grows depth b b'"
  using assms by (intro growsI [where fixups = "[]" and constants = "[]" and relocations = "[]"]) auto

lemma grows_Raw [grow]: "grows 0 b (Raw bytes b)"
  by (rule grows_code [where code = bytes]) (simp_all add: Raw_def)

lemma grows_Sse [grow]: "grows 0 b (Sse prefix opcode dst src b)"
  unfolding Sse_def EmitSse_def by (rule grows_code) simp_all

lemma grows_SseImm [grow]: "grows 0 b (SseImm prefix opcode dst src imm b)"
  unfolding SseImm_def EmitSse_def by (rule grows_code) simp_all

lemma grows_SsePlain [grow]: "grows 0 b (SsePlain opcode dst src b)"
  unfolding SsePlain_def Let_def by (rule grows_Raw)

lemma grows_ShiftImm [grow]: "grows 0 b (ShiftImm extension reg imm b)"
  unfolding ShiftImm_def by (rule grows_Raw)

lemma grows_ShiftDwordImm [grow]: "grows 0 b (ShiftDwordImm extension reg imm b)"
  unfolding ShiftDwordImm_def by (rule grows_Raw)

lemma grows_Advance [grow]: "grows 0 b (Advance len b)"
  unfolding Advance_def by (rule grows_code [where code = "[]"]) simp_all

lemma grows_Seek [grow]: "grows 0 b (Seek off b)"
  unfolding Seek_def by (rule grows_code [where code = "[]"]) simp_all

lemma grows_Spill [grow]: "grows 0x90 b (Spill reg b)"
  unfolding Spill_def Raw_def by (rule grows_code) simp_all

lemma grows_Restore [grow]: "grows (- 0x90) b (Restore reg b)"
  unfolding Restore_def Raw_def Let_def by (rule grows_code) simp_all

lemma grows_RipOperand [grow]: "length constant = 16 \<Longrightarrow> grows 0 b (RipOperand opcode reg constant b)"
  unfolding RipOperand_def Let_def
  by (rule growsI [where relocations = "[]"]) (auto simp: fixup_in_def)

lemma grows_relocation:
  assumes "sb_bytes b' = sb_bytes b @ code" "sb_fixups b' = sb_fixups b" "sb_constants b' = sb_constants b"
    "sb_relocations b' = sb_relocations b" "sb_stackDepth b' = sb_stackDepth b"
    "length (sb_bytes b) \<le> displacement" "displacement + 4 \<le> end" "end \<le> length (sb_bytes b')"
  shows "grows 0 b (push_relocation displacement end target b')"
  using assms by (intro growsI [where fixups = "[]" and constants = "[]"]) (auto simp: push_relocation_def relocation_in_def)

lemma grows_rel32 [grow]: "grows 0 b (rel32 opcode target b)"
  unfolding rel32_def Let_def by (rule grows_relocation [where code = "opcode @ replicate 4 0"]) (simp_all add: Raw_def)

lemma grows_JumpTo [grow]: "grows 0 b (JumpTo target b)"
  unfolding JumpTo_def by (rule grows_rel32)

lemma grows_then: "grows d b b' \<Longrightarrow> grows d' b' b'' \<Longrightarrow> d'' = d + d' \<Longrightarrow> grows d'' b b''"
  by (simp add: grows_trans)

lemma grows_pushReturnAddress [grow]: "grows 0 b (pushReturnAddress target b)"
  unfolding pushReturnAddress_def
  by (rule grows_then [OF grows_then [OF grows_Raw grows_rel32 refl] grows_Raw]) simp

lemma write_bytes_append:
  "length a \<le> pos \<Longrightarrow> pos + length bs \<le> length a + length c \<Longrightarrow>
   write_bytes (a @ c) pos bs = a @ write_bytes c (pos - length a) bs"
  by (simp add: write_bytes_def)

lemma grows_RipRelative [grow]: "RipRelative instruction off target b = Inr b' \<Longrightarrow> grows 0 b b'"
  by (auto simp: RipRelative_def Let_def Raw_def write_bytes_append split: if_splits
      intro!: grows_relocation)

lemma grows_Advance_after: "grows 0 b b1 \<Longrightarrow> grows 0 b (Advance n b1)"
  by (rule grows_then [OF _ grows_Advance]) simp_all

lemma grows_Move [grow]:
  assumes "Move instruction rip b = Inr b'"
  shows "grows 0 b b'"
proof (cases rip)
  case None
  with assms have "b' = Advance (length instruction) (Raw instruction b)"
    by (simp add: Move_def Let_def)
  then show ?thesis by (simp add: grows_Advance_after grows_Raw)
next
  case (Some off)
  with assms obtain v where b': "b' = Advance (length instruction)
      (push_relocation (length (sb_bytes b) + off) (length (sb_bytes b) + length instruction) v
        (b\<lparr>sb_bytes := sb_bytes b @ write_bytes instruction off (replicate 4 0)\<rparr>))"
    and off: "\<not> length instruction < off" "\<not> length instruction - off < 4"
    by (auto simp: Move_def Let_def Raw_def write_bytes_append bindE_eq_Inr split: if_splits)
  show ?thesis
    unfolding b' using off by (intro grows_Advance_after grows_relocation) auto
qed

lemma grows_Load [grow]:
  assumes "Load reg operand b = Inr b'"
  shows "grows 0 b b'"
proof -
  obtain code where "(\<exists>v. b' = push_relocation (length (sb_bytes (Raw code b))) (length (sb_bytes (Raw code b)) + 4) v
        (Raw (replicate 4 0) (Raw code b))) \<or> (\<exists>rest. b' = Raw rest (Raw code b))"
    using assms by (auto simp: Load_def Let_def split: if_splits)
  then show ?thesis
  proof (elim disjE exE)
    fix v assume "b' = push_relocation (length (sb_bytes (Raw code b))) (length (sb_bytes (Raw code b)) + 4) v
        (Raw (replicate 4 0) (Raw code b))"
    then show ?thesis by (auto simp: Raw_def intro!: grows_relocation)
  next
    fix rest assume "b' = Raw rest (Raw code b)"
    then show ?thesis using grows_then [OF grows_Raw grows_Raw] by simp
  qed
qed

lemma grows_MoveControlFlow [grow]:
  assumes "MoveControlFlow instruction info b = Inr b'"
  shows "grows 0 b b'"
proof -
  have call: "grows 0 b b2" if "Move jump rip (pushReturnAddress t b) = Inr b2" for jump rip t b2
    using grows_then [OF grows_pushReturnAddress grows_Move [OF that]] by simp
  have jump: "grows 0 b (rel32 opcode target (pushReturnAddress t b))" for opcode target t
    using grows_then [OF grows_pushReturnAddress grows_rel32] by simp
  show ?thesis
    using assms unfolding MoveControlFlow_def Let_def
    by (auto simp: bindE_eq_Inr split: if_splits
        intro: call grows_Move intro!: grows_Advance_after jump grows_rel32)
qed


subsection \<open>\<open>Finish\<close>\<close>

lemma pad_trap:
  "\<exists>k. pad_trap bytes = bytes @ replicate k kTrapFill \<and> (length bytes + k) mod 16 = 0"
proof (induction bytes rule: pad_trap.induct)
  case (1 bytes)
  show ?case
  proof (cases "length bytes mod 16 = 0")
    case True
    have "pad_trap bytes = bytes" by (subst pad_trap.simps) (simp add: True)
    then show ?thesis using True by (intro exI [of _ 0]) simp
  next
    case False
    from 1 [OF False] obtain k where k: "pad_trap (bytes @ [kTrapFill]) = (bytes @ [kTrapFill]) @ replicate k kTrapFill"
        "(length (bytes @ [kTrapFill :: u8]) + k) mod 16 = 0" by (elim exE conjE)
    have "pad_trap bytes = pad_trap (bytes @ [kTrapFill])" by (subst pad_trap.simps) (simp only: False not_False_eq_True if_True)
    with k show ?thesis by (intro exI [of _ "Suc k"]) simp
  qed
qed

text \<open>Each constant is found, aligned, at the offset recorded for it.\<close>

definition constant_at :: "u8 list \<Rightarrow> StubConstant \<Rightarrow> nat \<Rightarrow> bool" where
  "constant_at bytes c off \<longleftrightarrow> off mod 16 = 0 \<and> off + length c \<le> length bytes \<and> take (length c) (drop off bytes) = c"

lemma place_constants:
  "place_constants cs bytes = (bytes', offsets) \<Longrightarrow>
   (\<exists>rest. bytes' = bytes @ rest) \<and> list_all2 (\<lambda>c off. constant_at bytes' c off \<and> length bytes \<le> off) cs offsets"
proof (induction cs arbitrary: bytes bytes' offsets)
  case (Cons c cs)
  from pad_trap [of bytes] obtain k where k: "pad_trap bytes = bytes @ replicate k kTrapFill" "(length bytes + k) mod 16 = 0"
    by (elim exE conjE)
  let ?p = "pad_trap bytes"
  obtain out os where rest: "place_constants cs (?p @ c) = (out, os)"
    by (rule prod.exhaust)
  from Cons.prems have eq: "bytes' = out" "offsets = length ?p # os" by (simp_all add: rest)
  from Cons.IH [OF rest] obtain tail where tail: "out = ?p @ c @ tail"
    and IH: "list_all2 (\<lambda>d off. constant_at out d off \<and> length (?p @ c) \<le> off) cs os" by auto
  have "constant_at out c (length ?p)" using k tail by (simp add: constant_at_def)
  moreover have "length bytes \<le> length ?p" using k(1) by simp
  moreover have "list_all2 (\<lambda>c off. constant_at out c off \<and> length bytes \<le> off) cs os"
    using IH by (rule list_all2_mono) (use k(1) in simp)
  ultimately show ?case unfolding eq using tail k(1) by simp
qed simp
lemma read_s32_write_same:
  assumes "pos + 4 \<le> length data" "- (2 ^ 31) \<le> d" "d \<le> 2 ^ 31 - 1"
  shows "read_s32 (write_bytes data pos (le32_bytes (word_of_int d))) pos = Inr d"
  using assms by (simp add: read_s32_def codec signed_of_int signed_take_bit_int_eq_self)

lemma read_s32_write_other:
  assumes "pos + length bs \<le> length data" "q + 4 \<le> pos \<or> pos + length bs \<le> q"
  shows "read_s32 (write_bytes data pos bs) q = read_s32 data q"
  using assms by (simp add: read_s32_def codec)

definition fixup_value :: "nat list \<Rightarrow> Fixup \<Rightarrow> int" where
  "fixup_value offsets f = int (offsets ! fx_ConstantIndex f) - int (fx_InstructionEnd f)"

lemma apply_fixups:
  assumes "\<forall>f \<in> set fixups. fixup_in 0 (length bytes) (length offsets) f" "sorted_wrt fixup_before fixups"
    "\<forall>f \<in> set fixups. - (2 ^ 31) \<le> fixup_value offsets f \<and> fixup_value offsets f \<le> 2 ^ 31 - 1"
  shows "\<exists>bytes'. apply_fixups offsets fixups bytes = Inr bytes' \<and> length bytes' = length bytes \<and>
    (\<forall>i < length bytes. (\<forall>f \<in> set fixups. i < fx_DisplacementOffset f \<or> fx_InstructionEnd f \<le> i) \<longrightarrow> bytes' ! i = bytes ! i) \<and>
    (\<forall>f \<in> set fixups. read_s32 bytes' (fx_DisplacementOffset f) = Inr (fixup_value offsets f)) \<and>
    (\<forall>q. (\<forall>f \<in> set fixups. q + 4 \<le> fx_DisplacementOffset f \<or> fx_InstructionEnd f \<le> q) \<longrightarrow> read_s32 bytes' q = read_s32 bytes q)"
  using assms
proof (induction fixups arbitrary: bytes)
  case (Cons f fs)
  let ?b = "write_bytes bytes (fx_DisplacementOffset f) (le32_bytes (word_of_int (fixup_value offsets f)))"
  from Cons.prems(1) have f: "fx_ConstantIndex f < length offsets" "fx_InstructionEnd f = fx_DisplacementOffset f + 4"
      "fx_DisplacementOffset f + 4 \<le> length bytes" by (auto simp: fixup_in_def)
  then have len: "length ?b = length bytes" by simp
  have step: "apply_fixups offsets (f # fs) bytes = apply_fixups offsets fs ?b"
    using f by (simp add: fixup_value_def)
  from Cons.prems len obtain bytes' where IH: "apply_fixups offsets fs ?b = Inr bytes'" "length bytes' = length bytes"
    "\<forall>i < length bytes. (\<forall>f \<in> set fs. i < fx_DisplacementOffset f \<or> fx_InstructionEnd f \<le> i) \<longrightarrow> bytes' ! i = ?b ! i"
    "\<forall>f \<in> set fs. read_s32 bytes' (fx_DisplacementOffset f) = Inr (fixup_value offsets f)"
    "\<forall>q. (\<forall>f \<in> set fs. q + 4 \<le> fx_DisplacementOffset f \<or> fx_InstructionEnd f \<le> q) \<longrightarrow> read_s32 bytes' q = read_s32 ?b q"
    using Cons.IH [of ?b] by auto
  have "read_s32 bytes' (fx_DisplacementOffset f) = read_s32 ?b (fx_DisplacementOffset f)"
    using IH(5) Cons.prems(2) f(2) by (auto simp: fixup_before_def)
  also have "\<dots> = Inr (fixup_value offsets f)"
    using Cons.prems(3) f(3) by (intro read_s32_write_same) auto
  finally have own: "read_s32 bytes' (fx_DisplacementOffset f) = Inr (fixup_value offsets f)" .
  have others: "read_s32 ?b q = read_s32 bytes q" if "q + 4 \<le> fx_DisplacementOffset f \<or> fx_InstructionEnd f \<le> q" for q
    using that f by (intro read_s32_write_other) auto
  have frame: "?b ! i = bytes ! i" if "i < fx_DisplacementOffset f \<or> fx_InstructionEnd f \<le> i" "i < length bytes" for i
    using that f by (auto simp: nth_write_bytes)
  show ?case
    unfolding step using IH own others frame by auto
qed simp


text \<open>A finished stub: the return jump stands behind the code, and every reference to a constant leads to it.\<close>

definition finished :: "StubBodyBuilder \<Rightarrow> LoweredBody \<Rightarrow> bool" where
  "finished b body \<longleftrightarrow>
     lb_ReturnBranchOffset body = length (sb_bytes b) \<and> lb_Relocations body = sb_relocations b \<and>
     take 5 (drop (length (sb_bytes b)) (lb_Bytes body)) = Bytes kJmpRel32 \<and>
     (\<forall>i < length (sb_bytes b). (\<forall>f \<in> set (sb_fixups b). i < fx_DisplacementOffset f \<or> fx_InstructionEnd f \<le> i) \<longrightarrow>
        lb_Bytes body ! i = sb_bytes b ! i) \<and>
     (\<forall>f \<in> set (sb_fixups b). \<exists>disp. read_s32 (lb_Bytes body) (fx_DisplacementOffset f) = Inr disp \<and>
        0 \<le> int (fx_InstructionEnd f) + disp \<and>
        constant_at (lb_Bytes body) (sb_constants b ! fx_ConstantIndex f) (nat (int (fx_InstructionEnd f) + disp)))"

definition stub_size :: "StubBodyBuilder \<Rightarrow> nat" where
  "stub_size b = length (fst (place_constants (sb_constants b) (sb_bytes b @ Bytes kJmpRel32)))"

lemma Finish_finished:
  assumes "builder_wf b" "stub_size b < 2 ^ 31"
  shows "\<exists>body. Finish b = Inr body \<and> finished b body"
proof -
  let ?code = "sb_bytes b @ Bytes kJmpRel32"
  obtain bytes offsets where pc: "place_constants (sb_constants b) ?code = (bytes, offsets)"
    by (rule prod.exhaust)
  from place_constants [OF pc] obtain rest where bytes: "bytes = ?code @ rest"
    and la: "list_all2 (\<lambda>c off. constant_at bytes c off \<and> length ?code \<le> off) (sb_constants b) offsets" by blast
  have size: "length bytes < 2 ^ 31" using assms(2) pc by (simp add: stub_size_def)
  have len: "length offsets = length (sb_constants b)" using la by (simp add: list_all2_lengthD)
  have wf: "\<forall>f \<in> set (sb_fixups b). fixup_in 0 (length (sb_bytes b)) (length (sb_constants b)) f"
      "sorted_wrt fixup_before (sb_fixups b)"
    using assms(1) by (auto simp: builder_wf_def)
  have at: "constant_at bytes (sb_constants b ! fx_ConstantIndex f) (offsets ! fx_ConstantIndex f)"
    if "f \<in> set (sb_fixups b)" for f
    using la wf(1) that by (auto simp: list_all2_conv_all_nth fixup_in_def)
  have range: "- (2 ^ 31) \<le> fixup_value offsets f \<and> fixup_value offsets f \<le> 2 ^ 31 - 1" if "f \<in> set (sb_fixups b)" for f
    using at [OF that] wf(1) that size bytes by (auto simp: constant_at_def fixup_value_def fixup_in_def)
  have "\<forall>f \<in> set (sb_fixups b). fixup_in 0 (length bytes) (length offsets) f"
    using wf(1) len bytes by (auto simp: fixup_in_def)
  from apply_fixups [OF this wf(2)] range obtain bytes' where f: "apply_fixups offsets (sb_fixups b) bytes = Inr bytes'"
    "length bytes' = length bytes"
    "\<forall>i < length bytes. (\<forall>f \<in> set (sb_fixups b). i < fx_DisplacementOffset f \<or> fx_InstructionEnd f \<le> i) \<longrightarrow> bytes' ! i = bytes ! i"
    "\<forall>f \<in> set (sb_fixups b). read_s32 bytes' (fx_DisplacementOffset f) = Inr (fixup_value offsets f)" by blast
  have behind: "bytes' ! i = bytes ! i" if "length (sb_bytes b) \<le> i" "i < length bytes" for i
  proof -
    have "\<forall>f \<in> set (sb_fixups b). fx_InstructionEnd f \<le> i" using wf(1) that(1) by (force simp: fixup_in_def)
    with f(3) that(2) show ?thesis by blast
  qed
  have same: "take n (drop off bytes') = take n (drop off bytes)" if "length (sb_bytes b) \<le> off" for n off
    using f(2) behind that by (auto simp: list_eq_iff_nth_eq)
  have jump: "take 5 (drop (length (sb_bytes b)) bytes') = Bytes kJmpRel32"
    using same [of "length (sb_bytes b)" 5] bytes by (simp add: kJmpRel32_def)
  have const: "0 \<le> int (fx_InstructionEnd f) + fixup_value offsets f \<and>
      constant_at bytes' (sb_constants b ! fx_ConstantIndex f) (nat (int (fx_InstructionEnd f) + fixup_value offsets f))"
    if "f \<in> set (sb_fixups b)" for f
  proof -
    have "length ?code \<le> offsets ! fx_ConstantIndex f" using la wf(1) that by (auto simp: list_all2_conv_all_nth fixup_in_def)
    with at [OF that] same f(2) show ?thesis by (simp add: constant_at_def fixup_value_def)
  qed
  have front: "bytes' ! i = sb_bytes b ! i"
    if "i < length (sb_bytes b)" "\<forall>f \<in> set (sb_fixups b). i < fx_DisplacementOffset f \<or> fx_InstructionEnd f \<le> i" for i
    using f(3) that bytes by (simp add: nth_append)
  show ?thesis
    unfolding Finish_def Let_def pc using f(1,4) jump const front by (simp add: finished_def)
qed


subsection \<open>Linking a finished stub\<close>

text \<open>The displacement stored for a relocation leads from the stub to the relocation's target at the site.\<close>

lemma relocation_value_target:
  "stubAddress + of_nat (InstructionEnd r) + word_of_int (relocation_value siteAddress stubAddress r) =
   siteAddress + word_of_int (SiteTarget r)"
  by (simp add: relocation_value_def Let_def)

lemma ApplyStubRelocations_fields:
  assumes "ApplyStubRelocations body rs site stub off = Inr body'" "sorted_wrt relocation_before rs"
  shows "length body' = length body \<and>
    (\<forall>r \<in> set rs. relocation_in 0 (length body) r \<and>
       read_s32 body' (DisplacementOffset r) = Inr (relocation_value site stub r)) \<and>
    (\<forall>i < length body. (\<forall>r \<in> set rs. i < DisplacementOffset r \<or> DisplacementOffset r + 4 \<le> i) \<longrightarrow> body' ! i = body ! i) \<and>
    (\<forall>q. (\<forall>r \<in> set rs. q + 4 \<le> DisplacementOffset r \<or> DisplacementOffset r + 4 \<le> q) \<longrightarrow> read_s32 body' q = read_s32 body q)"
  using assms
proof (induction rs arbitrary: body)
  case (Cons r rs)
  let ?d = "relocation_value site stub r"
  let ?b = "write_bytes body (DisplacementOffset r) (le32_bytes (word_of_int ?d))"
  from Cons.prems(1) have r: "InstructionEnd r \<le> length body" "DisplacementOffset r \<le> InstructionEnd r"
      "DisplacementOffset r + 4 \<le> InstructionEnd r" "- (2 ^ 31) \<le> ?d" "?d \<le> 2 ^ 31 - 1"
    and rest: "ApplyStubRelocations ?b rs site stub off = Inr body'"
    by (auto simp: Let_def not_less split: if_splits)
  from r have len: "length ?b = length body" by simp
  from Cons.IH [OF rest] Cons.prems(2) have IH: "length body' = length body"
    "\<forall>r \<in> set rs. relocation_in 0 (length body) r \<and> read_s32 body' (DisplacementOffset r) = Inr (relocation_value site stub r)"
    "\<forall>i < length body. (\<forall>r \<in> set rs. i < DisplacementOffset r \<or> DisplacementOffset r + 4 \<le> i) \<longrightarrow> body' ! i = ?b ! i"
    "\<forall>q. (\<forall>r \<in> set rs. q + 4 \<le> DisplacementOffset r \<or> DisplacementOffset r + 4 \<le> q) \<longrightarrow> read_s32 body' q = read_s32 ?b q"
    unfolding len by simp_all
  have "read_s32 body' (DisplacementOffset r) = read_s32 ?b (DisplacementOffset r)"
    using IH(4) Cons.prems(2) by (auto simp: relocation_before_def)
  also have "\<dots> = Inr ?d" using r by (intro read_s32_write_same) auto
  finally have own: "read_s32 body' (DisplacementOffset r) = Inr ?d" .
  have others: "read_s32 ?b q = read_s32 body q" if "q + 4 \<le> DisplacementOffset r \<or> DisplacementOffset r + 4 \<le> q" for q
    using that r by (intro read_s32_write_other) auto
  have frame: "?b ! i = body ! i" if "i < DisplacementOffset r \<or> DisplacementOffset r + 4 \<le> i" "i < length body" for i
    using that r by (auto simp: nth_write_bytes)
  show ?case using IH own others frame r by (auto simp: relocation_in_def)
qed simp

text \<open>
  A stub that has been built, finished and linked: each relocated field leads to its target at the site,
  and each reference to a constant still leads to the constant.
\<close>

definition linked :: "StubBodyBuilder \<Rightarrow> u64 \<Rightarrow> u64 \<Rightarrow> u8 list \<Rightarrow> bool" where
  "linked b site stub bytes \<longleftrightarrow>
     (\<forall>r \<in> set (sb_relocations b). \<exists>disp. read_s32 bytes (DisplacementOffset r) = Inr disp \<and>
        stub + of_nat (InstructionEnd r) + word_of_int disp = site + word_of_int (SiteTarget r)) \<and>
     (\<forall>f \<in> set (sb_fixups b). \<exists>disp. read_s32 bytes (fx_DisplacementOffset f) = Inr disp \<and>
        int (length (sb_bytes b) + 5) \<le> int (fx_InstructionEnd f) + disp \<and>
        constant_at bytes (sb_constants b ! fx_ConstantIndex f) (nat (int (fx_InstructionEnd f) + disp)))"

lemma constant_behind:
  assumes "builder_wf b" "Finish b = Inr body" "stub_size b < 2 ^ 31" "f \<in> set (sb_fixups b)"
    "read_s32 (lb_Bytes body) (fx_DisplacementOffset f) = Inr disp"
  shows "length (sb_bytes b) + 5 \<le> nat (int (fx_InstructionEnd f) + disp)"
proof -
  let ?code = "sb_bytes b @ Bytes kJmpRel32"
  obtain bytes offsets where pc: "place_constants (sb_constants b) ?code = (bytes, offsets)" by (rule prod.exhaust)
  from place_constants [OF pc] have la: "list_all2 (\<lambda>c off. constant_at bytes c off \<and> length ?code \<le> off) (sb_constants b) offsets"
    and bytes: "length ?code \<le> length bytes" by auto
  have len: "length offsets = length (sb_constants b)" using la by (simp add: list_all2_lengthD)
  have wf: "\<forall>f \<in> set (sb_fixups b). fixup_in 0 (length (sb_bytes b)) (length (sb_constants b)) f"
      "sorted_wrt fixup_before (sb_fixups b)"
    using assms(1) by (auto simp: builder_wf_def)
  have idx: "fx_ConstantIndex g < length offsets" "fx_InstructionEnd g \<le> length (sb_bytes b)" if "g \<in> set (sb_fixups b)" for g
    using wf(1) that len by (auto simp: fixup_in_def)
  have behind: "length ?code \<le> offsets ! fx_ConstantIndex g \<and> offsets ! fx_ConstantIndex g \<le> length bytes"
    if "g \<in> set (sb_fixups b)" for g
    using la idx(1) [OF that] len by (auto simp: list_all2_conv_all_nth constant_at_def)
  have size: "length bytes < 2 ^ 31" using assms(3) pc by (simp add: stub_size_def)
  have range: "\<forall>g \<in> set (sb_fixups b). - (2 ^ 31) \<le> fixup_value offsets g \<and> fixup_value offsets g \<le> 2 ^ 31 - 1"
  proof
    fix g assume g: "g \<in> set (sb_fixups b)"
    from behind [OF g] idx(2) [OF g] size show "- (2 ^ 31) \<le> fixup_value offsets g \<and> fixup_value offsets g \<le> 2 ^ 31 - 1"
      by (simp add: fixup_value_def)
  qed
  have "\<forall>f \<in> set (sb_fixups b). fixup_in 0 (length bytes) (length offsets) f"
    using wf(1) len bytes by (auto simp: fixup_in_def)
  from apply_fixups [OF this wf(2) range] assms(2) assms(4,5) have "disp = fixup_value offsets f"
    by (auto simp: Finish_def Let_def pc)
  with behind [OF assms(4)] show ?thesis by (simp add: fixup_value_def kJmpRel32_def)
qed

lemma stub_linked:
  assumes "builder_wf b" "stub_size b < 2 ^ 31" "Finish b = Inr body"
    "ApplyStubRelocations (lb_Bytes body) (lb_Relocations body) site stub off = Inr bytes"
  shows "linked b site stub bytes"
proof -
  from Finish_finished [OF assms(1,2)] assms(3) have fin: "finished b body" by simp
  have wf: "sorted_wrt relocation_before (sb_relocations b)" "\<forall>f \<in> set (sb_fixups b). \<forall>r \<in> set (sb_relocations b). apart f r"
    "\<forall>r \<in> set (sb_relocations b). relocation_in 0 (length (sb_bytes b)) r"
    "\<forall>f \<in> set (sb_fixups b). fx_InstructionEnd f = fx_DisplacementOffset f + 4"
    using assms(1) by (auto simp: builder_wf_def fixup_in_def)
  have rel: "lb_Relocations body = sb_relocations b" using fin by (simp add: finished_def)
  note a = ApplyStubRelocations_fields [OF assms(4)] 
  from a wf(1) have len: "length bytes = length (lb_Bytes body)"
    and fields: "\<forall>r \<in> set (sb_relocations b). read_s32 bytes (DisplacementOffset r) = Inr (relocation_value site stub r)"
    and frame: "\<forall>i < length (lb_Bytes body). (\<forall>r \<in> set (sb_relocations b). i < DisplacementOffset r \<or> DisplacementOffset r + 4 \<le> i) \<longrightarrow> bytes ! i = lb_Bytes body ! i"
    and reads: "\<forall>q. (\<forall>r \<in> set (sb_relocations b). q + 4 \<le> DisplacementOffset r \<or> DisplacementOffset r + 4 \<le> q) \<longrightarrow> read_s32 bytes q = read_s32 (lb_Bytes body) q"
    unfolding rel by blast+
  have const: "\<exists>disp. read_s32 bytes (fx_DisplacementOffset f) = Inr disp \<and>
        int (length (sb_bytes b) + 5) \<le> int (fx_InstructionEnd f) + disp \<and>
        constant_at bytes (sb_constants b ! fx_ConstantIndex f) (nat (int (fx_InstructionEnd f) + disp))"
    if f: "f \<in> set (sb_fixups b)" for f
  proof -
    from fin f obtain disp where d: "read_s32 (lb_Bytes body) (fx_DisplacementOffset f) = Inr disp"
      "0 \<le> int (fx_InstructionEnd f) + disp"
      "constant_at (lb_Bytes body) (sb_constants b ! fx_ConstantIndex f) (nat (int (fx_InstructionEnd f) + disp))"
      by (auto simp: finished_def)
    let ?o = "nat (int (fx_InstructionEnd f) + disp)"
    have front: "length (sb_bytes b) + 5 \<le> ?o" using constant_behind [OF assms(1,3,2) f d(1)] .
    then have "bytes ! i = lb_Bytes body ! i" if "?o \<le> i" "i < length (lb_Bytes body)" for i
    proof -
      have "\<forall>r \<in> set (sb_relocations b). i < DisplacementOffset r \<or> DisplacementOffset r + 4 \<le> i"
        using wf(3) front that(1) by (auto simp: relocation_in_def)
      with frame that(2) show ?thesis by blast
    qed
    then have same: "take n (drop ?o bytes) = take n (drop ?o (lb_Bytes body))" for n
      using len by (auto simp: list_eq_iff_nth_eq)
    have "constant_at bytes (sb_constants b ! fx_ConstantIndex f) ?o"
      using d(3) same len by (simp add: constant_at_def)
    moreover have "read_s32 bytes (fx_DisplacementOffset f) = Inr disp"
      using reads wf(2,4) f d(1) by (auto simp: apart_def)
    moreover have "int (length (sb_bytes b) + 5) \<le> int (fx_InstructionEnd f) + disp"
      using front d(2) by linarith
    ultimately show ?thesis by blast
  qed
  show ?thesis
    unfolding linked_def using fields const relocation_value_target by auto
qed

end
