(* ===== verification/Lowerings_Props.thy ===== *)
theory Lowerings_Props
  imports Lowerings Stub_Body_Props
begin

text \<open>
  Every lowering keeps the builder's invariant and leaves the stack as it found it: it only appends code and
  fields of that code, and its spills and restores balance.
\<close>

text \<open>\<open>adds depth call\<close>: the call appends, and moves the stack by \<open>depth\<close> bytes.\<close>

definition adds :: "u64 \<Rightarrow> (StubBodyBuilder \<Rightarrow> StubBodyBuilder) \<Rightarrow> bool" where
  "adds depth call \<longleftrightarrow> (\<forall>b. grows depth b (call b))"

named_theorems adds_intro

lemma addsD: "adds d f \<Longrightarrow> grows d b (f b)"
  by (simp add: adds_def)

lemma adds_ops [adds_intro]:
  "adds 0 (Raw bytes)" "adds 0 (Sse prefix opcode dst src)" "adds 0 (SsePlain opcode dst src)"
  "adds 0 (SseImm prefix opcode dst src imm)" "adds 0 (ShiftImm e r i)" "adds 0 (ShiftDwordImm e r i)"
  "adds 0x90 (Spill r)" "adds (- 0x90) (Restore r)"
  by (simp_all add: adds_def grow)

lemma adds_RipOperand [adds_intro]: "length c = 16 \<Longrightarrow> adds 0 (RipOperand opcode r c)"
  by (simp add: adds_def grow)

lemma adds_seq_Nil [adds_intro]: "adds 0 (seq [])"
  by (simp add: adds_def seq_def)

lemma adds_seq_Cons: "adds d f \<Longrightarrow> adds e (seq fs) \<Longrightarrow> adds (d + e) (seq (f # fs))"
  by (auto simp: adds_def seq_def intro: grows_trans)

lemma seq_append: "seq (fs @ gs) b = seq gs (seq fs b)"
  by (simp add: seq_def)

lemma adds_seq_append: "adds d (seq fs) \<Longrightarrow> adds e (seq gs) \<Longrightarrow> adds (d + e) (seq (fs @ gs))"
  by (auto simp: adds_def seq_append intro: grows_trans)

lemma adds_eq: "adds d f \<Longrightarrow> d = e \<Longrightarrow> adds e f"
  by simp

lemma adds_seq_all: "list_all (adds 0) fs \<Longrightarrow> adds 0 (seq fs)"
proof (induction fs)
  case (Cons f fs)
  then show ?case using adds_seq_Cons [of 0 f 0 fs] by simp
qed (simp add: adds_seq_Nil)

lemma adds_spill_all: "adds (0x90 * of_nat (length regs)) (seq (spill_all regs))"
proof (induction regs)
  case (Cons r regs)
  from adds_seq_Cons [OF adds_ops(7) this] show ?case by (simp add: spill_all_def algebra_simps)
qed (simp add: spill_all_def adds_seq_Nil)

lemma adds_restore_all: "adds (- (0x90 * of_nat (length regs))) (seq (restore_all regs))"
proof (induction regs)
  case (Cons r regs)
  from adds_seq_append [OF this adds_seq_Cons [OF adds_ops(8) adds_seq_Nil]] show ?case
    by (simp add: restore_all_def algebra_simps)
qed (simp add: restore_all_def adds_seq_Nil)

lemma adds_framed:
  assumes "list_all (adds 0) fs"
  shows "adds 0 (seq (spill_all regs @ fs @ restore_all regs))"
proof -
  from adds_seq_append [OF adds_spill_all [of regs] adds_seq_append [OF adds_seq_all [OF assms] adds_restore_all [of regs]]]
  show ?thesis by simp
qed

text \<open>A list of calls with known depths.\<close>

lemma adds_calls: "list_all2 adds ds fs \<Longrightarrow> sum_list ds = d \<Longrightarrow> adds d (seq fs)"
proof (induction ds fs arbitrary: d rule: list_all2_induct)
  case (Cons d' f ds fs)
  from adds_seq_Cons [OF Cons.hyps(1) Cons.IH [OF refl]] Cons.prems show ?case by simp
qed (simp add: adds_seq_Nil)

lemma length_constant_bytes [simp]: "length (constant_bytes f) = 16"
  by (simp add: constant_bytes_def)

lemma length_constants [simp]:
  "length field_constant = 16" "length one_constant = 16" "length line_mask = 16"
  "length (extrq_mask l i) = 16" "length (insertq_mask l i s) = 16" "length (insertq_hole l i) = 16"
  "length (roundConstant f) = 16"
  by (simp_all add: field_constant_def one_constant_def line_mask_def extrq_mask_def insertq_mask_def
      insertq_hole_def roundConstant_def)

lemma length_ones [simp]: "length ones = 16"
  by code_simp

lemma adds_steps [adds_intro, simp]:
  "adds 0 (zeroUpper d)" "adds 0 (op opc d s)" "adds 0 (lane d s n)" "adds 0 (vexMovaps d s)"
  "adds 0 (andn_register opc w reg rm)" "adds 0 (andn_stack opc w reg disp)"
  by (simp_all add: zeroUpper_def op_def lane_def vexMovaps_def andn_register_def andn_stack_def adds_ops)

lemmas adds_zero = adds_ops(1-6) adds_RipOperand adds_steps

lemmas calls_intro = list.rel_intros list_all2_appendI adds_ops adds_RipOperand adds_steps length_constants length_ones

subsection \<open>The lowerings\<close>

lemma adds_insertq_register: "adds 0 (emitInsertqRegisterForm operands)"
  unfolding emitInsertqRegisterForm_def Let_def
  by (rule adds_calls, (rule calls_intro)+) simp

lemma adds_extrq_register: "adds 0 (emitExtrqRegisterForm operands)"
  unfolding emitExtrqRegisterForm_def Let_def
  by (rule adds_calls, (rule calls_intro)+) simp

lemma adds_extrq_immediate: "adds 0 (emitExtrqImmediate operands)"
  unfolding emitExtrqImmediate_def Let_def
  by (auto intro!: adds_zero adds_seq_all)

lemma adds_insertq_immediate: "adds 0 (emitInsertqImmediate operands)"
proof -
  have *: "adds 0 (seq ([Spill r, f] @ (if c then [g] else []) @ [h, i, j, k, Restore r']))"
    if "adds 0 f" "adds 0 g" "adds 0 h" "adds 0 i" "adds 0 j" "adds 0 k" for r f c g h i j k r'
  proof (cases c)
    case True
    have "adds 0 (seq [Spill r, f, g, h, i, j, k, Restore r'])"
      by (rule adds_calls, (rule calls_intro that)+) simp
    with True show ?thesis by simp
  next
    case False
    have "adds 0 (seq [Spill r, f, h, i, j, k, Restore r'])"
      by (rule adds_calls, (rule calls_intro that)+) simp
    with False show ?thesis by simp
  qed
  show ?thesis
  proof (cases "unat (s4_Length operands) mod 8 = 0 \<and> unat (s4_Index operands) mod 8 = 0")
    case True
    then show ?thesis
      by (simp add: emitInsertqImmediate_def Let_def adds_seq_all adds_zero)
  next
    case False
    then have cond: "(unat (s4_Length operands) mod 8 = 0 \<and> unat (s4_Index operands) mod 8 = 0) = False" by simp
    show ?thesis
      unfolding emitInsertqImmediate_def Let_def cond if_False by (rule *) (simp_all add: adds_zero)
  qed
qed

lemma adds_Sse4a: "adds 0 (Sse4a_EmitOutOfLine operands)"
  by (simp add: Sse4a_EmitOutOfLine_def adds_insertq_register adds_extrq_register adds_extrq_immediate
      adds_insertq_immediate)

lemma adds_Reciprocal: "adds 0 (Reciprocal_EmitOutOfLine operands)"
proof -
  have *: "adds 0 (seq ([Spill r] @ fs @ [Restore r]))" if "list_all (adds 0) fs" for r fs
    using adds_framed [OF that, of "[r]"] by (simp add: spill_all_def restore_all_def)
  show ?thesis
    unfolding Reciprocal_EmitOutOfLine_def Let_def
    by (rule *) (auto simp: adds_zero split: ReciprocalOperation.splits)
qed

lemma adds_Clzero: "adds 0 (Clzero_EmitOutOfLine operands)"
  unfolding Clzero_EmitOutOfLine_def
  by (rule adds_calls, (rule calls_intro)+) simp

lemma grows_emitHalf: "emitHalf half b = Inr b' \<Longrightarrow> grows 0 b b'"
  by (auto simp: emitHalf_def grow split: option.splits)

lemma grows_WideStore: "WideStore_EmitOutOfLine operands b = Inr b' \<Longrightarrow> grows 0 b b'"
  by (auto simp: WideStore_EmitOutOfLine_def bindE_eq_Inr dest!: grows_emitHalf intro: grows_then)

lemma rotate_adds: "list_all (adds 0) (rotate r t n)"
  by (simp add: rotate_def adds_zero)

lemma sha1_function_adds: "list_all (adds 0) (sha1_function f out b c d t)"
  by (simp add: sha1_function_def adds_zero)

lemma sha1_rounds_adds: "list_all (adds 0) (snd (sha1_rounds operands t u rounds state))"
  by (induction operands t u rounds state rule: sha1_rounds.induct)
    (auto simp: Let_def adds_zero rotate_adds sha1_function_adds split: prod.splits)

text \<open>The SHA sequences: a spilled frame around calls that leave the stack alone.\<close>

lemma list_all_calls:
  "list_all (adds 0) []"
  "adds 0 f \<Longrightarrow> list_all (adds 0) fs \<Longrightarrow> list_all (adds 0) (f # fs)"
  "list_all (adds 0) fs \<Longrightarrow> list_all (adds 0) gs \<Longrightarrow> list_all (adds 0) (fs @ gs)"
  by simp_all

lemma list_all_sigma: "list_all (adds 0) (sigma_calls first out v tmp terms)"
  by (induction first out v tmp terms rule: sigma_calls.induct) (simp_all add: Let_def adds_zero)

lemma list_all_steps:
  "list_all (adds 0) (bigSigma0 out v tmp)" "list_all (adds 0) (bigSigma1 out v tmp)"
  "list_all (adds 0) (smallSigma0 out v tmp)" "list_all (adds 0) (smallSigma1 out v tmp)"
  "list_all (adds 0) (choose_calls a b c d)" "list_all (adds 0) (majority_calls a b c d)"
  by (simp_all add: bigSigma0_def bigSigma1_def smallSigma0_def smallSigma1_def sigma_def list_all_sigma
      choose_calls_def majority_calls_def adds_zero)

lemmas sha_calls = list_all_calls list_all_steps rotate_adds sha1_function_adds adds_ops(1-6) adds_steps

text \<open>A framed sequence is built from its end: the restores, then each group of calls in front.\<close>

definition closes :: "u8 list \<Rightarrow> (StubBodyBuilder \<Rightarrow> StubBodyBuilder) list \<Rightarrow> bool" where
  "closes regs fs \<longleftrightarrow> adds (- (0x90 * of_nat (length regs))) (seq fs)"

lemma closes_restore: "closes regs (restore_all regs)"
  by (simp add: closes_def adds_restore_all)

lemma closes_append: "list_all (adds 0) fs \<Longrightarrow> closes regs gs \<Longrightarrow> closes regs (fs @ gs)"
  using adds_seq_append [OF adds_seq_all, of fs _ gs] by (simp add: closes_def)

lemma adds_spilled: "closes regs fs \<Longrightarrow> adds 0 (seq (spill_all regs @ fs))"
  using adds_seq_append [OF adds_spill_all [of regs], of _ fs] by (simp add: closes_def) fastforce

lemma adds_map: "(\<And>i. adds 0 (f i)) \<Longrightarrow> list_all (adds 0) (map f ns)"
  by (simp add: list_all_iff)

lemmas framed = adds_spilled closes_append closes_restore

lemma adds_sha1_emit: "adds 0 (sha1_emit operands)"
proof (cases "s1_Operation operands")
  case Sha1Rnds4
  obtain a b c d e calls where r: "sha1_rounds operands (sha1_scratch 7 operands ! 5) (sha1_scratch 7 operands ! 6)
      [0, 1, 2, 3] (sha1_scratch 7 operands ! 0, sha1_scratch 7 operands ! 1, sha1_scratch 7 operands ! 2,
        sha1_scratch 7 operands ! 3, sha1_scratch 7 operands ! 4) = ((a, b, c, d, e), calls)"
    by (metis prod.exhaust)
  from sha1_rounds_adds [of operands] r have calls: "list_all (adds 0) calls" by (metis snd_conv)
  show ?thesis
    unfolding sha1_emit_def Sha1Rnds4 sha1_emitRounds_def Let_def Sha1Operation.case r prod.case
    by (intro framed adds_map sha_calls calls)
next
  case Sha1Nexte
  show ?thesis
    unfolding sha1_emit_def Sha1Nexte sha1_emitNext_def Let_def Sha1Operation.case
    by (intro framed sha_calls)
next
  case Sha1Msg1
  show ?thesis
    unfolding sha1_emit_def Sha1Msg1 sha1_emitMessage1_def Let_def Sha1Operation.case
    by (rule adds_calls, (rule calls_intro)+) simp
next
  case Sha1Msg2
  show ?thesis
    unfolding sha1_emit_def Sha1Msg2 sha1_emitMessage2_def Let_def Sha1Operation.case
    by (intro framed sha_calls)
qed

lemma adds_sha256_emit: "adds 0 (sha256_emit operands)"
proof (cases "s256_Operation operands")
  case Sha256Rnds2
  show ?thesis
    unfolding sha256_emit_def Sha256Rnds2 sha256_emitRounds_def Let_def Sha256Operation.case
    by (intro framed sha_calls)
next
  case Sha256Msg1
  show ?thesis
    unfolding sha256_emit_def Sha256Msg1 sha256_emitMessage1_def Let_def Sha256Operation.case
    by (intro framed sha_calls)
next
  case Sha256Msg2
  show ?thesis
    unfolding sha256_emit_def Sha256Msg2 sha256_emitMessage2_def Let_def Sha256Operation.case
    by (intro framed sha_calls)
qed

text \<open>Around a memory source: spill, load, the sequence, restore.\<close>

lemma grows_loaded:
  assumes "Load r memory (Spill r b) = Inr b'" "adds 0 f"
  shows "grows 0 b (Restore r (f b'))"
proof -
  from grows_then [OF grows_Spill grows_Load [OF assms(1)] refl] have "grows 0x90 b b'" by simp
  from grows_then [OF this addsD [OF assms(2)] refl] have "grows 0x90 b (f b')" by simp
  from grows_then [OF this grows_Restore] show ?thesis by simp
qed

lemma grows_Sha1: "Sha1_EmitOutOfLine operands b = Inr b' \<Longrightarrow> grows 0 b b'"
  by (auto simp: Sha1_EmitOutOfLine_def Let_def bindE_eq_Inr addsD adds_sha1_emit
      intro: grows_loaded split: option.splits)

lemma grows_Sha256: "Sha256_EmitOutOfLine operands b = Inr b' \<Longrightarrow> grows 0 b b'"
  by (auto simp: Sha256_EmitOutOfLine_def Let_def bindE_eq_Inr addsD adds_sha256_emit
      intro: grows_loaded split: option.splits)

lemma grows_andn_memory: "andn_memory operands memory scratch b = Inr b' \<Longrightarrow> grows 0 b b'"
  by (auto simp: andn_memory_def Let_def grow split: if_splits)

lemma grows_andn_and: "andn_and operands scratch b = Inr b' \<Longrightarrow> grows 0 b b'"
  by (auto simp: andn_and_def addsD adds_steps dest: grows_andn_memory split: option.splits)

lemma andn_calls: "list_all (adds 0) (andn_front operands scratch)" "list_all (adds 0) (andn_back operands scratch)"
  by (simp_all add: andn_front_def andn_back_def Let_def adds_steps)

lemma grows_Andn:
  assumes "EmitAndn operands b = Inr b'"
  shows "grows 0 b b'"
proof -
  from assms obtain scratch b1 where b1: "andn_and operands scratch (seq (andn_front operands scratch) b) = Inr b1"
    and b': "b' = seq (andn_back operands scratch) b1"
    by (auto simp: EmitAndn_def bindE_eq_Inr)
  note seq = addsD [OF adds_seq_all]
  from grows_then [OF seq [OF andn_calls(1) [of operands scratch], of b] grows_andn_and [OF b1]] have "grows 0 b b1" by simp
  from grows_then [OF this seq [OF andn_calls(2)]] show ?thesis by (simp add: b')
qed

end
