(* ===== verification/Operands_Props.thy ===== *)
theory Operands_Props
  imports Operands X64_Info_Props
begin

text \<open>
  What the operand decoders promise: no read outside the instruction, register numbers below 16, and the
  field and displacement ranges the lowerings rely on.
\<close>

subsection \<open>Registers and reads\<close>

lemma three_bits_cases:
  assumes "(x :: u8) \<le> 7"
  shows "x = 0 \<or> x = 1 \<or> x = 2 \<or> x = 3 \<or> x = 4 \<or> x = 5 \<or> x = 6 \<or> x = 7"
proof -
  from assms have "unat x \<le> 7" by (simp add: word_le_nat_alt)
  then have "unat x = 0 \<or> unat x = 1 \<or> unat x = 2 \<or> unat x = 3 \<or> unat x = 4 \<or> unat x = 5 \<or> unat x = 6 \<or> unat x = 7" by arith
  then show ?thesis by (simp add: word_unat_eq_iff)
qed

lemma extended_register:
  assumes "(x :: u8) \<le> 7"
  shows "x OR (if e then 8 else 0) < 16"
  using three_bits_cases [OF assms] by (elim disjE; cases e; simp)

lemma modrm_fields_le:
  "modrm_reg modrm \<le> 7" "modrm_rm modrm \<le> 7" "modrm_mod modrm \<le> 3"
  unfolding modrm_reg_def modrm_rm_def modrm_mod_def by (rule word_and_le1)+

lemma two_bits: "(x :: u8) AND 3 < 4"
  by (rule le_less_trans [OF word_and_le1]) simp

lemma reg_operand_16 [simp]: "reg_operand modrm e < 16"
  unfolding reg_operand_def by (rule extended_register) (rule modrm_fields_le)

lemma rm_operand_16 [simp]: "rm_operand modrm e < 16"
  unfolding rm_operand_def by (rule extended_register) (rule modrm_fields_le)

lemma count_while_le: "count_while P data \<le> length data"
  by (induction data) auto

lemma read_s32_in_bounds [safe]: "pos + 4 \<le> length data \<Longrightarrow> in_bounds (read_s32 data pos)"
  by (simp add: read_s32_def read_le32_def)

lemma read_s8_in_bounds [safe]: "pos < length data \<Longrightarrow> in_bounds (read_s8 data pos)"
  by (simp add: read_s8_def)

lemma optional_sib_safe [safe]: "in_bounds (optional_sib data present cursor)"
  by (auto simp: optional_sib_def)

lemma optional_sib_cursor: "optional_sib data present cursor = Inr (Some (sib, q)) \<Longrightarrow> cursor \<le> q"
  by (auto simp: optional_sib_def bindE_eq_Inr split: if_splits)

subsection \<open>Memory operands\<close>

lemma operand_sib_safe [safe]: "in_bounds (operand_sib data rm rex pos)"
  by (auto simp: operand_sib_def)

lemma operand_displacement_safe [safe]: "in_bounds (operand_displacement data pos sz)"
  unfolding operand_displacement_def by (intro in_bounds_if) (auto intro: safe)

lemma DecodeMemoryOperand_safe [safe]: "in_bounds (DecodeMemoryOperand data modRmOffset rex prefixes)"
  unfolding DecodeMemoryOperand_def Let_def
  by (intro in_bounds_if in_bounds_bindE) (auto intro!: in_bounds_bindE safe split: prod.splits)

lemma DecodeMemoryOperand_elim:
  assumes "DecodeMemoryOperand data modRmOffset rex prefixes = Inr m"
  obtains sib base pos disp where
    "operand_sib data (mo_Rm m) rex (modRmOffset + 1) = Inr (sib, base, pos)"
    "operand_displacement data pos (displacementSize (mo_Mod m) (mo_Rm m) sib) = Inr disp"
    "mo_EncodedSize m = pos + displacementSize (mo_Mod m) (mo_Rm m) sib - modRmOffset"
    "mo_InstructionLength m = length data" "mo_Prefixes m = prefixes" "mo_Mod m \<noteq> ModRmModRegister"
    "mo_RipRelative m \<longleftrightarrow> mo_Mod m = ModRmModIndirect \<and> mo_Rm m = ModRmRmRipRelative"
  using assms by (auto simp: DecodeMemoryOperand_def Let_def bindE_eq_Inr split: if_splits prod.splits)

lemma DecodeMemoryOperand_size:
  assumes "DecodeMemoryOperand data modRmOffset rex prefixes = Inr m"
  shows "0 < mo_EncodedSize m" "modRmOffset + mo_EncodedSize m \<le> length data" "mo_InstructionLength m = length data"
    "mo_RipRelative m \<Longrightarrow> mo_EncodedSize m = 5" "mo_Mod m \<noteq> ModRmModRegister" "mo_Prefixes m = prefixes"
proof -
  from assms obtain sib base pos disp where
    m: "operand_sib data (mo_Rm m) rex (modRmOffset + 1) = Inr (sib, base, pos)"
    "operand_displacement data pos (displacementSize (mo_Mod m) (mo_Rm m) sib) = Inr disp"
    "mo_EncodedSize m = pos + displacementSize (mo_Mod m) (mo_Rm m) sib - modRmOffset"
    "mo_InstructionLength m = length data" "mo_Prefixes m = prefixes" "mo_Mod m \<noteq> ModRmModRegister"
    "mo_RipRelative m \<longleftrightarrow> mo_Mod m = ModRmModIndirect \<and> mo_Rm m = ModRmRmRipRelative"
    by (rule DecodeMemoryOperand_elim)
  from m(1) have pos: "modRmOffset < pos" "mo_Rm m \<noteq> ModRmRmSibPresent \<Longrightarrow> pos = modRmOffset + 1"
    by (auto simp: operand_sib_def bindE_eq_Inr split: if_splits)
  from m(2) have fit: "pos + displacementSize (mo_Mod m) (mo_Rm m) sib \<le> length data"
    by (simp add: operand_displacement_def not_less split: if_splits)
  show "0 < mo_EncodedSize m" "modRmOffset + mo_EncodedSize m \<le> length data" using m(3) pos(1) fit by auto
  show "mo_RipRelative m \<Longrightarrow> mo_EncodedSize m = 5" using m(3,7) pos by (simp add: displacementSize_def)
  show "mo_InstructionLength m = length data" "mo_Mod m \<noteq> ModRmModRegister" "mo_Prefixes m = prefixes" by (fact m)+
qed

subsection \<open>The decoders\<close>

lemma clzero_prefixes_safe [safe]: "in_bounds (clzero_prefixes data pos a)"
  by (induction data pos a rule: clzero_prefixes.induct) auto

lemma DecodeClzero_safe [safe]: "in_bounds (DecodeClzero data)"
  unfolding DecodeClzero_def by (intro safe) (auto split: prod.splits)

lemma reciprocal_body_safe: "off + 1 < length data \<Longrightarrow> in_bounds (reciprocal_body data r m p off v)"
  unfolding reciprocal_body_def Let_def by (intro safe) auto

lemma DecodeReciprocal_safe [safe]: "in_bounds (DecodeReciprocal data)"
  unfolding DecodeReciprocal_def by (intro safe reciprocal_body_safe) auto

lemma DecodeReciprocal_registers:
  "DecodeReciprocal data = Inr (Some r) \<Longrightarrow> rc_Destination r < 16 \<and> rc_Source r < 16"
  by (auto simp: DecodeReciprocal_def reciprocal_body_def Let_def bindE_eq_Inr split: if_splits)

lemma compare_modrm_lt: "compare_modrm data = Some p \<Longrightarrow> p < length data"
  by (auto simp: compare_modrm_def Let_def split: if_splits prod.splits)

lemma DecodeScalarCompare_safe [safe]: "in_bounds (DecodeScalarCompare data)"
  unfolding DecodeScalarCompare_def Let_def
  by (auto intro!: safe simp: operand_displacement_size_def dest: compare_modrm_lt split: option.splits prod.splits)

lemma DecodeScalarCompare_rip:
  "DecodeScalarCompare data = Inr (Some r) \<Longrightarrow> sc_RipDisplacementOffset r = Some off \<Longrightarrow> off + 5 = length data"
  by (auto simp: DecodeScalarCompare_def Let_def bindE_eq_Inr operand_displacement_size_def
      split: if_splits option.splits prod.splits)

lemma sha_prefixes_safe [safe]: "in_bounds (sha_prefixes message data pos rex prefixes)"
  by (induction message data pos rex prefixes rule: sha_prefixes.induct) auto

lemma DecodeSha1_safe [safe]: "in_bounds (DecodeSha1 data)"
  unfolding DecodeSha1_def Let_def by (auto intro!: safe split: prod.splits option.splits)

lemma DecodeSha256_safe [safe]: "in_bounds (DecodeSha256 data)"
  unfolding DecodeSha256_def Let_def by (auto intro!: safe split: prod.splits option.splits)

lemma DecodeSha1_operands:
  assumes "DecodeSha1 data = Inr s"
  shows "s1_Destination s < 16" "s1_Source s < 16" "s1_Function s < 4"
    "s1_Memory s = Some m \<Longrightarrow> mo_InstructionLength m = length data"
  using assms DecodeMemoryOperand_size(3)
  by (auto simp: DecodeSha1_def Let_def bindE_eq_Inr split: if_splits prod.splits)
    (auto intro: two_bits)

lemma DecodeSha256_operands:
  assumes "DecodeSha256 data = Inr s"
  shows "s256_Destination s < 16" "s256_Source s < 16"
    "s256_Memory s = Some m \<Longrightarrow> mo_InstructionLength m = length data"
  using assms DecodeMemoryOperand_size(3)
  by (auto simp: DecodeSha256_def Let_def bindE_eq_Inr split: if_splits prod.splits)

lemma DecodeSse4a_safe [safe]: "in_bounds (DecodeSse4a data)"
  unfolding DecodeSse4a_def Let_def by (auto intro!: safe split: prod.splits)

lemma DecodeSse4a_operands:
  assumes "DecodeSse4a data = Inr s"
  shows "s4_Destination s < 16" "s4_Source s < 16"
    "\<not> s4_RegisterForm s \<Longrightarrow> 0 < s4_Length s \<and> unat (s4_Length s) + unat (s4_Index s) \<le> 64"
  using assms
  by (auto simp: DecodeSse4a_def Let_def bindE_eq_Inr word_greater_zero_iff split: if_splits prod.splits)

lemma store_vex_pos: "store_vex data vex = Some (i, p, pos) \<Longrightarrow> vex + 2 \<le> pos \<and> pos \<le> length data \<and>
    pos = (if data ! vex = OneByteVex2 then vex + 2 else vex + 3)"
  by (auto simp: store_vex_def split: if_splits)

lemma DecodeVexWideStore_safe [safe]: "in_bounds (DecodeVexWideStore data)"
  unfolding DecodeVexWideStore_def Let_def wide_store_operands_def
  by (auto intro!: safe simp: operand_displacement_size_def split: option.splits prod.splits)

lemma DecodeAndn_safe [safe]: "in_bounds (DecodeAndn data)"
  unfolding DecodeAndn_def Let_def by (auto intro!: safe)

end
