(* ===== verification/Matcher_Props.thy ===== *)
theory Matcher_Props
  imports Matcher Lowerings_Props Operands_Props
begin

text \<open>
  What the matcher promises the converter: it never reads outside the instruction, a replacement in place
  has the length of the instruction, and a stub is the finished body of a well-formed builder.
\<close>

subsection \<open>Emitters\<close>

text \<open>An emitter appends to any builder or throws; it does not read out of bounds.\<close>

definition emitter :: "(StubBodyBuilder \<Rightarrow> StubBodyBuilder result) \<Rightarrow> bool" where
  "emitter emit \<longleftrightarrow> (\<forall>b. in_bounds (emit b) \<and> (\<forall>b'. emit b = Inr b' \<longrightarrow> grows 0 b b'))"

named_theorems emit

lemma emitterI: "(\<And>b. in_bounds (f b)) \<Longrightarrow> (\<And>b b'. f b = Inr b' \<Longrightarrow> grows 0 b b') \<Longrightarrow> emitter f"
  by (simp add: emitter_def)

lemma emitter_adds [emit]: "adds 0 f \<Longrightarrow> emitter (\<lambda>b. Inr (f b))"
  by (simp add: emitter_def adds_def)

lemma decode_instruction_safe [safe]: "in_bounds (decode_instruction data)"
proof (cases "decode data")
  case (Inl e)
  then have "decode_instruction data = Inl e" by (simp add: decode_instruction_def)
  with Inl decode_safe [of data] show ?thesis by (simp add: in_bounds_def)
next
  case (Inr n)
  then show ?thesis using decode_instruction_ok by fastforce
qed

lemma RipRelative_safe [safe]: "in_bounds (RipRelative instruction off target b)"
  by (simp add: RipRelative_def Let_def)

lemma Load_safe [safe]: "in_bounds (Load r m b)"
  by (simp add: Load_def Let_def)

lemma Move_safe [safe]: "in_bounds (Move instruction rip b)"
  unfolding Move_def Let_def by (intro safe) (auto intro!: safe split: option.splits)

lemma emitter_Sha1 [emit]: "emitter (Sha1_EmitOutOfLine operands)"
proof (rule emitterI)
  show "in_bounds (Sha1_EmitOutOfLine operands b)" for b
    by (auto simp: Sha1_EmitOutOfLine_def Let_def intro!: safe split: option.splits)
qed (rule grows_Sha1)

lemma emitter_Sha256 [emit]: "emitter (Sha256_EmitOutOfLine operands)"
proof (rule emitterI)
  show "in_bounds (Sha256_EmitOutOfLine operands b)" for b
    by (auto simp: Sha256_EmitOutOfLine_def Let_def intro!: safe split: option.splits)
qed (rule grows_Sha256)

lemma emitHalf_safe [safe]: "in_bounds (emitHalf half b)"
  by (auto simp: emitHalf_def intro: safe split: option.splits)

lemma emitter_WideStore [emit]: "emitter (WideStore_EmitOutOfLine operands)"
  by (rule emitterI) (auto simp: WideStore_EmitOutOfLine_def intro!: safe intro: grows_WideStore)

lemma emitter_compare [emit]: "emitter (emitScalarCompare data compare)"
  by (rule emitterI) (auto simp: emitScalarCompare_def intro: safe grow split: option.splits)

text \<open>ANDN: the registers it marks as used are below 16.\<close>

lemma single_bit: "(a :: u8) AND 2 ^ k = (if bit a k then 2 ^ k else 0)"
  by (rule bit_word_eqI) (auto simp: bit_simps)

lemma extended_16 [simp]: "a \<le> 7 \<Longrightarrow> a OR (x AND 8) < (16 :: u8)"
  using extended_register [of a "bit x 3"] single_bit [of x 3] by (simp split: if_splits)

lemma and7_extended_16 [simp]: "(a AND 7) OR (x AND 8) < (16 :: u8)"
  by (rule extended_16) (rule word_and_le1)

lemma and15_16 [simp]: "(a AND 15) < (16 :: u8)"
  using word_and_le1 [of a 15] by (rule le_less_trans) simp

lemma DecodeMemoryOperand_rm: "DecodeMemoryOperand data p rex prefixes = Inr m \<Longrightarrow> mo_Rm m \<le> 7"
  by (auto simp: DecodeMemoryOperand_def Let_def bindE_eq_Inr modrm_fields_le split: if_splits prod.splits)

lemma andn_used_16:
  assumes "an_Destination operands < 16" "an_InvertedSource operands < 16" "an_Source operands < 16"
    "\<And>m. an_Memory operands = Some m \<Longrightarrow> mo_Rm m \<le> 7"
  shows "\<not> list_ex (\<lambda>reg. 16 \<le> reg) (andn_used operands)"
  using assms by (auto simp: andn_used_def Let_def not_le split: option.splits)

lemma DecodeAndn_registers:
  assumes "DecodeAndn data = Inr (Some operands)"
  shows "an_Destination operands < 16" "an_InvertedSource operands < 16" "an_Source operands < 16"
    "an_Memory operands = Some m \<Longrightarrow> mo_Rm m \<le> 7"
  using assms by (auto simp: DecodeAndn_def Let_def bindE_eq_Inr DecodeMemoryOperand_rm split: if_splits)

lemma emitter_Andn [emit]:
  assumes "DecodeAndn data = Inr (Some operands)"
  shows "emitter (EmitAndn operands)"
proof (rule emitterI)
  have "\<not> list_ex (\<lambda>reg. 16 \<le> reg) (andn_used operands)"
    using DecodeAndn_registers [OF assms] by (intro andn_used_16)
  then show "in_bounds (EmitAndn operands b)" for b
    unfolding EmitAndn_def andn_scratch_def andn_and_def andn_memory_def Let_def
    by (intro safe) (auto intro!: safe split: list.splits option.splits)
qed (rule grows_Andn)

subsection \<open>Stubs\<close>

lemma moveTrailing_emitter [emit]: "emitter (moveTrailing trailing)"
proof (rule emitterI)
  show "in_bounds (moveTrailing trailing b)" for b
  proof (induction trailing b rule: moveTrailing.induct)
    case (1 trailing body)
    then show ?case
      by (subst moveTrailing.simps) (auto intro!: safe)
  qed
  show "moveTrailing trailing b = Inr b' \<Longrightarrow> grows 0 b b'" for b b'
  proof (induction trailing b rule: moveTrailing.induct)
    case (1 trailing body)
    from "1.prems" show ?case
      by (subst (asm) moveTrailing.simps)
        (auto simp: bindE_eq_Inr split: if_splits dest!: "1.IH" intro: grows_then [OF grows_Move])
  qed
qed

text \<open>\<open>stub_of body\<close>: the body is what \<open>Finish\<close> makes of a well-formed builder that left the stack balanced.\<close>

definition stub_of :: "LoweredBody \<Rightarrow> bool" where
  "stub_of body \<longleftrightarrow> (\<exists>b. builder_wf b \<and> sb_stackDepth b = 0 \<and> Finish b = Inr body)"

lemma apply_fixups_safe:
  "\<forall>f \<in> set fixups. fixup_in 0 (length bytes) (length offsets) f \<Longrightarrow> in_bounds (apply_fixups offsets fixups bytes)"
proof (induction fixups arbitrary: bytes)
  case (Cons f fs)
  let ?b = "write_bytes bytes (fx_DisplacementOffset f)
    (le32_bytes (word_of_int (int (offsets ! fx_ConstantIndex f) - int (fx_InstructionEnd f))))"
  from Cons.prems have f: "fixup_in 0 (length bytes) (length offsets) f" by simp
  then have "length ?b = length bytes" by (simp add: fixup_in_def)
  with Cons.prems have "in_bounds (apply_fixups offsets fs ?b)" by (intro Cons.IH) simp
  with f show ?case by (simp only: apply_fixups.simps fixup_in_def Let_def) auto
qed simp

lemma Finish_safe [safe]:
  assumes "builder_wf b"
  shows "in_bounds (Finish b)"
proof -
  let ?code = "sb_bytes b @ Bytes kJmpRel32"
  obtain bytes offsets where pc: "place_constants (sb_constants b) ?code = (bytes, offsets)"
    by (rule prod.exhaust)
  from place_constants [OF pc] assms have "\<forall>f \<in> set (sb_fixups b). fixup_in 0 (length bytes) (length offsets) f"
    by (force simp: builder_wf_def fixup_in_def dest: list_all2_lengthD)
  from apply_fixups_safe [OF this] show ?thesis
    by (auto simp: Finish_def pc intro!: safe)
qed

lemma grows_new:
  assumes "grows 0 new_builder b"
  shows "builder_wf b \<and> sb_stackDepth b = 0"
  using grows_wf [OF assms new_builder_wf] growsE [OF assms] by (metis new_builder_def StubBodyBuilder.select_convs(5) add_0)

lemma outOfLine_ok:
  assumes "emitter emit"
  shows "in_bounds (outOfLine len trailing emit)" "outOfLine len trailing emit = Inr body \<Longrightarrow> stub_of body"
proof -
  have *: "grows 0 new_builder b2" if "emit new_builder = Inr b" "moveTrailing trailing (Advance len b) = Inr b2" for b b2
    using assms moveTrailing_emitter [of trailing] that
    by (metis emitter_def grows_Advance_after grows_then add_0)
  show "in_bounds (outOfLine len trailing emit)"
    using assms moveTrailing_emitter [of trailing] unfolding outOfLine_def
    by (auto simp: emitter_def dest: * grows_new intro!: safe)
  show "outOfLine len trailing emit = Inr body \<Longrightarrow> stub_of body"
    unfolding outOfLine_def bindE_eq_Inr stub_of_def using * grows_new by blast
qed

subsection \<open>Matches\<close>

definition body_of :: "Amd64OnlyMatch \<Rightarrow> LoweredBody" where
  "body_of m = \<lparr>lb_Bytes = StubBody m, lb_ReturnBranchOffset = ReturnBranchOffset m,
     lb_Relocations = match_Relocations m\<rparr>"

definition match_ok :: "u8 list \<Rightarrow> Amd64OnlyMatch \<Rightarrow> bool" where
  "match_ok data m \<longleftrightarrow> match_Length m = length data \<and>
     (case Lowering m of
        InPlace \<Rightarrow> length (ReplacementBytes m) = length data
      | Trampoline \<Rightarrow> stub_of (body_of m)
      | Unsupported \<Rightarrow> True
      | Kept \<Rightarrow> False)"

definition outcome_ok :: "u8 list \<Rightarrow> Amd64OnlyMatch option result \<Rightarrow> bool" where
  "outcome_ok data r \<longleftrightarrow> in_bounds r \<and> (\<forall>m. r = Inr (Some m) \<longrightarrow> match_ok data m)"

named_theorems outcome

lemma outcome_None [outcome]: "outcome_ok data (Inr None)"
  by (simp add: outcome_ok_def)

lemma outcome_throw [outcome]: "outcome_ok data (throw message)"
  by (simp add: outcome_ok_def)

lemma outcome_Some [outcome]: "match_ok data m \<Longrightarrow> outcome_ok data (Inr (Some m))"
  by (simp add: outcome_ok_def)

lemma outcome_if [outcome]:
  "(c \<Longrightarrow> outcome_ok data a) \<Longrightarrow> (\<not> c \<Longrightarrow> outcome_ok data b) \<Longrightarrow> outcome_ok data (if c then a else b)"
  by simp

lemma outcome_bindE:
  "in_bounds m \<Longrightarrow> (\<And>a. m = Inr a \<Longrightarrow> outcome_ok data (f a)) \<Longrightarrow> outcome_ok data (bindE m f)"
  by (cases m) (auto simp: outcome_ok_def in_bounds_def)

lemma outcome_attempt [outcome]:
  "in_bounds decoder \<Longrightarrow> (\<And>a. decoder = Inr (Some a) \<Longrightarrow> outcome_ok data (use a)) \<Longrightarrow> outcome_ok data rest \<Longrightarrow>
   outcome_ok data (attempt decoder use rest)"
  unfolding attempt_def by (rule outcome_bindE) (auto split: option.splits)

lemma some_match_bindE: "some_match (bindE m f) = bindE m (\<lambda>a. some_match (f a))"
  by (cases m) (simp_all add: some_match_def)

lemma match_ok_trampoline: "stub_of body \<Longrightarrow> match_ok data (trampoline name (length data) body optional window)"
  by (cases body) (simp add: match_ok_def trampoline_def body_of_def)

lemma match_ok_in_place: "length replacement = length data \<Longrightarrow> match_ok data (in_place name (length data) replacement)"
  by (simp add: match_ok_def in_place_def)

lemma match_ok_unsupported: "match_ok data (unsupported entry (length data))"
  by (simp add: match_ok_def unsupported_def)

lemma outcome_stub [outcome]:
  assumes "emitter emit"
  shows "outcome_ok data (stub_match name data trailing optional window emit)"
  unfolding stub_match_def
  by (intro outcome_bindE outcome_Some match_ok_trampoline) (fact outOfLine_ok [OF assms])+

lemma some_stub: "some_match (bindE (outOfLine (length data) trailing emit) (\<lambda>body.
    Inr (trampoline name (length data) body optional window))) = stub_match name data trailing optional window emit"
  by (simp add: some_match_bindE stub_match_def) (simp add: some_match_def)

text \<open>Padding with NOPs reaches the length it is asked for.\<close>

lemma length_nop:
  assumes "0 < n"
  shows "length (Bytes (kNops ! (min n 7 - 1))) = min n 7"
proof -
  have "length (Bytes (kNops ! (min n 7 - 1))) = Suc (min n 7 - 1)"
    using assms by (intro kNops_Size) (auto simp: min_def)
  with assms show ?thesis by simp
qed

lemma length_pad_nops: "length replacement \<le> len \<Longrightarrow> length (pad_nops len replacement) = len"
proof (induction len replacement rule: pad_nops.induct)
  case (1 len replacement)
  show ?case
  proof (cases "length replacement < len")
    case True
    then have "length (Bytes (kNops ! (min (len - length replacement) 7 - 1))) = min (len - length replacement) 7"
      by (intro length_nop) simp
    then show ?thesis using 1 True by (subst pad_nops.simps) simp
  next
    case False
    then show ?thesis using 1 by (subst pad_nops.simps) simp
  qed
qed

lemma length_nopFill: "length (nopFill out n) = length out + n"
proof (induction out n rule: nopFill.induct)
  case (1 out n)
  then show ?case
    using length_nop [of n] by (subst nopFill.simps) (simp add: Size_def)
qed

lemma match_ok_inPlace: "length replacement \<le> length data \<Longrightarrow> match_ok data (inPlace entry (length data) replacement)"
  by (simp add: inPlace_def match_ok_in_place length_pad_nops)

lemma length_LowerInPlace: "Sse4a_LowerInPlace operands n = Some bytes \<Longrightarrow> length bytes = n"
  by (auto simp: Sse4a_LowerInPlace_def Let_def length_nopFill split: if_splits option.splits)

lemma rdpidReplacement_safe [safe]: "IsRdpid data \<Longrightarrow> in_bounds (rdpidReplacement data)"
  by (auto simp: rdpidReplacement_def IsRdpid_def Let_def instr_OpcodeOffset_def intro!: safe split: if_splits)

lemma emitter_rdpid [emit]: "IsRdpid data \<Longrightarrow> emitter (\<lambda>body. bindE (rdpidReplacement data) (\<lambda>bytes. Inr (Raw bytes body)))"
  by (rule emitterI) (auto intro!: safe simp: bindE_eq_Inr grow)

lemma IsMwaitx_length: "IsMwaitx data \<Longrightarrow> 3 \<le> length data"
  by (auto simp: IsMwaitx_def Let_def split: if_splits)

lemma outcome_Movnts: "outcome_ok data (some_match (matchMovnts data entry))"
  unfolding matchMovnts_def Let_def
  by (auto simp: some_match_def outcome_throw intro!: outcome_bindE outcome_Some match_ok_in_place)

lemma outcome_Sse4a: "outcome_ok data (some_match (matchSse4a data entry registerFormEntry trailing))"
  unfolding matchSse4a_def some_match_bindE Let_def
  by (rule outcome_bindE [OF DecodeSse4a_safe])
    (auto simp: some_stub some_match_def [of "Inr _"] adds_Sse4a
      intro!: outcome outcome_Some match_ok_in_place emit dest: length_LowerInPlace split: option.splits)

lemma outcome_Sha256: "outcome_ok data (some_match (matchSha256 data trailing))"
  unfolding matchSha256_def some_match_bindE
  by (rule outcome_bindE [OF DecodeSha256_safe])
    (simp only: some_match_bindE [symmetric] some_stub, rule outcome_stub, intro emit)

lemma outcome_Sha1: "outcome_ok data (some_match (matchSha1 data trailing))"
  unfolding matchSha1_def some_match_bindE
  by (rule outcome_bindE [OF DecodeSha1_safe])
    (simp only: some_match_bindE [symmetric] some_stub, rule outcome_stub, intro emit)

lemma outcome_Clzero: "outcome_ok data (some_match (matchClzero data trailing))"
  unfolding matchClzero_def some_match_bindE
  by (rule outcome_bindE [OF DecodeClzero_safe])
    (simp only: some_match_bindE [symmetric] some_stub, rule outcome_stub, intro emit adds_Clzero)

lemma outcome_Rosetta: "outcome_ok data (matchRosetta target data trailing)"
  unfolding matchRosetta_def
  by (intro outcome emit match_ok_in_place match_ok_inPlace safe) (simp_all add: rdseed_replacement_def Let_def)

lemma outcome_Match: "outcome_ok data (Match target data trailing)"
  unfolding Match_def
  by (intro outcome outcome_Movnts outcome_Sse4a outcome_Sha256 outcome_Sha1 outcome_Clzero outcome_Rosetta safe emit adds_Reciprocal)
    (auto simp: match_ok_unsupported kPause_def dest: IsMwaitx_length intro!: match_ok_inPlace)

subsection \<open>Emitting and sequences\<close>

definition emitted_ok :: "StubBodyBuilder \<Rightarrow> (string \<times> StubBodyBuilder) option result \<Rightarrow> bool" where
  "emitted_ok b r \<longleftrightarrow> in_bounds r \<and> (\<forall>name b'. r = Inr (Some (name, b')) \<longrightarrow> grows 0 b b')"

lemma emitted_None: "emitted_ok b (Inr None)"
  by (simp add: emitted_ok_def)

lemma emitted_named: "emitter emit \<Longrightarrow> emitted_ok b (named name (emit b))"
  by (cases "emit b") (auto simp: emitted_ok_def named_def emitter_def in_bounds_def)

lemma emitted_if: "(c \<Longrightarrow> emitted_ok b x) \<Longrightarrow> (\<not> c \<Longrightarrow> emitted_ok b y) \<Longrightarrow> emitted_ok b (if c then x else y)"
  by simp

lemma emitted_bindE:
  "in_bounds m \<Longrightarrow> (\<And>a. m = Inr a \<Longrightarrow> emitted_ok b (f a)) \<Longrightarrow> emitted_ok b (bindE m f)"
  by (cases m) (auto simp: emitted_ok_def in_bounds_def)

lemma emitted_attempt:
  "in_bounds decoder \<Longrightarrow> (\<And>a. decoder = Inr (Some a) \<Longrightarrow> emitted_ok b (use a)) \<Longrightarrow> emitted_ok b rest \<Longrightarrow>
   emitted_ok b (attempt decoder use rest)"
  unfolding attempt_def by (rule emitted_bindE) (auto split: option.splits)

lemma on_rosetta_safe [safe]: "in_bounds decoder \<Longrightarrow> in_bounds (on_rosetta target decoder)"
  by (simp add: on_rosetta_def)

lemma on_rosetta_Some [dest]: "on_rosetta target decoder = Inr (Some a) \<Longrightarrow> decoder = Inr (Some a)"
  by (simp add: on_rosetta_def split: if_splits)

lemma emitted_Inr: "grows 0 b b' \<Longrightarrow> emitted_ok b (named name (Inr b'))"
  by (simp add: emitted_ok_def named_def)

lemma emitOutOfLine_ok: "emitted_ok b (emitOutOfLine target data b)"
  unfolding emitOutOfLine_def
  by (intro emitted_if emitted_attempt emitted_bindE emitted_None emitted_Inr safe grows_Raw
      addsD [OF adds_Sse4a] addsD [OF adds_Clzero] addsD [OF adds_Reciprocal] emitted_named emit) (blast dest: on_rosetta_Some)+

lemma emitter_EmitOutOfLine: "emitter (EmitOutOfLine target data)"
  using emitOutOfLine_ok
  by (intro emitterI) (auto simp: EmitOutOfLine_def emitted_ok_def bindE_eq_Inr intro!: safe grows_Advance_after
      split: option.splits prod.splits)

lemma emit_sequence_ok:
  "in_bounds (emit_sequence target instructions name b) \<and>
   (\<forall>name' b'. emit_sequence target instructions name b = Inr (Some (name', b')) \<longrightarrow>
      grows 0 b b' \<and> (instructions \<noteq> [] \<or> name \<noteq> None \<longrightarrow> name' \<noteq> None))"
proof (induction target instructions name b rule: emit_sequence.induct)
  case (2 target data rest name body)
  note e = emitOutOfLine_ok [of body target data]
  show ?case
  proof (cases "\<exists>entry b1. emitOutOfLine target data body = Inr (Some (entry, b1))")
    case True
    then obtain entry b1 where b1: "emitOutOfLine target data body = Inr (Some (entry, b1))" by blast
    with e have "grows 0 body (Advance (length data) b1)" by (simp add: emitted_ok_def grows_Advance_after)
    with "2.IH" [OF b1 refl refl] b1 show ?thesis by (auto intro: grows_then)
  next
    case False
    with e show ?thesis
      by (cases "emitOutOfLine target data body") (auto simp: emitted_ok_def in_bounds_def split: option.splits)
  qed
qed simp

lemma outcome_MatchSequence: "outcome_ok (hd instructions) (MatchSequence target instructions trailing)"
proof (cases instructions)
  case (Cons first rest)
  note e = emit_sequence_ok [of target instructions None new_builder]
  have body: "builder_wf b2 \<and> sb_stackDepth b2 = 0"
    if "emit_sequence target instructions None new_builder = Inr (Some (name, b1))" "moveTrailing trailing b1 = Inr b2"
    for name b1 b2
    using that e moveTrailing_emitter [of trailing] grows_new by (metis emitter_def grows_then add_0)
  have trailing: "in_bounds (moveTrailing trailing b1)" for b1
    using moveTrailing_emitter by (simp add: emitter_def)
  show ?thesis
    unfolding MatchSequence_def Cons list.case list.sel Let_def
  proof (intro outcome_attempt outcome_None)
    show "in_bounds (emit_sequence target (first # rest) None new_builder)" using e Cons by simp
    fix r assume r: "emit_sequence target (first # rest) None new_builder = Inr (Some r)"
    obtain name b1 where nb: "r = (name, b1)" by (rule prod.exhaust)
    with e r Cons have "name \<noteq> None" by auto
    then obtain n where n: "name = Some n" by blast
    show "outcome_ok first (case r of (name, body) \<Rightarrow> bindE (moveTrailing trailing body) (\<lambda>body.
        bindE (DecodeReciprocal first) (\<lambda>reciprocal. bindE (Finish body) (\<lambda>lowered.
          case name of None \<Rightarrow> Inl OutOfBounds
          | Some name \<Rightarrow> Inr (Some (trampoline name (length first) lowered
              (reciprocal \<noteq> None \<or> target = Rosetta \<and> IsRdpid first) False))))))"
      unfolding nb prod.case n option.case using body r [unfolded nb n] trailing Cons
      by (intro outcome_bindE safe outcome_Some match_ok_trampoline) (auto simp: stub_of_def)
  qed
qed (simp add: MatchSequence_def outcome_None)

lemma MatchSequence_trampoline:
  "MatchSequence target instructions trailing = Inr (Some m) \<Longrightarrow> Lowering m = Trampoline \<and> \<not> RelocatableWindow m"
  by (auto simp: MatchSequence_def Let_def attempt_def bindE_eq_Inr trampoline_def split: list.splits option.splits)

subsection \<open>Relocatable windows\<close>

text \<open>Only a 256-bit store, which has four bytes at least, asks for a window; the Intel target has none.\<close>

definition window_ok :: "bool \<Rightarrow> u8 list \<Rightarrow> Amd64OnlyMatch option result \<Rightarrow> bool" where
  "window_ok allowed data r \<longleftrightarrow>
     (\<forall>m. r = Inr (Some m) \<longrightarrow> RelocatableWindow m \<longrightarrow> allowed \<and> 4 \<le> length data \<and> Lowering m = Trampoline)"

lemma window_if: "window_ok w data a \<Longrightarrow> window_ok w data b \<Longrightarrow> window_ok w data (if c then a else b)"
  by simp

lemma window_attempt:
  "(\<And>a. decoder = Inr (Some a) \<Longrightarrow> window_ok w data (use a)) \<Longrightarrow> window_ok w data rest \<Longrightarrow>
   window_ok w data (attempt decoder use rest)"
  by (cases decoder) (auto simp: attempt_def window_ok_def split: option.splits)

lemma window_False: "window_ok False data r \<Longrightarrow> window_ok w data r"
  by (simp add: window_ok_def)

lemma window_stub: "window_ok w data (stub_match name data trailing optional False emit)"
  by (auto simp: window_ok_def stub_match_def bindE_eq_Inr trampoline_def)

lemma window_leaf:
  "window_ok w data (Inr None)" "window_ok w data (throw message)" "window_ok w data (Inr (Some (inPlace entry n bytes)))"
  "window_ok w data (Inr (Some (in_place name n bytes)))" "window_ok w data (Inr (Some (unsupported entry n)))"
  "window_ok w data (some_match (matchMovnts data entry))" "window_ok w data (some_match (matchSse4a data entry e trailing))"
  "window_ok w data (some_match (matchSha256 data trailing))" "window_ok w data (some_match (matchSha1 data trailing))"
  "window_ok w data (some_match (matchClzero data trailing))"
  by (auto simp: window_ok_def some_match_def bindE_eq_Inr inPlace_def in_place_def unsupported_def trampoline_def
      matchMovnts_def matchSse4a_def matchSha256_def matchSha1_def matchClzero_def Let_def
      split: if_splits option.splits)

lemma DecodeVexWideStore_length: "DecodeVexWideStore data = Inr (Some wide) \<Longrightarrow> 4 \<le> length data"
  by (auto simp: DecodeVexWideStore_def Let_def split: option.splits if_splits prod.splits dest: store_vex_pos)

lemma window_wide:
  "DecodeVexWideStore data = Inr (Some wide) \<Longrightarrow> window_ok True data (stub_match name data trailing False True emit)"
  by (auto simp: window_ok_def stub_match_def bindE_eq_Inr trampoline_def dest: DecodeVexWideStore_length)

lemma window_Rosetta: "window_ok (target = Rosetta) data (matchRosetta target data trailing)"
  by (cases "target = Rosetta")
    (auto simp: matchRosetta_def intro: window_leaf intro!: window_if window_attempt window_stub window_wide)

lemma window_Match: "window_ok (target = Rosetta) data (Match target data trailing)"
  unfolding Match_def
  by (intro window_if window_attempt window_leaf window_stub window_Rosetta)
    (auto intro: window_leaf)

subsection \<open>The interface of the converter\<close>

locale instruction_matcher =
  fixes m :: IAmd64OnlyInstructionMatcher
  assumes Match_ok: "outcome_ok data (im_Match m data trailing)"
    and Match_window: "window_ok True data (im_Match m data trailing)"
    and MatchSequence_ok: "outcome_ok (hd instructions) (im_MatchSequence m instructions trailing)"
    and Emit_ok: "emitter (im_EmitOutOfLine m data)"

lemma instruction_matcher_interface: "instruction_matcher (MakeAmd64OnlyInstructionMatcher target)"
proof
  show "window_ok True data (im_Match (MakeAmd64OnlyInstructionMatcher target) data trailing)" for data trailing
    using window_Match [of target data trailing] by (auto simp: MakeAmd64OnlyInstructionMatcher_def window_ok_def)
qed (simp_all add: MakeAmd64OnlyInstructionMatcher_def outcome_Match outcome_MatchSequence emitter_EmitOutOfLine)

interpretation amd64: instruction_matcher "MakeAmd64OnlyInstructionMatcher target" for target
  by (rule instruction_matcher_interface)

end
