(* ===== verification/Converter_Props.thy ===== *)
theory Converter_Props
  imports Converter Matcher_Props
begin

text \<open>
  What a conversion promises: it keeps the length of the file and every byte outside the executable
  segments; for a matcher that asks for no relocatable windows, as the one of the Intel target, the sites of
  a segment are disjoint runs of whole instructions, long enough for the jump, that the file still holds
  as they were, and each comes with the stub the matcher makes of its bytes.
\<close>

subsection \<open>Positions\<close>

lemma unat_offset:
  assumes "tiles decode 0 seg ms" "length seg < 2 ^ 64" "k < length ms"
  shows "unat (m_Offset (ms ! k)) = start_of ms k"
  using x64.tiles_nth(1,4) [OF assms(1,3)] assms(2) by simp

lemma instruction_bytes_at:
  assumes "tiles decode 0 seg0 ms" "length seg0 < 2 ^ 64" "k < length ms"
  shows "instruction_bytes seg (ms ! k) = take (m_Length (ms ! k)) (drop (start_of ms k) seg)"
  using unat_offset [OF assms] by (simp add: instruction_bytes_def)

lemma drop_agree: "drop p xs = drop p ys \<Longrightarrow> p \<le> q \<Longrightarrow> drop q xs = drop q ys"
  by (metis drop_drop le_add_diff_inverse2)

lemma Size_kJmpRel32 [simp]: "Size kJmpRel32 = 5"
  by (simp add: Size_def kJmpRel32_def)

lemma slice_split:
  assumes "a \<le> b" "b \<le> c"
  shows "take (c - a) (drop a xs) = take (b - a) (drop a xs) @ take (c - b) (drop b xs)"
proof -
  have "take ((b - a) + (c - b)) (drop a xs) = take (b - a) (drop a xs) @ take (c - b) (drop (b - a) (drop a xs))"
    by (rule take_add)
  with assms show ?thesis by simp
qed

lemma take_drop_write:
  assumes "a + n \<le> p" "p + length bs \<le> length xs"
  shows "take n (drop a (write_bytes xs p bs)) = take n (drop a xs)"
  using assms by (auto simp: write_bytes_def list_eq_iff_nth_eq nth_append)

lemma drop_write:
  assumes "p + length bs \<le> q" "q \<le> length xs"
  shows "drop q (write_bytes xs p bs) = drop q xs"
  using assms by (auto simp: write_bytes_def list_eq_iff_nth_eq nth_append)

subsection \<open>The pending instructions\<close>

lemma atFileOffset_Inr [simp]: "atFileOffset base r = Inr a \<longleftrightarrow> r = Inr a"
  by (auto simp: atFileOffset_def split: sum.splits failure.splits)

lemma atFileOffset_safe [safe]: "in_bounds r \<Longrightarrow> in_bounds (atFileOffset base r)"
  by (auto simp: atFileOffset_def in_bounds_def split: sum.splits failure.splits)

lemma catch_none_Inr: "catch_none r = Inr (Some a) \<longleftrightarrow> r = Inr a"
  by (auto simp: catch_none_def split: sum.splits failure.splits)

lemma catch_none_safe [safe]: "in_bounds r \<Longrightarrow> in_bounds (catch_none r)"
  by (auto simp: catch_none_def in_bounds_def split: sum.splits failure.splits)

definition pending_of :: "IAmd64OnlyInstructionMatcher \<Rightarrow> u8 list \<Rightarrow> nat \<Rightarrow> InstructionMatch list \<Rightarrow> Pending list \<Rightarrow> bool" where
  "pending_of matcher seg index ms pending \<longleftrightarrow>
     sorted_wrt (<) (map pend_Index pending) \<and>
     (\<forall>item \<in> set pending. index \<le> pend_Index item \<and> pend_Index item < index + length ms \<and>
        Instruction item = ms ! (pend_Index item - index) \<and>
        im_Match matcher (instruction_bytes seg (Instruction item)) [] = Inr (Some (Substitution item))) \<and>
     (\<forall>k < length ms. index + k \<in> set (map pend_Index pending) \<longleftrightarrow>
        im_Match matcher (instruction_bytes seg (ms ! k)) [] \<noteq> Inr None)"

lemma find_pending: "find_pending matcher base seg index ms = Inr pending \<Longrightarrow> pending_of matcher seg index ms pending"
proof (induction ms arbitrary: index pending)
  case (Cons match rest)
  from Cons.prems obtain sub later where sub: "im_Match matcher (instruction_bytes seg match) [] = Inr sub"
    and later: "find_pending matcher base seg (index + 1) rest = Inr later"
    and p: "pending = (case sub of None \<Rightarrow> []
            | Some substitution \<Rightarrow> [\<lparr>pend_Index = index, Instruction = match, Substitution = substitution\<rparr>]) @ later"
    by (auto simp: bindE_eq_Inr)
  have IH: "pending_of matcher seg (index + 1) rest later" by (rule Cons.IH [OF later])
  have nth: "(match # rest) ! (i - index) = rest ! (i - Suc index)" if "Suc index \<le> i" for i
    using that by (auto simp: nth_Cons' Suc_diff_Suc)
  have ks: "(\<forall>k < length (match # rest). Q k) \<longleftrightarrow> Q 0 \<and> (\<forall>k < length rest. Q (Suc k))" for Q
    by (metis (no_types, lifting) length_Cons less_Suc_eq_0_disj)
  have notin: "index \<notin> set (map pend_Index later)" "\<forall>item \<in> set later. index < pend_Index item"
    using IH by (auto simp: pending_of_def)
  show ?case
  proof (cases sub)
    case None
    with IH sub p notin show ?thesis unfolding pending_of_def ks by (auto simp: nth)
  next
    case (Some s)
    with IH sub p notin show ?thesis unfolding pending_of_def ks by (auto simp: nth)
  qed
qed (simp add: pending_of_def)

subsection \<open>The stub of a site\<close>

text \<open>The matcher lowers the bytes: as one instruction, or as a sequence with instructions moved behind it.\<close>

definition lowers :: "IAmd64OnlyInstructionMatcher \<Rightarrow> u8 list \<Rightarrow> LoweredBody \<Rightarrow> bool" where
  "lowers matcher bytes body \<longleftrightarrow>
     (\<exists>x. im_Match matcher bytes [] = Inr (Some x) \<and> Lowering x = Trampoline \<and> body = body_of x) \<or>
     (\<exists>instructions trailing x. instructions \<noteq> [] \<and> concat instructions @ trailing = bytes \<and>
        im_MatchSequence matcher instructions trailing = Inr (Some x) \<and> Lowering x = Trampoline \<and> body = body_of x)"

definition site_body :: "TrampolineSite \<Rightarrow> LoweredBody" where
  "site_body s = \<lparr>lb_Bytes = site_Body s, lb_ReturnBranchOffset = site_ReturnBranchOffset s,
     lb_Relocations = site_Relocations s\<rparr>"

text \<open>\<open>spans\<close>: the site is that of the instructions from the first index up to the second.\<close>

definition spans ::
    "IAmd64OnlyInstructionMatcher \<Rightarrow> ProgramHeader \<Rightarrow> InstructionMatch list \<Rightarrow> u8 list \<Rightarrow> nat \<times> nat \<Rightarrow> TrampolineSite \<Rightarrow> bool" where
  "spans matcher ph ms seg = (\<lambda>(a, b) s. a < b \<and> b \<le> length ms \<and>
     site_Offset s = ph_Offset ph + of_nat (start_of ms a) \<and>
     site_Address s = ph_MappedAddress ph + of_nat (start_of ms a) \<and>
     site_Length s = start_of ms b - start_of ms a \<and> 5 \<le> site_Length s \<and>
     OriginalBytes s = take (site_Length s) (drop (start_of ms a) seg) \<and>
     lowers matcher (OriginalBytes s) (site_body s))"

text \<open>What the sequence gathered so far covers: the instructions from \<open>k\<close> up to \<open>index\<close>, trailing ones last.\<close>

definition covers :: "u8 list \<Rightarrow> InstructionMatch list \<Rightarrow> nat \<Rightarrow> nat \<Rightarrow> gathered \<Rightarrow> bool" where
  "covers seg ms k index g \<longleftrightarrow>
     ga_siteLength g = start_of ms index - start_of ms k \<and> ga_trailingBytes g \<le> ga_siteLength g \<and> ga_sequence g \<noteq> [] \<and>
     concat (ga_sequence g) = take (ga_siteLength g - ga_trailingBytes g) (drop (start_of ms k) seg)"

lemma covers_taken:
  assumes "covers seg ms k index g" "start_of ms k \<le> start_of ms index" "index < length ms" "ga_trailingBytes g = 0"
    "b = take (m_Length (ms ! index)) (drop (start_of ms index) seg)"
  shows "covers seg ms k (Suc index) (g\<lparr>ga_siteLength := ga_siteLength g + m_Length (ms ! index),
    ga_sequence := ga_sequence g @ [b], ga_taken := t\<rparr>)"
  using assms slice_split [of "start_of ms k" "start_of ms index" "start_of ms (Suc index)" seg]
  by (simp add: covers_def start_of_Suc)

lemma covers_moved:
  assumes "covers seg ms k index g" "start_of ms k \<le> start_of ms index" "index < length ms"
  shows "covers seg ms k (Suc index) (g\<lparr>ga_siteLength := ga_siteLength g + m_Length (ms ! index),
    ga_trailingBytes := ga_trailingBytes g + m_Length (ms ! index)\<rparr>)"
  using assms by (auto simp: covers_def start_of_Suc)

text \<open>
  The invariant of the loop: the sites so far span disjoint runs of instructions that began before \<open>i\<close>; what
  is still to come and lies in one of them has been consumed; from \<open>i\<close> on the segment is as it was.
\<close>

definition conversion_inv ::
    "IAmd64OnlyInstructionMatcher \<Rightarrow> conversion_context \<Rightarrow> u8 list \<Rightarrow> ConvertResult \<Rightarrow> nat \<Rightarrow> conversion \<Rightarrow>
     (nat \<times> nat) list \<Rightarrow> TrampolineSite list \<Rightarrow> bool" where
  "conversion_inv m cx seg0 result0 i cv rs new \<longleftrightarrow>
     Trampolines (cv_result cv) = Trampolines result0 @ new \<and>
     list_all2 (spans m (cx_ph cx) (cx_matches cx) (cv_seg cv)) rs new \<and>
     sorted_wrt (\<lambda>r r'. snd r \<le> fst r') rs \<and>
     (\<forall>r \<in> set rs. fst r < i \<and> (\<forall>j \<in> set (cx_pendingIndices cx). i \<le> j \<and> j < snd r \<longrightarrow> j \<in> set (cv_consumed cv))) \<and>
     length (cv_seg cv) = length seg0 \<and>
     drop (start_of (cx_matches cx) i) (cv_seg cv) = drop (start_of (cx_matches cx) i) seg0"

lemma conversion_inv_mono:
  assumes "conversion_inv m cx seg0 result0 i cv rs new" "i \<le> k"
  shows "conversion_inv m cx seg0 result0 k cv rs new"
proof -
  have "start_of (cx_matches cx) i \<le> start_of (cx_matches cx) k" using assms(2) by (rule start_of_mono)
  with assms show ?thesis unfolding conversion_inv_def by (meson drop_agree le_trans less_le_trans)
qed

lemma conversion_inv_result:
  "conversion_inv m cx seg0 result0 i cv rs new \<Longrightarrow> Trampolines result = Trampolines (cv_result cv) \<Longrightarrow>
   conversion_inv m cx seg0 result0 i (cv\<lparr>cv_result := result\<rparr>) rs new"
  by (simp add: conversion_inv_def)

text \<open>The ways a pending instruction is converted.\<close>

lemma reported_Inr:
  assumes "reported cx item r = Inr cv'"
  obtains cv1 n result where "r = Inr (cv1, n)" "cv' = cv1\<lparr>cv_result := result\<rparr>"
    "Trampolines result = Trampolines (cv_result cv1)"
  using assms by (auto simp: reported_def bindE_eq_Inr push_report_def)

lemma convert_item_cases:
  assumes "convert_item cx item cv = Inr cv'"
  obtains (consumed) "pend_Index item \<in> set (cv_consumed cv)" "cv' = cv"
  | (in_place) cv1 n result where "pend_Index item \<notin> set (cv_consumed cv)" "Lowering (Substitution item) = InPlace"
      "convert_in_place cx item cv = Inr (cv1, n)"
      "cv' = cv1\<lparr>cv_result := result\<rparr>" "Trampolines result = Trampolines (cv_result cv1)"
  | (window) cv1 n result where "pend_Index item \<notin> set (cv_consumed cv)" "RelocatableWindow (Substitution item)"
      "convert_window cx item cv = Inr (cv1, n)"
      "cv' = cv1\<lparr>cv_result := result\<rparr>" "Trampolines result = Trampolines (cv_result cv1)"
  | (site) cv1 n result where "pend_Index item \<notin> set (cv_consumed cv)" "Lowering (Substitution item) = Trampoline"
      "trampoline_site cx item cv = Inr (cv1, n)"
      "cv' = cv1\<lparr>cv_result := result\<rparr>" "Trampolines result = Trampolines (cv_result cv1)"
  | (kept) "cv' = convert_kept cx item cv"
proof (cases "pend_Index item \<in> set (cv_consumed cv)")
  case True
  with assms show ?thesis by (intro consumed) (simp_all add: convert_item_def)
next
  case False
  show ?thesis
  proof (cases "Lowering (Substitution item)")
    case InPlace
    with assms False have "reported cx item (convert_in_place cx item cv) = Inr cv'" by (simp add: convert_item_def)
    then show ?thesis by (rule reported_Inr) (rule in_place [OF False InPlace])
  next
    case Trampoline
    show ?thesis
    proof (cases "RelocatableWindow (Substitution item) \<and> m_Length (Instruction item) < Size kJmpRel32")
      case True
      with assms False Trampoline have "reported cx item (convert_window cx item cv) = Inr cv'"
        by (simp add: convert_item_def)
      then show ?thesis by (rule reported_Inr) (rule window [OF False conjunct1 [OF True]])
    next
      case short: False
      have step: "convert_item cx item cv = (case trampoline_site cx item cv of
             Inl (CodegenException message off) \<Rightarrow>
               if Optional (Substitution item) then Inr (convert_kept cx item cv) else Inl (CodegenException message off)
           | r \<Rightarrow> reported cx item r)"
        unfolding convert_item_def Let_def using False Trampoline short by (simp only: if_False Amd64OnlyLowering.case)
      show ?thesis
      proof (cases "trampoline_site cx item cv")
        case (Inl e)
        with step assms show ?thesis
          by (intro kept) (cases e; simp add: reported_def split: if_splits)
      next
        case (Inr r)
        with step assms have "reported cx item (Inr r) = Inr cv'" by simp
        then obtain cv1 n result where r: "Inr r = (Inr (cv1, n) :: (conversion \<times> nat) result)"
          "cv' = cv1\<lparr>cv_result := result\<rparr>" "Trampolines result = Trampolines (cv_result cv1)" by (rule reported_Inr)
        from Inr r(1) have "trampoline_site cx item cv = Inr (cv1, n)" by simp
        then show ?thesis by (rule site [OF False Trampoline _ r(2,3)])
      qed
    qed
  qed (use assms False in \<open>simp_all add: convert_item_def\<close>)
qed

lemma spans_write:
  assumes "spans m ph ms seg (a, b) s" "b \<le> k" "start_of ms k + length bytes \<le> length seg"
  shows "spans m ph ms (write_bytes seg (start_of ms k) bytes) (a, b) s"
proof -
  have "start_of ms a \<le> start_of ms b" "start_of ms b \<le> start_of ms k"
    using assms(1,2) by (auto simp: spans_def intro: start_of_mono)
  with assms(1,3) show ?thesis by (auto simp: spans_def take_drop_write)
qed

lemma inv_in_place:
  assumes "conversion_inv m cx seg0 result0 k cv rs new" "tiles decode 0 seg0 (cx_matches cx)" "length seg0 < 2 ^ 64"
    and "k < length (cx_matches cx)" "k \<in> set (cx_pendingIndices cx)" "k \<notin> set (cv_consumed cv)"
    and "convert_in_place cx item cv = Inr (cv', n)" "Instruction item = cx_matches cx ! k"
  shows "conversion_inv m cx seg0 result0 (Suc k) cv' rs new"
proof -
  let ?ms = "cx_matches cx" and ?bytes = "ReplacementBytes (Substitution item)"
  have len: "length ?bytes = m_Length (?ms ! k)" and
    cv': "cv_seg cv' = write_bytes (cv_seg cv) (start_of ?ms k) ?bytes" "cv_consumed cv' = cv_consumed cv"
      "Trampolines (cv_result cv') = Trampolines (cv_result cv)"
    using assms(7,8) unat_offset [OF assms(2-4)] by (auto simp: convert_in_place_def Let_def split: if_splits)
  have fit: "start_of ?ms k + length ?bytes \<le> length (cv_seg cv)"
    using x64.tiles_nth(4) [OF assms(2,4)] len assms(1) by (simp add: conversion_inv_def)
  have "snd r \<le> k" if "r \<in> set rs" for r
    using assms(1,5,6) that unfolding conversion_inv_def by (metis le_refl not_le)
  then have spans: "list_all2 (spans m (cx_ph cx) ?ms (cv_seg cv')) rs new"
    using assms(1) fit spans_write [of m "cx_ph cx" ?ms "cv_seg cv"] unfolding conversion_inv_def cv'(1)
    by (auto simp: list_all2_conv_all_nth) (metis nth_mem prod.collapse)
  have "drop (start_of ?ms (Suc k)) (cv_seg cv') = drop (start_of ?ms (Suc k)) (cv_seg cv)"
    using fit len assms(4) by (simp add: cv'(1) start_of_Suc drop_write)
  with conversion_inv_mono [OF assms(1), of "Suc k"] spans cv' fit show ?thesis
    by (simp add: conversion_inv_def)
qed

context instruction_matcher
begin

lemma lowers_stub: "lowers m bytes body \<Longrightarrow> stub_of body"
  using Match_ok MatchSequence_ok unfolding lowers_def outcome_ok_def match_ok_def by fastforce

lemma gather:
  assumes "tiles decode 0 seg0 (cx_matches cx)" "length seg0 < 2 ^ 64" "cx_matcher cx = m"
    and "drop (start_of (cx_matches cx) k) seg = drop (start_of (cx_matches cx) k) seg0"
    and "pending_of m seg0 0 (cx_matches cx) pending"
    and "k < index" "gather cx seg (cx_matches cx ! k) index rest g = Inr g'" "rest = drop index (cx_matches cx)"
    and "index \<le> length (cx_matches cx)" "covers seg (cx_matches cx) k index g"
  shows "\<exists>k'. index \<le> k' \<and> k' \<le> length (cx_matches cx) \<and> covers seg (cx_matches cx) k k' g' \<and> 5 \<le> ga_siteLength g' \<and>
    set (ga_taken g) \<subseteq> set (ga_taken g') \<and>
    (\<forall>j \<in> set (map pend_Index pending). index \<le> j \<and> j < k' \<longrightarrow> j \<in> set (ga_taken g'))"
  using assms(6-)
proof (induction rest arbitrary: index g)
  case Nil
  then have "g' = g" "5 \<le> ga_siteLength g" by (simp_all split: if_splits)
  with Nil show ?case by (intro exI [of _ index]) auto
next
  case (Cons following rest)
  let ?ms = "cx_matches cx"
  show ?case
  proof (cases "5 \<le> ga_siteLength g")
    case True
    with Cons.prems(2) have "g' = g" by simp
    with True Cons.prems show ?thesis by (intro exI [of _ index]) auto
  next
    case False
    from Cons.prems(3,4) have index: "index < length ?ms" by (metis drop_eq_Nil le_neq_implies_less list.discI order_refl)
    with Cons.prems(3) have rest: "following = ?ms ! index" "rest = drop (Suc index) ?ms"
      by (metis Cons_nth_drop_Suc list.inject)+
    let ?b = "instruction_bytes seg following"
    have mono: "start_of ?ms k \<le> start_of ?ms index" using Cons.prems(1) by (simp add: start_of_mono)
    have b: "?b = take (m_Length following) (drop (start_of ?ms index) seg)"
      using instruction_bytes_at [OF assms(1,2) index] rest(1) by simp
    have "?b = instruction_bytes seg0 following"
      using instruction_bytes_at [OF assms(1,2) index] rest(1) drop_agree [OF assms(4) mono] by simp
    then have pend: "index \<in> set (map pend_Index pending) \<longleftrightarrow> im_Match m ?b [] \<noteq> Inr None"
      using assms(5) index rest(1) unfolding pending_of_def by (metis add_0)
    let ?longer = "g\<lparr>ga_siteLength := ga_siteLength g + m_Length following\<rparr>"
    let ?taken = "?longer\<lparr>ga_sequence := ga_sequence g @ [?b], ga_taken := ga_taken g @ [index]\<rparr>"
    let ?moved = "?longer\<lparr>ga_trailingBytes := ga_trailingBytes g + m_Length following\<rparr>"
    have short: "(Size kJmpRel32 \<le> ga_siteLength g) = False" using False by simp
    from Cons.prems(2) short have "(m_Offset following \<noteq> m_Offset (?ms ! k) + of_nat (ga_siteLength g)) = False"
      by (simp split: if_split_asm)
    note guards = short this if_False
    obtain info :: DecodedInstructionInfo and amd where amd: "im_Match m ?b [] = Inr amd" and
      step: "(if amd \<noteq> None \<and> ga_trailingBytes g = 0 then gather cx seg (?ms ! k) (index + 1) rest ?taken
         else if amd \<noteq> None \<or> FlowKind info \<noteq> Sequential \<or> HasBranchTarget info
         then Inl (CodegenException ''AMD-only instruction too short for a jump is followed by an instruction that cannot move''
           (file_offset cx following))
         else gather cx seg (?ms ! k) (index + 1) rest ?moved) = Inr g'"
      using Cons.prems(2) unfolding gather.simps guards Let_def assms(3) bindE_eq_Inr
      by (elim exE conjE) (rule that)
    show ?thesis
    proof (cases "amd \<noteq> None \<and> ga_trailingBytes g = 0")
      case True
      have c: "covers seg ?ms k (Suc index) ?taken"
        using covers_taken [OF Cons.prems(5) mono index] True b rest(1) by simp
      from step True have "gather cx seg (?ms ! k) (Suc index) rest ?taken = Inr g'" by simp
      from Cons.IH [OF _ this rest(2) _ c] Cons.prems(1) index obtain k' where
        k': "Suc index \<le> k'" "k' \<le> length ?ms" "covers seg ?ms k k' g'" "5 \<le> ga_siteLength g'"
          "set (ga_taken g) \<union> {index} \<subseteq> set (ga_taken g')"
          "\<forall>j \<in> set (map pend_Index pending). Suc index \<le> j \<and> j < k' \<longrightarrow> j \<in> set (ga_taken g')"
        by auto
      have "\<forall>j \<in> set (map pend_Index pending). index \<le> j \<and> j < k' \<longrightarrow> j \<in> set (ga_taken g')"
        using k'(5,6) by (metis Suc_leI UnCI le_neq_implies_less singletonI subsetD)
      with k' show ?thesis by (intro exI [of _ k']) simp
    next
      case False
      with step have None: "amd = None" and moved: "gather cx seg (?ms ! k) (Suc index) rest ?moved = Inr g'"
        by (auto split: if_splits)
      have c: "covers seg ?ms k (Suc index) ?moved"
        using covers_moved [OF Cons.prems(5) mono index] rest(1) by simp
      from Cons.IH [OF _ moved rest(2) _ c] Cons.prems(1) index obtain k' where
        k': "Suc index \<le> k'" "k' \<le> length ?ms" "covers seg ?ms k k' g'" "5 \<le> ga_siteLength g'"
          "set (ga_taken g) \<subseteq> set (ga_taken g')"
          "\<forall>j \<in> set (map pend_Index pending). Suc index \<le> j \<and> j < k' \<longrightarrow> j \<in> set (ga_taken g')"
        by auto
      have "index \<notin> set (map pend_Index pending)" using pend amd None by simp
      then have "\<forall>j \<in> set (map pend_Index pending). index \<le> j \<and> j < k' \<longrightarrow> j \<in> set (ga_taken g')"
        using k'(6) by (metis Suc_leI le_neq_implies_less)
      with k' show ?thesis by (intro exI [of _ k']) simp
    qed
  qed
qed

subsection \<open>The loop over the pending instructions\<close>

text \<open>The site of an instruction: its span, the indices it consumes, and the bytes the stub is made of.\<close>

lemma site_stub:
  assumes "tiles decode 0 seg0 (cx_matches cx)" "length seg0 < 2 ^ 64" "cx_matcher cx = m"
    and "drop (start_of (cx_matches cx) k) seg = drop (start_of (cx_matches cx) k) seg0" "k < length (cx_matches cx)"
    and "pending_of m seg0 0 (cx_matches cx) pending" "item \<in> set pending" "k = pend_Index item"
    and "Lowering (Substitution item) = Trampoline"
    and "site_stub cx item seg = Inr (n, stub, taken)"
  shows "\<exists>k'. k < k' \<and> k' \<le> length (cx_matches cx) \<and> n = start_of (cx_matches cx) k' - start_of (cx_matches cx) k \<and>
    5 \<le> n \<and> (\<forall>j \<in> set (map pend_Index pending). k < j \<and> j < k' \<longrightarrow> j \<in> set taken) \<and>
    lowers m (take n (drop (start_of (cx_matches cx) k) seg)) (body_of stub)"
proof -
  let ?ms = "cx_matches cx" and ?match = "Instruction item"
  have match: "?match = ?ms ! k" and sub: "im_Match m (instruction_bytes seg0 ?match) [] = Inr (Some (Substitution item))"
    using assms(6-8) by (auto simp: pending_of_def)
  have b: "instruction_bytes seg ?match = take (m_Length ?match) (drop (start_of ?ms k) seg)"
      "instruction_bytes seg0 ?match = instruction_bytes seg ?match"
    using instruction_bytes_at [OF assms(1,2,5)] match assms(4) by simp_all
  have off: "unat (m_Offset ?match) = start_of ?ms k" using unat_offset [OF assms(1,2,5)] match by simp
  have suc: "start_of ?ms (Suc k) = start_of ?ms k + m_Length ?match" using start_of_Suc [OF assms(5)] match by simp
  show ?thesis
  proof (cases "5 \<le> m_Length ?match")
    case True
    with assms(10) have "n = m_Length ?match" "stub = Substitution item" "taken = []"
      by (auto simp: site_stub_def Let_def)
    with True suc sub b assms(5,9) show ?thesis
      by (intro exI [of _ "Suc k"]) (auto simp: lowers_def)
  next
    case False
    then have short: "(Size kJmpRel32 \<le> m_Length (?ms ! k)) = False" using match by simp
    note off' = unat_offset [OF assms(1,2,5)]
    from assms(10) obtain g x where
      g: "gather cx seg (?ms ! k) (Suc k) (drop (Suc k) ?ms) (gather_start seg (?ms ! k)) = Inr g" and
      x: "im_MatchSequence m (ga_sequence g) (take (ga_trailingBytes g)
            (drop (start_of ?ms k + ga_siteLength g - ga_trailingBytes g) seg)) = Inr x" and
      r: "(case x of Some stub \<Rightarrow>
               if Lowering stub \<noteq> Trampoline
               then Inl (CodegenException ''AMD-only instruction sequence has no out-of-line lowering'' (file_offset cx ?match))
               else Inr (ga_siteLength g, stub, ga_taken g)
           | None \<Rightarrow> Inl (CodegenException ''AMD-only instruction sequence has no out-of-line lowering'' (file_offset cx ?match)))
         = Inr (n, stub, taken)"
      unfolding site_stub_def Let_def match short if_False bindE_eq_Inr atFileOffset_Inr off' assms(3) assms(8) [symmetric]
        Suc_eq_plus1 by blast
    from r have stub: "x = Some stub" "Lowering stub = Trampoline" "n = ga_siteLength g" "taken = ga_taken g"
      by (auto split: option.splits if_splits)
    have "covers seg ?ms k (Suc k) (gather_start seg (?ms ! k))"
      using b suc match by (simp add: covers_def gather_start_def)
    from gather [OF assms(1-4,6) lessI g refl _ this] assms(5) obtain k' where
      k': "Suc k \<le> k'" "k' \<le> length ?ms" "covers seg ?ms k k' g" "5 \<le> ga_siteLength g"
        "\<forall>j \<in> set (map pend_Index pending). Suc k \<le> j \<and> j < k' \<longrightarrow> j \<in> set (ga_taken g)" by auto
    let ?a = "start_of ?ms k"
    have t: "ga_trailingBytes g \<le> ga_siteLength g" and
      c: "concat (ga_sequence g) = take (ga_siteLength g - ga_trailingBytes g) (drop ?a seg)"
      using k'(3) by (simp_all add: covers_def)
    have "take (ga_siteLength g) (drop ?a seg) = take (ga_siteLength g - ga_trailingBytes g) (drop ?a seg) @
        take (ga_trailingBytes g) (drop (?a + ga_siteLength g - ga_trailingBytes g) seg)"
      using slice_split [of ?a "?a + ga_siteLength g - ga_trailingBytes g" "?a + ga_siteLength g" seg] t by simp
    then have "concat (ga_sequence g) @ take (ga_trailingBytes g) (drop (?a + ga_siteLength g - ga_trailingBytes g) seg) =
        take (ga_siteLength g) (drop ?a seg)"
      by (simp only: c)
    then have "lowers m (take n (drop ?a seg)) (body_of stub)"
      using x stub k'(3) unfolding lowers_def covers_def by blast
    with stub k' show ?thesis by (intro exI [of _ k']) (auto simp: covers_def)
  qed
qed

lemma inv_trampoline:
  assumes "conversion_inv m cx seg0 result0 k cv rs new" "tiles decode 0 seg0 (cx_matches cx)" "length seg0 < 2 ^ 64"
    and "cx_matcher cx = m" "k < length (cx_matches cx)" "pending_of m seg0 0 (cx_matches cx) pending"
    and "cx_pendingIndices cx = map pend_Index pending" "item \<in> set pending" "k = pend_Index item"
    and "Lowering (Substitution item) = Trampoline" "k \<notin> set (cv_consumed cv)"
    and "trampoline_site cx item cv = Inr (cv', n)"
  shows "\<exists>rs new. conversion_inv m cx seg0 result0 (Suc k) cv' rs new"
proof -
  let ?ms = "cx_matches cx"
  have match: "Instruction item = ?ms ! k" using assms(6,8,9) by (auto simp: pending_of_def)
  have off: "m_Offset (?ms ! k) = of_nat (start_of ?ms k)" "unat (m_Offset (?ms ! k)) = start_of ?ms k"
    using x64.tiles_nth(1) [OF assms(2,5)] unat_offset [OF assms(2,3,5)] by simp_all
  have agree: "drop (start_of ?ms k) (cv_seg cv) = drop (start_of ?ms k) seg0" using assms(1) by (simp add: conversion_inv_def)
  from assms(12) obtain len stub taken where stub: "site_stub cx item (cv_seg cv) = Inr (len, stub, taken)"
    and cv': "(cv', n) = add_site cx item cv len stub taken"
    by (auto simp: trampoline_site_def Let_def bindE_eq_Inr split: if_splits)
  from site_stub [OF assms(2,3,4) agree assms(5,6,8,9,10) stub] obtain k' where
    k': "k < k'" "k' \<le> length ?ms" "len = start_of ?ms k' - start_of ?ms k" "5 \<le> len"
      "\<forall>j \<in> set (map pend_Index pending). k < j \<and> j < k' \<longrightarrow> j \<in> set taken"
      "lowers m (take len (drop (start_of ?ms k) (cv_seg cv))) (body_of stub)" by blast
  let ?site = "\<lparr>site_Offset = file_offset cx (?ms ! k), site_Address = ph_MappedAddress (cx_ph cx) + m_Offset (?ms ! k),
      site_Length = len, OriginalBytes = take len (drop (start_of ?ms k) (cv_seg cv)), site_Body = StubBody stub,
      site_ReturnBranchOffset = ReturnBranchOffset stub, site_Relocations = match_Relocations stub\<rparr>"
  have fields: "cv_seg cv' = cv_seg cv" "cv_consumed cv' = cv_consumed cv @ taken"
      "Trampolines (cv_result cv') = Trampolines (cv_result cv) @ [?site]"
    using cv' by (auto simp: add_site_def Let_def match off(2))
  have "spans m (cx_ph cx) ?ms (cv_seg cv) (k, k') ?site"
    using k' off by (simp add: spans_def file_offset_def site_body_def body_of_def)
  moreover have "snd r \<le> k" if "r \<in> set rs" for r
    using assms(1,7-9,11) that unfolding conversion_inv_def by (metis imageI le_refl list.set_map not_le)
  moreover note conversion_inv_mono [OF assms(1), of "Suc k"]
  ultimately have "conversion_inv m cx seg0 result0 (Suc k) cv' (rs @ [(k, k')]) (new @ [?site])"
    using k'(1,5) assms(7) by (auto simp: conversion_inv_def fields sorted_wrt_append list_all2_appendI)
  then show ?thesis by blast
qed

end

text \<open>A matcher without windows: the Intel target's.\<close>

locale windowless_matcher = instruction_matcher +
  assumes no_window: "im_Match m data trailing = Inr (Some x) \<Longrightarrow> \<not> RelocatableWindow x"
begin

lemma inv_item:
  assumes "conversion_inv m cx seg0 result0 k cv rs new" "tiles decode 0 seg0 (cx_matches cx)" "length seg0 < 2 ^ 64"
    and "cx_matcher cx = m" "pending_of m seg0 0 (cx_matches cx) pending" "cx_pendingIndices cx = map pend_Index pending"
    and "item \<in> set pending" "k = pend_Index item" "convert_item cx item cv = Inr cv'"
  shows "\<exists>rs new. conversion_inv m cx seg0 result0 (Suc k) cv' rs new"
proof -
  note inv = conversion_inv_mono [OF assms(1) le_SucI [OF order_refl]]
  have item: "k < length (cx_matches cx)" "Instruction item = cx_matches cx ! k" "k \<in> set (cx_pendingIndices cx)"
    and window: "\<not> RelocatableWindow (Substitution item)"
    using assms(5-8) no_window by (auto simp: pending_of_def)
  from assms(9) show ?thesis
  proof (cases rule: convert_item_cases)
    case consumed
    with inv show ?thesis by auto
  next
    case (in_place cv1 n result)
    from inv_in_place [OF assms(1-3) item(1,3) _ in_place(3) item(2)] in_place(1) assms(8)
    have "conversion_inv m cx seg0 result0 (Suc k) cv1 rs new" by simp
    then show ?thesis using in_place(4,5) by (auto intro: conversion_inv_result)
  next
    case (window cv1 n result)
    with \<open>\<not> RelocatableWindow (Substitution item)\<close> show ?thesis by simp
  next
    case (site cv1 n result)
    from inv_trampoline [OF assms(1-4) item(1) assms(5-8) site(2) _ site(3)] site(1) assms(8)
    obtain rs new where "conversion_inv m cx seg0 result0 (Suc k) cv1 rs new" by auto
    then show ?thesis using site(4,5) by (auto intro: conversion_inv_result)
  next
    case kept
    have "Trampolines (push_report cx item 0 Kept (cv_result cv\<lparr>KeptCount := KeptCount (cv_result cv) + 1\<rparr>)) =
        Trampolines (cv_result cv)" by (simp add: push_report_def)
    from conversion_inv_result [OF inv this] show ?thesis unfolding kept convert_kept_def Let_def by blast
  qed
qed

lemma inv_items:
  assumes "tiles decode 0 seg0 (cx_matches cx)" "length seg0 < 2 ^ 64" "cx_matcher cx = m"
    and "pending_of m seg0 0 (cx_matches cx) pending" "cx_pendingIndices cx = map pend_Index pending"
    and "conversion_inv m cx seg0 result0 i cv rs new" "set items \<subseteq> set pending"
    and "sorted_wrt (<) (map pend_Index items)" "\<forall>item \<in> set items. i \<le> pend_Index item"
    and "convert_items cx items cv = Inr cv'"
  shows "\<exists>i rs new. conversion_inv m cx seg0 result0 i cv' rs new"
  using assms(6-)
proof (induction items arbitrary: i cv rs new)
  case Nil
  then show ?case by auto
next
  case (Cons item items)
  from Cons.prems(5) obtain cv1 where cv1: "convert_item cx item cv = Inr cv1" "convert_items cx items cv1 = Inr cv'"
    by (auto simp: bindE_eq_Inr)
  have "conversion_inv m cx seg0 result0 (pend_Index item) cv rs new"
    using Cons.prems(4) by (intro conversion_inv_mono [OF Cons.prems(1)]) simp
  moreover have "item \<in> set pending" using Cons.prems(2) by simp
  ultimately obtain rs1 new1 where inv1: "conversion_inv m cx seg0 result0 (Suc (pend_Index item)) cv1 rs1 new1"
    using inv_item [OF _ assms(1-5) _ refl cv1(1)] by blast
  show ?case
  proof (rule Cons.IH [OF inv1 _ _ _ cv1(2)])
    show "set items \<subseteq> set pending" "sorted_wrt (<) (map pend_Index items)"
      "\<forall>item' \<in> set items. Suc (pend_Index item) \<le> pend_Index item'"
      using Cons.prems(2,3) by (simp_all add: Suc_le_eq)
  qed
qed

end

text \<open>
  The sites of a converted segment: runs of whole instructions of its scan, in order and disjoint, whose
  bytes the converted segment still holds, each with the stub the matcher makes of them.
\<close>

definition segment_sites ::
    "IAmd64OnlyInstructionMatcher \<Rightarrow> ProgramHeader \<Rightarrow> u8 list \<Rightarrow> u8 list \<Rightarrow> TrampolineSite list \<Rightarrow> bool" where
  "segment_sites m ph seg seg' new \<longleftrightarrow> length seg' = length seg \<and>
    (\<exists>ms rs. tiles decode 0 seg ms \<and> list_all2 (spans m ph ms seg') rs new \<and> sorted_wrt (\<lambda>r r'. snd r \<le> fst r') rs)"

context windowless_matcher
begin

lemma convert_pending:
  assumes "convert_pending m fileBytes ph segments seg ms pending result = Inr cv"
    and "tiles decode 0 seg ms" "length seg < 2 ^ 64" "find_pending m base seg 0 ms = Inr pending"
  shows "\<exists>new. Trampolines (cv_result cv) = Trampolines result @ new \<and> segment_sites m ph seg (cv_seg cv) new"
proof -
  from assms(1) obtain targets where
    items: "convert_items \<lparr>cx_matches = ms, cx_ph = ph, cx_branchTargets = targets,
          cx_pendingIndices = map pend_Index pending, cx_matcher = m\<rparr> pending
        \<lparr>cv_seg = seg, cv_result = result, cv_claimed = [], cv_consumed = []\<rparr> = Inr cv"
    by (auto simp: convert_pending_def bindE_eq_Inr)
  let ?cx = "\<lparr>cx_matches = ms, cx_ph = ph, cx_branchTargets = targets,
          cx_pendingIndices = map pend_Index pending, cx_matcher = m\<rparr>"
  have p: "pending_of m seg 0 ms pending" using find_pending [OF assms(4)] .
  have inv: "conversion_inv m ?cx seg result 0 \<lparr>cv_seg = seg, cv_result = result, cv_claimed = [], cv_consumed = []\<rparr> [] []"
    by (simp add: conversion_inv_def)
  have cx: "tiles decode 0 seg (cx_matches ?cx)" "cx_matcher ?cx = m" "pending_of m seg 0 (cx_matches ?cx) pending"
    "cx_pendingIndices ?cx = map pend_Index pending" using assms(2) p by simp_all
  have sorted: "sorted_wrt (<) (map pend_Index pending)" "\<forall>item \<in> set pending. 0 \<le> pend_Index item"
    using p by (simp_all add: pending_of_def)
  obtain i rs new where "conversion_inv m ?cx seg result i cv rs new"
    using inv_items [OF cx(1) assms(3) cx(2-4) inv order_refl sorted items] by blast
  with assms(2) show ?thesis by (auto simp: conversion_inv_def segment_sites_def)
qed

lemma convertSegment:
  assumes "convertSegment m segments ph (file, result) = Inr (file', result')" "length file < 2 ^ 64"
  shows "\<exists>new. Trampolines result' = Trampolines result @ new \<and>
    segment_sites m ph (take (unat (ph_FileSize ph)) (drop (unat (ph_Offset ph)) file))
      (take (unat (ph_FileSize ph)) (drop (unat (ph_Offset ph)) file')) new \<and>
    length file' = length file \<and> unat (ph_Offset ph) + unat (ph_FileSize ph) \<le> length file \<and>
    (\<forall>i < length file. i < unat (ph_Offset ph) \<or> unat (ph_Offset ph) + unat (ph_FileSize ph) \<le> i \<longrightarrow> file' ! i = file ! i)"
proof -
  let ?o = "unat (ph_Offset ph)" and ?n = "unat (ph_FileSize ph)"
  let ?seg = "take ?n (drop ?o file)"
  from assms(1) have fit: "?o + ?n \<le> length file"
    by (auto simp: convertSegment_def Let_def split: if_split_asm)
  then have seg: "length ?seg = ?n" "length ?seg < 2 ^ 64" using assms(2) by simp_all
  from assms(1) fit obtain ms pending where
    scan: "ScanCodeSection False ?seg 0 (of_nat (length ?seg)) = Inr ms" and
    pend: "find_pending m (ph_Offset ph) ?seg 0 ms = Inr pending" and
    rest: "(if pending = [] then Inr (file, result)
        else bindE (convert_pending m file ph segments ?seg ms pending result) (\<lambda>cv.
          if length (cv_seg cv) \<noteq> ?n
          then Inl (CodegenException ''Code segment size changed during Intel conversion'' (ph_Offset ph))
          else Inr (write_bytes file ?o (cv_seg cv), cv_result cv))) = Inr (file', result')"
    by (auto simp: convertSegment_def Let_def bindE_eq_Inr split: if_split_asm)
  have tiles: "tiles decode 0 ?seg ms" using scan seg by (simp add: ScanCodeSection_tiles)
  show ?thesis
  proof (cases "pending = []")
    case True
    with rest tiles fit show ?thesis by (intro exI [of _ "[]"]) (auto simp: segment_sites_def)
  next
    case False
    with rest obtain cv where cv: "convert_pending m file ph segments ?seg ms pending result = Inr cv"
      "length (cv_seg cv) = ?n" "file' = write_bytes file ?o (cv_seg cv)" "result' = cv_result cv"
      by (auto simp: bindE_eq_Inr split: if_split_asm)
    have same: "take ?n (drop ?o file') = cv_seg cv" using cv(2,3) fit by (simp add: write_bytes_def)
    from convert_pending [OF cv(1) tiles seg(2) pend] cv fit show ?thesis
      unfolding same by (auto simp: nth_write_bytes)
  qed
qed

end

end
