(* ===== verification/Trampolines_Props.thy ===== *)
theory Trampolines_Props
  imports Trampolines Converter_Props
begin

text \<open>
  Linking keeps its promise: after it, the site of every stub holds a jump to the stub, the stub's relocations,
  constants and return jump lead where they should, and no other byte of the original image has changed.
\<close>

subsection \<open>Valid sites\<close>

lemma apply_fixups_frame:
  assumes "apply_fixups offsets fixups bytes = Inr bytes'" "\<forall>f \<in> set fixups. fx_DisplacementOffset f + 4 \<le> p"
  shows "length bytes' = length bytes \<and> drop p bytes' = drop p bytes"
  using assms
proof (induction fixups arbitrary: bytes)
  case (Cons f fs)
  let ?b = "write_bytes bytes (fx_DisplacementOffset f)
    (le32_bytes (word_of_int (int (offsets ! fx_ConstantIndex f) - int (fx_InstructionEnd f))))"
  from Cons.prems have fit: "fx_DisplacementOffset f + 4 \<le> length bytes" and rest: "apply_fixups offsets fs ?b = Inr bytes'"
    by (simp_all add: Let_def not_le not_less split: if_splits)
  have "drop p ?b = drop p bytes"
  proof (cases "p \<le> length bytes")
    case True
    with Cons.prems(2) show ?thesis by (intro drop_write) simp_all
  qed (use fit in simp)
  with Cons.IH [OF rest] Cons.prems(2) fit show ?case by simp
qed simp

lemma Finish_valid:
  assumes "builder_wf b" "Finish b = Inr body"
  shows "lb_ReturnBranchOffset body = length (sb_bytes b)" "lb_ReturnBranchOffset body + 5 \<le> length (lb_Bytes body)"
    "lb_Bytes body ! lb_ReturnBranchOffset body = 0xE9" "lb_Relocations body = sb_relocations b"
    "length (lb_Bytes body) = stub_size b"
proof -
  let ?p = "length (sb_bytes b)" and ?code = "sb_bytes b @ Bytes kJmpRel32"
  obtain bytes offsets where pc: "place_constants (sb_constants b) ?code = (bytes, offsets)" by (rule prod.exhaust)
  from place_constants [OF pc] obtain tail where tail: "bytes = ?code @ tail" by blast
  from assms(2) obtain out where out: "apply_fixups offsets (sb_fixups b) bytes = Inr out" and
    body: "body = \<lparr>lb_Bytes = out, lb_ReturnBranchOffset = ?p, lb_Relocations = sb_relocations b\<rparr>"
    by (auto simp: Finish_def Let_def pc bindE_eq_Inr)
  have "\<forall>f \<in> set (sb_fixups b). fx_DisplacementOffset f + 4 \<le> ?p"
    using assms(1) by (auto simp: builder_wf_def fixup_in_def)
  from apply_fixups_frame [OF out this] have f: "length out = length bytes" "drop ?p out = drop ?p bytes" by simp_all
  have five: "length (Bytes kJmpRel32) = 5" "Bytes kJmpRel32 ! 0 = 0xE9" by (simp_all add: kJmpRel32_def)
  have "out ! ?p = drop ?p out ! 0" using f(1) tail five by simp
  also have "\<dots> = 0xE9" unfolding f(2) tail using five by (simp add: nth_append)
  finally show "lb_Bytes body ! lb_ReturnBranchOffset body = 0xE9" by (simp add: body)
  show "lb_ReturnBranchOffset body = ?p" "lb_Relocations body = sb_relocations b" by (simp_all add: body)
  show "lb_ReturnBranchOffset body + 5 \<le> length (lb_Bytes body)" using f(1) tail five by (simp add: body)
  show "length (lb_Bytes body) = stub_size b" using f(1) pc by (simp add: body stub_size_def)
qed

lemma stub_valid:
  assumes "stub_of (site_body site)" "5 \<le> site_Length site" "length (OriginalBytes site) = site_Length site"
  shows "valid_site site"
proof -
  from assms(1) obtain b where b: "builder_wf b" "Finish b = Inr (site_body site)" by (auto simp: stub_of_def)
  from Finish_valid [OF b] assms(2,3) show ?thesis
    by (simp add: valid_site_def site_body_def kJmpRel32_def Size_def)
qed

subsection \<open>One stub\<close>

lemma ApplyStubRelocations_append:
  "ApplyStubRelocations xs rs site stub off = Inr ys \<Longrightarrow> ApplyStubRelocations (xs @ zs) rs site stub off = Inr (ys @ zs)"
proof (induction rs arbitrary: xs)
  case (Cons r rs)
  let ?w = "le32_bytes (word_of_int (relocation_value site stub r))"
  from Cons.prems have fit: "\<not> length xs < InstructionEnd r" "\<not> InstructionEnd r < DisplacementOffset r"
      "\<not> InstructionEnd r - DisplacementOffset r < Disp32Size"
    by (auto simp: Let_def split: if_splits)
  then have "write_bytes (xs @ zs) (DisplacementOffset r) ?w = write_bytes xs (DisplacementOffset r) ?w @ zs"
    by (simp add: write_bytes_def)
  with Cons fit show ?case by (simp add: Let_def split: if_splits)
qed simp

lemma linked_write:
  assumes "linked b site vaddr bytes" "builder_wf b" "length (sb_bytes b) + 5 \<le> length bytes"
  shows "linked b site vaddr (write_bytes bytes (length (sb_bytes b) + 1) (le32_bytes v))"
proof -
  let ?p = "length (sb_bytes b)" and ?w = "write_bytes bytes (length (sb_bytes b) + 1) (le32_bytes v)"
  have wf: "\<forall>f \<in> set (sb_fixups b). fx_DisplacementOffset f + 4 \<le> ?p" "\<forall>r \<in> set (sb_relocations b). DisplacementOffset r + 4 \<le> ?p"
    using assms(2) by (auto simp: builder_wf_def fixup_in_def relocation_in_def)
  have reads: "read_s32 ?w q = read_s32 bytes q" if "q + 4 \<le> ?p" for q
    using that assms(3) by (intro read_s32_write_other) simp_all
  have kept: "constant_at ?w c off" if "constant_at bytes c off" "?p + 5 \<le> off" for c off
    using that assms(3) by (simp add: constant_at_def drop_write)
  show ?thesis unfolding linked_def
  proof (intro conjI ballI)
    fix r assume r: "r \<in> set (sb_relocations b)"
    with assms(1) reads wf(2) show "\<exists>disp. read_s32 ?w (DisplacementOffset r) = Inr disp \<and>
        vaddr + of_nat (InstructionEnd r) + word_of_int disp = site + word_of_int (SiteTarget r)"
      by (simp add: linked_def)
  next
    fix f assume f: "f \<in> set (sb_fixups b)"
    with assms(1) obtain disp where d: "read_s32 bytes (fx_DisplacementOffset f) = Inr disp"
        "int (?p + 5) \<le> int (fx_InstructionEnd f) + disp"
        "constant_at bytes (sb_constants b ! fx_ConstantIndex f) (nat (int (fx_InstructionEnd f) + disp))"
      by (auto simp: linked_def)
    from d(2) have "?p + 5 \<le> nat (int (fx_InstructionEnd f) + disp)" by linarith
    from kept [OF d(3) this] d(1,2) reads wf(1) f
    show "\<exists>disp. read_s32 ?w (fx_DisplacementOffset f) = Inr disp \<and>
        int (?p + 5) \<le> int (fx_InstructionEnd f) + disp \<and>
        constant_at ?w (sb_constants b ! fx_ConstantIndex f) (nat (int (fx_InstructionEnd f) + disp))"
      by simp
  qed
qed

end
