(* ===== verification/Trampoline_Linking.thy ===== *)
theory Trampoline_Linking
  imports Trampolines_Props
begin

text \<open>
  The linked image: what the site and the stub of a trampoline hold after \<open>appendTrampoline\<close>, and that later
  sites leave it so.
\<close>

subsection \<open>The jump at the site\<close>

text \<open>A five-byte jump with the given source address and target, at a position of the image.\<close>

definition jump_at :: "u8 list \<Rightarrow> nat \<Rightarrow> u64 \<Rightarrow> u64 \<Rightarrow> bool" where
  "jump_at bytes pos source target \<longleftrightarrow> pos + 5 \<le> length bytes \<and> bytes ! pos = 0xE9 \<and>
     (\<exists>disp. read_s32 bytes (pos + 1) = Inr disp \<and> source + 5 + word_of_int disp = target)"

definition agree :: "u8 list \<Rightarrow> u8 list \<Rightarrow> nat \<Rightarrow> nat \<Rightarrow> bool" where
  "agree bytes bytes' lo hi \<longleftrightarrow> hi \<le> length bytes \<and> hi \<le> length bytes' \<and> (\<forall>i. lo \<le> i \<and> i < hi \<longrightarrow> bytes' ! i = bytes ! i)"

lemma agree_read: "agree bytes bytes' lo hi \<Longrightarrow> lo \<le> q \<Longrightarrow> q + 4 \<le> hi \<Longrightarrow> read_s32 bytes' q = read_s32 bytes q"
  by (auto simp: agree_def read_s32_def read_le32_def)

lemma agree_take: "agree bytes bytes' lo hi \<Longrightarrow> lo + n \<le> hi \<Longrightarrow> take n (drop lo bytes') = take n (drop lo bytes)"
  by (auto simp: agree_def list_eq_iff_nth_eq)

lemma agree_jump: "jump_at bytes pos source target \<Longrightarrow> agree bytes bytes' lo hi \<Longrightarrow> lo \<le> pos \<Longrightarrow> pos + 5 \<le> hi \<Longrightarrow>
    jump_at bytes' pos source target"
  using agree_read [of bytes bytes' lo hi "pos + 1"] by (auto simp: jump_at_def agree_def)

lemma displacement_leads:
  "s + 5 + word_of_int (sint t - sint (s + 5)) = (t :: u64)" "s + 5 + word_of_int (sint t - sint (s + word_of_nat 5)) = (t :: u64)"
  by simp_all

lemma WriteU32_Inr: "WriteU32 buf off v = Inr buf' \<longleftrightarrow> off + 4 \<le> length buf \<and> buf' = write_bytes buf off (le32_bytes v)"
  by (auto simp: WriteU32_def)

lemma patch_site:
  assumes "patch_site site d buf = Inr buf'" "unat (site_Offset site) + site_Length site \<le> length buf" "5 \<le> site_Length site"
    "inRange d"
  shows "length buf' = length buf" "buf' ! unat (site_Offset site) = 0xE9"
    "read_s32 buf' (unat (site_Offset site) + 1) = Inr d"
    "\<forall>i. unat (site_Offset site) + 5 \<le> i \<and> i < unat (site_Offset site) + site_Length site \<longrightarrow> buf' ! i = 0x90"
    "\<forall>i < length buf. i < unat (site_Offset site) \<or> unat (site_Offset site) + site_Length site \<le> i \<longrightarrow> buf' ! i = buf ! i"
proof -
  let ?o = "unat (site_Offset site)" and ?n = "site_Length site"
  let ?fill = "write_bytes buf ?o (replicate ?n (0x90 :: u8))"
  let ?f = "?fill[?o := 0xE9]"
  have five: "Bytes kJmpRel32 ! 0 = 0xE9" "Bytes kNop1 ! 0 = 0x90" by (simp_all add: kJmpRel32_def kNop1_def)
  have lf: "length ?fill = length buf" using assms(2) by simp
  from assms(1) have b: "buf' = write_bytes ?f (?o + 1) (le32_bytes (word_of_int d))" "?o + 5 \<le> length buf"
    unfolding patch_site_def Let_def five WriteU32_Inr length_list_update lf by simp_all
  have nth: "buf' ! i = (if ?o + 1 \<le> i \<and> i < ?o + 5 then le32_bytes (word_of_int d) ! (i - (?o + 1)) else ?f ! i)"
    if "i < length buf" for i
    using that b(2) lf unfolding b(1) by (simp add: nth_write_bytes)
  have nf: "?f ! i = (if i = ?o then 0xE9 else if ?o \<le> i \<and> i < ?o + ?n then 0x90 else buf ! i)" if "i < length buf" for i
    using that assms(2) lf by (auto simp: nth_list_update nth_write_bytes)
  show "length buf' = length buf" using b lf by simp
  show "buf' ! ?o = 0xE9" using nth [of ?o] nf [of ?o] b(2) by simp
  show "read_s32 buf' (?o + 1) = Inr d"
    unfolding b(1) using b(2) lf assms(4) by (intro read_s32_write_same) (simp_all add: inRange_def)
  show "\<forall>i. ?o + 5 \<le> i \<and> i < ?o + ?n \<longrightarrow> buf' ! i = 0x90" using nth nf assms(2) by (auto simp del: nth_list_update_neq)
  show "\<forall>i < length buf. i < ?o \<or> ?o + ?n \<le> i \<longrightarrow> buf' ! i = buf ! i" using nth nf assms(3) by (auto simp del: nth_list_update_neq)
qed

subsection \<open>A linked trampoline\<close>

text \<open>
  At the site: a jump to the stub and NOPs up to the end of the site. At the stub: the code of a well-formed
  builder whose relocations and constants are in place, and a jump back to the instruction after the site.
\<close>

definition trampoline_linked :: "TrampolineSite \<Rightarrow> nat \<Rightarrow> u64 \<Rightarrow> u8 list \<Rightarrow> bool" where
  "trampoline_linked site pos vaddr buf \<longleftrightarrow>
     unat (site_Offset site) + site_Length site \<le> length buf \<and> pos + length (site_Body site) \<le> length buf \<and>
     jump_at buf (unat (site_Offset site)) (site_Address site) vaddr \<and>
     (\<forall>i. unat (site_Offset site) + 5 \<le> i \<and> i < unat (site_Offset site) + site_Length site \<longrightarrow> buf ! i = 0x90) \<and>
     (\<exists>b. builder_wf b \<and> sb_stackDepth b = 0 \<and> Finish b = Inr (site_body site) \<and>
        linked b (site_Address site) vaddr (take (length (site_Body site)) (drop pos buf))) \<and>
     jump_at buf (pos + site_ReturnBranchOffset site) (vaddr + of_nat (site_ReturnBranchOffset site))
       (site_Address site + of_nat (site_Length site))"

lemma trampoline_linked_agree:
  assumes "trampoline_linked site pos vaddr buf" "valid_site site"
    and "agree buf buf' (unat (site_Offset site)) (unat (site_Offset site) + site_Length site)"
    and "agree buf buf' pos (pos + length (site_Body site))"
  shows "trampoline_linked site pos vaddr buf'"
proof -
  have v: "5 \<le> site_Length site" "site_ReturnBranchOffset site + 5 \<le> length (site_Body site)"
    using assms(2) by (auto simp: valid_site_def)
  have "take (length (site_Body site)) (drop pos buf') = take (length (site_Body site)) (drop pos buf)"
    using agree_take [OF assms(4)] by simp
  moreover have "jump_at buf' (unat (site_Offset site)) (site_Address site) vaddr"
    using assms(1) agree_jump [OF _ assms(3)] v(1) by (simp add: trampoline_linked_def)
  moreover have "jump_at buf' (pos + site_ReturnBranchOffset site) (vaddr + of_nat (site_ReturnBranchOffset site))
       (site_Address site + of_nat (site_Length site))"
    using assms(1) agree_jump [OF _ assms(4)] v(2) by (simp add: trampoline_linked_def)
  moreover have "\<forall>i. unat (site_Offset site) + 5 \<le> i \<and> i < unat (site_Offset site) + site_Length site \<longrightarrow> buf' ! i = 0x90"
    using assms(1,3) by (simp add: trampoline_linked_def agree_def)
  ultimately show ?thesis using assms(1,3,4) unfolding trampoline_linked_def agree_def by simp
qed


lemma write_behind:
  "n = length xs \<Longrightarrow> write_bytes (xs @ ys) (n + k) bs = xs @ write_bytes ys k bs"
  by (simp add: write_bytes_def add.assoc)

lemma appended_stub:
  assumes "builder_wf b" "Finish b = Inr (site_body site)" "length (site_Body site) < 2 ^ 31"
    and "ApplyStubRelocations (take (site_ReturnBranchOffset site) (site_Body site)) (site_Relocations site)
      (site_Address site) vaddr off = Inr code"
    and "stub = write_bytes (code @ drop (site_ReturnBranchOffset site) (site_Body site))
      (site_ReturnBranchOffset site + 1) (le32_bytes (word_of_int d))"
    and "inRange d"
  shows "length stub = length (site_Body site)" "linked b (site_Address site) vaddr stub"
    "stub ! site_ReturnBranchOffset site = 0xE9" "read_s32 stub (site_ReturnBranchOffset site + 1) = Inr d"
    "site_ReturnBranchOffset site + 5 \<le> length (site_Body site)"
proof -
  let ?p = "site_ReturnBranchOffset site" and ?B = "site_Body site"
  let ?c = "code @ drop ?p ?B"
  note fv = Finish_valid [OF assms(1,2)]
  then have fv': "?p = length (sb_bytes b)" "?p + 5 \<le> length ?B" "?B ! ?p = 0xE9" "site_Relocations site = sb_relocations b"
    "length ?B = stub_size b"
    by (simp_all add: site_body_def)
  have ap: "ApplyStubRelocations ?B (site_Relocations site) (site_Address site) vaddr off = Inr ?c"
    using ApplyStubRelocations_append [OF assms(4), of "drop ?p ?B"] by simp
  have "sorted_wrt relocation_before (site_Relocations site)" using assms(1) fv'(4) by (simp add: builder_wf_def)
  from ApplyStubRelocations_fields [OF ap this] have lc: "length ?c = length ?B" by blast
  then have lcode: "length code = ?p" using fv'(2) by simp
  have link: "linked b (site_Address site) vaddr ?c"
    using stub_linked [of b "site_body site"] assms(1-3) ap fv'(4,5) by (simp add: site_body_def)
  show "linked b (site_Address site) vaddr stub"
    unfolding assms(5) fv'(1) using linked_write [OF link assms(1)] lc fv'(1,2) by simp
  show len: "length stub = length ?B" unfolding assms(5) using lc fv'(2) by simp
  have "stub ! ?p = ?c ! ?p" unfolding assms(5) using lc fv'(2) by (simp add: nth_write_bytes)
  also have "\<dots> = 0xE9" using lcode fv'(2,3) by (simp add: nth_append)
  finally show "stub ! ?p = 0xE9" .
  show "read_s32 stub (?p + 1) = Inr d"
    unfolding assms(5) using lc fv'(2) assms(6) by (intro read_s32_write_same) (simp_all add: inRange_def)
  show "?p + 5 \<le> length ?B" by (rule fv'(2))
qed

lemma appendTrampoline_steps:
  assumes "appendTrampoline vaddrOf extra site buf = Inr buf'" "stub_of (site_body site)" "length (site_Body site) < 2 ^ 31"
  obtains b stub vaddr d j where "builder_wf b" "sb_stackDepth b = 0" "Finish b = Inr (site_body site)"
    "valid_site site" "unat (site_Offset site) + site_Length site \<le> extra"
    "vaddrOf (of_nat (length (pad_trap buf))) = Inr vaddr"
    "length stub = length (site_Body site)" "linked b (site_Address site) vaddr stub"
    "stub ! site_ReturnBranchOffset site = 0xE9" "read_s32 stub (site_ReturnBranchOffset site + 1) = Inr d"
    "d = sint (site_Address site + of_nat (site_Length site)) - sint (vaddr + of_nat (site_ReturnBranchOffset site + 5))"
    "inRange j" "j = sint vaddr - sint (site_Address site + 5)"
    "patch_site site j (pad_trap buf @ stub) = Inr buf'"
proof -
  let ?p = "site_ReturnBranchOffset site"
  from assms(2) obtain b where b: "builder_wf b" "sb_stackDepth b = 0" "Finish b = Inr (site_body site)"
    by (auto simp: stub_of_def)
  from assms(1) have v: "valid_site site" "unat (site_Offset site) + site_Length site \<le> extra"
    by (auto simp: appendTrampoline_def Let_def split: if_split_asm)
  from assms(1) obtain vaddr code buf1 where s:
    "vaddrOf (of_nat (length (pad_trap buf))) = Inr vaddr"
    "ApplyStubRelocations (take ?p (site_Body site)) (site_Relocations site) (site_Address site) vaddr (site_Offset site) = Inr code"
    "inRange (sint (site_Address site + of_nat (site_Length site)) - sint (vaddr + of_nat (?p + 5)))"
    "inRange (sint vaddr - sint (site_Address site + of_nat 5))"
    "WriteU32 (pad_trap buf @ code @ drop ?p (site_Body site)) (length (pad_trap buf) + ?p + 1)
       (word_of_int (sint (site_Address site + of_nat (site_Length site)) - sint (vaddr + of_nat (?p + 5)))) = Inr buf1"
    "patch_site site (sint vaddr - sint (site_Address site + of_nat 5)) buf1 = Inr buf'"
    unfolding appendTrampoline_def Let_def Size_kJmpRel32
    by (auto simp: bindE_eq_Inr simp del: of_nat_add split: if_split_asm)
  let ?d = "sint (site_Address site + of_nat (site_Length site)) - sint (vaddr + of_nat (?p + 5))"
  let ?stub = "write_bytes (code @ drop ?p (site_Body site)) (?p + 1) (le32_bytes (word_of_int ?d))"
  note st = appended_stub [OF b(1,3) assms(3) s(2) refl s(3)]
  have "buf1 = pad_trap buf @ ?stub"
    using s(5) write_behind [OF refl, of "pad_trap buf" "code @ drop ?p (site_Body site)" "?p + 1"
        "le32_bytes (word_of_int ?d)"]
    unfolding WriteU32_Inr add.assoc by (elim conjE) (rule trans)
  with s(6) have "patch_site site (sint vaddr - sint (site_Address site + 5)) (pad_trap buf @ ?stub) = Inr buf'" by simp
  then show thesis
    using that [OF b v s(1) st(1-4) refl _ refl] s(4) by simp
qed


theorem appendTrampoline_linked:
  assumes "appendTrampoline vaddrOf extra site buf = Inr buf'" "stub_of (site_body site)" "length (site_Body site) < 2 ^ 31"
    and "extra \<le> length buf"
  shows "\<exists>pos vaddr. length buf \<le> pos \<and> pos mod 16 = 0 \<and> vaddrOf (of_nat pos) = Inr vaddr \<and>
    trampoline_linked site pos vaddr buf' \<and> length buf' = pos + length (site_Body site) \<and> valid_site site \<and>
    unat (site_Offset site) + site_Length site \<le> extra \<and>
    (\<forall>i < length buf. i < unat (site_Offset site) \<or> unat (site_Offset site) + site_Length site \<le> i \<longrightarrow> buf' ! i = buf ! i)"
proof -
  let ?o = "unat (site_Offset site)" and ?n = "site_Length site" and ?p = "site_ReturnBranchOffset site"
  let ?pos = "length (pad_trap buf)"
  obtain b stub vaddr d j where b: "builder_wf b" "sb_stackDepth b = 0" "Finish b = Inr (site_body site)"
    and v: "valid_site site" "?o + ?n \<le> extra"
    and va: "vaddrOf (of_nat ?pos) = Inr vaddr"
    and stub: "length stub = length (site_Body site)" "linked b (site_Address site) vaddr stub"
      "stub ! ?p = 0xE9" "read_s32 stub (?p + 1) = Inr d"
    and d: "d = sint (site_Address site + of_nat ?n) - sint (vaddr + of_nat (?p + 5))"
    and j: "inRange j" "j = sint vaddr - sint (site_Address site + 5)"
    and out: "patch_site site j (pad_trap buf @ stub) = Inr buf'"
    by (rule appendTrampoline_steps [OF assms(1-3)])
  obtain k where pad: "pad_trap buf = buf @ replicate k kTrapFill" "(length buf + k) mod 16 = 0"
    using pad_trap [of buf] by (elim exE conjE) (rule that)
  have n: "5 \<le> ?n" "?p + 5 \<le> length (site_Body site)" using v(1) by (auto simp: valid_site_def)
  have fit: "?o + ?n \<le> length buf" using v(2) assms(4) by simp
  then have "?o + ?n \<le> length (pad_trap buf @ stub)" by (simp add: pad)
  note ps = patch_site [OF out this n(1) j(1)]
  have low: "i < ?o + ?n \<Longrightarrow> i < length buf" for i using fit by simp
  have keep: "buf' ! i = buf ! i" if "i < length buf" "i < ?o \<or> ?o + ?n \<le> i" for i
    using ps(5) that by (auto simp: pad nth_append)
  have "buf' ! i = (pad_trap buf @ stub) ! i" if "?pos \<le> i" "i < ?pos + length stub" for i
    using ps(5) that fit by (simp add: pad)
  then have tail: "drop ?pos buf' = stub"
    using ps(1) by (intro nth_equalityI) simp_all
  have ret: "jump_at buf' (?pos + ?p) (vaddr + of_nat ?p) (site_Address site + of_nat ?n)"
  proof -
    have "read_s32 buf' (?pos + ?p + 1) = read_s32 (drop ?pos buf') (?p + 1)"
      using ps(1) n(2) stub(1) by (simp add: read_s32_def read_le32_def ac_simps)
    moreover have "buf' ! (?pos + ?p) = drop ?pos buf' ! ?p" using ps(1) by simp
    moreover have "vaddr + of_nat ?p + 5 = vaddr + of_nat (?p + 5)" by simp
    then have "vaddr + of_nat ?p + 5 + word_of_int d = site_Address site + of_nat ?n" unfolding d by simp
    moreover have "?pos + ?p + 5 \<le> length buf'" using ps(1) stub(1) n(2) by simp
    ultimately show ?thesis unfolding jump_at_def tail stub(3,4) by (intro conjI exI [of _ d]) simp_all
  qed
  have len: "length buf' = ?pos + length (site_Body site)" using ps(1) stub(1) by simp
  have front: "length buf \<le> ?pos" unfolding pad by simp
  have jump: "jump_at buf' ?o (site_Address site) vaddr"
    unfolding jump_at_def using ps(2,3) len front fit n(1) displacement_leads(1) [of "site_Address site" vaddr] j(2)
    by (intro conjI exI [of _ j]) simp_all
  have "take (length (site_Body site)) stub = stub" using stub(1) by simp
  then have "trampoline_linked site ?pos vaddr buf'"
    unfolding trampoline_linked_def tail using b stub(2) ret jump ps(4) len front fit
    by (intro conjI exI [of _ b]) simp_all
  moreover have "?pos mod 16 = 0" using pad by simp
  ultimately show ?thesis using va v keep len front by (intro exI [of _ ?pos] exI [of _ vaddr] conjI) simp_all
qed

text \<open>The sites do not overlap.\<close>

definition disjoint_sites :: "TrampolineSite \<Rightarrow> TrampolineSite \<Rightarrow> bool" where
  "disjoint_sites s t \<longleftrightarrow> unat (site_Offset s) + site_Length s \<le> unat (site_Offset t) \<or>
     unat (site_Offset t) + site_Length t \<le> unat (site_Offset s)"

definition inside_site :: "TrampolineSite \<Rightarrow> nat \<Rightarrow> bool" where
  "inside_site s i \<longleftrightarrow> unat (site_Offset s) \<le> i \<and> i < unat (site_Offset s) + site_Length s"

lemma append_trampolines_within:
  "append_trampolines vaddrOf extra sites buf = Inr buf' \<Longrightarrow> t \<in> set sites \<Longrightarrow>
    unat (site_Offset t) + site_Length t \<le> extra"
proof (induction sites arbitrary: buf)
  case (Cons s sites)
  then show ?case
    by (auto simp: bindE_eq_Inr appendTrampoline_def Let_def split: if_split_asm)
qed simp

theorem append_trampolines_linked:
  assumes "append_trampolines vaddrOf extra sites buf = Inr buf'" "extra \<le> length buf"
    and "\<forall>s \<in> set sites. stub_of (site_body s) \<and> length (site_Body s) < 2 ^ 31" "sorted_wrt disjoint_sites sites"
  shows "length buf \<le> length buf' \<and>
    (\<forall>s \<in> set sites. \<exists>pos vaddr. length buf \<le> pos \<and> pos mod 16 = 0 \<and> vaddrOf (of_nat pos) = Inr vaddr \<and>
       trampoline_linked s pos vaddr buf') \<and>
    (\<forall>i < length buf. (\<forall>s \<in> set sites. \<not> inside_site s i) \<longrightarrow> buf' ! i = buf ! i)"
  using assms
proof (induction sites arbitrary: buf)
  case (Cons s sites)
  from Cons.prems(1) obtain buf1 where buf1: "appendTrampoline vaddrOf extra s buf = Inr buf1"
    "append_trampolines vaddrOf extra sites buf1 = Inr buf'" by (auto simp: bindE_eq_Inr)
  from Cons.prems(3) have s: "stub_of (site_body s)" "length (site_Body s) < 2 ^ 31" by simp_all
  from appendTrampoline_linked [OF buf1(1) s Cons.prems(2)] obtain pos vaddr where one:
    "length buf \<le> pos" "pos mod 16 = 0" "vaddrOf (of_nat pos) = Inr vaddr" "trampoline_linked s pos vaddr buf1"
    "length buf1 = pos + length (site_Body s)" "valid_site s" "unat (site_Offset s) + site_Length s \<le> extra"
    "\<forall>i < length buf. i < unat (site_Offset s) \<or> unat (site_Offset s) + site_Length s \<le> i \<longrightarrow> buf1 ! i = buf ! i"
    by (elim exE conjE) (rule that)
  have len: "length buf \<le> length buf1" "extra \<le> length buf1" using one(1,5) Cons.prems(2) by simp_all
  from Cons.IH [OF buf1(2) len(2)] Cons.prems(3,4) have IH: "length buf1 \<le> length buf'"
    "\<forall>t \<in> set sites. \<exists>pos vaddr. length buf1 \<le> pos \<and> pos mod 16 = 0 \<and> vaddrOf (of_nat pos) = Inr vaddr \<and>
       trampoline_linked t pos vaddr buf'"
    "\<forall>i < length buf1. (\<forall>t \<in> set sites. \<not> inside_site t i) \<longrightarrow> buf' ! i = buf1 ! i" by simp_all
  have within: "unat (site_Offset t) + site_Length t \<le> extra" if "t \<in> set sites" for t
    using append_trampolines_within buf1(2) that by blast
  have "agree buf1 buf' (unat (site_Offset s)) (unat (site_Offset s) + site_Length s)"
  proof -
    have "\<not> inside_site t i" if "t \<in> set sites" "inside_site s i" for t i
      using that Cons.prems(4) by (auto simp: inside_site_def disjoint_sites_def)
    then show ?thesis unfolding agree_def using IH(1,3) len(2) one(7) by (auto simp: inside_site_def)
  qed
  moreover have "agree buf1 buf' pos (pos + length (site_Body s))"
  proof -
    have "\<not> inside_site t i" if "t \<in> set sites" "pos \<le> i" for t i
      using within [OF that(1)] that(2) one(1) Cons.prems(2) by (auto simp: inside_site_def)
    then show ?thesis unfolding agree_def using IH(1,3) one(5) by auto
  qed
  ultimately have new: "trampoline_linked s pos vaddr buf'"
    using trampoline_linked_agree [OF one(4,6)] by blast
  have old: "\<exists>pos vaddr. length buf \<le> pos \<and> pos mod 16 = 0 \<and> vaddrOf (of_nat pos) = Inr vaddr \<and>
       trampoline_linked t pos vaddr buf'" if "t \<in> set sites" for t
  proof -
    from bspec [OF IH(2) that] obtain p v where "length buf1 \<le> p" "p mod 16 = 0" "vaddrOf (of_nat p) = Inr v"
      "trampoline_linked t p v buf'" by (elim exE conjE) (rule that)
    with len(1) show ?thesis by (intro exI [of _ p] exI [of _ v]) simp
  qed
  have kept: "buf' ! i = buf ! i" if "i < length buf" "\<forall>t \<in> set (s # sites). \<not> inside_site t i" for i
  proof -
    have "buf1 ! i = buf ! i" using one(8) that by (auto simp: inside_site_def)
    moreover have "buf' ! i = buf1 ! i" using IH(3) that len(1) by simp
    ultimately show ?thesis by simp
  qed
  show ?case
  proof (intro conjI ballI allI impI)
    show "length buf \<le> length buf'" using IH(1) len(1) by simp
  next
    fix t assume "t \<in> set (s # sites)"
    then consider "t = s" | "t \<in> set sites" by auto
    then show "\<exists>pos vaddr. length buf \<le> pos \<and> pos mod 16 = 0 \<and> vaddrOf (of_nat pos) = Inr vaddr \<and>
        trampoline_linked t pos vaddr buf'"
    proof cases
      case 1
      with new one(1-3) show ?thesis by (intro exI [of _ pos] exI [of _ vaddr]) simp
    qed (rule old)
  next
    fix i assume "i < length buf" "\<forall>t \<in> set (s # sites). \<not> inside_site t i"
    then show "buf' ! i = buf ! i" by (rule kept)
  qed
qed simp

end
