(* ===== verification/Relinking.thy ===== *)
theory Relinking
  imports Trampoline_Linking
begin

text \<open>
  From the conversion of a whole file to the linked image: the sites \<open>Convert\<close> returns on the Intel target are
  disjoint, hold the bytes they were made from and carry well-formed stubs, so that appending the stubs links
  every one of them.
\<close>

subsection \<open>The Intel matcher\<close>

interpretation intel: windowless_matcher "MakeAmd64OnlyInstructionMatcher Intel"
proof
  fix data trailing x
  assume "im_Match (MakeAmd64OnlyInstructionMatcher Intel) data trailing = Inr (Some x)"
  with window_Match [of Intel data trailing] show "\<not> RelocatableWindow x"
    by (simp add: MakeAmd64OnlyInstructionMatcher_def window_ok_def)
qed

subsection \<open>The sites of a file\<close>

definition site_end :: "TrampolineSite \<Rightarrow> nat" where
  "site_end s = unat (site_Offset s) + site_Length s"

definition site_ok :: "u8 list \<Rightarrow> TrampolineSite \<Rightarrow> bool" where
  "site_ok bytes s \<longleftrightarrow> stub_of (site_body s) \<and> 5 \<le> site_Length s \<and> site_end s \<le> length bytes \<and>
     OriginalBytes s = take (site_Length s) (drop (unat (site_Offset s)) bytes)"

text \<open>The site lies in the bytes of the segment, and its address is the one at which the segment maps them.\<close>

definition site_within :: "ProgramHeader \<Rightarrow> TrampolineSite \<Rightarrow> bool" where
  "site_within ph s \<longleftrightarrow> unat (ph_Offset ph) \<le> unat (site_Offset s) \<and>
     site_end s \<le> unat (ph_Offset ph) + unat (ph_FileSize ph) \<and>
     site_Address s = ph_MappedAddress ph + (site_Offset s - ph_Offset ph)"

definition segments_apart :: "ProgramHeader \<Rightarrow> ProgramHeader \<Rightarrow> bool" where
  "segments_apart p q \<longleftrightarrow> unat (ph_Offset p) + unat (ph_FileSize p) \<le> unat (ph_Offset q) \<or>
     unat (ph_Offset q) + unat (ph_FileSize q) \<le> unat (ph_Offset p)"

context instruction_matcher
begin

lemma spans_site:
  assumes "spans m ph ms (take (unat (ph_FileSize ph)) (drop (unat (ph_Offset ph)) bytes)) (a, b) s"
    and "tiles decode 0 seg ms" "length seg = unat (ph_FileSize ph)"
    and "unat (ph_Offset ph) + unat (ph_FileSize ph) \<le> length bytes" "length bytes < 2 ^ 64"
  shows "unat (site_Offset s) = unat (ph_Offset ph) + start_of ms a" "site_end s = unat (ph_Offset ph) + start_of ms b"
    "site_ok bytes s" "site_within ph s"
proof -
  let ?o = "unat (ph_Offset ph)" and ?n = "unat (ph_FileSize ph)"
  from assms(1) have s: "a < b" "b \<le> length ms" "site_Offset s = ph_Offset ph + of_nat (start_of ms a)"
      "site_Address s = ph_MappedAddress ph + of_nat (start_of ms a)"
      "site_Length s = start_of ms b - start_of ms a" "5 \<le> site_Length s"
      "OriginalBytes s = take (site_Length s) (drop (start_of ms a) (take ?n (drop ?o bytes)))"
      "lowers m (OriginalBytes s) (site_body s)"
    unfolding spans_def prod.case by blast+
  have le: "start_of ms a \<le> start_of ms b" "start_of ms b \<le> ?n"
    using s(1) x64.tiles_start_le [OF assms(2), of b] assms(3) by (simp_all add: start_of_mono)
  then have "?o + start_of ms a < 2 ^ 64" using assms(4,5) by linarith
  then show off: "unat (site_Offset s) = ?o + start_of ms a"
    unfolding s(3) by (simp add: unat_word_ariths take_bit_nat_eq_self unat_of_nat)
  show fin: "site_end s = ?o + start_of ms b" unfolding site_end_def off s(5) using le by simp
  have "OriginalBytes s = take (site_Length s) (drop (unat (site_Offset s)) bytes)"
    unfolding s(7) off using le s(5) by (simp add: drop_take min_def add.commute)
  then show "site_ok bytes s"
    unfolding site_ok_def fin using lowers_stub [OF s(8)] s(6) le assms(4) by simp
  show "site_within ph s" unfolding site_within_def fin off using le s(3,4) by simp
qed

lemma segment_sites_ok:
  assumes "segment_sites m ph seg (take (unat (ph_FileSize ph)) (drop (unat (ph_Offset ph)) bytes)) new"
    and "unat (ph_Offset ph) + unat (ph_FileSize ph) \<le> length bytes" "length bytes < 2 ^ 64"
  shows "(\<forall>s \<in> set new. site_ok bytes s \<and> site_within ph s) \<and> sorted_wrt disjoint_sites new"
proof -
  let ?seg = "take (unat (ph_FileSize ph)) (drop (unat (ph_Offset ph)) bytes)"
  from assms(1) obtain ms rs where seg: "length seg = unat (ph_FileSize ph)" "tiles decode 0 seg ms"
    and all: "list_all2 (spans m ph ms ?seg) rs new" and sorted: "sorted_wrt (\<lambda>r r'. snd r \<le> fst r') rs"
    using assms(2) by (auto simp: segment_sites_def)
  note site = spans_site [OF _ seg(2,1) assms(2,3)]
  from all have nth: "length new = length rs" "spans m ph ms ?seg (fst (rs ! k), snd (rs ! k)) (new ! k)" if "k < length rs" for k
    using that by (simp_all add: list_all2_conv_all_nth)
  have len: "length new = length rs" using all by (simp add: list_all2_lengthD)
  have "sorted_wrt disjoint_sites new"
    unfolding sorted_wrt_iff_nth_less
  proof (intro allI impI)
    fix i j assume ij: "i < j" "j < length new"
    then have k: "i < length rs" "j < length rs" using len by simp_all
    have "snd (rs ! i) \<le> fst (rs ! j)" using sorted ij k by (auto simp: sorted_wrt_iff_nth_less)
    then have "start_of ms (snd (rs ! i)) \<le> start_of ms (fst (rs ! j))" by (rule start_of_mono)
    then show "disjoint_sites (new ! i) (new ! j)"
      using site(1,2) [OF nth(2) [OF k(1)]] site(1,2) [OF nth(2) [OF k(2)]]
      unfolding disjoint_sites_def site_end_def by simp
  qed
  moreover have "site_ok bytes s \<and> site_within ph s" if "s \<in> set new" for s
  proof -
    from that obtain k where "k < length rs" "s = new ! k" by (auto simp: in_set_conv_nth len)
    then show ?thesis using site(3,4) [OF nth(2)] by blast
  qed
  ultimately show ?thesis by blast
qed

end

lemma site_ok_agree:
  assumes "site_ok bytes s" "length bytes' = length bytes"
    "\<forall>i < length bytes. unat (site_Offset s) \<le> i \<and> i < site_end s \<longrightarrow> bytes' ! i = bytes ! i"
  shows "site_ok bytes' s"
proof -
  have "take (site_Length s) (drop (unat (site_Offset s)) bytes') = take (site_Length s) (drop (unat (site_Offset s)) bytes)"
    using assms by (intro nth_equalityI) (auto simp: site_ok_def site_end_def)
  then show ?thesis using assms(1,2) by (simp add: site_ok_def)
qed

lemma within_apart:
  assumes "site_within p s" "site_within q t" "segments_apart p q"
  shows "disjoint_sites s t"
  using assms by (auto simp: site_within_def segments_apart_def disjoint_sites_def site_end_def)

context windowless_matcher
begin

lemma convert_segments:
  assumes "convert_segments m segments phs (bytes, result) = Inr (bytes', result')" "length bytes < 2 ^ 64"
    and "sorted_wrt segments_apart (filter executable_load phs)"
  shows "length bytes' = length bytes \<and> (\<exists>new. Trampolines result' = Trampolines result @ new \<and>
    (\<forall>s \<in> set new. site_ok bytes' s \<and> (\<exists>ph \<in> set (filter executable_load phs). site_within ph s)) \<and>
    sorted_wrt disjoint_sites new) \<and>
    (\<forall>i < length bytes. (\<forall>ph \<in> set (filter executable_load phs).
       i < unat (ph_Offset ph) \<or> unat (ph_Offset ph) + unat (ph_FileSize ph) \<le> i) \<longrightarrow> bytes' ! i = bytes ! i)"
  using assms
proof (induction phs arbitrary: bytes result)
  case Nil
  then show ?case by simp
next
  case (Cons ph phs)
  show ?case
  proof (cases "executable_load ph")
    case False
    with Cons show ?thesis by simp
  next
    case True
    with Cons.prems(1) obtain bytes1 result1 where step: "convertSegment m segments ph (bytes, result) = Inr (bytes1, result1)"
      and rest: "convert_segments m segments phs (bytes1, result1) = Inr (bytes', result')"
      by (auto simp: bindE_eq_Inr)
    from convertSegment [OF step Cons.prems(2)] obtain new1 where one: "Trampolines result1 = Trampolines result @ new1"
      "segment_sites m ph (take (unat (ph_FileSize ph)) (drop (unat (ph_Offset ph)) bytes))
        (take (unat (ph_FileSize ph)) (drop (unat (ph_Offset ph)) bytes1)) new1"
      "length bytes1 = length bytes" "unat (ph_Offset ph) + unat (ph_FileSize ph) \<le> length bytes"
      "\<forall>i < length bytes. i < unat (ph_Offset ph) \<or> unat (ph_Offset ph) + unat (ph_FileSize ph) \<le> i \<longrightarrow> bytes1 ! i = bytes ! i"
      by (elim exE conjE) (rule that)
    have apart: "\<forall>q \<in> set (filter executable_load phs). segments_apart ph q"
      "sorted_wrt segments_apart (filter executable_load phs)" using Cons.prems(3) True by simp_all
    from segment_sites_ok [OF one(2)] one(3,4) Cons.prems(2) have ok1: "\<forall>s \<in> set new1. site_ok bytes1 s \<and> site_within ph s"
      "sorted_wrt disjoint_sites new1" by simp_all
    from Cons.IH [OF rest _ apart(2)] one(3) Cons.prems(2) obtain new2 where IH: "length bytes' = length bytes1"
      "Trampolines result' = Trampolines result1 @ new2"
      "\<forall>s \<in> set new2. site_ok bytes' s \<and> (\<exists>ph \<in> set (filter executable_load phs). site_within ph s)"
      "sorted_wrt disjoint_sites new2"
      "\<forall>i < length bytes1. (\<forall>ph \<in> set (filter executable_load phs).
       i < unat (ph_Offset ph) \<or> unat (ph_Offset ph) + unat (ph_FileSize ph) \<le> i) \<longrightarrow> bytes' ! i = bytes1 ! i"
      by auto
    have kept: "site_ok bytes' s" if "s \<in> set new1" for s
    proof (rule site_ok_agree [OF _ IH(1)])
      show "site_ok bytes1 s" using ok1(1) that by blast
      have w: "site_within ph s" using ok1(1) that by blast
      show "\<forall>i < length bytes1. unat (site_Offset s) \<le> i \<and> i < site_end s \<longrightarrow> bytes' ! i = bytes1 ! i"
      proof (intro allI impI)
        fix i assume i: "i < length bytes1" "unat (site_Offset s) \<le> i \<and> i < site_end s"
        have "i < unat (ph_Offset q) \<or> unat (ph_Offset q) + unat (ph_FileSize q) \<le> i"
          if "q \<in> set (filter executable_load phs)" for q
          using bspec [OF apart(1) that] w i(2) by (auto simp: segments_apart_def site_within_def)
        with IH(5) i(1) show "bytes' ! i = bytes1 ! i" by blast
      qed
    qed
    have cross: "disjoint_sites s t" if "s \<in> set new1" "t \<in> set new2" for s t
      using that ok1(1) IH(3) apart(1) within_apart by blast
    show ?thesis
    proof (intro conjI exI [of _ "new1 @ new2"] ballI allI impI)
      show "length bytes' = length bytes" using IH(1) one(3) by simp
      show "Trampolines result' = Trampolines result @ new1 @ new2" using IH(2) one(1) by simp
      show "sorted_wrt disjoint_sites (new1 @ new2)" using ok1(2) IH(4) cross by (simp add: sorted_wrt_append)
    next
      fix s assume "s \<in> set (new1 @ new2)"
      then consider "s \<in> set new1" | "s \<in> set new2" by auto
      then show "site_ok bytes' s" using kept IH(3) by cases blast+
      show "\<exists>ph \<in> set (filter executable_load (ph # phs)). site_within ph s"
        using \<open>s \<in> set (new1 @ new2)\<close> ok1(1) IH(3) True by auto
    next
      fix i assume "i < length bytes" "\<forall>q \<in> set (filter executable_load (ph # phs)).
        i < unat (ph_Offset q) \<or> unat (ph_Offset q) + unat (ph_FileSize q) \<le> i"
      then show "bytes' ! i = bytes ! i" using IH(5) one(3,5) True by auto
    qed
  qed
qed

end


subsection \<open>The whole file\<close>

text \<open>C3. On the Intel target the conversion of a file keeps its length and every byte outside the executable load
  segments, and its sites are disjoint, lie in those segments at the addresses these are mapped to, hold the bytes they
  replace and have well-formed stubs.\<close>

theorem Convert_Intel_sites:
  assumes "Convert (MakeAmd64OnlyInstructionMatcher Intel) bytes segments = Inr result" "length bytes < 2 ^ 64"
    and "sorted_wrt segments_apart (filter executable_load segments)"
  shows "length (conv_Bytes result) = length bytes \<and> sorted_wrt disjoint_sites (Trampolines result) \<and>
    (\<forall>s \<in> set (Trampolines result). site_ok (conv_Bytes result) s \<and>
       (\<exists>ph \<in> set segments. executable_load ph \<and> site_within ph s)) \<and>
    (\<forall>i < length bytes. (\<forall>ph \<in> set segments. executable_load ph \<longrightarrow>
       i < unat (ph_Offset ph) \<or> unat (ph_Offset ph) + unat (ph_FileSize ph) \<le> i) \<longrightarrow> conv_Bytes result ! i = bytes ! i)"
proof -
  from assms(1) obtain bytes' result' where
    "convert_segments (MakeAmd64OnlyInstructionMatcher Intel) segments segments (bytes, empty_result) = Inr (bytes', result')"
    "result = result'\<lparr>conv_Bytes := bytes'\<rparr>"
    by (auto simp: Convert_def bindE_eq_Inr)
  with intel.convert_segments [OF this(1) assms(2,3)] show ?thesis by (auto simp: empty_result_def)
qed


subsection \<open>Failures of the linker\<close>

text \<open>What may stop the linking of a well-formed site: an address or a displacement out of range.\<close>

definition range_failure :: "(u64 \<Rightarrow> u64 patch_result) \<Rightarrow> patch_failure \<Rightarrow> bool" where
  "range_failure vaddrOf e \<longleftrightarrow>
     (\<exists>off. e = RelinkerException ''AMD-only stub exceeds rel32 range'' off) \<or>
     (\<exists>off. e = CodegenFailure (CodegenException ''RIP-relative operand is out of rel32 range from its stub'' off)) \<or>
     (\<exists>pos. vaddrOf pos = Inl e)"

lemma ApplyStubRelocations_error:
  "ApplyStubRelocations body rs site stub off = Inl e \<Longrightarrow> \<forall>r \<in> set rs. relocation_in 0 (length body) r \<Longrightarrow>
    e = CodegenException ''RIP-relative operand is out of rel32 range from its stub'' off"
proof (induction rs arbitrary: body)
  case (Cons r rs)
  let ?b = "write_bytes body (DisplacementOffset r) (le32_bytes (word_of_int (relocation_value site stub r)))"
  from Cons.prems(2) have r: "\<not> length body < InstructionEnd r" "\<not> InstructionEnd r < DisplacementOffset r"
    "\<not> InstructionEnd r - DisplacementOffset r < Disp32Size" "length ?b = length body"
    by (auto simp: relocation_in_def)
  show ?case
  proof (cases "relocation_value site stub r < - (2 ^ 31) \<or> 2 ^ 31 - 1 < relocation_value site stub r")
    case True
    with Cons.prems(1) r(1-3) show ?thesis by (simp add: Let_def)
  next
    case False
    with Cons.prems(1) r(1-3) have "ApplyStubRelocations ?b rs site stub off = Inl e" by (simp add: Let_def)
    moreover have "\<forall>r \<in> set rs. relocation_in 0 (length ?b) r" using Cons.prems(2) r(4) by simp
    ultimately show ?thesis by (rule Cons.IH)
  qed
qed simp

lemma ApplyStubRelocations_length:
  "ApplyStubRelocations body rs site stub off = Inr body' \<Longrightarrow> length body' = length body"
proof (induction rs arbitrary: body)
  case (Cons r rs)
  from Cons.prems have r: "DisplacementOffset r + 4 \<le> length body"
    "ApplyStubRelocations (write_bytes body (DisplacementOffset r) (le32_bytes (word_of_int (relocation_value site stub r))))
       rs site stub off = Inr body'"
    by (auto simp: Let_def not_less split: if_splits)
  from Cons.IH [OF r(2)] r(1) show ?case by simp
qed simp

lemma patch_site_Inr:
  "valid_site site \<Longrightarrow> site_end site \<le> length buf \<Longrightarrow> \<exists>buf'. patch_site site d buf = Inr buf'"
  by (auto simp: patch_site_def Let_def WriteU32_Inr site_end_def valid_site_def)

lemma appendTrampoline_error:
  assumes "appendTrampoline vaddrOf extra site buf = Inl e" "stub_of (site_body site)" "5 \<le> site_Length site"
    and "site_end site \<le> extra" "extra \<le> length buf"
    and "OriginalBytes site = take (site_Length site) (drop (unat (site_Offset site)) buf)"
  shows "range_failure vaddrOf e"
proof -
  let ?p = "site_ReturnBranchOffset site" and ?B = "site_Body site" and ?pos = "length (pad_trap buf)"
  have "length (OriginalBytes site) = site_Length site" using assms(4-6) by (simp add: site_end_def)
  with stub_valid [OF assms(2,3)] have valid: "valid_site site" .
  from assms(2) obtain b where b: "builder_wf b" "Finish b = Inr (site_body site)" by (auto simp: stub_of_def)
  from Finish_valid [OF b] have fv: "?p = length (sb_bytes b)" "?p + 5 \<le> length ?B" "site_Relocations site = sb_relocations b"
    by (simp_all add: site_body_def)
  have rel: "\<forall>r \<in> set (site_Relocations site). relocation_in 0 (length (take ?p ?B)) r"
    using b(1) fv by (simp add: builder_wf_def)
  have guards: "\<not> (extra < unat (site_Offset site) \<or> extra - unat (site_Offset site) < site_Length site)"
    using assms(4) by (auto simp: site_end_def)
  show ?thesis
  proof (cases "vaddrOf (of_nat ?pos)")
    case (Inl f)
    with assms(1,6) valid guards have "e = f" unfolding appendTrampoline_def Let_def by simp
    with Inl show ?thesis unfolding range_failure_def by blast
  next
    case (Inr vaddr)
    show ?thesis
    proof (cases "ApplyStubRelocations (take ?p ?B) (site_Relocations site) (site_Address site) vaddr (site_Offset site)")
      case (Inl f)
      from ApplyStubRelocations_error [OF Inl rel] Inl Inr assms(1,6) valid guards show ?thesis
        unfolding appendTrampoline_def Let_def by (auto simp: from_codegen_def range_failure_def)
    next
      case (Inr code)
      let ?r = "sint (site_Address site + of_nat (site_Length site)) - sint (vaddr + of_nat (?p + Size kJmpRel32))"
      let ?j = "sint vaddr - sint (site_Address site + of_nat (Size kJmpRel32))"
      let ?app = "pad_trap buf @ code @ drop ?p ?B"
      have lcode: "length code = ?p" using ApplyStubRelocations_length [OF Inr] fv(2) by simp
      have pad: "length buf \<le> ?pos" using pad_trap [of buf] by auto
      have "?pos + ?p + 1 + 4 \<le> length ?app" using lcode fv(2) by simp
      then have w: "WriteU32 ?app (?pos + ?p + 1) (word_of_int ?r) = Inr (write_bytes ?app (?pos + ?p + 1) (le32_bytes (word_of_int ?r)))"
        unfolding WriteU32_Inr by blast
      have "site_end site \<le> length (write_bytes ?app (?pos + ?p + 1) (le32_bytes (word_of_int ?r)))"
        using assms(4,5) pad lcode fv(2) by simp
      from patch_site_Inr [OF valid this] obtain out where
        out: "patch_site site ?j (write_bytes ?app (?pos + ?p + 1) (le32_bytes (word_of_int ?r))) = Inr out" by blast
      show ?thesis
      proof (cases "\<not> inRange ?r \<or> \<not> inRange ?j")
        case True
        have "e = RelinkerException ''AMD-only stub exceeds rel32 range'' (site_Offset site)"
          using assms(1) valid guards assms(6) \<open>vaddrOf _ = Inr vaddr\<close> Inr True
          unfolding appendTrampoline_def Let_def by (simp add: from_codegen_def del: of_nat_add)
        then show ?thesis unfolding range_failure_def by blast
      next
        case False
        then have "appendTrampoline vaddrOf extra site buf = Inr out"
          using valid guards assms(6) \<open>vaddrOf _ = Inr vaddr\<close> Inr w out
          unfolding appendTrampoline_def Let_def by (simp add: from_codegen_def del: of_nat_add)
        with assms(1) show ?thesis by simp
      qed
    qed
  qed
qed


lemma append_trampolines_error:
  assumes "append_trampolines vaddrOf extra sites buf = Inl e" "sorted_wrt disjoint_sites sites" "extra \<le> length buf"
    and "\<forall>s \<in> set sites. site_ok (take extra buf) s \<and> length (site_Body s) < 2 ^ 31"
  shows "range_failure vaddrOf e"
  using assms
proof (induction sites arbitrary: buf)
  case (Cons s sites)
  let ?o = "unat (site_Offset s)"
  from Cons.prems(3,4) have s: "stub_of (site_body s)" "5 \<le> site_Length s" "site_end s \<le> extra"
    "OriginalBytes s = take (site_Length s) (drop ?o (take extra buf))" "length (site_Body s) < 2 ^ 31"
    by (simp_all add: site_ok_def)
  then have bytes: "OriginalBytes s = take (site_Length s) (drop ?o buf)" by (simp add: site_end_def drop_take min_def)
  show ?case
  proof (cases "appendTrampoline vaddrOf extra s buf")
    case (Inl f)
    with Cons.prems(1) have "f = e" by simp
    with appendTrampoline_error [OF Inl s(1-3) Cons.prems(3) bytes] show ?thesis by simp
  next
    case (Inr buf1)
    with Cons.prems(1) have rest: "append_trampolines vaddrOf extra sites buf1 = Inl e" by simp
    from appendTrampoline_linked [OF Inr s(1,5) Cons.prems(3)] obtain pos vaddr where one:
      "length buf \<le> pos" "length buf1 = pos + length (site_Body s)"
      "\<forall>i < length buf. i < ?o \<or> ?o + site_Length s \<le> i \<longrightarrow> buf1 ! i = buf ! i"
      by (elim exE conjE) (rule that)
    have len: "extra \<le> length buf1" using one(1,2) Cons.prems(3) by simp
    have "site_ok (take extra buf1) t \<and> length (site_Body t) < 2 ^ 31" if t: "t \<in> set sites" for t
    proof (intro conjI, rule site_ok_agree)
      show "site_ok (take extra buf) t" "length (site_Body t) < 2 ^ 31" using Cons.prems(4) t by simp_all
      show "length (take extra buf1) = length (take extra buf)" using len Cons.prems(3) by simp
      have "disjoint_sites s t" using Cons.prems(2) t by simp
      then show "\<forall>i < length (take extra buf). unat (site_Offset t) \<le> i \<and> i < site_end t \<longrightarrow> take extra buf1 ! i = take extra buf ! i"
        using one(3) by (auto simp: disjoint_sites_def site_end_def)
    qed
    with Cons.IH [OF rest _ len] Cons.prems(2) show ?thesis by simp
  qed
qed simp

text \<open>C2. Relinking a file for Intel: appending the stubs to a buffer that still holds the converted bytes of every
  site, every site ends up leading to its stub and back, and no other byte of the buffer changes; the linker stops at an
  address or a displacement out of range only, never at the bytes of a site.\<close>

theorem relink_Intel:
  assumes "Convert (MakeAmd64OnlyInstructionMatcher Intel) bytes segments = Inr result" "length bytes < 2 ^ 64"
    and "sorted_wrt segments_apart (filter executable_load segments)"
    and "\<forall>s \<in> set (Trampolines result). length (site_Body s) < 2 ^ 31 \<and> (\<forall>i. inside_site s i \<longrightarrow> buf ! i = conv_Bytes result ! i)"
    and "length bytes \<le> length buf"
  shows "case append_trampolines vaddrOf (length bytes) (Trampolines result) buf of
      Inl e \<Rightarrow> range_failure vaddrOf e
    | Inr out \<Rightarrow>
        (\<forall>s \<in> set (Trampolines result). \<exists>pos vaddr. length buf \<le> pos \<and> pos mod 16 = 0 \<and>
           vaddrOf (of_nat pos) = Inr vaddr \<and> trampoline_linked s pos vaddr out) \<and>
        (\<forall>i < length buf. (\<forall>s \<in> set (Trampolines result). \<not> inside_site s i) \<longrightarrow> out ! i = buf ! i)"
proof -
  from assms(1) obtain bytes' result' where c:
    "convert_segments (MakeAmd64OnlyInstructionMatcher Intel) segments segments (bytes, empty_result) = Inr (bytes', result')"
    "result = result'\<lparr>conv_Bytes := bytes'\<rparr>"
    by (auto simp: Convert_def bindE_eq_Inr)
  with intel.convert_segments [OF c(1) assms(2,3)] have r: "length (conv_Bytes result) = length bytes"
    "\<forall>s \<in> set (Trampolines result). site_ok (conv_Bytes result) s" "sorted_wrt disjoint_sites (Trampolines result)"
    by (auto simp: empty_result_def)
  have ok: "\<forall>s \<in> set (Trampolines result). site_ok (take (length bytes) buf) s \<and> length (site_Body s) < 2 ^ 31"
  proof (intro ballI conjI, rule site_ok_agree)
    fix s assume s: "s \<in> set (Trampolines result)"
    then show "site_ok (conv_Bytes result) s" "length (site_Body s) < 2 ^ 31" using r(2) assms(4) by blast+
    show "length (take (length bytes) buf) = length (conv_Bytes result)" using r(1) assms(5) by simp
    show "\<forall>i < length (conv_Bytes result). unat (site_Offset s) \<le> i \<and> i < site_end s \<longrightarrow>
        take (length bytes) buf ! i = conv_Bytes result ! i"
      using assms(4) s r(1) by (auto simp: inside_site_def site_end_def)
  qed
  show ?thesis
  proof (cases "append_trampolines vaddrOf (length bytes) (Trampolines result) buf")
    case (Inl e)
    from append_trampolines_error [OF Inl r(3) assms(5) ok] show ?thesis by (simp add: Inl)
  next
    case (Inr out)
    have "\<forall>s \<in> set (Trampolines result). stub_of (site_body s) \<and> length (site_Body s) < 2 ^ 31"
      using ok by (simp add: site_ok_def)
    from append_trampolines_linked [OF Inr assms(5) this r(3)] show ?thesis by (simp add: Inr)
  qed
qed

subsection \<open>An example\<close>

text \<open>\<open>mov eax, fs:[rdi]; rcpps xmm0, xmm1; mov rbx, rax; ret\<close>, mapped at \<open>0x1000\<close>.\<close>

definition sample_program :: "u8 list" where
  "sample_program = [0x64, 0x8B, 0x07, 0x0F, 0x53, 0xC1, 0x48, 0x89, 0xC3, 0xC3]"

definition sample_header :: "u64 \<Rightarrow> ProgramHeader" where
  "sample_header n = \<lparr>ph_Type = 1, ph_Flags = 5, ph_Offset = 0, ph_MappedAddress = 0x1000, ph_PhysicalAddress = 0,
     ph_FileSize = n, ph_MemorySize = n, ph_Alignment = 0\<rparr>"

lemma sample_converted:
  "case Convert (MakeAmd64OnlyInstructionMatcher Intel) sample_program [sample_header 10] of Inl _ \<Rightarrow> False | Inr r \<Rightarrow>
     conv_Bytes r = sample_program \<and>
     map (\<lambda>s. (site_Offset s, site_Length s, length (site_Body s))) (Trampolines r) = [(3, 6, 64)] \<and>
     (case append_trampolines (\<lambda>pos. Inr (0x1000 + pos)) 10 (Trampolines r) sample_program of Inl _ \<Rightarrow> False | Inr out \<Rightarrow>
        take 16 out = [0x64, 0x8B, 0x07, 0xE9, 8, 0, 0, 0, 0x90, 0xC3] @ replicate 6 0xCC \<and> length out = 80)"
  by code_simp

lemma sample_site:
  "\<exists>r s. Convert (MakeAmd64OnlyInstructionMatcher Intel) sample_program [sample_header 10] = Inr r \<and>
    conv_Bytes r = sample_program \<and> Trampolines r = [s] \<and> site_Offset s = 3 \<and> site_Length s = 6 \<and> length (site_Body s) = 64 \<and>
    (\<exists>out. append_trampolines (\<lambda>pos. Inr (0x1000 + pos)) 10 (Trampolines r) sample_program = Inr out)"
  using sample_converted by (auto split: sum.splits)

theorem Convert_Intel_sites_witness:
  "\<exists>r s. Convert (MakeAmd64OnlyInstructionMatcher Intel) sample_program [sample_header 10] = Inr r \<and>
    Trampolines r = [s] \<and> site_ok sample_program s \<and> site_within (sample_header 10) s"
proof -
  obtain r s where r: "Convert (MakeAmd64OnlyInstructionMatcher Intel) sample_program [sample_header 10] = Inr r"
    "conv_Bytes r = sample_program" "Trampolines r = [s]" using sample_site by blast
  have "length sample_program < 2 ^ 64" "sorted_wrt segments_apart (filter executable_load [sample_header 10])"
    by (simp_all add: sample_program_def)
  from Convert_Intel_sites [OF r(1) this] r show ?thesis by auto
qed

theorem relink_Intel_witness:
  "\<exists>(r :: ConvertResult) s out pos vaddr. append_trampolines (\<lambda>pos. Inr (0x1000 + pos)) 10 (Trampolines r) sample_program = Inr out \<and>
    Trampolines r = [s] \<and> 10 \<le> pos \<and> pos mod 16 = 0 \<and> vaddr = 0x1000 + of_nat pos \<and> trampoline_linked s pos vaddr out"
proof -
  obtain r s out where r: "Convert (MakeAmd64OnlyInstructionMatcher Intel) sample_program [sample_header 10] = Inr r"
    "conv_Bytes r = sample_program" "Trampolines r = [s]" "length (site_Body s) = 64"
    "append_trampolines (\<lambda>pos. Inr (0x1000 + pos)) 10 (Trampolines r) sample_program = Inr out"
    using sample_site by blast
  have len: "length sample_program = 10" by (simp add: sample_program_def)
  then have "length sample_program < 2 ^ 64" "sorted_wrt segments_apart (filter executable_load [sample_header 10])"
    "\<forall>s \<in> set (Trampolines r). length (site_Body s) < 2 ^ 31 \<and> (\<forall>i. inside_site s i \<longrightarrow> sample_program ! i = conv_Bytes r ! i)"
    using r by simp_all
  from relink_Intel [OF r(1) this order_refl, of "\<lambda>pos. Inr (0x1000 + pos)"] r(3,5) len
  obtain pos where "10 \<le> pos" "pos mod 16 = 0" "trampoline_linked s pos (0x1000 + of_nat pos) out"
    by (auto simp del: append_trampolines.simps)
  with r(3,5) show ?thesis
    by (intro exI [of _ r] exI [of _ s] exI [of _ out] exI [of _ pos] exI [of _ "0x1000 + of_nat pos"]) simp
qed

subsection \<open>Overlapping sites on the Rosetta target\<close>

text \<open>
  \<open>vmovups [rdi], ymm0; mov eax, fs:[rdi]; rcpps xmm0, xmm1; mov rbx, rax\<close> (four times)\<open>; ret\<close>: the store goes to
  an island over the instructions at 10 to 15, which a site of the reciprocal at 7 to 12 then claims again.
\<close>

definition overlap_program :: "u8 list" where
  "overlap_program = [0xC5, 0xFC, 0x11, 0x07, 0x64, 0x8B, 0x07, 0x0F, 0x53, 0xC1,
     0x48, 0x89, 0xC3, 0x48, 0x89, 0xC3, 0x48, 0x89, 0xC3, 0x48, 0x89, 0xC3, 0xC3]"

text \<open>A trampoline site that is no relocatable window is made without a look at the instructions already claimed:
  on the Rosetta target the conversion can return sites that overlap, and the linker then refuses the file.\<close>

lemma Convert_Rosetta_overlap:
  "case Convert (MakeAmd64OnlyInstructionMatcher Rosetta) overlap_program [sample_header 23] of Inl _ \<Rightarrow> False | Inr r \<Rightarrow>
     map (\<lambda>s. (site_Offset s, site_Length s)) (Trampolines r) = [(10, 6), (16, 5), (7, 6)] \<and>
     append_trampolines (\<lambda>pos. Inr (0x1000 + pos)) 23 (Trampolines r) (conv_Bytes r) =
       Inl (RelinkerException ''AMD-only site bytes changed before patching'' 7)"
  by code_simp

end
