(* ===== verification/Kernel_Errors.thy ===== *)
theory Kernel_Errors
  imports Prelude
begin

text \<open>
  The error codes of \<open>core/libs/prx/libkernel/KernelErrors.hpp\<close> that the modelled calls return. An \<open>int\<close> result is
  kept as its 32 bits; an operation that may fail returns \<open>Inl\<close> of the code or \<open>Inr\<close> of what it writes through
  its output pointers.
\<close>

type_synonym errno = u32

type_synonym 'a kernel = "errno + 'a"

definition SceKernelError :: "u32 \<Rightarrow> errno" where
  "SceKernelError errnoValue = 0x80020000 OR errnoValue"

definition SCE_KERNEL_ERROR_EPERM :: errno where "SCE_KERNEL_ERROR_EPERM = SceKernelError 1"

definition SCE_KERNEL_ERROR_ESRCH :: errno where "SCE_KERNEL_ERROR_ESRCH = SceKernelError 3"

definition SCE_KERNEL_ERROR_ENOMEM :: errno where "SCE_KERNEL_ERROR_ENOMEM = SceKernelError 12"

definition SCE_KERNEL_ERROR_EACCES :: errno where "SCE_KERNEL_ERROR_EACCES = SceKernelError 13"

definition SCE_KERNEL_ERROR_EFAULT :: errno where "SCE_KERNEL_ERROR_EFAULT = SceKernelError 14"

definition SCE_KERNEL_ERROR_EBUSY :: errno where "SCE_KERNEL_ERROR_EBUSY = SceKernelError 16"

definition SCE_KERNEL_ERROR_EINVAL :: errno where "SCE_KERNEL_ERROR_EINVAL = SceKernelError 22"

definition SCE_KERNEL_ERROR_EAGAIN :: errno where "SCE_KERNEL_ERROR_EAGAIN = SceKernelError 35"

definition SCE_KERNEL_ERROR_ETIMEDOUT :: errno where "SCE_KERNEL_ERROR_ETIMEDOUT = SceKernelError 60"

definition SCE_KERNEL_ERROR_ECANCELED :: errno where "SCE_KERNEL_ERROR_ECANCELED = SceKernelError 85"

named_theorems errno_defs \<open>the error codes as numbers\<close>

lemmas errno_values [errno_defs] = SCE_KERNEL_ERROR_EPERM_def SCE_KERNEL_ERROR_ESRCH_def SCE_KERNEL_ERROR_ENOMEM_def SCE_KERNEL_ERROR_EACCES_def
  SCE_KERNEL_ERROR_EFAULT_def SCE_KERNEL_ERROR_EBUSY_def SCE_KERNEL_ERROR_EINVAL_def SCE_KERNEL_ERROR_EAGAIN_def
  SCE_KERNEL_ERROR_ETIMEDOUT_def SCE_KERNEL_ERROR_ECANCELED_def SceKernelError_def

end
