(* ===== verification/MemoryPool.thy ===== *)
theory MemoryPool
  imports Kernel_Errors
begin

text \<open>
  The physical memory pool of \<open>core/libs/prx/libkernel/DirectMemory/MemoryPool.cpp\<close>: one flag per page and an
  ordered map of blocks. A \<open>uint64_t\<close> is the natural number it holds, with the overflow checks of \<open>RoundUp\<close> written
  out; a bound check keeps every other sum below the size of the pool. The page flags are a function of the page
  number, the \<open>std::map\<close> a list of its entries in the order of their keys, and an iterator the index of its entry.
  What the host decides is a parameter of the operations: \<open>node k\<close> says whether there is memory for the map's entry with
  the key \<open>k\<close> (an operation asks at most once for a key), and the two calls into the backing of the memory
  (\<open>CreateDirectMemoryBacking\<close>, \<open>ForgetDirectMemory\<close>) return \<open>None\<close> or the exception that they throw. The mutex is not modelled:
  every operation holds it from its first access to its last.
\<close>

subsection \<open>Pages\<close>

definition kPage :: nat where
  "kPage = 0x4000"

definition kPoolBytes :: nat where
  "kPoolBytes = 13824 * 1024 * 1024"

definition kNumPages :: nat where
  "kNumPages = kPoolBytes div kPage"

definition RoundUp :: "nat \<Rightarrow> nat \<Rightarrow> nat option" where
  "RoundUp v a =
    (let r = v mod a in
     if r = 0 then Some v
     else if 2 ^ 64 - 1 - (a - r) < v then None
     else Some (v + (a - r)))"

definition NormalizeAlignment :: "nat \<Rightarrow> nat option" where
  "NormalizeAlignment alignment = RoundUp (max alignment kPage) kPage"

definition NormalizeLength :: "nat \<Rightarrow> nat option" where
  "NormalizeLength len =
    (case RoundUp len kPage of None \<Rightarrow> None | Some rounded \<Rightarrow> if kPoolBytes < rounded then None else Some rounded)"

text \<open>\<open>v & ~(kPage - 1)\<close>\<close>

definition page_down :: "nat \<Rightarrow> nat" where
  "page_down v = v div kPage * kPage"

definition PageSpan :: "nat \<Rightarrow> nat \<Rightarrow> (nat \<times> nat) option" where
  "PageSpan start len =
    (if len = 0 \<or> kPoolBytes \<le> start \<or> kPoolBytes - start < len then None
     else Some (page_down start, page_down (start + len + kPage - 1)))"

subsection \<open>The pool\<close>

record Block =
  block_end :: nat
  block_type :: int

record PhysicalMemoryPool =
  pool_used :: "nat \<Rightarrow> bool"
  pool_blocks :: "(nat \<times> Block) list"

definition empty_pool :: PhysicalMemoryPool where
  "empty_pool = \<lparr>pool_used = \<lambda>_. False, pool_blocks = []\<rparr>"

datatype pool_exception = LogicError | BadAlloc | BackingError

datatype backing_error = OutOfMemory | OtherError

fun raised :: "backing_error \<Rightarrow> pool_exception" where
  "raised OutOfMemory = BadAlloc"
| "raised OtherError = BackingError"

definition lower_bound :: "nat \<Rightarrow> (nat \<times> Block) list \<Rightarrow> nat" where
  "lower_bound key blocks = length (takeWhile (\<lambda>e. fst e < key) blocks)"

definition upper_bound_block :: "nat \<Rightarrow> (nat \<times> Block) list \<Rightarrow> nat" where
  "upper_bound_block key blocks = length (takeWhile (\<lambda>e. fst e \<le> key) blocks)"

definition insert_block :: "nat \<Rightarrow> (nat \<times> Block) \<Rightarrow> (nat \<times> Block) list \<Rightarrow> (nat \<times> Block) list" where
  "insert_block i e blocks = take i blocks @ e # drop i blocks"

definition erase_block :: "nat \<Rightarrow> (nat \<times> Block) list \<Rightarrow> (nat \<times> Block) list" where
  "erase_block i blocks = take i blocks @ drop (Suc i) blocks"

text \<open>\<open>emplace\<close>: the position of the new entry, or nothing when the key is there already.\<close>

definition emplace :: "nat \<Rightarrow> Block \<Rightarrow> (nat \<times> Block) list \<Rightarrow> (nat \<times> (nat \<times> Block) list) option" where
  "emplace key b blocks =
    (let i = lower_bound key blocks in
     if i < length blocks \<and> fst (blocks ! i) = key then None else Some (i, insert_block i (key, b) blocks))"

fun lastUsedPage :: "PhysicalMemoryPool \<Rightarrow> nat \<Rightarrow> nat \<Rightarrow> nat option" where
  "lastUsedPage pool first 0 = None"
| "lastUsedPage pool first (Suc i) = (if pool_used pool (first + i) then Some (first + i) else lastUsedPage pool first i)"

definition allUsed :: "PhysicalMemoryPool \<Rightarrow> nat \<Rightarrow> nat \<Rightarrow> bool" where
  "allUsed pool first count \<longleftrightarrow> list_all (\<lambda>i. pool_used pool (first + i)) [0..<count]"

primrec mark :: "(nat \<Rightarrow> bool) \<Rightarrow> nat \<Rightarrow> nat \<Rightarrow> bool \<Rightarrow> nat \<Rightarrow> bool" where
  "mark flags first 0 b = flags"
| "mark flags first (Suc n) b = (mark flags first n b)(first + n := b)"

text \<open>
  Splitting the block around an address; the address of a block's start or outside every block splits none. The new
  entry is made first, so that a failure changes nothing.
\<close>

definition splitAt :: "(nat \<Rightarrow> bool) \<Rightarrow> nat \<Rightarrow> (nat \<times> Block) list \<Rightarrow> (pool_exception + bool) \<times> (nat \<times> Block) list" where
  "splitAt node at blocks =
    (let it = upper_bound_block at blocks in
     if it = 0 then (Inr False, blocks)
     else let (first, b) = blocks ! (it - 1) in
       if first = at \<or> block_end b \<le> at then (Inr False, blocks)
       else if \<not> node at then (Inl BadAlloc, blocks)
       else (Inr True, insert_block it (at, b) (blocks[it - 1 := (first, b\<lparr>block_end := at\<rparr>)])))"

definition unsplitAt :: "nat \<Rightarrow> (nat \<times> Block) list \<Rightarrow> (nat \<times> Block) list" where
  "unsplitAt at blocks =
    (let right = lower_bound at blocks; (first, b) = blocks ! (right - 1) in
     erase_block right (blocks[right - 1 := (first, b\<lparr>block_end := block_end (snd (blocks ! right))\<rparr>)]))"

definition undo_split :: "bool \<Rightarrow> nat \<Rightarrow> (nat \<times> Block) list \<Rightarrow> (nat \<times> Block) list" where
  "undo_split split at blocks = (if split then unsplitAt at blocks else blocks)"

subsection \<open>\<open>Alloc\<close>\<close>

definition commit ::
    "(nat \<Rightarrow> bool) \<Rightarrow> (nat \<Rightarrow> nat \<Rightarrow> int \<Rightarrow> backing_error option) \<Rightarrow> nat \<Rightarrow> nat \<Rightarrow> int \<Rightarrow> PhysicalMemoryPool \<Rightarrow>
      (pool_exception + unit) \<times> PhysicalMemoryPool" where
  "commit node create start len type pool =
    (if \<not> node start then (Inl BadAlloc, pool)
     else case emplace start \<lparr>block_end = start + len, block_type = type\<rparr> (pool_blocks pool) of
       None \<Rightarrow> (Inl LogicError, pool)
     | Some (ins, blocks) \<Rightarrow>
         (case create start len type of
            Some e \<Rightarrow> (Inl (raised e), pool\<lparr>pool_blocks := erase_block ins blocks\<rparr>)
          | None \<Rightarrow> (Inr (), pool\<lparr>pool_blocks := blocks,
              pool_used := mark (pool_used pool) (start div kPage) (len div kPage) True\<rparr>)))"

lemma lastUsedPage_bounds: "lastUsedPage pool first count = Some p \<Longrightarrow> first \<le> p \<and> p < first + count \<and> pool_used pool p"
  by (induction count) (auto split: if_splits)

lemma RoundUp_le: "RoundUp v a = Some w \<Longrightarrow> v \<le> w"
  by (auto simp: RoundUp_def Let_def split: if_splits)

function search :: "PhysicalMemoryPool \<Rightarrow> nat \<Rightarrow> nat \<Rightarrow> nat \<Rightarrow> nat \<Rightarrow> nat option" where
  "search pool align alignedLen limit cur =
    (if cur \<le> limit \<and> alignedLen \<le> limit - cur then
       case lastUsedPage pool (cur div kPage) (alignedLen div kPage) of
         None \<Rightarrow> Some cur
       | Some lastUsed \<Rightarrow>
           (case RoundUp ((lastUsed + 1) * kPage) align of
              None \<Rightarrow> None
            | Some next \<Rightarrow> search pool align alignedLen limit next)
     else None)"
  by pat_completeness auto

termination
proof (relation "measure (\<lambda>(pool, align, alignedLen, limit, cur). limit + 1 - cur)", goal_cases)
  case (2 pool align alignedLen limit cur p w)
  have "cur < (cur div kPage + 1) * kPage" by (simp add: kPage_def)
  also have "\<dots> \<le> (p + 1) * kPage" using lastUsedPage_bounds [OF 2(2)] by (intro mult_le_mono1) simp
  also have "\<dots> \<le> w" using RoundUp_le [OF 2(3)] .
  finally show ?case using 2(1) by auto
qed simp

declare search.simps [simp del]

definition Alloc ::
    "(nat \<Rightarrow> bool) \<Rightarrow> (nat \<Rightarrow> nat \<Rightarrow> int \<Rightarrow> backing_error option) \<Rightarrow> u64 \<Rightarrow> u64 \<Rightarrow> nat \<Rightarrow> nat \<Rightarrow> int \<Rightarrow> bool \<Rightarrow> PhysicalMemoryPool \<Rightarrow>
     (pool_exception + nat kernel) \<times> PhysicalMemoryPool" where
  "Alloc node create searchStart searchEnd len alignment memoryType physOut pool =
    (if \<not> physOut then (Inr (Inl SCE_KERNEL_ERROR_EFAULT), pool)
     else if len = 0 then (Inr (Inl SCE_KERNEL_ERROR_EINVAL), pool)
     else case (NormalizeAlignment alignment, NormalizeLength len) of
       (Some align, Some alignedLen) \<Rightarrow>
         (let start = unat searchStart; limit = min (unat searchEnd) kPoolBytes in
          if limit \<le> start then (Inr (Inl SCE_KERNEL_ERROR_EAGAIN), pool)
          else (case RoundUp start align of
              None \<Rightarrow> (Inr (Inl SCE_KERNEL_ERROR_EAGAIN), pool)
            | Some cur \<Rightarrow>
                (case search pool align alignedLen limit cur of
                   None \<Rightarrow> (Inr (Inl SCE_KERNEL_ERROR_EAGAIN), pool)
                 | Some found \<Rightarrow>
                     (case commit node create found alignedLen memoryType pool of
                        (Inl e, pool) \<Rightarrow> (Inl e, pool)
                      | (Inr _, pool) \<Rightarrow> (Inr (Inr found), pool)))))
     | _ \<Rightarrow> (Inr (Inl SCE_KERNEL_ERROR_EAGAIN), pool))"

text \<open>The call of the guest's kernel: host memory that runs out is an error code.\<close>

definition DirectMemoryAlloc ::
    "(nat \<Rightarrow> bool) \<Rightarrow> (nat \<Rightarrow> nat \<Rightarrow> int \<Rightarrow> backing_error option) \<Rightarrow> u64 \<Rightarrow> u64 \<Rightarrow> nat \<Rightarrow> nat \<Rightarrow> int \<Rightarrow> bool \<Rightarrow> PhysicalMemoryPool \<Rightarrow>
     (pool_exception + nat kernel) \<times> PhysicalMemoryPool" where
  "DirectMemoryAlloc node create searchStart searchEnd len alignment memoryType physOut pool =
    (case Alloc node create searchStart searchEnd len alignment memoryType physOut pool of
       (Inl BadAlloc, pool) \<Rightarrow> (Inr (Inl SCE_KERNEL_ERROR_ENOMEM), pool)
     | (r, pool) \<Rightarrow> (r, pool))"

subsection \<open>\<open>Free\<close>, \<open>CheckedFree\<close>, \<open>Retype\<close> and \<open>Find\<close>\<close>

text \<open>A split at the upper end that throws, and a backing that throws, undo the splits that have been made.\<close>

definition release ::
    "(nat \<Rightarrow> bool) \<Rightarrow> (nat \<Rightarrow> nat \<Rightarrow> backing_error option) \<Rightarrow> nat \<Rightarrow> nat \<Rightarrow> bool \<Rightarrow> PhysicalMemoryPool \<Rightarrow>
      (pool_exception + bool) \<times> PhysicalMemoryPool" where
  "release node forget start len requireAllocated pool =
    (case PageSpan start len of
       None \<Rightarrow> (Inr False, pool)
     | Some (lo, hi) \<Rightarrow>
         (let first = lo div kPage; count = (hi - lo) div kPage in
          if requireAllocated \<and> \<not> allUsed pool first count then (Inr False, pool)
          else case splitAt node lo (pool_blocks pool) of
            (Inl e, blocks) \<Rightarrow> (Inl e, pool\<lparr>pool_blocks := blocks\<rparr>)
          | (Inr splitLo, blocks) \<Rightarrow>
              (case splitAt node hi blocks of
                 (Inl e, blocks) \<Rightarrow> (Inl e, pool\<lparr>pool_blocks := undo_split splitLo lo blocks\<rparr>)
               | (Inr splitHi, blocks) \<Rightarrow>
                   (case forget lo (hi - lo) of
                      Some e \<Rightarrow> (Inl (raised e), pool\<lparr>pool_blocks := undo_split splitLo lo (undo_split splitHi hi blocks)\<rparr>)
                    | None \<Rightarrow> (Inr True,
                        pool\<lparr>pool_blocks := take (lower_bound lo blocks) blocks @ drop (lower_bound hi blocks) blocks,
                          pool_used := mark (pool_used pool) first count False\<rparr>)))))"

definition Free ::
    "(nat \<Rightarrow> bool) \<Rightarrow> (nat \<Rightarrow> nat \<Rightarrow> backing_error option) \<Rightarrow> nat \<Rightarrow> nat \<Rightarrow> PhysicalMemoryPool \<Rightarrow>
      (pool_exception + bool) \<times> PhysicalMemoryPool" where
  "Free node forget start len = release node forget start len False"

definition CheckedFree ::
    "(nat \<Rightarrow> bool) \<Rightarrow> (nat \<Rightarrow> nat \<Rightarrow> backing_error option) \<Rightarrow> nat \<Rightarrow> nat \<Rightarrow> PhysicalMemoryPool \<Rightarrow>
      (pool_exception + bool) \<times> PhysicalMemoryPool" where
  "CheckedFree node forget start len = release node forget start len True"

definition Find :: "nat \<Rightarrow> bool \<Rightarrow> PhysicalMemoryPool \<Rightarrow> (nat \<times> nat \<times> int) option" where
  "Find offset findNext pool =
    (let blocks = pool_blocks pool; it = upper_bound_block offset blocks;
         found = (\<lambda>i. let (first, b) = blocks ! i in Some (first, block_end b, block_type b)) in
     if kPoolBytes \<le> offset then None
     else if it \<noteq> 0 \<and> offset < block_end (snd (blocks ! (it - 1))) then found (it - 1)
     else if \<not> findNext \<or> it = length blocks then None
     else found it)"

fun retype_from :: "nat \<Rightarrow> int \<Rightarrow> (nat \<times> Block) list \<Rightarrow> (nat \<times> Block) list" where
  "retype_from hi type [] = []"
| "retype_from hi type ((first, b) # rest) =
    (if first < hi then (first, b\<lparr>block_type := type\<rparr>) # retype_from hi type rest else (first, b) # rest)"

definition Retype ::
    "(nat \<Rightarrow> bool) \<Rightarrow> nat \<Rightarrow> nat \<Rightarrow> int \<Rightarrow> PhysicalMemoryPool \<Rightarrow> (pool_exception + bool) \<times> PhysicalMemoryPool" where
  "Retype node start len memoryType pool =
    (case PageSpan start len of
       None \<Rightarrow> (Inr False, pool)
     | Some (lo, hi) \<Rightarrow>
         (case splitAt node lo (pool_blocks pool) of
            (Inl e, blocks) \<Rightarrow> (Inl e, pool\<lparr>pool_blocks := blocks\<rparr>)
          | (Inr splitLo, blocks) \<Rightarrow>
              (case splitAt node hi blocks of
                 (Inl e, blocks) \<Rightarrow> (Inl e, pool\<lparr>pool_blocks := undo_split splitLo lo blocks\<rparr>)
               | (Inr splitHi, blocks) \<Rightarrow>
                   let i = lower_bound lo blocks in
                   (Inr True, pool\<lparr>pool_blocks := take i blocks @ retype_from hi memoryType (drop i blocks)\<rparr>))))"

subsection \<open>\<open>LargestFree\<close> and \<open>FreeRun\<close>\<close>

function run_end :: "PhysicalMemoryPool \<Rightarrow> nat \<Rightarrow> nat \<Rightarrow> nat" where
  "run_end pool limit runEnd =
    (if runEnd < limit \<and> \<not> pool_used pool (runEnd div kPage) then run_end pool limit (runEnd + kPage) else runEnd)"
  by pat_completeness auto

termination
  by (relation "measure (\<lambda>(pool, limit, runEnd). limit - runEnd)") (auto simp: kPage_def)

declare run_end.simps [simp del]

lemma run_end_ge: "runEnd \<le> run_end pool limit runEnd"
proof (induction pool limit runEnd rule: run_end.induct)
  case (1 pool limit runEnd)
  then show ?case by (subst run_end.simps) auto
qed

lemma run_end_Suc: "runEnd < limit \<Longrightarrow> \<not> pool_used pool (runEnd div kPage) \<Longrightarrow> runEnd < run_end pool limit runEnd"
  using run_end_ge [of "runEnd + kPage" pool limit] by (subst run_end.simps) (simp add: kPage_def)

text \<open>The best run so far is its start and its size; \<open>break\<close> and the end of the loop return it.\<close>

function largest :: "PhysicalMemoryPool \<Rightarrow> nat \<Rightarrow> nat \<Rightarrow> nat \<Rightarrow> nat \<times> nat \<Rightarrow> nat \<times> nat" where
  "largest pool align limit cur best =
    (if cur < limit then
       if pool_used pool (cur div kPage) then largest pool align limit (cur + kPage) best
       else let runEnd = run_end pool limit cur in
         (case RoundUp cur align of
            None \<Rightarrow> best
          | Some alignedStart \<Rightarrow>
              largest pool align limit runEnd
                (if alignedStart < runEnd \<and> snd best < runEnd - alignedStart then (alignedStart, runEnd - alignedStart) else best))
     else best)"
  by pat_completeness auto

termination
  by (relation "measure (\<lambda>(pool, align, limit, cur, best). limit - cur)") (simp_all add: kPage_def diff_less_mono2 run_end_Suc)

declare largest.simps [simp del]

definition LargestFree :: "u64 \<Rightarrow> u64 \<Rightarrow> nat \<Rightarrow> PhysicalMemoryPool \<Rightarrow> (nat \<times> nat) option" where
  "LargestFree searchStart searchEnd alignment pool =
    (if sint searchStart < 0 \<or> sint searchEnd \<le> sint searchStart then None
     else case NormalizeAlignment alignment of
       None \<Rightarrow> None
     | Some align \<Rightarrow>
         (case RoundUp (unat searchStart) kPage of
            None \<Rightarrow> None
          | Some cur \<Rightarrow>
              let limit = page_down (min (unat searchEnd) kPoolBytes);
                  best = largest pool align limit cur (0, 0)
              in if snd best = 0 then None else Some best))"

function free_run :: "PhysicalMemoryPool \<Rightarrow> nat \<Rightarrow> nat \<Rightarrow> nat" where
  "free_run pool lim cur =
    (if cur \<le> lim \<and> kPage \<le> lim - cur \<and> \<not> pool_used pool (cur div kPage)
     then kPage + free_run pool lim (cur + kPage) else 0)"
  by pat_completeness auto

termination
  by (relation "measure (\<lambda>(pool, lim, cur). lim + 1 - cur)") (auto simp: kPage_def)

declare free_run.simps [simp del]

definition FreeRun :: "nat \<Rightarrow> nat \<Rightarrow> PhysicalMemoryPool \<Rightarrow> nat" where
  "FreeRun offset limit pool =
    (let lim = min limit kPoolBytes in if lim \<le> offset then 0 else free_run pool lim (page_down offset))"

end
