(* ===== verification/MemoryPool_Props.thy ===== *)
theory MemoryPool_Props
  imports MemoryPool
begin

text \<open>
  The pool as a partial map from pages to memory types, and every operation as its effect on that map: the block
  map and the page flags stay consistent, and searches are complete.
\<close>

subsection \<open>Rounding\<close>

lemma kPage_pos [simp]: "0 < kPage" by (simp add: kPage_def)

lemma kPoolBytes_pages: "kPage dvd kPoolBytes" "kPoolBytes = kNumPages * kPage"
  by (simp_all add: kPage_def kPoolBytes_def kNumPages_def)

lemma RoundUp_Some:
  assumes "RoundUp v a = Some w" "0 < a"
  shows "v \<le> w" "a dvd w" "w < v + a" "\<And>u. a dvd u \<Longrightarrow> v \<le> u \<Longrightarrow> w \<le> u"
proof -
  let ?r = "v mod a"
  have r: "?r < a" using assms(2) by simp
  have w: "w = (if ?r = 0 then v else v + (a - ?r))" using assms(1) by (auto simp: RoundUp_def Let_def split: if_splits)
  have v: "v = a * (v div a) + ?r" by simp
  have distrib: "a * (v div a + 1) = a * (v div a) + a" by simp
  show le: "v \<le> w" unfolding w by simp
  show "w < v + a" unfolding w using assms(2) r by auto
  have "w = a * (if ?r = 0 then v div a else v div a + 1)"
  proof -
    have "v + (a - ?r) = a * (v div a + 1)" using v r distrib by linarith
    moreover have "?r = 0 \<Longrightarrow> v = a * (v div a)" using v by linarith
    ultimately show ?thesis unfolding w by presburger
  qed
  then show "a dvd w" by simp
  fix u assume u: "a dvd u" "v \<le> u"
  then obtain k where k: "u = a * k" by (auto elim: dvdE)
  show "w \<le> u"
  proof (cases "?r = 0")
    case True
    with u(2) w show ?thesis by simp
  next
    case False
    have "a * (v div a) < a * k" using v u(2) False k by linarith
    then have "v div a + 1 \<le> k" by simp
    then have "a * (v div a + 1) \<le> a * k" by (rule mult_le_mono2)
    with \<open>w = a * _\<close> False k show ?thesis by simp
  qed
qed

lemma RoundUp_None: "RoundUp v a = None \<Longrightarrow> 0 < a \<Longrightarrow> a dvd u \<Longrightarrow> v \<le> u \<Longrightarrow> 2 ^ 64 \<le> u"
proof -
  assume a: "RoundUp v a = None" "0 < a" "a dvd u" "v \<le> u"
  let ?r = "v mod a"
  from a(1) have r: "?r \<noteq> 0" "2 ^ 64 - 1 - (a - ?r) < v" by (auto simp: RoundUp_def Let_def split: if_splits)
  obtain k where k: "u = a * k" using a(3) by (auto elim: dvdE)
  have v: "v = a * (v div a) + ?r" by simp
  have "a * (v div a) < a * k" using v a(4) r(1) k by linarith
  then have "a * (v div a + 1) \<le> a * k" by (intro mult_le_mono2) simp
  moreover have "v + (a - ?r) = a * (v div a + 1)" proof -
    have "a * (v div a + 1) = a * (v div a) + a" "?r < a" using a(2) by simp_all
    with v show ?thesis by linarith
  qed
  ultimately have "v + (a - ?r) \<le> u" using k by simp
  with r(2) show ?thesis by linarith
qed

lemma page_down: "page_down v \<le> v" "kPage dvd page_down v" "v < page_down v + kPage" "kPage dvd u \<Longrightarrow> u \<le> v \<Longrightarrow> u \<le> page_down v"
proof -
  show "page_down v \<le> v" "kPage dvd page_down v" by (simp_all add: page_down_def)
  show "v < page_down v + kPage" by (simp add: page_down_def kPage_def)
  show "u \<le> page_down v" if "kPage dvd u" "u \<le> v"
    using that by (auto simp: page_down_def elim!: dvdE intro!: mult_le_mono1) (metis div_le_mono kPage_pos nonzero_mult_div_cancel_left less_numeral_extra(3) mult.commute mult_le_mono1)
qed

text \<open>The mask of the source: clearing the low bits is rounding down.\<close>

lemma page_down_mask: "unat (v AND NOT 0x3FFF :: u64) = page_down (unat v)"
proof -
  have m: "(0x3FFF :: u64) = mask 14" by (simp add: mask_eq_exp_minus_1)
  have "v AND NOT 0x3FFF = push_bit 14 (drop_bit 14 v)"
    unfolding m by (intro bit_word_eqI) (auto simp: bit_simps)
  also have "unat \<dots> = unat v div 2 ^ 14 * 2 ^ 14"
  proof -
    have "unat v div 2 ^ 14 * 2 ^ 14 < 2 ^ 64"
    proof (rule le_less_trans)
      show "unat v div 2 ^ 14 * 2 ^ 14 \<le> unat v" by (rule div_times_less_eq_dividend)
      have "unat v < 2 ^ LENGTH(64)" by (rule unsigned_less)
      then show "unat v < 2 ^ 64" by simp
    qed
    then show ?thesis
      by (simp only: unsigned_push_bit_eq unsigned_drop_bit_eq)
        (simp add: drop_bit_eq_div push_bit_eq_mult take_bit_nat_eq_self)
  qed
  finally show ?thesis by (simp add: page_down_def kPage_def)
qed


subsection \<open>The block map\<close>

definition block_ok :: "nat \<times> Block \<Rightarrow> bool" where
  "block_ok e \<longleftrightarrow> kPage dvd fst e \<and> kPage dvd block_end (snd e) \<and> fst e < block_end (snd e) \<and> block_end (snd e) \<le> kPoolBytes"

definition blocks_ok :: "(nat \<times> Block) list \<Rightarrow> bool" where
  "blocks_ok bs \<longleftrightarrow> sorted_wrt (\<lambda>x y. block_end (snd x) \<le> fst y) bs \<and> (\<forall>e \<in> set bs. block_ok e)"

definition inside :: "nat \<times> Block \<Rightarrow> nat \<Rightarrow> bool" where
  "inside e off \<longleftrightarrow> fst e \<le> off \<and> off < block_end (snd e)"

text \<open>The byte lies in a block of the type.\<close>

definition holds :: "(nat \<times> Block) list \<Rightarrow> nat \<Rightarrow> int \<Rightarrow> bool" where
  "holds bs off t \<longleftrightarrow> (\<exists>e \<in> set bs. inside e off \<and> block_type (snd e) = t)"

definition type_at :: "(nat \<times> Block) list \<Rightarrow> nat \<Rightarrow> int option" where
  "type_at bs off = map_option (\<lambda>e. block_type (snd e)) (List.find (\<lambda>e. inside e off) bs)"

lemma blocks_ok_append:
  "blocks_ok (xs @ ys) \<longleftrightarrow> blocks_ok xs \<and> blocks_ok ys \<and> (\<forall>x \<in> set xs. \<forall>y \<in> set ys. block_end (snd x) \<le> fst y)"
  by (auto simp: blocks_ok_def sorted_wrt_append)

lemma blocks_ok_Cons:
  "blocks_ok (x # ys) \<longleftrightarrow> block_ok x \<and> blocks_ok ys \<and> (\<forall>y \<in> set ys. block_end (snd x) \<le> fst y)"
  by (auto simp: blocks_ok_def)

lemma blocks_ok_Nil [simp]: "blocks_ok []"
  by (simp add: blocks_ok_def)

lemma inside_unique: "blocks_ok bs \<Longrightarrow> x \<in> set bs \<Longrightarrow> y \<in> set bs \<Longrightarrow> inside x off \<Longrightarrow> inside y off \<Longrightarrow> x = y"
proof (induction bs)
  case (Cons e bs)
  from Cons.prems(1) have "\<forall>y \<in> set bs. block_end (snd e) \<le> fst y" "blocks_ok bs" by (simp_all add: blocks_ok_Cons)
  then have "\<not> inside y off" if "inside e off" "y \<in> set bs" for y using that by (auto simp: inside_def)
  with Cons \<open>blocks_ok bs\<close> show ?case by (metis set_ConsD)
qed simp

lemma holds_unique: "blocks_ok bs \<Longrightarrow> holds bs off t \<Longrightarrow> holds bs off t' \<Longrightarrow> t = t'"
  unfolding holds_def using inside_unique by blast

lemma type_at_Some: "blocks_ok bs \<Longrightarrow> type_at bs off = Some t \<longleftrightarrow> holds bs off t"
proof -
  assume ok: "blocks_ok bs"
  show ?thesis
  proof (cases "List.find (\<lambda>e. inside e off) bs")
    case None
    then have "\<forall>e \<in> set bs. \<not> inside e off" by (metis find_None_iff)
    with None show ?thesis by (auto simp: type_at_def holds_def)
  next
    case (Some e)
    then have "e \<in> set bs" "inside e off" by (auto simp: find_Some_iff)
    then have "holds bs off (block_type (snd e))" by (auto simp: holds_def)
    moreover have "type_at bs off = Some (block_type (snd e))" by (simp add: type_at_def Some)
    ultimately show ?thesis using holds_unique [OF ok] by (metis option.inject)
  qed
qed

lemma type_at_None: "type_at bs off = None \<longleftrightarrow> (\<forall>t. \<not> holds bs off t)"
  by (auto simp: type_at_def holds_def find_None_iff)

lemma type_at_cong: "blocks_ok bs \<Longrightarrow> blocks_ok bs' \<Longrightarrow> (\<And>t. holds bs off t \<longleftrightarrow> holds bs' off t) \<Longrightarrow> type_at bs off = type_at bs' off"
  by (metis type_at_Some type_at_None not_None_eq)

lemma holds_page_down: "blocks_ok bs \<Longrightarrow> holds bs (page_down off) t \<longleftrightarrow> holds bs off t"
proof -
  assume ok: "blocks_ok bs"
  have "inside e (page_down off) \<longleftrightarrow> inside e off" if "e \<in> set bs" for e
  proof -
    have "kPage dvd fst e" "kPage dvd block_end (snd e)" using ok that by (auto simp: blocks_ok_def block_ok_def)
    then have "fst e \<le> page_down off \<longleftrightarrow> fst e \<le> off" "block_end (snd e) \<le> page_down off \<longleftrightarrow> block_end (snd e) \<le> off"
      using page_down(4) [of _ off] le_trans [OF _ page_down(1) [of off]] by iprover+
    then show ?thesis by (simp add: inside_def not_le [symmetric])
  qed
  then show ?thesis by (auto simp: holds_def)
qed

text \<open>Keys are in strict order, so the bounds of the map cut it by key.\<close>

lemma blocks_ok_keys: "blocks_ok bs \<Longrightarrow> sorted_wrt (\<lambda>x y. fst x < fst y) bs"
  unfolding blocks_ok_def by (rule sorted_wrt_mono_rel [rotated, where P = "\<lambda>x y. block_end (snd x) \<le> fst y"]) (auto simp: block_ok_def)

lemma cut:
  assumes "sorted_wrt (\<lambda>x y. fst x < fst y) (bs :: (nat \<times> 'b) list)" "\<And>a b. P b \<Longrightarrow> a < b \<Longrightarrow> P a"
  shows "take (length (takeWhile (\<lambda>e. P (fst e)) bs)) bs = filter (\<lambda>e. P (fst e)) bs"
    "drop (length (takeWhile (\<lambda>e. P (fst e)) bs)) bs = filter (\<lambda>e. \<not> P (fst e)) bs"
proof -
  have "takeWhile (\<lambda>e. P (fst e)) bs = filter (\<lambda>e. P (fst e)) bs \<and> dropWhile (\<lambda>e. P (fst e)) bs = filter (\<lambda>e. \<not> P (fst e)) bs"
    using assms(1)
  proof (induction bs)
    case (Cons e bs)
    then show ?case
    proof (cases "P (fst e)")
      case False
      then have "\<forall>x \<in> set bs. \<not> P (fst x)" using Cons.prems assms(2) by auto
      then have "filter (\<lambda>e. P (fst e)) bs = []" "filter (\<lambda>e. \<not> P (fst e)) bs = bs" by (auto simp: filter_empty_conv)
      with False show ?thesis by simp
    qed simp
  qed simp
  then show "take (length (takeWhile (\<lambda>e. P (fst e)) bs)) bs = filter (\<lambda>e. P (fst e)) bs"
    "drop (length (takeWhile (\<lambda>e. P (fst e)) bs)) bs = filter (\<lambda>e. \<not> P (fst e)) bs"
    by (metis takeWhile_eq_take, metis dropWhile_eq_drop)
qed

lemma cut_lower:
  assumes "blocks_ok bs"
  shows "take (lower_bound k bs) bs = filter (\<lambda>e. fst e < k) bs" "drop (lower_bound k bs) bs = filter (\<lambda>e. k \<le> fst e) bs"
  using cut [OF blocks_ok_keys [OF assms], of "\<lambda>a. a < k"] by (simp_all add: lower_bound_def not_less)

lemma cut_upper:
  assumes "blocks_ok bs"
  shows "take (upper_bound_block k bs) bs = filter (\<lambda>e. fst e \<le> k) bs" "drop (upper_bound_block k bs) bs = filter (\<lambda>e. k < fst e) bs"
  using cut [OF blocks_ok_keys [OF assms], of "\<lambda>a. a \<le> k"] by (simp_all add: upper_bound_block_def not_le)

subsection \<open>Splitting\<close>

definition clean :: "nat \<Rightarrow> (nat \<times> Block) list \<Rightarrow> bool" where
  "clean at bs \<longleftrightarrow> (\<forall>e \<in> set bs. \<not> (fst e < at \<and> at < block_end (snd e)))"

text \<open>The split itself, when there is memory for it.\<close>

definition split_blocks :: "nat \<Rightarrow> (nat \<times> Block) list \<Rightarrow> bool \<times> (nat \<times> Block) list" where
  "split_blocks at blocks =
    (let it = upper_bound_block at blocks; (first, b) = blocks ! (it - 1) in
     if it = 0 \<or> first = at \<or> block_end b \<le> at then (False, blocks)
     else (True, insert_block it (at, b) (blocks[it - 1 := (first, b\<lparr>block_end := at\<rparr>)])))"

lemma splitAt_eq:
  "splitAt node at blocks =
    (case split_blocks at blocks of (split, blocks') \<Rightarrow>
      if split \<and> \<not> node at then (Inl BadAlloc, blocks) else (Inr split, blocks'))"
  by (auto simp: splitAt_def split_blocks_def Let_def split: prod.splits)

lemma split_blocks_cases [consumes 1, case_names none split]:
  assumes "blocks_ok bs"
  obtains (none) "split_blocks at bs = (False, bs)" "clean at bs"
  | (split) P f b S where "bs = P @ (f, b) # S" "f < at" "at < block_end b"
      "split_blocks at bs = (True, P @ (f, b\<lparr>block_end := at\<rparr>) # (at, b) # S)"
proof -
  let ?it = "upper_bound_block at bs"
  note c = cut_upper [OF assms, of at]
  have le: "?it \<le> length bs" by (simp add: upper_bound_block_def length_takeWhile_le)
  show thesis
  proof (cases "?it = 0")
    case True
    with c(2) have "filter (\<lambda>e. at < fst e) bs = bs" by simp
    then have "\<forall>e \<in> set bs. at < fst e" by (metis filter_id_conv)
    then have "clean at bs" by (auto simp: clean_def)
    with True none show thesis by (simp add: split_blocks_def Let_def)
  next
    case False
    let ?i = "?it - 1"
    obtain f b where fb: "bs ! ?i = (f, b)" by (rule prod.exhaust)
    have i: "?i < length bs" "Suc ?i = ?it" using False le by linarith+
    have bs: "bs = take ?i bs @ (f, b) # drop ?it bs" using id_take_nth_drop [OF i(1)] fb i(2) by simp
    have "(f, b) \<in> set (take ?it bs)" using i fb by (metis in_set_conv_nth length_take less_Suc_eq min.absorb2 nth_take le)
    then have fle: "f \<le> at" unfolding c(1) by auto
    show thesis
    proof (cases "f = at \<or> block_end b \<le> at")
      case True
      have "\<forall>e \<in> set (take ?i bs). block_end (snd e) \<le> f" using assms bs by (metis blocks_ok_append fst_conv list.set_intros(1))
      moreover have "\<forall>e \<in> set (drop ?it bs). at < fst e" unfolding c(2) by auto
      ultimately have "\<not> (fst e < at \<and> at < block_end (snd e))" if "e \<in> set (take ?i bs @ (f, b) # drop ?it bs)" for e
        using that True fle by fastforce
      then have "clean at bs" unfolding clean_def by (subst bs) blast
      with True False fb none show thesis by (simp add: split_blocks_def Let_def)
    next
      case no: False
      have "insert_block ?it (at, b) (bs[?i := (f, b\<lparr>block_end := at\<rparr>)]) =
          take ?i bs @ (f, b\<lparr>block_end := at\<rparr>) # (at, b) # drop ?it bs"
        using i by (simp add: insert_block_def upd_conv_take_nth_drop take_Suc_conv_app_nth [symmetric] min_def)
      with no False fb have "split_blocks at bs = (True, take ?i bs @ (f, b\<lparr>block_end := at\<rparr>) # (at, b) # drop ?it bs)"
        by (simp add: split_blocks_def Let_def)
      with split [OF bs] no fle show thesis by simp
    qed
  qed
qed


lemma split_blocks_ok:
  assumes "blocks_ok bs" "kPage dvd at"
  shows "blocks_ok (snd (split_blocks at bs))" "\<And>off t. holds (snd (split_blocks at bs)) off t \<longleftrightarrow> holds bs off t"
    "clean at (snd (split_blocks at bs))" "\<And>c. clean c bs \<Longrightarrow> clean c (snd (split_blocks at bs))"
proof -
  let ?bs = "snd (split_blocks at bs)"
  have "blocks_ok ?bs \<and> (\<forall>off t. holds ?bs off t \<longleftrightarrow> holds bs off t) \<and> clean at ?bs \<and> (\<forall>c. clean c bs \<longrightarrow> clean c ?bs)"
    using assms(1)
  proof (cases rule: split_blocks_cases [where at = at])
    case none
    with assms show ?thesis by simp
  next
    case (split P f b S)
    let ?l = "(f, b\<lparr>block_end := at\<rparr>)" and ?r = "(at, b)"
    have ok: "blocks_ok P" "block_ok (f, b)" "blocks_ok S" "\<forall>x \<in> set P. block_end (snd x) \<le> f"
      "\<forall>y \<in> set S. block_end b \<le> fst y" "\<forall>x \<in> set P. \<forall>y \<in> set S. block_end (snd x) \<le> fst y"
      using assms(1) unfolding split(1) by (auto simp: blocks_ok_append blocks_ok_Cons)
    have "block_ok ?l" "block_ok ?r" using ok(2) split(2,3) assms(2) by (auto simp: block_ok_def)
    then have "blocks_ok (P @ ?l # ?r # S)"
      using ok split(2,3) by (auto simp: blocks_ok_append blocks_ok_Cons)
    moreover have "holds (P @ ?l # ?r # S) off t \<longleftrightarrow> holds (P @ (f, b) # S) off t" for off t
      using split(2,3) by (auto simp: holds_def inside_def)
    moreover have "clean at (P @ ?l # ?r # S)"
    proof -
      have "\<not> (fst e < at \<and> at < block_end (snd e))" if "e \<in> set P \<union> set S" for e
        using that ok(4,5) split(2,3) by fastforce
      then show ?thesis by (auto simp: clean_def)
    qed
    moreover have "clean c (P @ ?l # ?r # S)" if "clean c (P @ (f, b) # S)" for c
      using that split(2,3) by (auto simp: clean_def)
    ultimately show ?thesis unfolding split(4) snd_conv unfolding split(1) by blast
  qed
  then show "blocks_ok ?bs" "\<And>off t. holds ?bs off t \<longleftrightarrow> holds bs off t" "clean at ?bs" "\<And>c. clean c bs \<Longrightarrow> clean c ?bs" by blast+
qed

text \<open>Undoing a split restores the map.\<close>

lemma unsplit_split:
  assumes "blocks_ok bs" "kPage dvd at" "fst (split_blocks at bs)"
  shows "unsplitAt at (snd (split_blocks at bs)) = bs"
  using assms(1)
proof (cases rule: split_blocks_cases [where at = at])
  case none
  with assms(3) show ?thesis by simp
next
  case (split P f b S)
  let ?l = "(f, b\<lparr>block_end := at\<rparr>)" and ?r = "(at, b)"
  have P: "\<forall>x \<in> set P. block_end (snd x) \<le> f" "\<forall>x \<in> set P. block_ok x"
    using assms(1) unfolding split(1) by (auto simp: blocks_ok_def sorted_wrt_append)
  then have "\<forall>x \<in> set P. fst x < at" using split(2) by (fastforce simp: block_ok_def)
  then have "lower_bound at (P @ ?l # ?r # S) = Suc (length P)"
    using split(2) by (simp add: lower_bound_def takeWhile_append)
  then show ?thesis
    unfolding split(4) snd_conv unsplitAt_def Let_def erase_block_def
    by (simp add: nth_append list_update_append split(1))
qed

subsection \<open>Erasing, retyping and inserting\<close>

lemma blocks_ok_filter: "blocks_ok bs \<Longrightarrow> blocks_ok (filter P bs)"
  by (auto simp: blocks_ok_def sorted_wrt_filter)

lemma erase_ok:
  assumes "blocks_ok bs" "clean lo bs" "clean hi bs" "lo \<le> hi"
  shows "blocks_ok (take (lower_bound lo bs) bs @ drop (lower_bound hi bs) bs)"
    "holds (take (lower_bound lo bs) bs @ drop (lower_bound hi bs) bs) off t \<longleftrightarrow> holds bs off t \<and> \<not> (lo \<le> off \<and> off < hi)"
proof -
  note c = cut_lower [OF assms(1)]
  have lows: "block_end (snd e) \<le> lo" if "e \<in> set bs" "fst e < lo" for e using assms(2) that by (auto simp: clean_def not_less)
  have mids: "block_end (snd e) \<le> hi" if "e \<in> set bs" "fst e < hi" for e using assms(3) that by (auto simp: clean_def not_less)
  show "blocks_ok (take (lower_bound lo bs) bs @ drop (lower_bound hi bs) bs)"
    unfolding c blocks_ok_append using assms(1,4) lows by (fastforce intro: blocks_ok_filter)
  have "(fst e < lo \<or> hi \<le> fst e) \<and> inside e off \<longleftrightarrow> inside e off \<and> \<not> (lo \<le> off \<and> off < hi)" if "e \<in> set bs" for e
    using lows [OF that] mids [OF that] assms(4) by (auto simp: inside_def)
  then show "holds (take (lower_bound lo bs) bs @ drop (lower_bound hi bs) bs) off t \<longleftrightarrow> holds bs off t \<and> \<not> (lo \<le> off \<and> off < hi)"
    unfolding c holds_def by auto
qed

lemma retype_from_map:
  "sorted_wrt (\<lambda>x y. fst x < fst y) bs \<Longrightarrow>
    retype_from hi type bs = map (\<lambda>e. if fst e < hi then (fst e, (snd e)\<lparr>block_type := type\<rparr>) else e) bs"
proof (induction hi type bs rule: retype_from.induct)
  case (2 hi type first b rest)
  show ?case
  proof (cases "first < hi")
    case False
    then have "\<forall>e \<in> set rest. \<not> fst e < hi" using 2(2) by auto
    then have "map (\<lambda>e. if fst e < hi then (fst e, (snd e)\<lparr>block_type := type\<rparr>) else e) rest = rest" by (intro map_idI) simp
    with False show ?thesis by simp
  qed (use 2 in simp)
qed simp

lemma retype_ok:
  assumes "blocks_ok bs" "clean lo bs" "clean hi bs" "lo \<le> hi"
    and "bs' = take (lower_bound lo bs) bs @ retype_from hi type (drop (lower_bound lo bs) bs)"
  shows "blocks_ok bs'" "holds bs' off t \<longleftrightarrow> (if lo \<le> off \<and> off < hi then t = type \<and> (\<exists>t. holds bs off t) else holds bs off t)"
proof -
  let ?g = "\<lambda>e. if lo \<le> fst e \<and> fst e < hi then (fst e, (snd e)\<lparr>block_type := type\<rparr>) else (e :: nat \<times> Block)"
  have "sorted_wrt (\<lambda>x y. fst x < fst y) (drop (lower_bound lo bs) bs)"
    using blocks_ok_keys [OF assms(1)] by (rule sorted_wrt_drop)
  note r = retype_from_map [OF this]
  have t: "take (lower_bound lo bs) bs = map ?g (take (lower_bound lo bs) bs)"
    unfolding cut_lower(1) [OF assms(1)] by (intro map_idI [symmetric]) simp
  have d: "retype_from hi type (drop (lower_bound lo bs) bs) = map ?g (drop (lower_bound lo bs) bs)"
    unfolding r by (intro map_cong refl) (auto simp: cut_lower(2) [OF assms(1)])
  have bs': "bs' = map ?g bs" unfolding assms(5) d by (subst t) (simp flip: map_append)
  have g: "fst (?g e) = fst e" "block_end (snd (?g e)) = block_end (snd e)" for e by simp_all
  have "block_ok (?g e) = block_ok e" for e unfolding block_ok_def g ..
  then show "blocks_ok bs'"
    using assms(1) unfolding bs' blocks_ok_def sorted_wrt_map g set_map by blast
  have ty: "block_type (snd (?g e)) = (if lo \<le> off \<and> off < hi then type else block_type (snd e))" if "e \<in> set bs" "inside e off" for e
  proof -
    have "\<not> (fst e < lo \<and> lo < block_end (snd e))" "\<not> (fst e < hi \<and> hi < block_end (snd e))"
      using assms(2,3) that(1) by (auto simp: clean_def)
    then have "lo \<le> fst e \<and> fst e < hi \<longleftrightarrow> lo \<le> off \<and> off < hi" using that(2) by (auto simp: inside_def)
    then show ?thesis by simp
  qed
  have ins: "inside (?g e) off = inside e off" for e unfolding inside_def g ..
  show "holds bs' off t \<longleftrightarrow> (if lo \<le> off \<and> off < hi then t = type \<and> (\<exists>t. holds bs off t) else holds bs off t)"
    unfolding bs' holds_def set_map bex_simps ins using ty by (metis (no_types, lifting))
qed

lemma emplace_ok:
  assumes "blocks_ok bs" "kPage dvd start" "kPage dvd len" "0 < len" "start + len \<le> kPoolBytes"
    and "\<And>off t. start \<le> off \<Longrightarrow> off < start + len \<Longrightarrow> \<not> holds bs off t"
  obtains i bs' where "emplace start \<lparr>block_end = start + len, block_type = type\<rparr> bs = Some (i, bs')" "blocks_ok bs'"
    "\<And>off t. holds bs' off t \<longleftrightarrow> holds bs off t \<or> (start \<le> off \<and> off < start + len \<and> t = type)" "erase_block i bs' = bs"
proof -
  let ?e = "(start, \<lparr>block_end = start + len, block_type = type\<rparr>)" and ?i = "lower_bound start bs"
  let ?bs = "insert_block ?i ?e bs"
  note c = cut_lower [OF assms(1), of start]
  have free: "\<not> inside e off" if "e \<in> set bs" "start \<le> off" "off < start + len" for e off
    using assms(6) [OF that(2,3)] that(1) by (auto simp: holds_def)
  have ok: "fst e < block_end (snd e)" if "e \<in> set bs" for e using assms(1) that by (auto simp: blocks_ok_def block_ok_def)
  have low: "block_end (snd e) \<le> start" if "e \<in> set bs" "fst e < start" for e
    using free [OF that(1), of start] that(2) assms(4) by (simp add: inside_def)
  have high: "start + len \<le> fst e" if "e \<in> set bs" "start \<le> fst e" for e
    using free [OF that] ok [OF that(1)] by (metis inside_def le_refl not_le)
  have le: "?i \<le> length bs" by (simp add: lower_bound_def length_takeWhile_le)
  have "fst (bs ! ?i) \<noteq> start" if "?i < length bs"
    using high [of "bs ! ?i"] that assms(4) by auto
  then have em: "emplace start \<lparr>block_end = start + len, block_type = type\<rparr> bs = Some (?i, ?bs)"
    by (auto simp: emplace_def Let_def)
  have set: "set ?bs = insert ?e (set bs)"
    by (metis Un_insert_right append_take_drop_id insert_block_def list.simps(15) set_append)
  have "blocks_ok (take ?i bs)" "blocks_ok (drop ?i bs)" unfolding c by (rule blocks_ok_filter [OF assms(1)])+
  moreover have "block_ok ?e" using assms(2-5) by (simp add: block_ok_def)
  moreover have "\<forall>x \<in> set (take ?i bs). block_end (snd x) \<le> start" unfolding c using low by simp
  moreover have "\<forall>x \<in> set (drop ?i bs). start + len \<le> fst x" unfolding c using high by simp
  ultimately have "blocks_ok ?bs" unfolding insert_block_def blocks_ok_append blocks_ok_Cons by fastforce
  moreover have "holds ?bs off t \<longleftrightarrow> holds bs off t \<or> (start \<le> off \<and> off < start + len \<and> t = type)" for off t
    unfolding holds_def set by (auto simp: inside_def)
  moreover have "erase_block ?i ?bs = bs" using le by (simp add: erase_block_def insert_block_def)
  ultimately show thesis using that [OF em] by blast
qed


subsection \<open>The pool as a map of pages\<close>

definition pages :: "PhysicalMemoryPool \<Rightarrow> nat \<Rightarrow> int option" where
  "pages pool p = type_at (pool_blocks pool) (p * kPage)"

definition pool_ok :: "PhysicalMemoryPool \<Rightarrow> bool" where
  "pool_ok pool \<longleftrightarrow> blocks_ok (pool_blocks pool) \<and> (\<forall>p. pool_used pool p \<longleftrightarrow> pages pool p \<noteq> None)"

lemma pool_ok_empty: "pool_ok empty_pool"
  by (simp add: pool_ok_def empty_pool_def pages_def type_at_def)

lemma page_byte: "page_down off = off div kPage * kPage" "kPage dvd u \<Longrightarrow> u div kPage * kPage = u"
  by (simp_all add: page_down_def)

lemma type_at_page: "pool_ok pool \<Longrightarrow> type_at (pool_blocks pool) off = pages pool (off div kPage)"
proof -
  assume "pool_ok pool"
  then have ok: "blocks_ok (pool_blocks pool)" by (simp add: pool_ok_def)
  have "type_at (pool_blocks pool) off = Some t \<longleftrightarrow> type_at (pool_blocks pool) (page_down off) = Some t" for t
    by (simp add: type_at_Some [OF ok] holds_page_down [OF ok])
  then show ?thesis unfolding pages_def page_byte(1) [symmetric] by (metis not_None_eq)
qed

lemma page_range: "kPage dvd lo \<Longrightarrow> kPage dvd hi \<Longrightarrow> lo \<le> p * kPage \<and> p * kPage < hi \<longleftrightarrow> lo div kPage \<le> p \<and> p < hi div kPage"
proof -
  assume "kPage dvd lo" "kPage dvd hi"
  then obtain i j where "lo = kPage * i" "hi = kPage * j" by (auto elim!: dvdE)
  then show ?thesis by (simp add: mult.commute [of p])
qed

text \<open>An update of the block map with a matching update of the flags.\<close>

lemma pool_okI:
  assumes "pool_ok pool" "blocks_ok bs" "kPage dvd lo" "kPage dvd hi"
    and "\<And>off t. holds bs off t \<longleftrightarrow> (if lo \<le> off \<and> off < hi then new (off div kPage) = Some t else holds (pool_blocks pool) off t)"
    and "\<And>p. used p \<longleftrightarrow> (if lo div kPage \<le> p \<and> p < hi div kPage then new p \<noteq> None else pool_used pool p)"
    and "pool' = \<lparr>pool_used = used, pool_blocks = bs\<rparr>"
  shows "pool_ok pool'" "pages pool' p = (if lo div kPage \<le> p \<and> p < hi div kPage then new p else pages pool p)"
proof -
  have ok: "blocks_ok (pool_blocks pool)" using assms(1) by (simp add: pool_ok_def)
  have pg: "pages pool' p = (if lo div kPage \<le> p \<and> p < hi div kPage then new p else pages pool p)" for p
  proof (cases "lo div kPage \<le> p \<and> p < hi div kPage")
    case True
    then have "lo \<le> p * kPage \<and> p * kPage < hi" using page_range [OF assms(3,4)] by simp
    then have "type_at bs (p * kPage) = Some t \<longleftrightarrow> new p = Some t" for t
      using assms(5) [of "p * kPage" t] by (simp add: type_at_Some [OF assms(2)])
    with True show ?thesis by (metis assms(7) not_None_eq pages_def PhysicalMemoryPool.select_convs(2))
  next
    case False
    then have "\<not> (lo \<le> p * kPage \<and> p * kPage < hi)" using page_range [OF assms(3,4)] by simp
    then have "type_at bs (p * kPage) = type_at (pool_blocks pool) (p * kPage)"
      using assms(5) [of "p * kPage"] by (intro type_at_cong [OF assms(2) ok]) auto
    with False show ?thesis by (auto simp: assms(7) pages_def)
  qed
  then show "pages pool' p = (if lo div kPage \<le> p \<and> p < hi div kPage then new p else pages pool p)" .
  show "pool_ok pool'" unfolding pool_ok_def pg using assms(1,2,6) by (simp add: assms(7) pool_ok_def)
qed

lemma mark: "mark f first n b p = (if first \<le> p \<and> p < first + n then b else f p)"
  by (induction n) auto

lemma lastUsedPage_None: "lastUsedPage pool first count = None \<longleftrightarrow> (\<forall>p. first \<le> p \<and> p < first + count \<longrightarrow> \<not> pool_used pool p)"
proof (induction count)
  case (Suc n)
  show ?case
  proof (cases "pool_used pool (first + n)")
    case True
    then have "\<not> (\<forall>p. first \<le> p \<and> p < first + Suc n \<longrightarrow> \<not> pool_used pool p)" by (intro notI) (drule spec [of _ "first + n"], simp)
    with True show ?thesis by simp
  next
    case False
    with Suc show ?thesis by (auto simp: less_Suc_eq)
  qed
qed auto

subsection \<open>Allocation\<close>

text \<open>A place for a run of pages: aligned, in the searched range, and free.\<close>

definition fits :: "PhysicalMemoryPool \<Rightarrow> nat \<Rightarrow> nat \<Rightarrow> nat \<Rightarrow> nat \<Rightarrow> nat \<Rightarrow> bool" where
  "fits pool align len lo limit u \<longleftrightarrow> align dvd u \<and> lo \<le> u \<and> u + len \<le> limit \<and>
     (\<forall>p. u div kPage \<le> p \<and> p < (u + len) div kPage \<longrightarrow> pages pool p = None)"

lemma search_first_fit:
  assumes "pool_ok pool" "0 < align" "kPage dvd align" "kPage dvd len" "limit < 2 ^ 64" "align dvd cur"
  shows "case search pool align len limit cur of
      None \<Rightarrow> \<forall>u. \<not> fits pool align len cur limit u
    | Some u \<Rightarrow> fits pool align len cur limit u \<and> (\<forall>v < u. \<not> fits pool align len cur limit v)"
  using assms
proof (induction pool align len limit cur rule: search.induct)
  case (1 pool align len limit cur)
  note prems = "1.prems"
  have cur: "kPage dvd cur" using prems(3,6) by (rule dvd_trans)
  have used: "pool_used pool p \<longleftrightarrow> pages pool p \<noteq> None" for p using prems(1) by (simp add: pool_ok_def)
  have div: "(cur + len) div kPage = cur div kPage + len div kPage" using prems(4) by (rule div_plus_div_distrib_dvd_right)
  show ?case
  proof (cases "cur \<le> limit \<and> len \<le> limit - cur")
    case False
    then have "\<not> fits pool align len cur limit u" for u by (auto simp: fits_def)
    then show ?thesis using False by (subst search.simps) auto
  next
    case room: True
    show ?thesis
    proof (cases "lastUsedPage pool (cur div kPage) (len div kPage)")
      case None
      then have "fits pool align len cur limit cur"
        using room prems(6) used unfolding fits_def div by (auto simp: lastUsedPage_None)
      moreover have "\<not> fits pool align len cur limit v" if "v < cur" for v using that by (simp add: fits_def)
      ultimately show ?thesis using room None by (subst search.simps) simp
    next
      case (Some p)
      note p = lastUsedPage_bounds [OF Some]
      have beyond: "(p + 1) * kPage \<le> u" if f: "fits pool align len cur limit u" for u
      proof (rule ccontr)
        assume "\<not> (p + 1) * kPage \<le> u"
        moreover have "kPage dvd u" using f dvd_trans [OF prems(3)] by (simp add: fits_def)
        then obtain i where u: "u = kPage * i" by (rule dvdE)
        ultimately have "kPage * i < kPage * (p + 1)" by (simp only: not_le mult.commute [of _ kPage])
        then have "i \<le> p" unfolding mult_less_cancel1 by simp
        have "cur div kPage \<le> i" using f u by (auto simp: fits_def dest: div_le_mono [of _ _ kPage])
        have "(u + len) div kPage = i + len div kPage" using prems(4) u by (simp add: div_plus_div_distrib_dvd_right)
        with f p \<open>i \<le> p\<close> \<open>cur div kPage \<le> i\<close> u have "pages pool p = None" by (auto simp: fits_def)
        with p used show False by blast
      qed
      show ?thesis
      proof (cases "RoundUp ((p + 1) * kPage) align")
        case None
        have "\<not> fits pool align len cur limit u" for u
        proof
          assume f: "fits pool align len cur limit u"
          then have "2 ^ 64 \<le> u" using RoundUp_None [OF None prems(2) _ beyond [OF f]] by (simp add: fits_def)
          with f prems(5) show False by (simp add: fits_def)
        qed
        then show ?thesis using room Some None by (subst search.simps) simp
      next
        case w: (Some w)
        note r = RoundUp_Some [OF w prems(2)]
        have eq: "search pool align len limit cur = search pool align len limit w"
          using room Some w by (subst search.simps) simp
        have "cur < (cur div kPage + 1) * kPage" by (simp add: kPage_def)
        also have "\<dots> \<le> (p + 1) * kPage" using p by (intro mult_le_mono1) simp
        also have "\<dots> \<le> w" by (rule r(1))
        finally have "cur \<le> w" by simp
        then have same: "fits pool align len cur limit u \<longleftrightarrow> fits pool align len w limit u" for u
          using r(4) [OF _ beyond] by (auto simp: fits_def)
        show ?thesis unfolding eq same using "1.IH" [OF room Some w prems(1-5) r(2)] .
      qed
    qed
  qed
qed


text \<open>Committing a free run; the host may refuse, which leaves the pool as it was.\<close>

lemma commit_free [consumes 6, case_names refused committed]:
  assumes "pool_ok pool" "kPage dvd start" "kPage dvd len" "0 < len" "start + len \<le> kPoolBytes"
    and "\<forall>p. start div kPage \<le> p \<and> p < (start + len) div kPage \<longrightarrow> pages pool p = None"
  obtains (refused) e where "commit node create start len type pool = (Inl e, pool)"
      "\<not> node start \<and> e = BadAlloc \<or> node start \<and> (\<exists>x. create start len type = Some x \<and> e = raised x)"
  | (committed) pool' where "node start" "create start len type = None"
      "commit node create start len type pool = (Inr (), pool')" "pool_ok pool'"
      "\<And>p. pages pool' p = (if start div kPage \<le> p \<and> p < (start + len) div kPage then Some type else pages pool p)"
proof -
  have ok: "blocks_ok (pool_blocks pool)" using assms(1) by (simp add: pool_ok_def)
  have d: "kPage dvd start + len" using assms(2,3) by simp
  have free: "\<not> holds (pool_blocks pool) off t" if "start \<le> off" "off < start + len" for off t
  proof -
    have "start div kPage \<le> off div kPage" using that(1) by (rule div_le_mono)
    moreover have "off div kPage < (start + len) div kPage" using that(2) d by (simp add: less_mult_imp_div_less dvd_div_mult_self)
    ultimately have "pages pool (off div kPage) = None" using assms(6) by blast
    then show ?thesis using type_at_page [OF assms(1), of off] type_at_None by metis
  qed
  obtain i bs where em: "emplace start \<lparr>block_end = start + len, block_type = type\<rparr> (pool_blocks pool) = Some (i, bs)"
    "blocks_ok bs" "\<And>off t. holds bs off t \<longleftrightarrow> holds (pool_blocks pool) off t \<or> (start \<le> off \<and> off < start + len \<and> t = type)"
    "erase_block i bs = pool_blocks pool"
    using emplace_ok [OF ok assms(2-5) free, of type] by blast
  show thesis
  proof (cases "node start \<and> create start len type = None")
    case False
    show thesis
    proof (cases "node start")
      case node: True
      with False obtain x where x: "create start len type = Some x" by auto
      then show thesis using node em by (intro refused [of "raised x"]) (simp_all add: commit_def)
    qed (intro refused [of BadAlloc], simp_all add: commit_def)
  next
    case True
    let ?pool = "\<lparr>pool_used = mark (pool_used pool) (start div kPage) (len div kPage) True, pool_blocks = bs\<rparr>"
    have c: "commit node create start len type pool = (Inr (), ?pool)" using True em(1) by (cases pool) (simp add: commit_def)
    have div: "(start + len) div kPage = start div kPage + len div kPage" using assms(3) by (rule div_plus_div_distrib_dvd_right)
    have h: "holds bs off t \<longleftrightarrow> (if start \<le> off \<and> off < start + len then Some type = Some t else holds (pool_blocks pool) off t)" for off t
      using em(3) free by auto
    have u: "mark (pool_used pool) (start div kPage) (len div kPage) True p \<longleftrightarrow>
        (if start div kPage \<le> p \<and> p < (start + len) div kPage then Some type \<noteq> None else pool_used pool p)" for p
      by (simp add: mark div)
    note res = pool_okI [OF assms(1) em(2) assms(2) d, where new = "\<lambda>_. Some type", OF h u refl]
    show thesis using True by (intro committed [OF _ _ c res]) simp_all
  qed
qed

lemma Alloc_sizes:
  assumes "NormalizeAlignment alignment = Some align" "NormalizeLength len = Some alignedLen" "0 < len"
  shows "0 < align" "kPage dvd align" "alignment \<le> align" "0 < alignedLen" "kPage dvd alignedLen" "len \<le> alignedLen" "alignedLen \<le> kPoolBytes"
proof -
  from RoundUp_Some [OF assms(1) [unfolded NormalizeAlignment_def]] show "kPage dvd align" "alignment \<le> align" "0 < align"
    by (simp_all add: kPage_def)
  from assms(2) have r: "RoundUp len kPage = Some alignedLen" "alignedLen \<le> kPoolBytes"
    by (auto simp: NormalizeLength_def split: option.splits if_splits)
  with RoundUp_Some [OF r(1)] assms(3) show "0 < alignedLen" "kPage dvd alignedLen" "len \<le> alignedLen" "alignedLen \<le> kPoolBytes" by simp_all
qed

lemma Alloc_cases [consumes 6, case_names full found]:
  assumes "pool_ok pool" "NormalizeAlignment alignment = Some align" "NormalizeLength len = Some alignedLen" "0 < len"
    and "lo = unat searchStart" "limit = min (unat searchEnd) kPoolBytes"
  obtains (full) "\<And>u. \<not> fits pool align alignedLen lo limit u"
      "Alloc node create searchStart searchEnd len alignment type True pool = (Inr (Inl SCE_KERNEL_ERROR_EAGAIN), pool)"
  | (found) u where "fits pool align alignedLen lo limit u" "\<And>v. v < u \<Longrightarrow> \<not> fits pool align alignedLen lo limit v"
      "Alloc node create searchStart searchEnd len alignment type True pool =
        (case commit node create u alignedLen type pool of (Inl e, pool) \<Rightarrow> (Inl e, pool) | (Inr _, pool) \<Rightarrow> (Inr (Inr u), pool))"
proof -
  note sz = Alloc_sizes [OF assms(2-4)]
  have lim: "limit < 2 ^ 64" unfolding assms(6) by (simp add: kPoolBytes_def)
  let ?call = "Alloc node create searchStart searchEnd len alignment type True pool"
  show thesis
  proof (cases "limit \<le> lo")
    case True
    then have "\<not> fits pool align alignedLen lo limit u" for u using sz(4) by (auto simp: fits_def)
    moreover have "?call = (Inr (Inl SCE_KERNEL_ERROR_EAGAIN), pool)"
      using True assms(2-6) by (simp add: Alloc_def Let_def)
    ultimately show thesis by (rule full)
  next
    case low: False
    show thesis
    proof (cases "RoundUp lo align")
      case None
      have "\<not> fits pool align alignedLen lo limit u" for u
        using RoundUp_None [OF None sz(1)] lim by (fastforce simp: fits_def)
      moreover have "?call = (Inr (Inl SCE_KERNEL_ERROR_EAGAIN), pool)"
        using low None assms(2-6) by (simp add: Alloc_def Let_def)
      ultimately show thesis by (rule full)
    next
      case (Some cur)
      note r = RoundUp_Some [OF Some sz(1)]
      have same: "fits pool align alignedLen cur limit u \<longleftrightarrow> fits pool align alignedLen lo limit u" for u
        using r(1,4) by (auto simp: fits_def)
      note ff = search_first_fit [OF assms(1) sz(1,2,5) lim r(2), unfolded same]
      show thesis
      proof (cases "search pool align alignedLen limit cur")
        case None
        then have "?call = (Inr (Inl SCE_KERNEL_ERROR_EAGAIN), pool)"
          using low Some assms(2-6) by (simp add: Alloc_def Let_def)
        with None ff show thesis by (intro full) simp_all
      next
        case s: (Some u)
        then have "?call = (case commit node create u alignedLen type pool of (Inl e, pool) \<Rightarrow> (Inl e, pool) | (Inr _, pool) \<Rightarrow> (Inr (Inr u), pool))"
          using low Some assms(2-6) by (simp add: Alloc_def Let_def)
        with s ff show thesis by (intro found) simp_all
      qed
    qed
  qed
qed


subsection \<open>Freeing and retyping\<close>

lemma PageSpan_Some:
  assumes "PageSpan start len = Some (lo, hi)"
  shows "kPage dvd lo" "kPage dvd hi" "lo \<le> start" "start + len \<le> hi" "start < lo + kPage" "hi < start + len + kPage"
    "lo < hi" "hi \<le> kPoolBytes"
proof -
  from assms have c: "0 < len" "start + len \<le> kPoolBytes" "lo = page_down start" "hi = page_down (start + len + kPage - 1)"
    by (auto simp: PageSpan_def split: if_splits)
  show "kPage dvd lo" "lo \<le> start" "start < lo + kPage" unfolding c(3) by (rule page_down)+
  show "kPage dvd hi" unfolding c(4) by (rule page_down)
  show fin: "start + len \<le> hi" using page_down(3) [of "start + len + kPage - 1"] by (simp add: c(4) kPage_def)
  show "hi < start + len + kPage" using page_down(1) [of "start + len + kPage - 1"] by (simp add: c(4) kPage_def)
  show "lo < hi" using fin \<open>lo \<le> start\<close> c(1) by linarith
  obtain i j where ij: "hi = kPage * i" "kPoolBytes = kPage * j" using \<open>kPage dvd hi\<close> kPoolBytes_pages(1) by (auto elim!: dvdE)
  have "hi < kPoolBytes + kPage" using \<open>hi < start + len + kPage\<close> c(2) by linarith
  then have "kPage * i < kPage * (j + 1)" using ij by simp
  then have "i \<le> j" unfolding mult_less_cancel1 by simp
  then show "hi \<le> kPoolBytes" using ij by (metis mult_le_mono2)
qed

lemma allUsed_pages: "pool_ok pool \<Longrightarrow> allUsed pool first count \<longleftrightarrow> (\<forall>p. first \<le> p \<and> p < first + count \<longrightarrow> pages pool p \<noteq> None)"
proof -
  assume "pool_ok pool"
  then have "allUsed pool first count \<longleftrightarrow> (\<forall>i < count. pages pool (first + i) \<noteq> None)"
    by (simp add: allUsed_def list_all_iff pool_ok_def Ball_def)
  also have "\<dots> \<longleftrightarrow> (\<forall>p. first \<le> p \<and> p < first + count \<longrightarrow> pages pool p \<noteq> None)"
    by (metis le_add1 le_Suc_ex nat_add_left_cancel_less)
  finally show ?thesis .
qed

text \<open>The split of both ends of a span.\<close>

lemma split_both:
  assumes "blocks_ok bs" "kPage dvd lo" "kPage dvd hi" "split_blocks lo bs = (sl, bs1)" "split_blocks hi bs1 = (sh, bs2)"
  shows "blocks_ok bs2" "\<And>off t. holds bs2 off t \<longleftrightarrow> holds bs off t" "clean lo bs2" "clean hi bs2"
    "undo_split sl lo (undo_split sh hi bs2) = bs" "undo_split sl lo bs1 = bs"
proof -
  note s1 = split_blocks_ok [OF assms(1,2), unfolded assms(4) snd_conv]
  note s2 = split_blocks_ok [OF s1(1) assms(3), unfolded assms(5) snd_conv]
  show "blocks_ok bs2" "clean lo bs2" "clean hi bs2" using s2 s1(3) by blast+
  show "holds bs2 off t \<longleftrightarrow> holds bs off t" for off t using s1(2) s2(2) by blast
  have "(if sh then unsplitAt hi bs2 else bs2) = bs1"
  proof (cases sh)
    case True
    then show ?thesis using unsplit_split [OF s1(1) assms(3)] assms(5) by simp
  next
    case False
    with s1(1) assms(5) show ?thesis by (cases rule: split_blocks_cases [where at = hi]) auto
  qed
  moreover have "(if sl then unsplitAt lo bs1 else bs1) = bs"
  proof (cases sl)
    case True
    then show ?thesis using unsplit_split [OF assms(1,2)] assms(4) by simp
  next
    case False
    with assms(1,4) show ?thesis by (cases rule: split_blocks_cases [where at = lo]) auto
  qed
  ultimately show "undo_split sl lo (undo_split sh hi bs2) = bs" "undo_split sl lo bs1 = bs"
    by (simp_all add: undo_split_def)
qed

lemma release_cases [consumes 1, case_names outside unallocated refused released]:
  assumes "pool_ok pool"
  obtains (outside) "PageSpan start len = None" "release node forget start len req pool = (Inr False, pool)"
  | (unallocated) lo hi p where "PageSpan start len = Some (lo, hi)" "req" "lo div kPage \<le> p" "p < hi div kPage" "pages pool p = None"
      "release node forget start len req pool = (Inr False, pool)"
  | (refused) lo hi e where "PageSpan start len = Some (lo, hi)"
      "e = BadAlloc \<and> \<not> (node lo \<and> node hi) \<or> (\<exists>x. forget lo (hi - lo) = Some x \<and> e = raised x)"
      "req \<Longrightarrow> \<forall>p. lo div kPage \<le> p \<and> p < hi div kPage \<longrightarrow> pages pool p \<noteq> None"
      "release node forget start len req pool = (Inl e, pool)"
  | (released) lo hi pool' where "PageSpan start len = Some (lo, hi)" "forget lo (hi - lo) = None"
      "req \<Longrightarrow> \<forall>p. lo div kPage \<le> p \<and> p < hi div kPage \<longrightarrow> pages pool p \<noteq> None"
      "release node forget start len req pool = (Inr True, pool')" "pool_ok pool'"
      "\<And>p. pages pool' p = (if lo div kPage \<le> p \<and> p < hi div kPage then None else pages pool p)"
proof (cases "PageSpan start len")
  case None
  then show thesis by (intro outside) (simp_all add: release_def)
next
  case (Some lohi)
  obtain lo hi where lohi: "lohi = (lo, hi)" by (rule prod.exhaust)
  note span = PageSpan_Some [OF Some [unfolded lohi]]
  have ok: "blocks_ok (pool_blocks pool)" using assms by (simp add: pool_ok_def)
  have cnt: "lo div kPage + (hi - lo) div kPage = hi div kPage"
    using span(1,2,7) by (auto elim!: dvdE simp flip: right_diff_distrib')
  have all: "allUsed pool (lo div kPage) ((hi - lo) div kPage) \<longleftrightarrow>
      (\<forall>p. lo div kPage \<le> p \<and> p < hi div kPage \<longrightarrow> pages pool p \<noteq> None)"
    by (simp add: allUsed_pages [OF assms] cnt)
  show thesis
  proof (cases "req \<and> \<not> allUsed pool (lo div kPage) ((hi - lo) div kPage)")
    case True
    then obtain p where "lo div kPage \<le> p" "p < hi div kPage" "pages pool p = None" unfolding all by blast
    moreover have "release node forget start len req pool = (Inr False, pool)" using True Some lohi by (simp add: release_def Let_def)
    ultimately show thesis using unallocated [OF Some [unfolded lohi]] True by blast
  next
    case False
    then have req: "req \<Longrightarrow> \<forall>p. lo div kPage \<le> p \<and> p < hi div kPage \<longrightarrow> pages pool p \<noteq> None" unfolding all by blast
    obtain sl bs1 where s1: "split_blocks lo (pool_blocks pool) = (sl, bs1)" by (rule prod.exhaust)
    obtain sh bs2 where s2: "split_blocks hi bs1 = (sh, bs2)" by (rule prod.exhaust)
    note both = split_both [OF ok span(1,2) s1 s2]
    have a: "splitAt node lo (pool_blocks pool) = (if sl \<and> \<not> node lo then (Inl BadAlloc, pool_blocks pool) else (Inr sl, bs1))"
      "splitAt node hi bs1 = (if sh \<and> \<not> node hi then (Inl BadAlloc, bs1) else (Inr sh, bs2))"
      by (simp_all add: splitAt_eq s1 s2)
    have roll: "undo_split b lo bs1 = pool_blocks pool" if "b = sl" for b using that both(6) by simp
    have roll2: "undo_split b lo (undo_split c hi bs2) = pool_blocks pool" if "b = sl" "c = sh" for b c using that both(5) by simp
    note call = release_def a roll roll2
    consider (nodes) "sl \<and> \<not> node lo \<or> sh \<and> \<not> node hi"
      | (throws) x where "\<not> (sl \<and> \<not> node lo)" "\<not> (sh \<and> \<not> node hi)" "forget lo (hi - lo) = Some x"
      | (returns) "\<not> (sl \<and> \<not> node lo)" "\<not> (sh \<and> \<not> node hi)" "forget lo (hi - lo) = None" by blast
    then show thesis
    proof cases
      case nodes
      have "release node forget start len req pool = (Inl BadAlloc, pool)"
        using False nodes Some lohi by (cases "sl \<and> \<not> node lo") (auto simp: call)
      moreover have "BadAlloc = BadAlloc \<and> \<not> (node lo \<and> node hi)" using nodes by blast
      ultimately show thesis using refused [OF Some [unfolded lohi]] req by blast
    next
      case (throws x)
      have "release node forget start len req pool = (Inl (raised x), pool)"
        using False throws Some lohi by (auto simp: call)
      then show thesis using refused [OF Some [unfolded lohi]] throws(3) req by blast
    next
      case f: returns
      note er = erase_ok [OF both(1,3,4) less_imp_le [OF span(7)]]
      let ?pool = "\<lparr>pool_used = mark (pool_used pool) (lo div kPage) ((hi - lo) div kPage) False,
        pool_blocks = take (lower_bound lo bs2) bs2 @ drop (lower_bound hi bs2) bs2\<rparr>"
      have "pool\<lparr>pool_blocks := pool_blocks ?pool, pool_used := pool_used ?pool\<rparr> = ?pool" by (cases pool) simp
      then have "release node forget start len req pool = (Inr True, ?pool)"
        using False f Some lohi by (auto simp: call Let_def)
      moreover have h: "holds (take (lower_bound lo bs2) bs2 @ drop (lower_bound hi bs2) bs2) off t \<longleftrightarrow>
          (if lo \<le> off \<and> off < hi then None = Some t else holds (pool_blocks pool) off t)" for off t
        unfolding er(2) both(2) by auto
      moreover have u: "mark (pool_used pool) (lo div kPage) ((hi - lo) div kPage) False p \<longleftrightarrow>
          (if lo div kPage \<le> p \<and> p < hi div kPage then (None :: int option) \<noteq> None else pool_used pool p)" for p
        by (simp add: mark cnt)
      ultimately show thesis
        using released [OF Some [unfolded lohi] f(3)] req pool_okI [OF assms er(1) span(1,2), where new = "\<lambda>_. None", OF h u refl] by blast
    qed
  qed
qed

lemma Retype_cases [consumes 1, case_names outside refused retyped]:
  assumes "pool_ok pool"
  obtains (outside) "PageSpan start len = None" "Retype node start len type pool = (Inr False, pool)"
  | (refused) lo hi where "PageSpan start len = Some (lo, hi)" "\<not> (node lo \<and> node hi)"
      "Retype node start len type pool = (Inl BadAlloc, pool)"
  | (retyped) lo hi pool' where "PageSpan start len = Some (lo, hi)" "Retype node start len type pool = (Inr True, pool')" "pool_ok pool'"
      "\<And>p. pages pool' p =
        (if lo div kPage \<le> p \<and> p < hi div kPage \<and> pages pool p \<noteq> None then Some type else pages pool p)"
proof (cases "PageSpan start len")
  case None
  then show thesis by (intro outside) (simp_all add: Retype_def)
next
  case (Some lohi)
  obtain lo hi where lohi: "lohi = (lo, hi)" by (rule prod.exhaust)
  note span = PageSpan_Some [OF Some [unfolded lohi]]
  have bok: "blocks_ok (pool_blocks pool)" using assms(1) by (simp add: pool_ok_def)
  obtain sl bs1 where s1: "split_blocks lo (pool_blocks pool) = (sl, bs1)" by (rule prod.exhaust)
  obtain sh bs2 where s2: "split_blocks hi bs1 = (sh, bs2)" by (rule prod.exhaust)
  have a: "splitAt node lo (pool_blocks pool) = (if sl \<and> \<not> node lo then (Inl BadAlloc, pool_blocks pool) else (Inr sl, bs1))"
    "splitAt node hi bs1 = (if sh \<and> \<not> node hi then (Inl BadAlloc, bs1) else (Inr sh, bs2))"
    by (simp_all add: splitAt_eq s1 s2)
  note both = split_both [OF bok span(1,2) s1 s2]
  have roll: "undo_split b lo bs1 = pool_blocks pool" if "b = sl" for b using that both(6) by simp
  note call = Retype_def a roll
  show thesis
  proof (cases "sl \<and> \<not> node lo \<or> sh \<and> \<not> node hi")
    case True
    have "Retype node start len type pool = (Inl BadAlloc, pool)"
      using True Some lohi by (cases "sl \<and> \<not> node lo") (auto simp: call)
    with True show thesis by (intro refused [OF Some [unfolded lohi]]) blast+
  next
    case False
    let ?bs = "take (lower_bound lo bs2) bs2 @ retype_from hi type (drop (lower_bound lo bs2) bs2)"
    let ?pool = "\<lparr>pool_used = pool_used pool, pool_blocks = ?bs\<rparr>"
    note re = retype_ok [OF both(1,3,4) less_imp_le [OF span(7)] refl, of type]
    have "pool\<lparr>pool_blocks := ?bs\<rparr> = ?pool" by (cases pool) simp
    then have call_done: "Retype node start len type pool = (Inr True, ?pool)"
      using False Some lohi by (simp add: call Let_def)
    let ?new = "\<lambda>p. if pages pool p \<noteq> None then Some type else None"
    have h: "holds ?bs off t \<longleftrightarrow> (if lo \<le> off \<and> off < hi then ?new (off div kPage) = Some t else holds (pool_blocks pool) off t)" for off t
      unfolding re(2) both(2) using type_at_page [OF assms(1), of off] type_at_None [of "pool_blocks pool" off] by auto
    have u: "pool_used pool p \<longleftrightarrow> (if lo div kPage \<le> p \<and> p < hi div kPage then ?new p \<noteq> None else pool_used pool p)" for p
      using assms(1) by (simp add: pool_ok_def)
    note res = pool_okI [OF assms(1) re(1) span(1,2) h u refl]
    show thesis by (rule retyped [OF Some [unfolded lohi] call_done res(1)]) (simp add: res(2))
  qed
qed


subsection \<open>Queries\<close>

lemma free_run_maximal:
  assumes "pool_ok pool" "kPage dvd cur" "cur \<le> lim" "r = free_run pool lim cur"
  shows "kPage dvd r \<and> cur + r \<le> lim \<and> (\<forall>p. cur div kPage \<le> p \<and> p < (cur + r) div kPage \<longrightarrow> pages pool p = None) \<and>
    (cur + r + kPage \<le> lim \<longrightarrow> pages pool ((cur + r) div kPage) \<noteq> None)"
  using assms
proof (induction pool lim cur arbitrary: r rule: free_run.induct)
  case (1 pool lim cur)
  have used: "pool_used pool p \<longleftrightarrow> pages pool p \<noteq> None" for p using "1.prems"(1) by (simp add: pool_ok_def)
  show ?case
  proof (cases "cur \<le> lim \<and> kPage \<le> lim - cur \<and> \<not> pool_used pool (cur div kPage)")
    case False
    then have "r = 0" unfolding "1.prems"(4) by (subst free_run.simps) auto
    with False "1.prems" used show ?thesis by auto
  next
    case True
    let ?r = "free_run pool lim (cur + kPage)"
    have r: "r = kPage + ?r" unfolding "1.prems"(4) using True by (subst free_run.simps) auto
    have "kPage dvd cur + kPage" "cur + kPage \<le> lim" using "1.prems"(2) True by auto
    note IH = "1.IH" [OF True "1.prems"(1) this refl]
    have "(cur + kPage) div kPage = cur div kPage + 1" by (simp add: kPage_def)
    then have "pages pool p = None" if "cur div kPage \<le> p" "p < (cur + kPage + ?r) div kPage" for p
      using that IH True used by (cases "p = cur div kPage") auto
    with IH show ?thesis unfolding r by (simp add: add.assoc)
  qed
qed

lemma run_end_spec:
  assumes "pool_ok pool" "kPage dvd cur" "kPage dvd limit" "cur \<le> limit" "e = run_end pool limit cur"
  shows "kPage dvd e \<and> cur \<le> e \<and> e \<le> limit \<and> (\<forall>p. cur div kPage \<le> p \<and> p < e div kPage \<longrightarrow> pages pool p = None) \<and>
    (e < limit \<longrightarrow> pages pool (e div kPage) \<noteq> None)"
  using assms
proof (induction pool limit cur arbitrary: e rule: run_end.induct)
  case (1 pool limit cur)
  have used: "pool_used pool p \<longleftrightarrow> pages pool p \<noteq> None" for p using "1.prems"(1) by (simp add: pool_ok_def)
  show ?case
  proof (cases "cur < limit \<and> \<not> pool_used pool (cur div kPage)")
    case False
    then have "e = cur" unfolding "1.prems"(5) by (subst run_end.simps) auto
    with False "1.prems" used show ?thesis by auto
  next
    case True
    have e: "e = run_end pool limit (cur + kPage)" unfolding "1.prems"(5) using True by (subst run_end.simps) auto
    have "cur + kPage \<le> limit"
    proof -
      obtain i j where ij: "cur = kPage * i" "limit = kPage * j" using "1.prems"(2,3) by (auto elim!: dvdE)
      then have "i + 1 \<le> j" using True by auto
      then have "kPage * (i + 1) \<le> kPage * j" by (rule mult_le_mono2)
      then show ?thesis using ij by simp
    qed
    moreover have "kPage dvd cur + kPage" using "1.prems"(2) by simp
    ultimately have IH: "kPage dvd e \<and> cur + kPage \<le> e \<and> e \<le> limit \<and>
        (\<forall>p. (cur + kPage) div kPage \<le> p \<and> p < e div kPage \<longrightarrow> pages pool p = None) \<and> (e < limit \<longrightarrow> pages pool (e div kPage) \<noteq> None)"
      using "1.IH" [OF True "1.prems"(1)] "1.prems"(3) e by blast
    have "(cur + kPage) div kPage = cur div kPage + 1" by (simp add: kPage_def)
    then have "pages pool p = None" if "cur div kPage \<le> p" "p < e div kPage" for p
      using that IH True used by (cases "p = cur div kPage") auto
    with IH show ?thesis by auto
  qed
qed

text \<open>Every free run of whole pages that lies in the range is at most as long as the best one, or is still ahead.\<close>

definition best_until :: "PhysicalMemoryPool \<Rightarrow> nat \<Rightarrow> nat \<Rightarrow> nat \<Rightarrow> nat \<Rightarrow> nat \<times> nat \<Rightarrow> bool" where
  "best_until pool align lo limit cur best \<longleftrightarrow>
     (snd best = 0 \<or> fits pool align (snd best) lo limit (fst best)) \<and>
     (\<forall>u m. fits pool align m lo limit u \<and> kPage dvd m \<and> 0 < m \<longrightarrow> m \<le> snd best \<or> cur \<le> u)"

lemma fits_page: "fits pool align m lo limit u \<Longrightarrow> kPage dvd align \<Longrightarrow> kPage dvd u"
  by (auto simp: fits_def intro: dvd_trans)

lemma page_next: "kPage dvd u \<Longrightarrow> kPage dvd v \<Longrightarrow> v < u \<Longrightarrow> v + kPage \<le> u"
proof -
  assume "kPage dvd u" "kPage dvd v" "v < u"
  then obtain i j where ij: "u = kPage * i" "v = kPage * j" by (auto elim!: dvdE)
  with \<open>v < u\<close> have "kPage * (j + 1) \<le> kPage * i" by (intro mult_le_mono2) auto
  with ij show ?thesis by simp
qed

lemma largest_best:
  assumes "pool_ok pool" "0 < align" "kPage dvd align" "kPage dvd limit" "limit < 2 ^ 64" "kPage dvd cur" "lo \<le> cur"
    "best_until pool align lo limit cur best"
  shows "best_until pool align lo limit limit (largest pool align limit cur best)"
  using assms
proof (induction pool align limit cur best rule: largest.induct)
  case (1 pool align limit cur best)
  note prems = "1.prems"
  have used: "pool_used pool p \<longleftrightarrow> pages pool p \<noteq> None" for p using prems(1) by (simp add: pool_ok_def)
  have first: "pages pool (u div kPage) = None" if "fits pool align m lo limit u" "kPage dvd m" "0 < m" for u m
  proof -
    have "(u + m) div kPage = u div kPage + m div kPage" using that(2) by (rule div_plus_div_distrib_dvd_right)
    moreover have "0 < m div kPage" using that(2,3) by (auto elim!: dvdE)
    ultimately show ?thesis using that(1) by (simp add: fits_def)
  qed
  show ?case
  proof (cases "cur < limit")
    case False
    then have "largest pool align limit cur best = best" by (subst largest.simps) simp
    moreover have "\<not> cur \<le> u" if "fits pool align m lo limit u" "0 < m" for u m using that False by (simp add: fits_def)
    ultimately show ?thesis using prems(8) unfolding best_until_def by metis
  next
    case low: True
    show ?thesis
    proof (cases "pool_used pool (cur div kPage)")
      case True
      then have eq: "largest pool align limit cur best = largest pool align limit (cur + kPage) best"
        using low by (subst largest.simps) simp
      have "cur + kPage \<le> u" if "fits pool align m lo limit u" "kPage dvd m" "0 < m" "cur \<le> u" for u m
      proof -
        have "u \<noteq> cur" using first [OF that(1-3)] True used by blast
        then show ?thesis using page_next [OF fits_page [OF that(1) prems(3)] prems(6)] that(4) by simp
      qed
      then have "best_until pool align lo limit (cur + kPage) best" using prems(8) unfolding best_until_def by blast
      then show ?thesis unfolding eq using "1.IH"(1) [OF low True prems(1-5)] prems(6,7) by simp
    next
      case free: False
      define e where "e = run_end pool limit cur"
      have run: "kPage dvd e" "cur \<le> e" "e \<le> limit" "\<And>p. cur div kPage \<le> p \<Longrightarrow> p < e div kPage \<Longrightarrow> pages pool p = None"
        "e < limit \<Longrightarrow> pages pool (e div kPage) \<noteq> None"
        using run_end_spec [OF prems(1,6,4) less_imp_le [OF low] e_def] by blast+
      have short: "u + m \<le> e" if "fits pool align m lo limit u" "kPage dvd m" "u < e" for u m
      proof (rule ccontr)
        assume a: "\<not> u + m \<le> e"
        then have "e < limit" using that(1) by (simp add: fits_def)
        have "kPage dvd u + m" using fits_page [OF that(1) prems(3)] that(2) by simp
        then obtain i j where ij: "u + m = kPage * i" "e = kPage * j" using run(1) by (auto elim!: dvdE)
        then have "kPage * j < kPage * i" using a by simp
        then have "e div kPage < (u + m) div kPage" unfolding ij by simp
        moreover have "u div kPage \<le> e div kPage" using that(3) by (simp add: div_le_mono)
        ultimately have "pages pool (e div kPage) = None" using that(1) by (simp add: fits_def)
        with run(5) \<open>e < limit\<close> show False by blast
      qed
      show ?thesis
      proof (cases "RoundUp cur align")
        case None
        then have "largest pool align limit cur best = best" using low free by (subst largest.simps) (simp add: Let_def)
        moreover have "\<not> cur \<le> u" if "fits pool align m lo limit u" for u m
          using RoundUp_None [OF None prems(2), of u] that prems(5) by (auto simp: fits_def)
        ultimately show ?thesis using prems(8) unfolding best_until_def by metis
      next
        case (Some s)
        note r = RoundUp_Some [OF Some prems(2)]
        define b where "b = (if s < e \<and> snd best < e - s then (s, e - s) else best)"
        have eq: "largest pool align limit cur best = largest pool align limit e b"
          using low free Some by (subst largest.simps) (simp add: Let_def e_def b_def)
        have "fits pool align (e - s) lo limit s" if "s < e"
          using that r(1,2) prems(7) run(3) run(4) div_le_mono [OF r(1), of kPage] by (auto simp: fits_def)
        then have one: "snd b = 0 \<or> fits pool align (snd b) lo limit (fst b)"
          using prems(8) by (auto simp: b_def best_until_def)
        have "m \<le> snd b \<or> e \<le> u" if f: "fits pool align m lo limit u" "kPage dvd m" "0 < m" for u m
        proof (cases "e \<le> u")
          case False
          then have end_: "u + m \<le> e" using short [OF f(1,2)] by simp
          show ?thesis
          proof (cases "cur \<le> u")
            case True
            then have "s \<le> u" using r(4) f(1) by (simp add: fits_def)
            then have "m \<le> e - s" "s < e" using end_ f(3) by linarith+
            then show ?thesis by (auto simp: b_def)
          next
            case False
            then have "m \<le> snd best" using prems(8) f unfolding best_until_def by blast
            then show ?thesis by (auto simp: b_def)
          qed
        qed simp
        then have "best_until pool align lo limit e b" unfolding best_until_def using one by blast
        then show ?thesis
          unfolding eq using "1.IH"(2) [OF low free e_def Some prems(1-5) run(1)] run(2) prems(7) by (simp add: b_def)
      qed
    qed
  qed
qed

end
