(* ===== verification/MemoryPool_Contract.thy ===== *)
theory MemoryPool_Contract
  imports MemoryPool_Props
begin

text \<open>
  What the memory pool promises its callers, over the map of pages: allocation is first fit and complete, a refused
  call changes nothing, freeing and retyping touch exactly the pages of the span, the queries report what the map holds.
  The pools are those reachable from the empty one by any sequence of calls.
\<close>

subsection \<open>Lookup\<close>

definition block_span :: "PhysicalMemoryPool \<Rightarrow> nat \<Rightarrow> nat \<Rightarrow> int \<Rightarrow> bool" where
  "block_span pool s e t \<longleftrightarrow> s < e \<and> (\<forall>off. s \<le> off \<and> off < e \<longrightarrow> pages pool (off div kPage) = Some t)"

lemma block_span_entry:
  assumes "pool_ok pool" "e \<in> set (pool_blocks pool)"
  shows "block_span pool (fst e) (block_end (snd e)) (block_type (snd e))"
proof -
  have ok: "blocks_ok (pool_blocks pool)" using assms(1) by (simp add: pool_ok_def)
  have "pages pool (off div kPage) = Some (block_type (snd e))" if "inside e off" for off
  proof -
    have "holds (pool_blocks pool) off (block_type (snd e))" using assms(2) that by (auto simp: holds_def)
    then have "type_at (pool_blocks pool) off = Some (block_type (snd e))" using type_at_Some [OF ok] by blast
    then show ?thesis using type_at_page [OF assms(1), of off] by metis
  qed
  moreover have "fst e < block_end (snd e)" using ok assms(2) by (simp add: blocks_ok_def block_ok_def)
  ultimately show ?thesis by (simp add: block_span_def inside_def)
qed

lemma free_byte: "pool_ok pool \<Longrightarrow> pages pool (off div kPage) = None \<longleftrightarrow> (\<forall>e \<in> set (pool_blocks pool). \<not> inside e off)"
  using type_at_page [of pool off] type_at_None [of "pool_blocks pool" off] by (auto simp: holds_def)

lemma Find_cases [consumes 2, case_names hit miss end_of_map follow]:
  assumes "pool_ok pool" "offset < kPoolBytes"
  obtains (hit) e where "e \<in> set (pool_blocks pool)" "inside e offset"
      "Find offset findNext pool = Some (fst e, block_end (snd e), block_type (snd e))"
  | (miss) "\<forall>e \<in> set (pool_blocks pool). \<not> inside e offset" "\<not> findNext" "Find offset findNext pool = None"
  | (end_of_map) "\<forall>e \<in> set (pool_blocks pool). block_end (snd e) \<le> offset" "Find offset findNext pool = None"
  | (follow) e where "e \<in> set (pool_blocks pool)" "findNext" "offset < fst e"
      "\<forall>x \<in> set (pool_blocks pool). block_end (snd x) \<le> offset \<or> fst e \<le> fst x"
      "Find offset findNext pool = Some (fst e, block_end (snd e), block_type (snd e))"
proof -
  let ?bs = "pool_blocks pool" and ?it = "upper_bound_block offset (pool_blocks pool)"
  have ok: "blocks_ok ?bs" using assms(1) by (simp add: pool_ok_def)
  note c = cut_upper [OF ok, of offset]
  have le: "?it \<le> length ?bs" by (simp add: upper_bound_block_def length_takeWhile_le)
  have sorted: "block_end (snd (?bs ! i)) \<le> fst (?bs ! j)" if "i < j" "j < length ?bs" for i j
    using ok that by (simp add: blocks_ok_def sorted_wrt_iff_nth_less)
  have before: "fst (?bs ! i) \<le> offset" if "i < ?it" for i
  proof -
    have "?bs ! i \<in> set (take ?it ?bs)" using that le by (metis in_set_conv_nth length_take min.absorb2 nth_take)
    then show ?thesis unfolding c(1) by simp
  qed
  have after: "offset < fst (?bs ! i)" if "?it \<le> i" "i < length ?bs" for i
  proof -
    have "?bs ! i \<in> set (drop ?it ?bs)" using that by (auto simp: in_set_conv_nth intro!: exI [of _ "i - ?it"])
    then show ?thesis unfolding c(2) by simp
  qed
  show thesis
  proof (cases "?it \<noteq> 0 \<and> offset < block_end (snd (?bs ! (?it - 1)))")
    case True
    let ?e = "?bs ! (?it - 1)"
    have "?e \<in> set ?bs" using True le by (intro nth_mem) linarith
    moreover have "inside ?e offset" using True before [of "?it - 1"] by (simp add: inside_def)
    moreover have "Find offset findNext pool = Some (fst ?e, block_end (snd ?e), block_type (snd ?e))"
      using True assms(2) by (simp add: Find_def Let_def split_beta)
    ultimately show thesis by (rule hit)
  next
    case False
    have low: "block_end (snd (?bs ! i)) \<le> offset" if "i < ?it" for i
    proof (cases "i = ?it - 1")
      case True
      then show ?thesis using False that by simp
    next
      case no: False
      then have "block_end (snd (?bs ! i)) \<le> fst (?bs ! (?it - 1))" using that le by (intro sorted) linarith+
      also have "\<dots> \<le> offset" using that by (intro before) linarith
      finally show ?thesis .
    qed
    have split: "block_end (snd e) \<le> offset \<or> (\<exists>i. ?it \<le> i \<and> i < length ?bs \<and> e = ?bs ! i)" if "e \<in> set ?bs" for e
      using that low by (metis in_set_conv_nth not_le)
    show thesis
    proof (cases "?it = length ?bs")
      case True
      then have "\<forall>e \<in> set ?bs. block_end (snd e) \<le> offset" using split by fastforce
      moreover have "Find offset findNext pool = None" using False True assms(2) by (auto simp: Find_def Let_def)
      ultimately show thesis by (rule end_of_map)
    next
      case more: False
      then have it: "?it < length ?bs" using le by simp
      show thesis
      proof (cases findNext)
        case fn: True
        let ?e = "?bs ! ?it"
        have "fst ?e \<le> fst (?bs ! i)" if "?it \<le> i" "i < length ?bs" for i
        proof (cases "i = ?it")
          case False
          have "block_ok ?e" using ok it by (simp add: blocks_ok_def)
          then have "fst ?e \<le> block_end (snd ?e)" by (simp add: block_ok_def)
          also have "\<dots> \<le> fst (?bs ! i)" using that False by (intro sorted) simp_all
          finally show ?thesis .
        qed simp
        then have "\<forall>x \<in> set ?bs. block_end (snd x) \<le> offset \<or> fst ?e \<le> fst x" using split by blast
        moreover have "Find offset findNext pool = Some (fst ?e, block_end (snd ?e), block_type (snd ?e))"
          using False more fn assms(2) by (auto simp: Find_def Let_def split_beta)
        ultimately show thesis using follow [OF nth_mem [OF it] fn after [OF _ it]] by blast
      next
        case fn: False
        have "\<not> inside e offset" if "e \<in> set ?bs" for e using split [OF that] after by (auto simp: inside_def not_le)
        then show thesis using miss fn False assms(2) by (auto simp: Find_def Let_def)
      qed
    qed
  qed
qed

subsection \<open>The reachable pools\<close>

text \<open>Every call, with any arguments and whatever the host answers.\<close>

inductive pool_reachable :: "PhysicalMemoryPool \<Rightarrow> bool" where
  empty: "pool_reachable empty_pool"
| alloc: "pool_reachable pool \<Longrightarrow> Alloc node create searchStart searchEnd len alignment type out pool = (r, pool') \<Longrightarrow> pool_reachable pool'"
| free: "pool_reachable pool \<Longrightarrow> Free node forget start len pool = (f, pool') \<Longrightarrow> pool_reachable pool'"
| checked_free: "pool_reachable pool \<Longrightarrow> CheckedFree node forget start len pool = (f, pool') \<Longrightarrow> pool_reachable pool'"
| retype: "pool_reachable pool \<Longrightarrow> Retype node start len type pool = (ok, pool') \<Longrightarrow> pool_reachable pool'"

lemma raised_not_logic [simp]: "raised x \<noteq> LogicError" "LogicError \<noteq> raised x"
  by (cases x, simp_all)+

text \<open>One allocation, whatever its arguments.\<close>

lemma Alloc_outcome [consumes 1, case_names failed refused placed]:
  assumes "pool_ok pool"
  obtains (failed) e where "Alloc node create searchStart searchEnd len alignment type out pool = (Inr (Inl e), pool)"
  | (refused) e where "e \<noteq> LogicError" "Alloc node create searchStart searchEnd len alignment type out pool = (Inl e, pool)"
  | (placed) align alignedLen u pool' where "out" "0 < len"
      "NormalizeAlignment alignment = Some align" "NormalizeLength len = Some alignedLen"
      "fits pool align alignedLen (unat searchStart) (min (unat searchEnd) kPoolBytes) u"
      "\<And>v. v < u \<Longrightarrow> \<not> fits pool align alignedLen (unat searchStart) (min (unat searchEnd) kPoolBytes) v"
      "Alloc node create searchStart searchEnd len alignment type out pool = (Inr (Inr u), pool')" "pool_ok pool'"
      "\<And>p. pages pool' p = (if u div kPage \<le> p \<and> p < (u + alignedLen) div kPage then Some type else pages pool p)"
proof -
  let ?call = "Alloc node create searchStart searchEnd len alignment type out pool"
  show thesis
  proof (cases "out \<and> 0 < len \<and> NormalizeAlignment alignment \<noteq> None \<and> NormalizeLength len \<noteq> None")
    case False
    then have "\<exists>e. ?call = (Inr (Inl e), pool)" by (auto simp: Alloc_def split: option.splits)
    then show thesis using failed by blast
  next
    case True
    then obtain align alignedLen where n: "NormalizeAlignment alignment = Some align" "NormalizeLength len = Some alignedLen"
      "0 < len" "out" by blast
    note sz = Alloc_sizes [OF n(1-3)]
    from assms n(1-3) refl refl show thesis
    proof (cases rule: Alloc_cases [where searchStart = searchStart and searchEnd = searchEnd and create = create and node = node and type = type])
      case full
      then show thesis using failed n(4) by simp
    next
      case (found u)
      from found(1) have u: "kPage dvd u" "u + alignedLen \<le> kPoolBytes"
        "\<forall>p. u div kPage \<le> p \<and> p < (u + alignedLen) div kPage \<longrightarrow> pages pool p = None"
        using fits_page [OF found(1) sz(2)] by (auto simp: fits_def)
      from assms u(1) sz(5,4) u(2,3) show thesis
      proof (cases rule: commit_free [where create = create and node = node and type = type])
        case (refused e)
        with found(3) n(4) have "?call = (Inl e, pool)" by simp
        moreover have "e \<noteq> LogicError" using refused(2) by auto
        ultimately show thesis using that(2) by blast
      next
        case (committed pool')
        then have "?call = (Inr (Inr u), pool')" using found(3) n(4) by simp
        from placed [OF n(4,3,1,2) found(1,2) this committed(4,5)] show thesis .
      qed
    qed
  qed
qed

lemma pool_reachable_ok: "pool_reachable pool \<Longrightarrow> pool_ok pool"
proof (induction rule: pool_reachable.induct)
  case empty
  show ?case by (rule pool_ok_empty)
next
  case (alloc pool node create searchStart searchEnd len alignment type out r pool')
  from alloc(3) show ?case
    by (cases rule: Alloc_outcome [where create = create and node = node and searchStart = searchStart and searchEnd = searchEnd and len = len and alignment = alignment and type = type and out = out]) (use alloc in auto)
next
  case (free pool node forget start len f pool')
  from free(3) show ?case
    by (cases rule: release_cases [where start = start and len = len and forget = forget and node = node and req = False]) (use free in \<open>auto simp: Free_def\<close>)
next
  case (checked_free pool node forget start len f pool')
  from checked_free(3) show ?case
    by (cases rule: release_cases [where start = start and len = len and forget = forget and node = node and req = True]) (use checked_free in \<open>auto simp: CheckedFree_def\<close>)
next
  case (retype pool node start len type ok pool')
  from retype(3) show ?case
    by (cases rule: Retype_cases [where start = start and len = len and node = node and type = type]) (use retype in auto)
qed


subsection \<open>The contract\<close>

text \<open>C7. In every reachable pool the block map and the page flags agree: the blocks are whole pages inside the pool, in
  order and disjoint, and a page is flagged exactly when a block covers it.\<close>

theorem pool_invariant:
  assumes "pool_reachable pool"
  shows "sorted_wrt (\<lambda>x y. block_end (snd x) \<le> fst y) (pool_blocks pool) \<and>
    (\<forall>e \<in> set (pool_blocks pool). kPage dvd fst e \<and> kPage dvd block_end (snd e) \<and> fst e < block_end (snd e) \<and>
       block_end (snd e) \<le> kPoolBytes) \<and>
    (\<forall>p. pool_used pool p \<longleftrightarrow> (\<exists>e \<in> set (pool_blocks pool). fst e \<le> p * kPage \<and> p * kPage < block_end (snd e)))"
proof (intro conjI allI)
  have ok: "pool_ok pool" using assms(1) by (rule pool_reachable_ok)
  then show "sorted_wrt (\<lambda>x y. block_end (snd x) \<le> fst y) (pool_blocks pool)" and
    "\<forall>e \<in> set (pool_blocks pool). kPage dvd fst e \<and> kPage dvd block_end (snd e) \<and> fst e < block_end (snd e) \<and>
       block_end (snd e) \<le> kPoolBytes"
    by (simp_all add: pool_ok_def blocks_ok_def block_ok_def)
  fix p
  show "pool_used pool p \<longleftrightarrow> (\<exists>e \<in> set (pool_blocks pool). fst e \<le> p * kPage \<and> p * kPage < block_end (snd e))"
    using ok type_at_None [of "pool_blocks pool" "p * kPage"] by (auto simp: pool_ok_def pages_def holds_def inside_def)
qed

text \<open>C6. Allocation refines its specification over the map of pages: it returns the lowest aligned address in the
  searched range at which the rounded length is free and maps exactly those pages, or it reports \<open>EAGAIN\<close>, changes
  nothing, and there is no such address. It throws only when there is one and the host has no memory for its entry or refuses its
  backing, and then changes nothing.\<close>

theorem Alloc_first_fit:
  assumes "pool_reachable pool" "NormalizeAlignment alignment = Some align" "NormalizeLength len = Some alignedLen" "0 < len"
    and "limit = min (unat searchEnd) kPoolBytes"
  shows "case Alloc node create searchStart searchEnd len alignment type True pool of
      (Inr (Inr u), pool') \<Rightarrow> fits pool align alignedLen (unat searchStart) limit u \<and>
        (\<forall>v < u. \<not> fits pool align alignedLen (unat searchStart) limit v) \<and>
        (\<forall>p. pages pool' p = (if u div kPage \<le> p \<and> p < (u + alignedLen) div kPage then Some type else pages pool p))
    | (Inr (Inl e), pool') \<Rightarrow> e = SCE_KERNEL_ERROR_EAGAIN \<and> pool' = pool \<and>
        (\<forall>u. \<not> fits pool align alignedLen (unat searchStart) limit u)
    | (Inl e, pool') \<Rightarrow> pool' = pool \<and> (\<exists>u. fits pool align alignedLen (unat searchStart) limit u \<and>
        (\<forall>v < u. \<not> fits pool align alignedLen (unat searchStart) limit v) \<and>
        (\<not> node u \<and> e = BadAlloc \<or> node u \<and> (\<exists>x. create u alignedLen type = Some x \<and> e = raised x)))"
proof -
  have ok: "pool_ok pool" using assms(1) by (rule pool_reachable_ok)
  note sz = Alloc_sizes [OF assms(2-4)]
  from ok assms(2-4) refl assms(5) show ?thesis
  proof (cases rule: Alloc_cases [where searchStart = searchStart and searchEnd = searchEnd and create = create and node = node and type = type])
    case full
    then show ?thesis by simp
  next
    case (found u)
    from found(1) have u: "kPage dvd u" "u + alignedLen \<le> kPoolBytes"
      "\<forall>p. u div kPage \<le> p \<and> p < (u + alignedLen) div kPage \<longrightarrow> pages pool p = None"
      using fits_page [OF found(1) sz(2)] assms(5) by (auto simp: fits_def)
    from ok u(1) sz(5,4) u(2,3) show ?thesis
    proof (cases rule: commit_free [where create = create and node = node and type = type])
      case (refused e)
      have "\<exists>u. fits pool align alignedLen (unat searchStart) limit u \<and>
          (\<forall>v < u. \<not> fits pool align alignedLen (unat searchStart) limit v) \<and>
          (\<not> node u \<and> e = BadAlloc \<or> node u \<and> (\<exists>x. create u alignedLen type = Some x \<and> e = raised x))"
        using found(1,2) refused(2) by blast
      then show ?thesis unfolding found(3) refused(1) by simp
    next
      case (committed pool')
      with found show ?thesis by simp
    qed
  qed
qed

theorem Alloc_first_fit_witness:
  "case Alloc (\<lambda>_. True) (\<lambda>_ _ _. None) 0x4001 0x100000 5000 0 3 True empty_pool of
      (Inr (Inr u), pool') \<Rightarrow> u = 0x8000 \<and> pages pool' 2 = Some 3 \<and> pages pool' 3 = None | _ \<Rightarrow> False"
proof -
  have n: "NormalizeAlignment 0 = Some 0x4000" "NormalizeLength 5000 = Some 0x4000"
    by (simp_all add: NormalizeAlignment_def NormalizeLength_def RoundUp_def kPage_def kPoolBytes_def)
  have "RoundUp 0x4001 0x4000 = Some 0x8000" by (simp add: RoundUp_def)
  moreover have "search empty_pool 0x4000 0x4000 0x100000 0x8000 = Some 0x8000"
    by (subst search.simps) (simp add: kPage_def empty_pool_def)
  ultimately have a: "fst (Alloc (\<lambda>_. True) (\<lambda>_ _ _. None) 0x4001 0x100000 5000 0 3 True empty_pool) = Inr (Inr 0x8000)"
    by (simp add: Alloc_def n Let_def commit_def kPoolBytes_def emplace_def empty_pool_def)
  have "pages empty_pool p = None" for p by (simp add: pages_def empty_pool_def type_at_def)
  with a Alloc_first_fit [OF pool_reachable.empty n, where node = "\<lambda>_. True" and create = "\<lambda>_ _ _. None" and type = 3
      and searchStart = "0x4001" and searchEnd = "0x100000", OF _ refl]
  show ?thesis by (cases "Alloc (\<lambda>_. True) (\<lambda>_ _ _. None) 0x4001 0x100000 5000 0 3 True empty_pool") (simp add: kPage_def)
qed


lemma span_pages:
  assumes "PageSpan start len = Some (lo, hi)"
  shows "lo div kPage \<le> p \<and> p < hi div kPage \<longleftrightarrow> (\<exists>off. start \<le> off \<and> off < start + len \<and> off div kPage = p)"
proof -
  note span = PageSpan_Some [OF assms]
  obtain i j where ij: "lo = kPage * i" "hi = kPage * j" using span(1,2) by (auto elim!: dvdE)
  show ?thesis
  proof
    assume "\<exists>off. start \<le> off \<and> off < start + len \<and> off div kPage = p"
    then obtain off where off: "start \<le> off" "off < start + len" "off div kPage = p" by blast
    then have "lo div kPage \<le> p" using div_le_mono [of lo off kPage] span(3) by simp
    moreover have "off < j * kPage" using off(2) span(4) by (simp add: ij mult.commute)
    then have "p < hi div kPage" using off(3) less_mult_imp_div_less [of off j kPage] by (simp add: ij)
    ultimately show "lo div kPage \<le> p \<and> p < hi div kPage" ..
  next
    assume "lo div kPage \<le> p \<and> p < hi div kPage"
    then have p: "i \<le> p" "p + 1 \<le> j" by (simp_all add: ij)
    have "kPage * (p + 1) \<le> hi" unfolding ij using p(2) by (rule mult_le_mono2)
    then have end_: "kPage * p < start + len" using span(6) by simp
    have len: "0 < len" using assms by (auto simp: PageSpan_def split: if_splits)
    show "\<exists>off. start \<le> off \<and> off < start + len \<and> off div kPage = p"
    proof (cases "start \<le> kPage * p")
      case True
      with end_ show ?thesis by (intro exI [of _ "kPage * p"]) simp
    next
      case False
      have le: "start < kPage * (i + 1)" using span(5) ij by simp
      then have "kPage * p < kPage * (i + 1)" using False by linarith
      then have "p = i" unfolding mult_less_cancel1 using p(1) by simp
      then have "start div kPage = p" using le False by (intro div_nat_eqI) simp_all
      with len show ?thesis by (intro exI [of _ start]) simp
    qed
  qed
qed

text \<open>C31. A checked free succeeds exactly when every page that the byte range touches is allocated; a free unmaps exactly
  those pages, checked or not.\<close>

theorem free_pages:
  assumes "pool_reachable pool" "PageSpan start len = Some (lo, hi)" "forget lo (hi - lo) = None" "node lo" "node hi"
  shows "fst (CheckedFree node forget start len pool) =
      Inr (\<forall>off. start \<le> off \<and> off < start + len \<longrightarrow> pages pool (off div kPage) \<noteq> None) \<and>
    fst (Free node forget start len pool) = Inr True \<and>
    (fst (release node forget start len req pool) = Inr True \<longrightarrow>
      pages (snd (release node forget start len req pool)) p =
        (if \<exists>off. start \<le> off \<and> off < start + len \<and> off div kPage = p then None else pages pool p))"
proof -
  have ok: "pool_ok pool" using assms(1) by (rule pool_reachable_ok)
  have all: "(\<forall>off. start \<le> off \<and> off < start + len \<longrightarrow> pages pool (off div kPage) \<noteq> None) \<longleftrightarrow>
      (\<forall>p. lo div kPage \<le> p \<and> p < hi div kPage \<longrightarrow> pages pool p \<noteq> None)"
    unfolding span_pages [OF assms(2)] by blast
  from ok have "fst (CheckedFree node forget start len pool) = Inr (\<forall>p. lo div kPage \<le> p \<and> p < hi div kPage \<longrightarrow> pages pool p \<noteq> None)"
    by (cases rule: release_cases [where start = start and len = len and forget = forget and node = node and req = True])
      (use assms in \<open>auto simp: CheckedFree_def\<close>)
  moreover from ok have "fst (Free node forget start len pool) = Inr True"
    by (cases rule: release_cases [where start = start and len = len and forget = forget and node = node and req = False])
      (use assms in \<open>auto simp: Free_def\<close>)
  moreover from ok have "pages (snd (release node forget start len req pool)) p =
      (if lo div kPage \<le> p \<and> p < hi div kPage then None else pages pool p)"
    if "fst (release node forget start len req pool) = Inr True"
    by (cases rule: release_cases [where start = start and len = len and forget = forget and node = node and req = req]) (use assms that in auto)
  ultimately show ?thesis unfolding all span_pages [OF assms(2)] by simp
qed


lemma Alloc_page_example:
  obtains pool' where "Alloc (\<lambda>_. True) (\<lambda>_ _ _. None) 0x4001 0x100000 5000 0 3 True empty_pool = (Inr (Inr 0x8000), pool')"
    "pool_reachable pool'" "\<And>p. pages pool' p = (if p = 2 then Some 3 else None)"
proof -
  have n: "NormalizeAlignment 0 = Some 0x4000" "NormalizeLength 5000 = Some 0x4000"
    by (simp_all add: NormalizeAlignment_def NormalizeLength_def RoundUp_def kPage_def kPoolBytes_def)
  have "RoundUp 0x4001 0x4000 = Some 0x8000" by (simp add: RoundUp_def)
  moreover have "search empty_pool 0x4000 0x4000 0x100000 0x8000 = Some 0x8000"
    by (subst search.simps) (simp add: kPage_def empty_pool_def)
  ultimately have a: "fst (Alloc (\<lambda>_. True) (\<lambda>_ _ _. None) 0x4001 0x100000 5000 0 3 True empty_pool) = Inr (Inr 0x8000)"
    by (simp add: Alloc_def n Let_def commit_def kPoolBytes_def emplace_def empty_pool_def)
  let ?pool = "snd (Alloc (\<lambda>_. True) (\<lambda>_ _ _. None) 0x4001 0x100000 5000 0 3 True empty_pool)"
  have eq: "Alloc (\<lambda>_. True) (\<lambda>_ _ _. None) 0x4001 0x100000 5000 0 3 True empty_pool = (Inr (Inr 0x8000), ?pool)"
    using a by (simp add: prod_eq_iff)
  have "pages empty_pool p = None" for p by (simp add: pages_def empty_pool_def type_at_def)
  moreover have "pages ?pool p = (if 0x8000 div kPage \<le> p \<and> p < (0x8000 + 0x4000) div kPage then Some 3 else pages empty_pool p)" for p
    using pool_ok_empty
    by (cases rule: Alloc_outcome [where node = "\<lambda>_. True" and create = "\<lambda>_ _ _. None" and searchStart = "0x4001" and searchEnd = "0x100000" and
        len = 5000 and alignment = 0 and type = 3 and out = True]) (use eq n in auto)
  ultimately have "pages ?pool p = (if p = 2 then Some 3 else None)" for p by (auto simp: kPage_def)
  with that [OF eq pool_reachable.alloc [OF pool_reachable.empty eq]] show thesis .
qed

text \<open>A block of three pages, and a host without memory for an entry at its third page.\<close>

definition three_pages :: PhysicalMemoryPool where
  "three_pages = \<lparr>pool_used = mark (\<lambda>_. False) 2 3 True, pool_blocks = [(0x8000, \<lparr>block_end = 0x14000, block_type = 3\<rparr>)]\<rparr>"

lemma three_pages_reachable: "pool_reachable three_pages"
proof -
  have n: "NormalizeAlignment 0 = Some 0x4000" "NormalizeLength 0xC000 = Some 0xC000"
    by (simp_all add: NormalizeAlignment_def NormalizeLength_def RoundUp_def kPage_def kPoolBytes_def)
  have "RoundUp 0x4001 0x4000 = Some 0x8000" by (simp add: RoundUp_def)
  moreover have "search empty_pool 0x4000 0xC000 0x100000 0x8000 = Some 0x8000"
    by (subst search.simps) (simp add: kPage_def empty_pool_def numeral_3_eq_3)
  ultimately have "Alloc (\<lambda>_. True) (\<lambda>_ _ _. None) 0x4001 0x100000 0xC000 0 3 True empty_pool = (Inr (Inr 0x8000), three_pages)"
    by (simp add: Alloc_def n Let_def commit_def kPoolBytes_def emplace_def empty_pool_def lower_bound_def insert_block_def
        three_pages_def kPage_def)
  then show ?thesis by (rule pool_reachable.alloc [OF pool_reachable.empty])
qed

text \<open>C32. Retyping gives the new type to the allocated pages the byte range touches and leaves every other page alone; it
  succeeds when the host has memory for the two entries that it may have to make.\<close>

theorem Retype_span:
  assumes "pool_reachable pool" "PageSpan start len = Some (lo, hi)"
  shows "(node lo \<and> node hi \<longrightarrow> fst (Retype node start len type pool) = Inr True) \<and>
    (fst (Retype node start len type pool) = Inr True \<longrightarrow> pages (snd (Retype node start len type pool)) p =
      (if (\<exists>off. start \<le> off \<and> off < start + len \<and> off div kPage = p) \<and> pages pool p \<noteq> None then Some type else pages pool p))"
proof -
  have "pool_ok pool" using assms(1) by (rule pool_reachable_ok)
  then show ?thesis unfolding span_pages [OF assms(2), symmetric]
    by (cases rule: Retype_cases [where start = start and len = len and node = node and type = type]) (use assms(2) in auto)
qed

theorem Retype_span_witness:
  "\<exists>pool. pages pool 2 = Some 3 \<and> pages (snd (Retype (\<lambda>_. True) 0xA000 0x4000 7 pool)) 2 = Some 7 \<and>
    pages (snd (Retype (\<lambda>_. True) 0xA000 0x4000 7 pool)) 3 = None"
proof -
  obtain pool where pool: "pool_reachable pool" "\<And>p. pages pool p = (if p = 2 then Some 3 else None)"
    using Alloc_page_example by metis
  have "PageSpan 0xA000 0x4000 = Some (0x8000, 0x10000)"
    by (simp add: PageSpan_def kPoolBytes_def page_down_def kPage_def)
  note r = Retype_span [OF pool(1) this, where type = 7 and node = "\<lambda>_. True"]
  have "\<exists>off \<ge> 0xA000. off < 0xA000 + 0x4000 \<and> off div kPage = 2" by (intro exI [of _ "0xA000"]) (simp add: kPage_def)
  with r [where p = 2] pool(2) [of 2] have "pages (snd (Retype (\<lambda>_. True) 0xA000 0x4000 7 pool)) 2 = Some 7" by simp
  moreover have "pages (snd (Retype (\<lambda>_. True) 0xA000 0x4000 7 pool)) 3 = None" using r [where p = 3] pool(2) [of 3] by simp
  ultimately show ?thesis using pool(2) [of 2] by (intro exI [of _ pool]) simp
qed

text \<open>C33. A query of the pool reports a block of the map with its own bounds and type: the block that holds the offset,
  or, when asked, the next one after it. The type is that of all its pages, no page between the offset and it is
  allocated, and nothing is reported only when there is nothing.\<close>

theorem Find_reports:
  assumes "pool_reachable pool" "offset < kPoolBytes"
  shows "case Find offset findNext pool of
      Some (s, e, t) \<Rightarrow> (s, \<lparr>block_end = e, block_type = t\<rparr>) \<in> set (pool_blocks pool) \<and> block_span pool s e t \<and>
        (s \<le> offset \<and> offset < e \<or>
         findNext \<and> offset < s \<and> (\<forall>off. offset \<le> off \<and> off < s \<longrightarrow> pages pool (off div kPage) = None))
    | None \<Rightarrow> pages pool (offset div kPage) = None \<and> (findNext \<longrightarrow> (\<forall>off \<ge> offset. pages pool (off div kPage) = None))"
proof -
  have ok: "pool_ok pool" using assms(1) by (rule pool_reachable_ok)
  have entry: "(fst e, \<lparr>block_end = block_end (snd e), block_type = block_type (snd e)\<rparr>) = e" for e by (cases e) simp
  from ok assms(2) show ?thesis
  proof (cases rule: Find_cases [where findNext = findNext])
    case (hit e)
    with block_span_entry [OF ok hit(1)] show ?thesis by (simp add: inside_def entry)
  next
    case miss
    then show ?thesis by (simp add: free_byte [OF ok])
  next
    case end_of_map
    then show ?thesis by (fastforce simp: free_byte [OF ok] inside_def)
  next
    case (follow e)
    have "pages pool (off div kPage) = None" if "offset \<le> off" "off < fst e" for off
      unfolding free_byte [OF ok] using follow(4) that by (fastforce simp: inside_def)
    with follow block_span_entry [OF ok follow(1)] show ?thesis by (simp add: entry)
  qed
qed

theorem Find_reports_witness:
  "Find 0x9000 False three_pages = Some (0x8000, 0x14000, 3) \<and> block_span three_pages 0x8000 0x14000 3 \<and>
    pages three_pages 1 = None"
proof -
  have "(0x9000 :: nat) < kPoolBytes" "(0 :: nat) < kPoolBytes" by (simp_all add: kPoolBytes_def)
  note f = Find_reports [OF three_pages_reachable this(1), where findNext = False]
    and g = Find_reports [OF three_pages_reachable this(2), where findNext = True]
  have "Find 0x9000 False three_pages = Some (0x8000, 0x14000, 3)" "Find 0 True three_pages = Some (0x8000, 0x14000, 3)"
    by (simp_all add: Find_def three_pages_def upper_bound_block_def kPoolBytes_def)
  with f g have "block_span three_pages 0x8000 0x14000 3" "\<forall>off < 0x8000. pages three_pages (off div kPage) = None"
    by simp_all
  from this(2) have "pages three_pages (0x4000 div kPage) = None" by simp
  then have "pages three_pages 1 = None" by (simp add: kPage_def)
  with \<open>block_span three_pages 0x8000 0x14000 3\<close> \<open>Find 0x9000 False three_pages = _\<close> show ?thesis by blast
qed

text \<open>C34. The largest free run is a free run at the alignment and no run of whole free pages at the alignment in the searched
  range is longer; nothing is reported only when the range has no free page at that alignment.\<close>

theorem LargestFree_optimal:
  assumes "pool_reachable pool" "NormalizeAlignment alignment = Some align"
    and "0 \<le> sint searchStart" "sint searchStart < sint searchEnd" "limit = min (unat searchEnd) kPoolBytes"
  shows "case LargestFree searchStart searchEnd alignment pool of
      Some (s, n) \<Rightarrow> 0 < n \<and> fits pool align n (unat searchStart) limit s \<and>
        (\<forall>u m. kPage dvd m \<and> fits pool align m (unat searchStart) limit u \<longrightarrow> m \<le> n)
    | None \<Rightarrow> \<forall>u m. kPage dvd m \<and> 0 < m \<longrightarrow> \<not> fits pool align m (unat searchStart) limit u"
proof -
  have ok: "pool_ok pool" using assms(1) by (rule pool_reachable_ok)
  let ?lo = "unat searchStart" and ?lim = "page_down limit"
  from RoundUp_Some [OF assms(2) [unfolded NormalizeAlignment_def]] have al: "0 < align" "kPage dvd align" by (simp_all add: kPage_def)
  have lim: "?lim < 2 ^ 64" "kPage dvd ?lim" using page_down(1,2) [of limit] by (auto simp: assms(5) kPoolBytes_def)
  have same: "fits pool align m ?lo ?lim u \<longleftrightarrow> fits pool align m ?lo limit u" if "kPage dvd m" for u m
  proof -
    have "kPage dvd u + m" if "align dvd u" using dvd_trans [OF al(2) that] \<open>kPage dvd m\<close> by simp
    then have "u + m \<le> ?lim \<longleftrightarrow> u + m \<le> limit" if "align dvd u"
      using that page_down(4) [of "u + m" limit] le_trans [OF _ page_down(1) [of limit]] by iprover
    then show ?thesis unfolding fits_def by blast
  qed
  have guard: "\<not> (sint searchStart < 0 \<or> sint searchEnd \<le> sint searchStart)" using assms(3,4) by simp
  show ?thesis
  proof (cases "RoundUp ?lo kPage")
    case None
    have "\<not> fits pool align m ?lo limit u" for u m
    proof
      assume f: "fits pool align m ?lo limit u"
      then have "2 ^ 64 \<le> u" using RoundUp_None [OF None kPage_pos fits_page [OF f al(2)]] by (simp add: fits_def)
      with f show False by (simp add: fits_def assms(5) kPoolBytes_def)
    qed
    then show ?thesis using guard assms(2) None by (simp add: LargestFree_def)
  next
    case (Some cur)
    note r = RoundUp_Some [OF Some kPage_pos]
    let ?best = "largest pool align ?lim cur (0, 0)"
    have "best_until pool align ?lo ?lim cur (0, 0)"
      unfolding best_until_def using r(4) fits_page [OF _ al(2)] by (auto simp: fits_def)
    from largest_best [OF ok al lim(2,1) r(2,1) this] have best: "best_until pool align ?lo ?lim ?lim ?best" .
    then have longest: "m \<le> snd ?best" if "kPage dvd m" "fits pool align m ?lo limit u" for u m
      using that same [OF that(1), of u] by (cases "m = 0") (auto simp: best_until_def fits_def)
    have run: "snd ?best = 0 \<or> fits pool align (snd ?best) ?lo limit (fst ?best)"
      using best page_down(1) [of limit] by (auto simp: best_until_def fits_def)
    have call: "LargestFree searchStart searchEnd alignment pool = (if snd ?best = 0 then None else Some ?best)"
      using guard assms(2,5) Some by (simp add: LargestFree_def Let_def)
    show ?thesis unfolding call using longest run by (cases ?best) fastforce
  qed
qed


theorem LargestFree_optimal_witness:
  "\<exists>pool s n. pages pool 2 = Some 3 \<and> LargestFree 0x4000 0x20000 0 pool = Some (s, n) \<and> 0x10000 \<le> n \<and>
    fits pool 0x4000 n 0x4000 0x20000 s"
proof -
  obtain pool where pool: "pool_reachable pool" "\<And>p. pages pool p = (if p = 2 then Some 3 else None)"
    using Alloc_page_example by metis
  have n: "NormalizeAlignment 0 = Some 0x4000" by (simp add: NormalizeAlignment_def RoundUp_def kPage_def)
  have "0 \<le> sint (0x4000 :: u64)" "sint (0x4000 :: u64) < sint (0x20000 :: u64)" by simp_all
  note l = LargestFree_optimal [OF pool(1) n this refl]
  have lim: "min (unat (0x20000 :: u64)) kPoolBytes = 0x20000" "unat (0x4000 :: u64) = 0x4000" by (simp_all add: kPoolBytes_def)
  have run: "fits pool 0x4000 0x10000 0x4000 0x20000 0x10000"
    unfolding fits_def by (simp add: pool(2) kPage_def)
  have dvd: "kPage dvd 0x10000" by (simp add: kPage_def)
  show ?thesis
  proof (cases "LargestFree 0x4000 0x20000 0 pool")
    case None
    from l have "\<not> fits pool 0x4000 0x10000 0x4000 0x20000 0x10000" unfolding None option.case lim using dvd by simp
    with run show ?thesis by blast
  next
    case (Some r)
    obtain s k where r: "r = (s, k)" by (rule prod.exhaust)
    from l have "fits pool 0x4000 k 0x4000 0x20000 s" "0x10000 \<le> k"
      unfolding Some r option.case prod.case lim using run dvd by blast+
    then show ?thesis using pool(2) [of 2] Some r by (intro exI [of _ pool] exI [of _ s] exI [of _ k]) simp
  qed
qed

text \<open>C35. The free run from an offset on covers whole free pages below the limit and stops only at the limit or at an
  allocated page.\<close>

theorem FreeRun_maximal:
  assumes "pool_reachable pool" "offset < min limit kPoolBytes" "cur = page_down offset" "r = FreeRun offset limit pool"
  shows "kPage dvd r \<and> cur + r \<le> min limit kPoolBytes \<and>
    (\<forall>off. cur \<le> off \<and> off < cur + r \<longrightarrow> pages pool (off div kPage) = None) \<and>
    (cur + r + kPage \<le> min limit kPoolBytes \<longrightarrow> pages pool ((cur + r) div kPage) \<noteq> None)"
proof -
  have ok: "pool_ok pool" using assms(1) by (rule pool_reachable_ok)
  have cur: "kPage dvd cur" "cur \<le> min limit kPoolBytes" using page_down(1,2) [of offset] assms(2,3) by auto
  have "r = free_run pool (min limit kPoolBytes) cur" using assms(2-4) by (auto simp: FreeRun_def Let_def)
  from free_run_maximal [OF ok cur this] have r: "kPage dvd r" "cur + r \<le> min limit kPoolBytes"
    "\<And>p. cur div kPage \<le> p \<Longrightarrow> p < (cur + r) div kPage \<Longrightarrow> pages pool p = None"
    "cur + r + kPage \<le> min limit kPoolBytes \<longrightarrow> pages pool ((cur + r) div kPage) \<noteq> None" by blast+
  have "pages pool (off div kPage) = None" if "cur \<le> off" "off < cur + r" for off
  proof (rule r(3))
    show "cur div kPage \<le> off div kPage" using that(1) by (rule div_le_mono)
    have "kPage dvd cur + r" using cur(1) r(1) by simp
    then have "off < (cur + r) div kPage * kPage" using that(2) by simp
    then show "off div kPage < (cur + r) div kPage" by (rule less_mult_imp_div_less)
  qed
  with r show ?thesis by blast
qed

theorem FreeRun_maximal_witness:
  "\<exists>pool. pages pool 2 = Some 3 \<and> FreeRun 0x10 0x20000 pool \<le> 0x8000 \<and> kPage dvd FreeRun 0x10 0x20000 pool"
proof -
  obtain pool where pool: "pool_reachable pool" "\<And>p. pages pool p = (if p = 2 then Some 3 else None)"
    using Alloc_page_example by metis
  let ?r = "FreeRun 0x10 0x20000 pool"
  have "(0x10 :: nat) < min 0x20000 kPoolBytes" "0 = page_down 0x10" by (simp_all add: kPoolBytes_def page_down_def kPage_def)
  note f = FreeRun_maximal [OF pool(1) this refl]
  have "?r \<le> 0x8000"
  proof (rule ccontr)
    assume "\<not> ?r \<le> 0x8000"
    then have "pages pool (0x8000 div kPage) = None" using f by simp
    then show False by (simp add: pool(2) kPage_def)
  qed
  then show ?thesis using f pool(2) [of 2] by (intro exI [of _ pool]) simp
qed

text \<open>C30. Allocating and freeing again is a round trip: the checked free of what an allocation returned succeeds, with
  the length that was asked for, and gives back the map of pages from before.\<close>

theorem Alloc_free_roundtrip:
  assumes "pool_reachable pool" "Alloc node create searchStart searchEnd len alignment type True pool = (Inr (Inr u), pool1)"
    and "\<And>lo n. forget lo n = None" "\<And>k. node' k"
  shows "\<exists>pool2. CheckedFree node' forget u len pool1 = (Inr True, pool2) \<and> pages pool2 = pages pool"
proof -
  have ok: "pool_ok pool" using assms(1) by (rule pool_reachable_ok)
  from ok obtain align alignedLen where n: "0 < len" "NormalizeAlignment alignment = Some align" "NormalizeLength len = Some alignedLen"
    and fit: "fits pool align alignedLen (unat searchStart) (min (unat searchEnd) kPoolBytes) u"
    and pg: "\<And>p. pages pool1 p = (if u div kPage \<le> p \<and> p < (u + alignedLen) div kPage then Some type else pages pool p)"
    by (cases rule: Alloc_outcome [where create = create and node = node and searchStart = searchStart and searchEnd = searchEnd and
        len = len and alignment = alignment and type = type and out = True]) (use assms(2) in auto)
  note sz = Alloc_sizes [OF n(2,3,1)]
  have u: "kPage dvd u" "u + alignedLen \<le> kPoolBytes" using fits_page [OF fit sz(2)] fit by (auto simp: fits_def)
  have r: "RoundUp len kPage = Some alignedLen" using n(3) by (auto simp: NormalizeLength_def split: option.splits if_splits)
  have span: "PageSpan u len = Some (u, u + alignedLen)"
  proof -
    have "page_down u = u" using u(1) by (simp add: page_down_def)
    moreover have "page_down (u + len + kPage - 1) = u + alignedLen"
    proof (rule antisym)
      have "kPage dvd u + alignedLen" using u(1) sz(5) by simp
      moreover have "u + alignedLen \<le> u + len + kPage - 1" using RoundUp_Some(3) [OF r kPage_pos] by linarith
      ultimately show "u + alignedLen \<le> page_down (u + len + kPage - 1)" by (rule page_down(4))
      have "kPage dvd page_down (u + len + kPage - 1)" by (rule page_down(2))
      moreover have "page_down (u + len + kPage - 1) < u + alignedLen + kPage"
        using page_down(1) [of "u + len + kPage - 1"] sz(6) kPage_pos by linarith
      ultimately show "page_down (u + len + kPage - 1) \<le> u + alignedLen"
        using page_next [OF _ \<open>kPage dvd u + alignedLen\<close>] by (metis leD le_less_linear)
    qed
    ultimately show ?thesis using n(1) u(2) sz(4,6) by (simp add: PageSpan_def)
  qed
  have reach: "pool_reachable pool1" using assms(1,2) by (rule pool_reachable.alloc)
  have ok1: "pool_ok pool1" using reach by (rule pool_reachable_ok)
  have before: "pages pool p = None" if "u div kPage \<le> p" "p < (u + alignedLen) div kPage" for p
    using fit that by (simp add: fits_def)
  from ok1 obtain pool2 where "release node' forget u len True pool1 = (Inr True, pool2)"
    "\<And>p. pages pool2 p = (if u div kPage \<le> p \<and> p < (u + alignedLen) div kPage then None else pages pool1 p)"
    by (cases rule: release_cases [where start = u and len = len and forget = forget and node = node' and req = True])
      (use assms(3,4) span pg in auto)
  then show ?thesis using pg before by (intro exI [of _ pool2]) (auto simp: CheckedFree_def)
qed

theorem Alloc_free_roundtrip_witness:
  "\<exists>pool1 pool2. Alloc (\<lambda>_. True) (\<lambda>_ _ _. None) 0x4001 0x100000 5000 0 3 True empty_pool = (Inr (Inr 0x8000), pool1) \<and>
    CheckedFree (\<lambda>_. True) (\<lambda>_ _. None) 0x8000 5000 pool1 = (Inr True, pool2) \<and> pages pool2 = pages empty_pool"
proof -
  obtain pool1 where a: "Alloc (\<lambda>_. True) (\<lambda>_ _ _. None) 0x4001 0x100000 5000 0 3 True empty_pool = (Inr (Inr 0x8000), pool1)"
    using Alloc_page_example by metis
  from Alloc_free_roundtrip [OF pool_reachable.empty a, of "\<lambda>_ _. None" "\<lambda>_. True"] a show ?thesis by auto
qed

theorem free_pages_witness:
  "\<exists>pool pool'. pages pool 2 = Some 3 \<and> CheckedFree (\<lambda>_. True) (\<lambda>_ _. None) 0x8000 2 pool = (Inr True, pool') \<and> pages pool' 2 = None"
proof -
  obtain pool where pool: "pool_reachable pool" "\<And>p. pages pool p = (if p = 2 then Some 3 else None)"
    using Alloc_page_example by metis
  have "PageSpan 0x8000 2 = Some (0x8000, 0xC000)" by (simp add: PageSpan_def kPoolBytes_def page_down_def kPage_def)
  note f = free_pages [OF pool(1) this, where forget = "\<lambda>_ _. None" and node = "\<lambda>_. True" and req = True and p = 2, OF refl TrueI TrueI]
  have two: "off div kPage = 2" if "0x8000 \<le> off" "off < 0x8000 + 2" for off :: nat
    using that by (intro div_nat_eqI) (simp_all add: kPage_def)
  have all: "\<forall>off. 0x8000 \<le> off \<and> off < 0x8000 + 2 \<longrightarrow> pages pool (off div kPage) \<noteq> None"
    using two pool(2) [of 2] by simp
  have ex: "\<exists>off. 0x8000 \<le> off \<and> off < 0x8000 + 2 \<and> off div kPage = 2"
    by (intro exI [of _ "0x8000"]) (simp add: kPage_def)
  obtain r pool' where call: "release (\<lambda>_. True) (\<lambda>_ _. None) 0x8000 2 True pool = (r, pool')" by (rule prod.exhaust)
  from f all have "r = Inr True" by (simp add: CheckedFree_def call)
  moreover from f ex this have "pages pool' 2 = None" by (simp add: call)
  ultimately show ?thesis using call pool(2) [of 2] by (intro exI [of _ pool] exI [of _ pool']) (simp add: CheckedFree_def)
qed


theorem pool_invariant_witness:
  "\<exists>pool. pages pool 2 = Some 3 \<and> (\<exists>e \<in> set (pool_blocks pool). fst e \<le> 0x8000 \<and> 0x8000 < block_end (snd e))"
proof -
  obtain pool where pool: "pool_reachable pool" "\<And>p. pages pool p = (if p = 2 then Some 3 else None)"
    using Alloc_page_example by metis
  have "pool_used pool 2" using pool_reachable_ok [OF pool(1)] pool(2) [of 2] by (simp add: pool_ok_def)
  then have "\<exists>e \<in> set (pool_blocks pool). fst e \<le> 2 * kPage \<and> 2 * kPage < block_end (snd e)"
    using pool_invariant [OF pool(1)] by blast
  then show ?thesis using pool(2) [of 2] by (intro exI [of _ pool]) (simp add: kPage_def)
qed


end
