(* ===== verification/Monitor.thy ===== *)
theory Monitor
  imports Prelude "HOL-Library.Multiset"
begin

text \<open>
  Threads that wait on a condition: the loops \<open>Condition::Wait\<close> and \<open>Condition::WaitUntil\<close> of
  \<open>core/libs/prx/libkernel/Time/include/TimedWait.hpp\<close> around a mutex-protected object. A step is one critical section:
  a call that does not block, the part of a waiting call up to its first wait, a waiter that finds its predicate true
  and leaves, one that finds it false and sleeps again, or one whose deadline passes while it is false. A waiter looks at
  its predicate again only after a notification (a spurious wakeup is a \<open>Wake\<close> or \<open>Sleep\<close> without one, allowed as well),
  so that a lost notification is a waiter that sleeps although its predicate holds. \<open>Outside\<close> is any step that does not touch the object.
\<close>

record ('s, 'w) monitor =
  shared :: 's
  waiting :: "(nat \<times> 'w \<times> bool) list"

datatype monitor_label = Outside | Call nat | Block nat | Wake nat | Sleep nat | Timeout nat

definition notify :: "bool \<Rightarrow> (nat \<times> 'w \<times> bool) list \<Rightarrow> (nat \<times> 'w \<times> bool) list" where
  "notify all ws = (if all then map (\<lambda>(t, w, n). (t, w, True)) ws else ws)"

definition without :: "nat \<Rightarrow> (nat \<times> 'w \<times> bool) list \<Rightarrow> (nat \<times> 'w \<times> bool) list" where
  "without t ws = filter (\<lambda>(u, w, n). u \<noteq> t) ws"

definition asleep :: "nat \<Rightarrow> (nat \<times> 'w \<times> bool) list \<Rightarrow> (nat \<times> 'w \<times> bool) list" where
  "asleep t ws = map (\<lambda>(u, w, n). (u, w, n \<and> u \<noteq> t)) ws"

text \<open>
  \<open>calls t s n s'\<close>: a call of the thread \<open>t\<close>, which is not waiting, takes the object from \<open>s\<close> to \<open>s'\<close> and notifies all waiters when \<open>n\<close>.
  \<open>blocks t s w n s'\<close>: a waiting call of \<open>t\<close> registers, notifies when \<open>n\<close> and starts to wait with the arguments \<open>w\<close>. \<open>leaves s w timedOut\<close>: what the waiting call does
  after its loop, and whether it notifies.
\<close>

inductive monitor_step ::
    "(nat \<Rightarrow> 's \<Rightarrow> bool \<Rightarrow> 's \<Rightarrow> bool) \<Rightarrow> (nat \<Rightarrow> 's \<Rightarrow> 'w \<Rightarrow> bool \<Rightarrow> 's \<Rightarrow> bool) \<Rightarrow> ('s \<Rightarrow> 'w \<Rightarrow> bool) \<Rightarrow> ('s \<Rightarrow> 'w \<Rightarrow> bool \<Rightarrow> bool \<times> 's) \<Rightarrow>
     ('w \<Rightarrow> bool) \<Rightarrow> ('s, 'w) monitor \<Rightarrow> monitor_label \<Rightarrow> ('s, 'w) monitor \<Rightarrow> bool"
  for calls :: "nat \<Rightarrow> 's \<Rightarrow> bool \<Rightarrow> 's \<Rightarrow> bool" and blocks :: "nat \<Rightarrow> 's \<Rightarrow> 'w \<Rightarrow> bool \<Rightarrow> 's \<Rightarrow> bool" and released :: "'s \<Rightarrow> 'w \<Rightarrow> bool"
    and leaves :: "'s \<Rightarrow> 'w \<Rightarrow> bool \<Rightarrow> bool \<times> 's" and timed :: "'w \<Rightarrow> bool" where
  outside: "monitor_step calls blocks released leaves timed m Outside m"
| call: "calls t s n s' \<Longrightarrow> t \<notin> fst ` set ws \<Longrightarrow>
    monitor_step calls blocks released leaves timed \<lparr>shared = s, waiting = ws\<rparr> (Call t) \<lparr>shared = s', waiting = notify n ws\<rparr>"
| block: "blocks t s w n s' \<Longrightarrow> t \<notin> fst ` set ws \<Longrightarrow>
    monitor_step calls blocks released leaves timed \<lparr>shared = s, waiting = ws\<rparr> (Block t) \<lparr>shared = s', waiting = notify n ws @ [(t, w, False)]\<rparr>"
| wake: "(t, w, n) \<in> set ws \<Longrightarrow> released s w \<Longrightarrow> leaves s w False = (m, s') \<Longrightarrow>
    monitor_step calls blocks released leaves timed \<lparr>shared = s, waiting = ws\<rparr> (Wake t) \<lparr>shared = s', waiting = notify m (without t ws)\<rparr>"
| sleep: "(t, w, n) \<in> set ws \<Longrightarrow> \<not> released s w \<Longrightarrow>
    monitor_step calls blocks released leaves timed \<lparr>shared = s, waiting = ws\<rparr> (Sleep t) \<lparr>shared = s, waiting = asleep t ws\<rparr>"
| timeout: "(t, w, n) \<in> set ws \<Longrightarrow> timed w \<Longrightarrow> \<not> released s w \<Longrightarrow> leaves s w True = (m, s') \<Longrightarrow>
    monitor_step calls blocks released leaves timed \<lparr>shared = s, waiting = ws\<rparr> (Timeout t) \<lparr>shared = s', waiting = notify m (without t ws)\<rparr>"

inductive monitor_reachable ::
    "(('s, 'w) monitor \<Rightarrow> monitor_label \<Rightarrow> ('s, 'w) monitor \<Rightarrow> bool) \<Rightarrow> ('s \<Rightarrow> bool) \<Rightarrow> ('s, 'w) monitor \<Rightarrow> bool"
  for step :: "('s, 'w) monitor \<Rightarrow> monitor_label \<Rightarrow> ('s, 'w) monitor \<Rightarrow> bool" and initial :: "'s \<Rightarrow> bool" where
  start: "initial s \<Longrightarrow> monitor_reachable step initial \<lparr>shared = s, waiting = []\<rparr>"
| more: "monitor_reachable step initial m \<Longrightarrow> step m l m' \<Longrightarrow> monitor_reachable step initial m'"

inductive_cases monitor_stepE: "monitor_step calls blocks released leaves timed m l m'"

inductive_simps monitor_step_Wake: "monitor_step calls blocks released leaves timed m (Wake t) m'"

lemma set_notify: "(t, w, n) \<in> set (notify all ws) \<longleftrightarrow> (\<exists>n'. (t, w, n') \<in> set ws \<and> n = (n' \<or> all))"
  by (auto simp: notify_def image_iff) (force+)?

lemma set_without: "(u, w, n) \<in> set (without t ws) \<longleftrightarrow> (u, w, n) \<in> set ws \<and> u \<noteq> t"
  by (auto simp: without_def)

lemma set_asleep: "(u, w, n) \<in> set (asleep t ws) \<longleftrightarrow> (\<exists>n'. (u, w, n') \<in> set ws \<and> n = (n' \<and> u \<noteq> t))"
  by (auto simp: asleep_def image_iff) (force+)?

lemma threads_notify [simp]: "map fst (notify all ws) = map fst ws"
  by (auto simp: notify_def)

lemma threads_asleep [simp]: "map fst (asleep t ws) = map fst ws"
  by (auto simp: asleep_def)

lemma threads_without: "map fst (without t ws) = filter (\<lambda>u. u \<noteq> t) (map fst ws)"
  by (induction ws) (auto simp: without_def)

lemma length_notify [simp]: "length (notify all ws) = length ws"
  by (simp add: notify_def)

lemma length_asleep [simp]: "length (asleep t ws) = length ws"
  by (simp add: asleep_def)

text \<open>What the waiters wait for.\<close>

definition waits :: "(nat \<times> 'w \<times> bool) list \<Rightarrow> 'w multiset" where
  "waits ws = image_mset (\<lambda>(t, w, n). w) (mset ws)"

lemma waits_simps [simp]: "waits [] = {#}" "waits ((t, w, n) # ws) = add_mset w (waits ws)" "waits (ws @ vs) = waits ws + waits vs"
  by (simp_all add: waits_def)

lemma waits_notify [simp]: "waits (notify all ws) = waits ws"
  by (induction ws) (auto simp: notify_def waits_def)

lemma waits_asleep [simp]: "waits (asleep t ws) = waits ws"
  by (induction ws) (auto simp: asleep_def waits_def)

lemma in_waits: "(t, w, n) \<in> set ws \<Longrightarrow> w \<in># waits ws"
  by (force simp: waits_def)

lemma waits_without: "distinct (map fst ws) \<Longrightarrow> (t, w, n) \<in> set ws \<Longrightarrow> add_mset w (waits (without t ws)) = waits ws"
proof (induction ws)
  case (Cons x ws)
  obtain u v b where x: "x = (u, v, b)" by (rule prod_cases3)
  show ?case
  proof (cases "u = t")
    case True
    then have "t \<notin> fst ` set ws" using Cons.prems(1) x by simp
    then have "without t ws = ws" "(t, w, n) = x"
      using Cons.prems(2) by (force simp: without_def intro: filter_True)+
    with True show ?thesis by (auto simp: without_def x)
  next
    case False
    with Cons.prems have "add_mset w (waits (without t ws)) = waits ws" by (intro Cons.IH) (auto simp: x)
    then have "waits (x # ws) = add_mset v (add_mset w (waits (without t ws)))" by (simp add: x)
    with False show ?thesis by (simp add: without_def x add_mset_commute)
  qed
qed simp

text \<open>
  A run, and a fair scheduler: a thread that stays notified is eventually given the processor to look at its predicate.
\<close>

definition monitor_run ::
    "(('s, 'w) monitor \<Rightarrow> monitor_label \<Rightarrow> ('s, 'w) monitor \<Rightarrow> bool) \<Rightarrow> (nat \<Rightarrow> ('s, 'w) monitor) \<Rightarrow> (nat \<Rightarrow> monitor_label) \<Rightarrow> bool" where
  "monitor_run step run label \<longleftrightarrow> (\<forall>i. step (run i) (label i) (run (Suc i)))"

definition fair :: "(nat \<Rightarrow> ('s, 'w) monitor) \<Rightarrow> (nat \<Rightarrow> monitor_label) \<Rightarrow> bool" where
  "fair run label \<longleftrightarrow>
     (\<forall>t i. (\<forall>j \<ge> i. \<exists>w. (t, w, True) \<in> set (waiting (run j))) \<longrightarrow> (\<exists>j \<ge> i. label j \<in> {Wake t, Sleep t, Timeout t}))"

lemma quiet_fair: "(\<And>j. i \<le> j \<Longrightarrow> waiting (run j) = []) \<Longrightarrow> fair run label"
  unfolding fair_def by (metis empty_iff empty_set nat_le_linear)

lemma run_reachable:
  assumes "monitor_run step run label" "initial (shared (run 0))" "waiting (run 0) = []"
  shows "monitor_reachable step initial (run i)"
proof (induction i)
  case 0
  then show ?case using monitor_reachable.start [where initial = initial, OF assms(2)] assms(3) by (metis monitor.surjective old.unit.exhaust)
next
  case (Suc i)
  then show ?case using assms(1) monitor_reachable.more unfolding monitor_run_def by blast
qed

lemma monitor_step_keeps:
  assumes "monitor_step calls blocks released leaves timed m l m'" "(t, w, n) \<in> set (waiting m)" "l \<noteq> Wake t" "l \<noteq> Timeout t"
  shows "\<exists>n'. (t, w, n') \<in> set (waiting m')"
  using assms by (induction rule: monitor_step.induct) (auto simp: set_notify set_without set_asleep)

lemma monitor_step_gone:
  "monitor_step calls blocks released leaves timed m (Wake t) m' \<Longrightarrow> t \<notin> fst ` set (waiting m')"
  by (auto simp: monitor_step_Wake set_notify set_without)

definition pending :: "('w \<Rightarrow> bool) \<Rightarrow> ('s, 'w) monitor \<Rightarrow> nat set" where
  "pending Q m = {t. \<exists>w n. (t, w, n) \<in> set (waiting m) \<and> Q w}"

lemma finite_pending [simp]: "finite (pending Q m)"
  by (rule finite_subset [of _ "fst ` set (waiting m)"]) (force simp: pending_def)+

lemma pending_all: "pending (\<lambda>w. True) m = {} \<longleftrightarrow> waiting m = []"
  by (cases "waiting m") (auto simp: pending_def)

subsection \<open>The contract of a monitor\<close>

text \<open>
  What the object has to keep: an invariant that may speak of what the waiters wait for, and that whatever makes some
  waiter's predicate true notifies all waiters.
\<close>

locale monitor_object =
  fixes inv :: "'w multiset \<Rightarrow> 's \<Rightarrow> bool" and calls :: "nat \<Rightarrow> 's \<Rightarrow> bool \<Rightarrow> 's \<Rightarrow> bool" and blocks :: "nat \<Rightarrow> 's \<Rightarrow> 'w \<Rightarrow> bool \<Rightarrow> 's \<Rightarrow> bool"
    and released :: "'s \<Rightarrow> 'w \<Rightarrow> bool" and leaves :: "'s \<Rightarrow> 'w \<Rightarrow> bool \<Rightarrow> bool \<times> 's" and timed :: "'w \<Rightarrow> bool"
  assumes inv_calls: "inv W s \<Longrightarrow> calls t s n s' \<Longrightarrow> inv W s'"
    and inv_blocks: "inv W s \<Longrightarrow> blocks t s w n s' \<Longrightarrow> inv (add_mset w W) s'"
    and inv_leaves: "inv (add_mset w W) s \<Longrightarrow> released s w \<noteq> timedOut \<Longrightarrow> (timedOut \<Longrightarrow> timed w) \<Longrightarrow>
      leaves s w timedOut = (n, s') \<Longrightarrow> inv W s'"
    and calls_notify: "inv W s \<Longrightarrow> v \<in># W \<Longrightarrow> calls t s n s' \<Longrightarrow> released s' v \<Longrightarrow> \<not> released s v \<Longrightarrow> n"
    and blocks_asleep: "inv W s \<Longrightarrow> blocks t s w n s' \<Longrightarrow> \<not> released s' w"
    and blocks_notify: "inv W s \<Longrightarrow> v \<in># W \<Longrightarrow> blocks t s w n s' \<Longrightarrow> released s' v \<Longrightarrow> \<not> released s v \<Longrightarrow> n"
    and leaves_notify: "inv (add_mset w W) s \<Longrightarrow> released s w \<noteq> timedOut \<Longrightarrow> (timedOut \<Longrightarrow> timed w) \<Longrightarrow>
      leaves s w timedOut = (n, s') \<Longrightarrow> v \<in># W \<Longrightarrow>
      released s' v \<Longrightarrow> \<not> released s v \<Longrightarrow> n"
begin

abbreviation "mstep \<equiv> monitor_step calls blocks released leaves timed"

text \<open>No thread waits twice, and a waiter whose predicate holds has been notified.\<close>

definition awake :: "('s, 'w) monitor \<Rightarrow> bool" where
  "awake m \<longleftrightarrow> inv (waits (waiting m)) (shared m) \<and> distinct (map fst (waiting m)) \<and>
     (\<forall>(t, w, n) \<in> set (waiting m). released (shared m) w \<longrightarrow> n)"

lemma waiter_unique: "distinct (map fst ws) \<Longrightarrow> (t, w, n) \<in> set ws \<Longrightarrow> (t, w', n') \<in> set ws \<Longrightarrow> w = w' \<and> n = n'"
  by (metis Pair_inject eq_key_imp_eq_value)

lemma awake_leave:
  assumes "awake \<lparr>shared = s, waiting = ws\<rparr>" "(t, w, n) \<in> set ws" "released s w \<noteq> timedOut" "timedOut \<Longrightarrow> timed w"
    "leaves s w timedOut = (m, s')"
  shows "awake \<lparr>shared = s', waiting = notify m (without t ws)\<rparr>"
proof -
  have d: "distinct (map fst ws)" using assms(1) by (simp add: awake_def)
  have W: "add_mset w (waits (without t ws)) = waits ws" by (rule waits_without [OF d assms(2)])
  have i: "inv (add_mset w (waits (without t ws))) s" using assms(1) by (simp add: awake_def W)
  have "m" if "(u, v, b) \<in> set (without t ws)" "released s' v" "\<not> released s v" for u v b
    using leaves_notify [OF i assms(3,4,5) in_waits [OF that(1)] that(2,3)] .
  with assms(1) inv_leaves [OF i assms(3,4,5)] d show ?thesis
    by (fastforce simp: awake_def set_notify set_without threads_without)
qed

lemma awake_step: "mstep m l m' \<Longrightarrow> awake m \<Longrightarrow> awake m'"
proof (induction rule: monitor_step.induct)
  case (outside m)
  then show ?case .
next
  case (call t s n s' ws)
  then have i: "inv (waits ws) s" by (simp add: awake_def)
  have "n" if "(u, w, b) \<in> set ws" "released s' w" "\<not> released s w" for u w b
    using calls_notify [OF i in_waits [OF that(1)] call(1) that(2,3)] .
  with call inv_calls [OF i call(1)] show ?case by (fastforce simp: awake_def set_notify)
next
  case (block t s w n s' ws)
  then have i: "inv (waits ws) s" by (simp add: awake_def)
  have "n" if "(u, v, b) \<in> set ws" "released s' v" "\<not> released s v" for u v b
    using blocks_notify [OF i in_waits [OF that(1)] block(1) that(2,3)] .
  with block inv_blocks [OF i block(1)] blocks_asleep [OF i block(1)] show ?case
    by (fastforce simp: awake_def set_notify)
next
  case (wake t w n ws s m s')
  then show ?case by (intro awake_leave [OF wake(4,1) _ _ wake(3)]) simp_all
next
  case (sleep t w n ws s)
  then have "distinct (map fst ws)" by (simp add: awake_def)
  then have "\<not> released s v" if "(t, v, b) \<in> set ws" for v b using waiter_unique [OF _ sleep(1) that] sleep(2) by blast
  with sleep(3) show ?case by (fastforce simp: awake_def set_asleep)
next
  case (timeout t w n ws s m s')
  then show ?case by (intro awake_leave [OF timeout(5,1) _ _ timeout(4)]) (simp_all add: timeout)
qed

lemma awake_reachable:
  assumes "monitor_reachable mstep initial m" "\<And>s. initial s \<Longrightarrow> inv {#} s"
  shows "awake m"
  using assms(1) by (induction rule: monitor_reachable.induct) (use assms(2) awake_step in \<open>auto simp: awake_def\<close>)

lemma no_lost_wakeup:
  assumes "monitor_reachable mstep initial m" "\<And>s. initial s \<Longrightarrow> inv {#} s" "(t, w, n) \<in> set (waiting m)" "released (shared m) w"
  shows "n"
  using awake_reachable [OF assms(1,2)] assms(3,4) unfolding awake_def by blast

lemma awake_run: "monitor_run mstep run label \<Longrightarrow> awake (run 0) \<Longrightarrow> awake (run j)"
  by (induction j) (use awake_step in \<open>auto simp: monitor_run_def\<close>)

text \<open>A waiter whose predicate holds for as long as it waits leaves, whatever the other threads do.\<close>

lemma leaves_eventually:
  assumes "monitor_run mstep run label" "fair run label" "awake (run 0)"
    and "(t, w, n) \<in> set (waiting (run i))"
    and "\<And>j. i \<le> j \<Longrightarrow> \<exists>n. (t, w, n) \<in> set (waiting (run j)) \<Longrightarrow> released (shared (run j)) w"
  shows "\<exists>j \<ge> i. label j = Wake t \<and> (t, w) \<in> (\<lambda>(t, w, n). (t, w)) ` set (waiting (run j)) \<and> t \<notin> fst ` set (waiting (run (Suc j)))"
proof (rule ccontr)
  assume never: "\<not> ?thesis"
  have step: "mstep (run j) (label j) (run (Suc j))" for j using assms(1) by (simp add: monitor_run_def)
  note aw = awake_run [OF assms(1,3)]
  have look: "label j \<notin> {Sleep t, Timeout t, Wake t}" if "i \<le> j" "(t, w, b) \<in> set (waiting (run j))" for j b
  proof
    assume l: "label j \<in> {Sleep t, Timeout t, Wake t}"
    have r: "released (shared (run j)) w" using assms(5) that by blast
    have "distinct (map fst (waiting (run j)))" using aw [of j] by (simp add: awake_def)
    then have u: "v = w" if "(t, v, c) \<in> set (waiting (run j))" for v c
      using waiter_unique [OF _ that \<open>(t, w, b) \<in> _\<close>] by blast
    from l consider "label j = Sleep t" | "label j = Timeout t" | "label j = Wake t" by blast
    then show False
    proof cases
      case 1
      with step [of j] r u show False by (auto elim!: monitor_stepE)
    next
      case 2
      with step [of j] r u show False by (auto elim!: monitor_stepE)
    next
      case 3
      with step [of j] have "t \<notin> fst ` set (waiting (run (Suc j)))" by (metis monitor_step_gone)
      moreover have "(t, w) \<in> (\<lambda>(t, w, n). (t, w)) ` set (waiting (run j))" using that(2) by force
      ultimately show False using never that(1) 3 by blast
    qed
  qed
  have stays: "\<exists>b. (t, w, b) \<in> set (waiting (run j))" if "i \<le> j" for j
    using that
  proof (induction j rule: dec_induct)
    case base
    then show ?case using assms(4) by blast
  next
    case (step j)
    then obtain b where b: "(t, w, b) \<in> set (waiting (run j))" by blast
    with look [OF step(1) b] show ?case using monitor_step_keeps [OF \<open>mstep (run j) (label j) (run (Suc j))\<close> b] by simp
  qed
  have "\<exists>v. (t, v, True) \<in> set (waiting (run j))" if "i \<le> j" for j
  proof -
    obtain b where b: "(t, w, b) \<in> set (waiting (run j))" using stays [OF \<open>i \<le> j\<close>] by blast
    then have "b" using assms(5) [OF that] aw [of j] unfolding awake_def by blast
    with b show ?thesis by auto
  qed
  with assms(2) obtain j where "i \<le> j" "label j \<in> {Wake t, Sleep t, Timeout t}" unfolding fair_def by blast
  with look stays show False by blast
qed

text \<open>
  If the object reaches a phase \<open>P\<close> that is never left, in which the predicates \<open>Q\<close> speaks of are true and no further
  thread blocks on one, the waiters on those predicates all leave.
\<close>

lemma pending_step:
  assumes "mstep m l m'" "\<And>t s w n s'. blocks t s w n s' \<Longrightarrow> s = shared m \<Longrightarrow> \<not> Q w"
  shows "pending Q m' \<subseteq> pending Q m"
  using assms by (induction rule: monitor_step.induct) (fastforce simp: pending_def set_notify set_without set_asleep)+

lemma drains:
  assumes run: "monitor_run mstep run label" "fair run label" "awake (run 0)"
    and P: "P (shared (run i))" "\<And>m l m'. mstep m l m' \<Longrightarrow> awake m \<Longrightarrow> P (shared m) \<Longrightarrow> P (shared m')"
    and Q: "\<And>s w. P s \<Longrightarrow> Q w \<Longrightarrow> released s w" "\<And>t s w n s'. P s \<Longrightarrow> blocks t s w n s' \<Longrightarrow> \<not> Q w"
  shows "\<exists>j \<ge> i. P (shared (run j)) \<and> pending Q (run j) = {}"
  using P(1)
proof (induction "card (pending Q (run i))" arbitrary: i rule: less_induct)
  case less
  have step: "mstep (run j) (label j) (run (Suc j))" for j using run(1) by (simp add: monitor_run_def)
  note aw = awake_run [OF run(1,3)]
  have stays: "P (shared (run j)) \<and> pending Q (run j) \<subseteq> pending Q (run i)" if "i \<le> j" for j
    using that
  proof (induction j rule: dec_induct)
    case base
    then show ?case using less.prems by blast
  next
    case (step j)
    then have "pending Q (run (Suc j)) \<subseteq> pending Q (run j)"
      using pending_step [OF \<open>mstep (run j) (label j) (run (Suc j))\<close>] Q(2) by blast
    with step P(2) [OF \<open>mstep (run j) (label j) (run (Suc j))\<close> aw] show ?case by blast
  qed
  show ?case
  proof (cases "pending Q (run i) = {}")
    case True
    with less.prems show ?thesis by blast
  next
    case False
    then obtain t w n where t: "(t, w, n) \<in> set (waiting (run i))" "Q w" by (auto simp: pending_def)
    have "\<exists>j \<ge> i. label j = Wake t \<and> (t, w) \<in> (\<lambda>(t, w, n). (t, w)) ` set (waiting (run j)) \<and> t \<notin> fst ` set (waiting (run (Suc j)))"
      by (rule leaves_eventually [OF run t(1)]) (use stays Q(1) t(2) in blast)
    then obtain j where j: "i \<le> j" "t \<notin> fst ` set (waiting (run (Suc j)))" by blast
    have "t \<in> pending Q (run i)" "t \<notin> pending Q (run (Suc j))" using t j(2) by (force simp: pending_def)+
    moreover have "pending Q (run (Suc j)) \<subseteq> pending Q (run i)" "P (shared (run (Suc j)))"
      using stays [of "Suc j"] j(1) by auto
    ultimately have "card (pending Q (run (Suc j))) < card (pending Q (run i))"
      by (intro psubset_card_mono finite_pending) blast
    from less.hyps [OF this \<open>P (shared (run (Suc j)))\<close>] show ?thesis using j(1) by (meson Suc_leD le_trans)
  qed
qed

end

end
