(* ===== verification/EventFlag.thy ===== *)
theory EventFlag
  imports Kernel_Errors Monitor
begin

text \<open>
  Event flags, \<open>core/libs/prx/libkernel/EventFlag/src/EventFlag.cpp\<close>. The object is a record without its name, its mutex
  and its condition; \<open>ef_freed\<close> says that \<open>delete\<close> has been called on it. Every call returns its code, what it writes
  through its output pointer, the object afterwards and whether it notified the waiters. A null handle and null
  output pointers are left out, as are tracing and the failure of \<open>new\<close>. \<open>sceKernelWaitEventFlag\<close> is cut where its
  loop may give up the mutex: \<open>wait_begin\<close>, \<open>released\<close> and \<open>wait_end\<close>; the deadline left over that it writes
  back through \<open>timeout\<close> is not modelled.
\<close>

definition EVF_ATTR_SINGLE :: u32 where "EVF_ATTR_SINGLE = 0x10"

definition EVF_ATTR_MULTI :: u32 where "EVF_ATTR_MULTI = 0x20"

definition EVF_WAITMODE_AND :: u32 where "EVF_WAITMODE_AND = 0x01"

definition EVF_WAITMODE_OR :: u32 where "EVF_WAITMODE_OR = 0x02"

definition EVF_WAITMODE_CLEAR_ALL :: u32 where "EVF_WAITMODE_CLEAR_ALL = 0x10"

definition EVF_WAITMODE_CLEAR_PAT :: u32 where "EVF_WAITMODE_CLEAR_PAT = 0x20"

record KernelEventFlag =
  ef_pattern :: u64
  ef_multipleWaiters :: bool
  ef_deleted :: bool
  ef_waiters :: int
  ef_cancelGeneration :: u64
  ef_freed :: bool

datatype ef_out = Nothing | Pattern u64 | Threads int

record ef_return =
  ef_code :: errno
  ef_written :: ef_out
  ef_flag :: KernelEventFlag
  ef_notified :: bool

definition ef_error :: "errno \<Rightarrow> KernelEventFlag \<Rightarrow> ef_return" where
  "ef_error code ef = \<lparr>ef_code = code, ef_written = Nothing, ef_flag = ef, ef_notified = False\<rparr>"

definition IsValidWaitMode :: "u32 \<Rightarrow> bool" where
  "IsValidWaitMode waitMode =
    (let match = waitMode AND (EVF_WAITMODE_AND OR EVF_WAITMODE_OR);
         clear = waitMode AND (EVF_WAITMODE_CLEAR_ALL OR EVF_WAITMODE_CLEAR_PAT) in
     if waitMode AND NOT (EVF_WAITMODE_AND OR EVF_WAITMODE_OR OR EVF_WAITMODE_CLEAR_ALL OR EVF_WAITMODE_CLEAR_PAT) \<noteq> 0 then False
     else (match = EVF_WAITMODE_AND \<or> match = EVF_WAITMODE_OR) \<and>
       clear \<noteq> (EVF_WAITMODE_CLEAR_ALL OR EVF_WAITMODE_CLEAR_PAT))"

definition IsSatisfied :: "u64 \<Rightarrow> u64 \<Rightarrow> u32 \<Rightarrow> bool" where
  "IsSatisfied pattern bitPattern waitMode =
    (if waitMode AND EVF_WAITMODE_AND \<noteq> 0 then pattern AND bitPattern = bitPattern else pattern AND bitPattern \<noteq> 0)"

definition Consume :: "KernelEventFlag \<Rightarrow> u64 \<Rightarrow> u32 \<Rightarrow> KernelEventFlag" where
  "Consume ef bitPattern waitMode =
    (if waitMode AND EVF_WAITMODE_CLEAR_ALL \<noteq> 0 then ef\<lparr>ef_pattern := 0\<rparr>
     else if waitMode AND EVF_WAITMODE_CLEAR_PAT \<noteq> 0 then ef\<lparr>ef_pattern := ef_pattern ef AND NOT bitPattern\<rparr>
     else ef)"

definition sceKernelCreateEventFlag :: "u32 \<Rightarrow> u64 \<Rightarrow> KernelEventFlag kernel" where
  "sceKernelCreateEventFlag attr init_pattern =
    (if attr AND EVF_ATTR_SINGLE \<noteq> 0 \<and> attr AND EVF_ATTR_MULTI \<noteq> 0 then Inl SCE_KERNEL_ERROR_EINVAL
     else if attr AND NOT 0x33 \<noteq> 0 then Inl SCE_KERNEL_ERROR_EINVAL
     else Inr \<lparr>ef_pattern = init_pattern, ef_multipleWaiters = attr AND EVF_ATTR_MULTI \<noteq> 0, ef_deleted = False,
       ef_waiters = 0, ef_cancelGeneration = 0, ef_freed = False\<rparr>)"

definition sceKernelDeleteEventFlag :: "KernelEventFlag \<Rightarrow> ef_return" where
  "sceKernelDeleteEventFlag ef =
    (if ef_deleted ef then ef_error SCE_KERNEL_ERROR_ESRCH ef
     else let ef = ef\<lparr>ef_deleted := True\<rparr> in
       if ef_waiters ef \<noteq> 0 then \<lparr>ef_code = 0, ef_written = Nothing, ef_flag = ef, ef_notified = True\<rparr>
       else \<lparr>ef_code = 0, ef_written = Nothing, ef_flag = ef\<lparr>ef_freed := True\<rparr>, ef_notified = False\<rparr>)"

definition sceKernelSetEventFlag :: "u64 \<Rightarrow> KernelEventFlag \<Rightarrow> ef_return" where
  "sceKernelSetEventFlag bit_pattern ef =
    (if ef_deleted ef then ef_error SCE_KERNEL_ERROR_ESRCH ef
     else \<lparr>ef_code = 0, ef_written = Nothing, ef_flag = ef\<lparr>ef_pattern := ef_pattern ef OR bit_pattern\<rparr>, ef_notified = True\<rparr>)"

definition sceKernelClearEventFlag :: "u64 \<Rightarrow> KernelEventFlag \<Rightarrow> ef_return" where
  "sceKernelClearEventFlag bit_pattern ef =
    (if ef_deleted ef then ef_error SCE_KERNEL_ERROR_ESRCH ef
     else \<lparr>ef_code = 0, ef_written = Nothing, ef_flag = ef\<lparr>ef_pattern := ef_pattern ef AND bit_pattern\<rparr>, ef_notified = False\<rparr>)"

definition sceKernelCancelEventFlag :: "u64 \<Rightarrow> KernelEventFlag \<Rightarrow> ef_return" where
  "sceKernelCancelEventFlag set_pattern ef =
    (if ef_deleted ef then ef_error SCE_KERNEL_ERROR_ESRCH ef
     else \<lparr>ef_code = 0, ef_written = Threads (ef_waiters ef),
       ef_flag = ef\<lparr>ef_pattern := set_pattern, ef_cancelGeneration := ef_cancelGeneration ef + 1\<rparr>, ef_notified = True\<rparr>)"

definition sceKernelPollEventFlag :: "u64 \<Rightarrow> u32 \<Rightarrow> KernelEventFlag \<Rightarrow> ef_return" where
  "sceKernelPollEventFlag bit_pattern wait_mode ef =
    (if bit_pattern = 0 \<or> \<not> IsValidWaitMode wait_mode then ef_error SCE_KERNEL_ERROR_EINVAL ef
     else if ef_deleted ef then ef_error SCE_KERNEL_ERROR_ESRCH ef
     else if \<not> ef_multipleWaiters ef \<and> ef_waiters ef \<noteq> 0 then ef_error SCE_KERNEL_ERROR_EPERM ef
     else if \<not> IsSatisfied (ef_pattern ef) bit_pattern wait_mode
     then \<lparr>ef_code = SCE_KERNEL_ERROR_EBUSY, ef_written = Pattern (ef_pattern ef), ef_flag = ef, ef_notified = False\<rparr>
     else \<lparr>ef_code = 0, ef_written = Pattern (ef_pattern ef), ef_flag = Consume ef bit_pattern wait_mode, ef_notified = False\<rparr>)"

subsection \<open>Waiting\<close>

record ef_wait =
  ew_bits :: u64
  ew_mode :: u32
  ew_generation :: u64
  ew_timed :: bool

text \<open>Up to the loop: refused, or registered as a waiter.\<close>

definition wait_begin :: "u64 \<Rightarrow> u32 \<Rightarrow> bool \<Rightarrow> KernelEventFlag \<Rightarrow> (KernelEventFlag \<times> ef_wait) kernel" where
  "wait_begin bit_pattern wait_mode timeout ef =
    (if bit_pattern = 0 \<or> \<not> IsValidWaitMode wait_mode then Inl SCE_KERNEL_ERROR_EINVAL
     else if ef_deleted ef then Inl SCE_KERNEL_ERROR_ESRCH
     else if \<not> ef_multipleWaiters ef \<and> ef_waiters ef \<noteq> 0 then Inl SCE_KERNEL_ERROR_EPERM
     else Inr (ef\<lparr>ef_waiters := ef_waiters ef + 1\<rparr>,
       \<lparr>ew_bits = bit_pattern, ew_mode = wait_mode, ew_generation = ef_cancelGeneration ef, ew_timed = timeout\<rparr>))"

definition ef_released :: "KernelEventFlag \<Rightarrow> ef_wait \<Rightarrow> bool" where
  "ef_released ef w \<longleftrightarrow> ef_deleted ef \<or> ef_cancelGeneration ef \<noteq> ew_generation w \<or>
     IsSatisfied (ef_pattern ef) (ew_bits w) (ew_mode w)"

text \<open>From the end of the loop to the return.\<close>

definition wait_end :: "KernelEventFlag \<Rightarrow> ef_wait \<Rightarrow> bool \<Rightarrow> ef_return" where
  "wait_end ef w timedOut =
    (let ef = ef\<lparr>ef_waiters := ef_waiters ef - 1\<rparr> in
     if ef_deleted ef then
       ef_error SCE_KERNEL_ERROR_EACCES (if ef_waiters ef = 0 then ef\<lparr>ef_freed := True\<rparr> else ef)
     else if ef_cancelGeneration ef \<noteq> ew_generation w
     then \<lparr>ef_code = SCE_KERNEL_ERROR_ECANCELED, ef_written = Pattern (ef_pattern ef), ef_flag = ef, ef_notified = False\<rparr>
     else if timedOut
     then \<lparr>ef_code = SCE_KERNEL_ERROR_ETIMEDOUT, ef_written = Pattern (ef_pattern ef), ef_flag = ef, ef_notified = False\<rparr>
     else \<lparr>ef_code = 0, ef_written = Pattern (ef_pattern ef), ef_flag = Consume ef (ew_bits w) (ew_mode w), ef_notified = False\<rparr>)"

subsection \<open>The event flag and its threads\<close>

datatype ef_call = Delete | Set u64 | Clear u64 | Cancel u64 | Poll u64 u32

fun ef_perform :: "ef_call \<Rightarrow> KernelEventFlag \<Rightarrow> ef_return" where
  "ef_perform Delete ef = sceKernelDeleteEventFlag ef"
| "ef_perform (Set bits) ef = sceKernelSetEventFlag bits ef"
| "ef_perform (Clear bits) ef = sceKernelClearEventFlag bits ef"
| "ef_perform (Cancel bits) ef = sceKernelCancelEventFlag bits ef"
| "ef_perform (Poll bits mode) ef = sceKernelPollEventFlag bits mode ef"

text \<open>
  The critical sections of the callers, as the monitor takes them: a call on a live object, or a wait that need not
  block; a wait that blocks; the end of a wait. The guest makes no call on an object that has been freed.
\<close>

definition ef_calls :: "KernelEventFlag \<Rightarrow> bool \<Rightarrow> KernelEventFlag \<Rightarrow> bool" where
  "ef_calls ef notified ef' \<longleftrightarrow> \<not> ef_freed ef \<and>
     ((\<exists>c. ef' = ef_flag (ef_perform c ef) \<and> notified = ef_notified (ef_perform c ef)) \<or>
      (\<exists>bits mode timeout ef1 w. wait_begin bits mode timeout ef = Inr (ef1, w) \<and> ef_released ef1 w \<and>
         ef' = ef_flag (wait_end ef1 w False) \<and> notified = ef_notified (wait_end ef1 w False)))"

definition ef_blocks :: "KernelEventFlag \<Rightarrow> ef_wait \<Rightarrow> bool \<Rightarrow> KernelEventFlag \<Rightarrow> bool" where
  "ef_blocks ef w notified ef' \<longleftrightarrow> \<not> notified \<and> \<not> ef_freed ef \<and>
     (\<exists>bits mode timeout. wait_begin bits mode timeout ef = Inr (ef', w)) \<and> \<not> ef_released ef' w"

definition ef_leaves :: "KernelEventFlag \<Rightarrow> ef_wait \<Rightarrow> bool \<Rightarrow> bool \<times> KernelEventFlag" where
  "ef_leaves ef w timedOut = (ef_notified (wait_end ef w timedOut), ef_flag (wait_end ef w timedOut))"

definition ef_created :: "KernelEventFlag \<Rightarrow> bool" where
  "ef_created ef \<longleftrightarrow> (\<exists>attr pattern. sceKernelCreateEventFlag attr pattern = Inr ef)"

abbreviation ef_step :: "(KernelEventFlag, ef_wait) monitor \<Rightarrow> monitor_label \<Rightarrow> (KernelEventFlag, ef_wait) monitor \<Rightarrow> bool" where
  "ef_step \<equiv> monitor_step (\<lambda>thread. ef_calls) (\<lambda>thread. ef_blocks) ef_released ef_leaves ew_timed"

end
