(* ===== verification/EventFlag_Props.thy ===== *)
theory EventFlag_Props
  imports EventFlag
begin

text \<open>
  The event flag is a monitor object: no wakeup is lost, the object lives exactly as long as it has to, and a deleted
  flag is freed once its waiters have left, which they do.
\<close>

subsection \<open>Conditions\<close>

lemma and_absorb_mono: "(p AND q) AND b = b \<Longrightarrow> p AND b = b" for p q b :: u64
proof -
  assume eq: "(p AND q) AND b = b"
  have "p AND b = p AND ((p AND q) AND b)" by (simp only: eq)
  also have "\<dots> = (p AND q) AND b" by (simp only: and.assoc and.left_idem)
  finally show "p AND b = b" by (simp only: eq)
qed

lemma and_zero_mono: "p AND b = 0 \<Longrightarrow> (p AND q) AND b = 0" for p q b :: u64
  by (simp only: and.commute [of p q] and.assoc bit.conj_zero_right)

lemma IsSatisfied_mono: "IsSatisfied (p AND q) bits mode \<Longrightarrow> IsSatisfied p bits mode"
proof (cases "mode AND EVF_WAITMODE_AND \<noteq> 0")
  case True
  show "IsSatisfied (p AND q) bits mode \<Longrightarrow> ?thesis"
    unfolding IsSatisfied_def if_P [OF True] by (rule and_absorb_mono)
next
  case False
  show "IsSatisfied (p AND q) bits mode \<Longrightarrow> ?thesis"
    unfolding IsSatisfied_def if_not_P [OF False] by (erule contrapos_nn) (rule and_zero_mono)
qed

lemma Consume_pattern: "\<exists>q. Consume ef bits mode = ef\<lparr>ef_pattern := ef_pattern ef AND q\<rparr>"
proof (cases "mode AND EVF_WAITMODE_CLEAR_ALL \<noteq> 0")
  case True
  then show ?thesis by (intro exI [of _ 0]) (simp add: Consume_def)
next
  case all: False
  show ?thesis
  proof (cases "mode AND EVF_WAITMODE_CLEAR_PAT \<noteq> 0")
    case True
    with all show ?thesis by (intro exI [of _ "NOT bits"]) (simp add: Consume_def)
  next
    case False
    with all show ?thesis by (intro exI [of _ "- 1"]) (simp add: Consume_def)
  qed
qed

lemma masked_released: "ef_released (ef\<lparr>ef_pattern := ef_pattern ef AND q\<rparr>) v \<Longrightarrow> ef_released ef v"
  using IsSatisfied_mono [of "ef_pattern ef" q "ew_bits v" "ew_mode v"] by (auto simp: ef_released_def)

lemma Consume_released: "ef_released (Consume ef bits mode) v \<Longrightarrow> ef_released ef v"
  using Consume_pattern [of ef bits mode] masked_released by metis

subsection \<open>The object\<close>

text \<open>
  With the waiters \<open>W\<close> inside the wait: they are counted, only a multi-waiter flag has more than one, and the object is
  gone exactly when it has been deleted and none is left.
\<close>

definition ef_inv :: "ef_wait multiset \<Rightarrow> KernelEventFlag \<Rightarrow> bool" where
  "ef_inv W ef \<longleftrightarrow> ef_waiters ef = int (size W) \<and> (ef_freed ef \<longleftrightarrow> ef_deleted ef \<and> W = {#}) \<and>
     (\<not> ef_multipleWaiters ef \<longrightarrow> size W \<le> 1)"

lemma Consume_fields [simp]:
  "ef_waiters (Consume ef bits mode) = ef_waiters ef" "ef_deleted (Consume ef bits mode) = ef_deleted ef"
  "ef_freed (Consume ef bits mode) = ef_freed ef" "ef_multipleWaiters (Consume ef bits mode) = ef_multipleWaiters ef"
  "ef_cancelGeneration (Consume ef bits mode) = ef_cancelGeneration ef"
  by (simp_all add: Consume_def)

lemmas ef_operations = sceKernelDeleteEventFlag_def sceKernelSetEventFlag_def sceKernelClearEventFlag_def
  sceKernelCancelEventFlag_def sceKernelPollEventFlag_def ef_error_def Let_def

lemma ef_created_inv: "ef_created ef \<Longrightarrow> ef_inv {#} ef"
  by (auto simp: ef_created_def sceKernelCreateEventFlag_def ef_inv_def split: if_splits)

lemma ef_perform_inv: "ef_inv W ef \<Longrightarrow> \<not> ef_freed ef \<Longrightarrow> ef_inv W (ef_flag (ef_perform c ef))"
  by (cases c) (auto simp: ef_operations ef_inv_def)

lemma wait_begin_inv: "ef_inv W ef \<Longrightarrow> \<not> ef_freed ef \<Longrightarrow> wait_begin bits mode timeout ef = Inr (ef', w) \<Longrightarrow> ef_inv (add_mset w W) ef'"
  by (auto simp: wait_begin_def ef_inv_def split: if_splits)

lemma wait_end_inv: "ef_inv (add_mset w W) ef \<Longrightarrow> ef_inv W (ef_flag (wait_end ef w timedOut))"
  by (auto simp: wait_end_def ef_inv_def ef_error_def Let_def)

lemma ef_perform_notifies:
  "ef_inv W ef \<Longrightarrow> v \<in># W \<Longrightarrow> ef_released (ef_flag (ef_perform c ef)) v \<Longrightarrow> \<not> ef_released ef v \<Longrightarrow> ef_notified (ef_perform c ef)"
proof (cases c)
  case (Clear bits)
  then show "ef_released (ef_flag (ef_perform c ef)) v \<Longrightarrow> \<not> ef_released ef v \<Longrightarrow> ?thesis"
    using masked_released [of ef bits v] by (auto simp: ef_operations split: if_splits)
next
  case (Poll bits mode)
  then show "ef_released (ef_flag (ef_perform c ef)) v \<Longrightarrow> \<not> ef_released ef v \<Longrightarrow> ?thesis"
    using Consume_released [of ef bits mode v] by (auto simp: ef_operations split: if_splits)
qed (auto simp: ef_operations ef_inv_def split: if_splits)

lemma wait_end_released: "ef_released (ef_flag (wait_end ef w timedOut)) v \<Longrightarrow> ef_released ef v"
  using Consume_released [of "ef\<lparr>ef_waiters := ef_waiters ef - 1\<rparr>" "ew_bits w" "ew_mode w" v]
  by (auto simp: wait_end_def ef_error_def Let_def ef_released_def split: if_splits)

lemma wait_begin_released: "wait_begin bits mode timeout ef = Inr (ef', w) \<Longrightarrow> ef_released ef' v \<longleftrightarrow> ef_released ef v"
  by (auto simp: wait_begin_def ef_released_def split: if_splits)

lemma ef_calls_cases [consumes 1, case_names perform wait]:
  assumes "ef_calls ef n ef'"
  obtains c where "\<not> ef_freed ef" "ef' = ef_flag (ef_perform c ef)" "n = ef_notified (ef_perform c ef)"
  | bits mode timeout ef1 w where "\<not> ef_freed ef" "wait_begin bits mode timeout ef = Inr (ef1, w)" "ef_released ef1 w"
      "ef' = ef_flag (wait_end ef1 w False)"
  using assms unfolding ef_calls_def by blast

interpretation evf: monitor_object ef_inv "\<lambda>thread. ef_calls" "\<lambda>thread. ef_blocks" ef_released ef_leaves ew_timed
proof (unfold_locales, goal_cases)
  case (1 W s t n s')
  from 1(2,1) show ?case
    by (cases rule: ef_calls_cases) (use ef_perform_inv wait_begin_inv wait_end_inv in blast)+
next
  case (2 W s t w n s')
  then show ?case using wait_begin_inv by (auto simp: ef_blocks_def)
next
  case (3 w W s timedOut n s')
  then show ?case using wait_end_inv by (auto simp: ef_leaves_def)
next
  case (4 W s v t n s')
  from 4(3,1,2,4,5) show ?case
    by (cases rule: ef_calls_cases) (use ef_perform_notifies wait_begin_released wait_end_released in blast)+
next
  case (5 W s t w n s')
  then show ?case by (auto simp: ef_blocks_def)
next
  case (6 W s v t w n s')
  then show ?case using wait_begin_released by (auto simp: ef_blocks_def)
next
  case (7 w W s timedOut n s' v)
  then show ?case using wait_end_released by (auto simp: ef_leaves_def)
qed

subsection \<open>What the guest sees\<close>

lemma ef_deleted_step: "ef_step m l m' \<Longrightarrow> ef_deleted (shared m) \<Longrightarrow> ef_deleted (shared m')"
proof (induction rule: monitor_step.induct)
  case (call t s n s' ws)
  show ?case
  proof (use call(1) in \<open>cases rule: ef_calls_cases\<close>)
    case (perform c)
    with call(3) show ?thesis by (cases c) (simp_all add: ef_operations)
  next
    case (wait bits mode timeout ef1 w)
    with call(3) show ?thesis by (simp add: wait_begin_def split: if_splits)
  qed
next
  case (block t s w n s' ws)
  then show ?case by (auto simp: ef_blocks_def wait_begin_def split: if_splits)
qed (auto simp: ef_leaves_def wait_end_def ef_error_def Let_def)

lemma ef_deleted_blocks: "ef_deleted ef \<Longrightarrow> \<not> ef_blocks ef w n ef'"
  by (auto simp: ef_blocks_def wait_begin_def)

text \<open>A flag that two threads wait on, is set, and is deleted while the second still sleeps.\<close>

definition demo_flag :: KernelEventFlag where
  "demo_flag = \<lparr>ef_pattern = 0, ef_multipleWaiters = True, ef_deleted = False, ef_waiters = 0, ef_cancelGeneration = 0, ef_freed = False\<rparr>"

definition demo_wait :: "u64 \<Rightarrow> ef_wait" where
  "demo_wait bits = \<lparr>ew_bits = bits, ew_mode = 2, ew_generation = 0, ew_timed = False\<rparr>"

fun demo_states :: "nat \<Rightarrow> (KernelEventFlag, ef_wait) monitor" where
  "demo_states 0 = \<lparr>shared = demo_flag, waiting = []\<rparr>"
| "demo_states (Suc 0) = \<lparr>shared = demo_flag\<lparr>ef_waiters := 1\<rparr>, waiting = [(7, demo_wait 4, False)]\<rparr>"
| "demo_states (Suc (Suc 0)) = \<lparr>shared = demo_flag\<lparr>ef_waiters := 1, ef_deleted := True\<rparr>, waiting = [(7, demo_wait 4, True)]\<rparr>"
| "demo_states (Suc (Suc (Suc i))) = \<lparr>shared = demo_flag\<lparr>ef_deleted := True, ef_freed := True\<rparr>, waiting = []\<rparr>"

fun demo_labels :: "nat \<Rightarrow> monitor_label" where
  "demo_labels 0 = Block 7" | "demo_labels (Suc 0) = Call 1" | "demo_labels (Suc (Suc 0)) = Wake 7"
| "demo_labels (Suc (Suc (Suc i))) = Outside"

lemma demo_created: "ef_created demo_flag"
proof -
  have "sceKernelCreateEventFlag 0x20 0 = Inr demo_flag" by code_simp
  then show ?thesis unfolding ef_created_def by blast
qed

lemma demo_block: "ef_blocks demo_flag (demo_wait 4) False (demo_flag\<lparr>ef_waiters := 1\<rparr>)"
proof -
  have "wait_begin 4 2 False demo_flag = Inr (demo_flag\<lparr>ef_waiters := 1\<rparr>, demo_wait 4)" by code_simp
  moreover have "\<not> ef_released (demo_flag\<lparr>ef_waiters := 1\<rparr>) (demo_wait 4)" by code_simp
  moreover have "\<not> ef_freed demo_flag" by code_simp
  ultimately show ?thesis unfolding ef_blocks_def by blast
qed

lemma demo_delete: "ef_calls (demo_flag\<lparr>ef_waiters := 1\<rparr>) True (demo_flag\<lparr>ef_waiters := 1, ef_deleted := True\<rparr>)"
  unfolding ef_calls_def
  by (intro conjI disjI1 exI [of _ Delete]) (simp_all add: demo_flag_def sceKernelDeleteEventFlag_def Let_def)

lemma demo_run: "monitor_run ef_step demo_states demo_labels"
proof -
  have "ef_step (demo_states i) (demo_labels i) (demo_states (Suc i))" for i
  proof (cases i rule: demo_labels.cases)
    case 1
    then show ?thesis using monitor_step.block [where blocks = "\<lambda>thread. ef_blocks", OF demo_block, of 7 "[]"] by (simp add: notify_def)
  next
    case 2
    then show ?thesis using monitor_step.call [where calls = "\<lambda>thread. ef_calls", OF demo_delete, where ws = "[(7, demo_wait 4, False)]"]
      by (simp add: notify_def)
  next
    case 3
    have "ef_leaves (demo_flag\<lparr>ef_waiters := 1, ef_deleted := True\<rparr>) (demo_wait 4) False =
        (False, demo_flag\<lparr>ef_deleted := True, ef_freed := True\<rparr>)"
      by (simp add: ef_leaves_def wait_end_def ef_error_def demo_flag_def Let_def)
    from monitor_step.wake [of 7 "demo_wait 4" True "[(7, demo_wait 4, True)]", where leaves = ef_leaves and released = ef_released,
        OF _ _ this] 3 show ?thesis
      by (simp add: notify_def without_def ef_released_def)
  next
    case (4 v)
    then show ?thesis by (simp add: monitor_step.outside)
  qed
  then show ?thesis by (simp add: monitor_run_def)
qed

lemma demo_fair: "fair demo_states demo_labels"
proof (rule quiet_fair [of 3])
  fix j :: nat
  assume "3 \<le> j"
  then show "waiting (demo_states j) = []" by (cases j rule: demo_labels.cases) simp_all
qed

lemma demo_reachable: "monitor_reachable ef_step ef_created (demo_states i)"
  by (rule run_reachable [OF demo_run]) (simp_all add: demo_created)

text \<open>C12. No wakeup of an event flag is lost: a thread whose wait condition holds (the pattern matches, the flag was
  deleted or its waits were cancelled) has been notified since it last looked, so that it does not sleep on.\<close>

theorem event_flag_no_lost_wakeup:
  assumes "monitor_reachable ef_step ef_created m" "(t, w, n) \<in> set (waiting m)" "ef_released (shared m) w"
  shows "n"
  by (rule evf.no_lost_wakeup [OF assms(1) _ assms(2,3)]) (rule ef_created_inv)

theorem event_flag_no_lost_wakeup_witness:
  "\<exists>n. (7, demo_wait 4, n) \<in> set (waiting (demo_states 2)) \<and> n"
  using event_flag_no_lost_wakeup [OF demo_reachable [of 2], of 7 "demo_wait 4" True]
  by (intro exI [of _ True]) (simp add: numeral_2_eq_2 ef_released_def)

text \<open>C13. The life of an event flag: its counter is the number of threads inside \<open>sceKernelWaitEventFlag\<close>, a
  single-waiter flag never has two, and the object is released exactly when it has been deleted and the last of those
  threads has left.\<close>

theorem event_flag_lifetime:
  assumes "monitor_reachable ef_step ef_created m"
  shows "ef_waiters (shared m) = int (length (waiting m)) \<and>
    (ef_freed (shared m) \<longleftrightarrow> ef_deleted (shared m) \<and> waiting m = []) \<and>
    (\<not> ef_multipleWaiters (shared m) \<longrightarrow> length (waiting m) \<le> 1)"
proof -
  have "ef_inv (waits (waiting m)) (shared m)"
    using evf.awake_reachable [OF assms] ef_created_inv evf.awake_def by blast
  then show ?thesis by (simp add: ef_inv_def waits_def)
qed

theorem event_flag_lifetime_witness:
  "ef_waiters (shared (demo_states 1)) = 1 \<and> ef_freed (shared (demo_states 3))"
  using event_flag_lifetime [OF demo_reachable [of 1]] event_flag_lifetime [OF demo_reachable [of 3]]
  by (simp add: numeral_3_eq_3)

text \<open>C14. Deleting a flag that threads wait on ends: under a scheduler that eventually runs a notified thread, all
  waiters leave and the last one releases the object.\<close>

theorem event_flag_delete_drains:
  assumes "monitor_run ef_step run label" "fair run label" "monitor_reachable ef_step ef_created (run 0)"
    and "ef_deleted (shared (run i))"
  shows "\<exists>j \<ge> i. ef_freed (shared (run j)) \<and> waiting (run j) = []"
proof -
  have "evf.awake (run 0)" by (rule evf.awake_reachable [OF assms(3)]) (rule ef_created_inv)
  then have "\<exists>j \<ge> i. ef_deleted (shared (run j)) \<and> pending (\<lambda>w. True) (run j) = {}"
    by (intro evf.drains [OF assms(1,2), where P = ef_deleted, OF _ assms(4)])
      (use ef_deleted_step ef_deleted_blocks in \<open>auto simp: ef_released_def\<close>)
  then obtain j where j: "i \<le> j" "ef_deleted (shared (run j))" "waiting (run j) = []" by (auto simp: pending_all)
  have "evf.awake (run j)" by (rule evf.awake_run [OF assms(1)]) fact
  with j show ?thesis by (auto simp: evf.awake_def ef_inv_def)
qed

theorem event_flag_delete_drains_witness: "\<exists>j \<ge> 2. ef_freed (shared (demo_states j)) \<and> waiting (demo_states j) = []"
  by (rule event_flag_delete_drains [OF demo_run demo_fair demo_reachable]) (simp add: numeral_2_eq_2)

end
