(* ===== verification/Semaphore.thy ===== *)
theory Semaphore
  imports Kernel_Errors Monitor
begin

text \<open>
  Semaphores, \<open>core/libs/prx/libkernel/Semaphore/src/Semaphore.cpp\<close>. Tokens are 32-bit words read as signed numbers;
  \<open>waiterCount\<close> and \<open>cancelableCount\<close>, which tokens threads, are integers. \<open>ks_freed\<close> says that the object has been
  deleted. A call throws \<open>invalid_argument\<close> (\<open>None\<close>) or returns its code, what it writes, the object and whether it
  notified. \<open>sceKernelWaitSema\<close> and \<open>sceKernelDeleteSema\<close> are cut at their waits. Null pointers, names, tracing and
  the remaining time written back are left out.
\<close>

type_synonym i32 = "32 word"

definition KERNEL_SEMA_OK :: errno where "KERNEL_SEMA_OK = 0"

record KernelSema =
  tokenCount :: i32
  initCount :: i32
  maxCount :: i32
  isFifo :: bool
  ks_deleted :: bool
  waiterCount :: int
  cancelableCount :: int
  cancelGeneration :: u64
  ks_freed :: bool

record ks_return =
  ks_code :: errno
  ks_threads :: "int option"
  ks_sema :: KernelSema
  ks_notified :: bool

definition KernelSemaPrivate :: "i32 \<Rightarrow> i32 \<Rightarrow> bool \<Rightarrow> KernelSema" where
  "KernelSemaPrivate initC maxC fifo = \<lparr>tokenCount = initC, initCount = initC, maxCount = maxC, isFifo = fifo, ks_deleted = False,
     waiterCount = 0, cancelableCount = 0, cancelGeneration = 0, ks_freed = False\<rparr>"

definition sceKernelCreateSema :: "u32 \<Rightarrow> i32 \<Rightarrow> i32 \<Rightarrow> KernelSema option" where
  "sceKernelCreateSema attr initC maxC =
    (if attr > 2 \<or> sint initC < 0 \<or> sint maxC \<le> 0 \<or> sint initC > sint maxC then None
     else Some (KernelSemaPrivate initC maxC (attr = 1)))"

definition sceKernelPollSema :: "i32 \<Rightarrow> KernelSema \<Rightarrow> ks_return option" where
  "sceKernelPollSema need sem =
    (if sint need \<le> 0 then None
     else if sint (tokenCount sem) < sint need
     then Some \<lparr>ks_code = SCE_KERNEL_ERROR_EBUSY, ks_threads = None, ks_sema = sem, ks_notified = False\<rparr>
     else Some \<lparr>ks_code = KERNEL_SEMA_OK, ks_threads = None, ks_sema = sem\<lparr>tokenCount := tokenCount sem - need\<rparr>, ks_notified = False\<rparr>)"

definition sceKernelSignalSema :: "i32 \<Rightarrow> KernelSema \<Rightarrow> ks_return option" where
  "sceKernelSignalSema tokens sem =
    (if sint tokens < 0 then None
     else if sint tokens > sint (maxCount sem - tokenCount sem)
     then Some \<lparr>ks_code = SCE_KERNEL_ERROR_EINVAL, ks_threads = None, ks_sema = sem, ks_notified = False\<rparr>
     else Some \<lparr>ks_code = KERNEL_SEMA_OK, ks_threads = None, ks_sema = sem\<lparr>tokenCount := tokenCount sem + tokens\<rparr>, ks_notified = True\<rparr>)"

definition sceKernelCancelSema :: "i32 \<Rightarrow> KernelSema \<Rightarrow> ks_return" where
  "sceKernelCancelSema tokens sem =
    (if sint tokens > sint (maxCount sem)
     then \<lparr>ks_code = SCE_KERNEL_ERROR_EINVAL, ks_threads = None, ks_sema = sem, ks_notified = False\<rparr>
     else \<lparr>ks_code = KERNEL_SEMA_OK, ks_threads = Some (cancelableCount sem),
       ks_sema = sem\<lparr>tokenCount := (if sint tokens < 0 then initCount sem else tokens), cancelableCount := 0,
         cancelGeneration := cancelGeneration sem + 1\<rparr>,
       ks_notified = True\<rparr>)"

subsection \<open>Waiting\<close>

datatype sema_wait = Acquire (sw_need: i32) (sw_generation: u64) (sw_timed: bool) | Deleting

definition wait_sema_begin :: "i32 \<Rightarrow> bool \<Rightarrow> KernelSema \<Rightarrow> (KernelSema \<times> sema_wait) option" where
  "wait_sema_begin need timed sem =
    (if sint need \<le> 0 then None
     else Some (sem\<lparr>waiterCount := waiterCount sem + 1, cancelableCount := cancelableCount sem + 1\<rparr>,
       Acquire need (cancelGeneration sem) timed))"

fun ks_released :: "KernelSema \<Rightarrow> sema_wait \<Rightarrow> bool" where
  "ks_released sem (Acquire need generation timed) \<longleftrightarrow>
     sint (tokenCount sem) \<ge> sint need \<or> ks_deleted sem \<or> cancelGeneration sem \<noteq> generation"
| "ks_released sem Deleting \<longleftrightarrow> waiterCount sem = 0"

definition WaiterGuard :: "u64 \<Rightarrow> KernelSema \<Rightarrow> KernelSema" where
  "WaiterGuard generation sem =
    (let sem = sem\<lparr>waiterCount := waiterCount sem - 1\<rparr> in
     if cancelGeneration sem = generation then sem\<lparr>cancelableCount := cancelableCount sem - 1\<rparr> else sem)"

definition wait_sema_end :: "i32 \<Rightarrow> u64 \<Rightarrow> bool \<Rightarrow> KernelSema \<Rightarrow> ks_return" where
  "wait_sema_end need generation timedOut sem =
    (let result = (\<lambda>code s. \<lparr>ks_code = code, ks_threads = None, ks_sema = WaiterGuard generation s, ks_notified = True\<rparr>) in
     if ks_deleted sem then result SCE_KERNEL_ERROR_EACCES sem
     else if cancelGeneration sem \<noteq> generation then result SCE_KERNEL_ERROR_ECANCELED sem
     else if timedOut then result SCE_KERNEL_ERROR_ETIMEDOUT sem
     else result KERNEL_SEMA_OK (sem\<lparr>tokenCount := tokenCount sem - need\<rparr>))"

text \<open>\<open>sceKernelDeleteSema\<close>, up to its wait and after it.\<close>

definition delete_begin :: "KernelSema \<Rightarrow> KernelSema" where
  "delete_begin sem = sem\<lparr>ks_deleted := True\<rparr>"

definition delete_end :: "KernelSema \<Rightarrow> KernelSema" where
  "delete_end sem = sem\<lparr>ks_freed := True\<rparr>"

subsection \<open>The semaphore and its threads\<close>

text \<open>
  The critical sections of the callers. The guest makes no call on an object that is gone, deletes it once and cancels
  its waits less than \<open>2 ^ 64\<close> times.
\<close>

datatype ks_call = Poll i32 | Signal i32 | Cancel i32

fun ks_perform :: "ks_call \<Rightarrow> KernelSema \<Rightarrow> ks_return option" where
  "ks_perform (Poll need) sem = sceKernelPollSema need sem"
| "ks_perform (Signal tokens) sem = sceKernelSignalSema tokens sem"
| "ks_perform (Cancel tokens) sem = Some (sceKernelCancelSema tokens sem)"

definition ks_calls :: "KernelSema \<Rightarrow> bool \<Rightarrow> KernelSema \<Rightarrow> bool" where
  "ks_calls sem notified sem' \<longleftrightarrow> \<not> ks_freed sem \<and>
     ((\<exists>c r. (\<forall>tokens. c = Cancel tokens \<longrightarrow> cancelGeneration sem \<noteq> - 1) \<and> ks_perform c sem = Some r \<and>
         notified = ks_notified r \<and> sem' = ks_sema r) \<or>
      (\<exists>need timed sem1 generation. wait_sema_begin need timed sem = Some (sem1, Acquire need generation timed) \<and>
         ks_released sem1 (Acquire need generation timed) \<and>
         notified = ks_notified (wait_sema_end need generation False sem1) \<and>
         sem' = ks_sema (wait_sema_end need generation False sem1)) \<or>
      \<not> ks_deleted sem \<and> ks_released (delete_begin sem) Deleting \<and> notified \<and> sem' = delete_end (delete_begin sem))"

definition ks_blocks :: "KernelSema \<Rightarrow> sema_wait \<Rightarrow> bool \<Rightarrow> KernelSema \<Rightarrow> bool" where
  "ks_blocks sem w notified sem' \<longleftrightarrow> \<not> ks_freed sem \<and> \<not> ks_released sem' w \<and>
     ((\<exists>need timed. wait_sema_begin need timed sem = Some (sem', w) \<and> \<not> notified) \<or>
      \<not> ks_deleted sem \<and> w = Deleting \<and> sem' = delete_begin sem \<and> notified)"

fun ks_leaves :: "KernelSema \<Rightarrow> sema_wait \<Rightarrow> bool \<Rightarrow> bool \<times> KernelSema" where
  "ks_leaves sem (Acquire need generation timed) timedOut =
    (ks_notified (wait_sema_end need generation timedOut sem), ks_sema (wait_sema_end need generation timedOut sem))"
| "ks_leaves sem Deleting timedOut = (False, delete_end sem)"

fun ks_timed :: "sema_wait \<Rightarrow> bool" where
  "ks_timed (Acquire need generation timed) \<longleftrightarrow> timed"
| "ks_timed Deleting \<longleftrightarrow> False"

definition ks_created :: "KernelSema \<Rightarrow> bool" where
  "ks_created sem \<longleftrightarrow> (\<exists>attr initC maxC. sceKernelCreateSema attr initC maxC = Some sem)"

abbreviation ks_step :: "(KernelSema, sema_wait) monitor \<Rightarrow> monitor_label \<Rightarrow> (KernelSema, sema_wait) monitor \<Rightarrow> bool" where
  "ks_step \<equiv> monitor_step (\<lambda>thread. ks_calls) (\<lambda>thread. ks_blocks) ks_released ks_leaves ks_timed"

end
