(* ===== verification/Semaphore_Props.thy ===== *)
theory Semaphore_Props
  imports Semaphore
begin

text \<open>
  The semaphore is a monitor object: tokens stay within the maximum, the two counters count the waiters, no wakeup is
  lost, and deletion waits for the last waiter.
\<close>

subsection \<open>Signed arithmetic in range\<close>

lemma sint_bounds: "- 2147483648 \<le> sint a" "sint a \<le> 2147483647" for a :: i32
  using sint_ge [of a] sint_lt [of a] by simp_all

lemma sint_add_exact: "- 2147483648 \<le> sint a + sint b \<Longrightarrow> sint a + sint b \<le> 2147483647 \<Longrightarrow> sint (a + b) = sint a + sint b" for a b :: i32
  by (simp add: sint_word_ariths signed_take_bit_int_eq_self)

lemma sint_sub_exact: "- 2147483648 \<le> sint a - sint b \<Longrightarrow> sint a - sint b \<le> 2147483647 \<Longrightarrow> sint (a - b) = sint a - sint b" for a b :: i32
  by (simp add: sint_word_ariths signed_take_bit_int_eq_self)

subsection \<open>The invariant\<close>

definition acquiring :: "sema_wait \<Rightarrow> bool" where
  "acquiring w \<longleftrightarrow> w \<noteq> Deleting"

definition in_range :: "i32 \<Rightarrow> i32 \<Rightarrow> i32 \<Rightarrow> bool" where
  "in_range available initial maximal \<longleftrightarrow> 0 \<le> sint available \<and> sint available \<le> sint maximal \<and>
     0 \<le> sint initial \<and> sint initial \<le> sint maximal"

abbreviation tokens_in_range :: "KernelSema \<Rightarrow> bool" where
  "tokens_in_range sem \<equiv> in_range (tokenCount sem) (initCount sem) (maxCount sem)"

definition waiter_ok :: "u64 \<Rightarrow> bool \<Rightarrow> sema_wait \<Rightarrow> bool" where
  "waiter_ok current deleted w \<longleftrightarrow>
     (case w of Acquire need generation timed \<Rightarrow> 0 < sint need \<and> generation \<le> current | Deleting \<Rightarrow> deleted)"

definition cancelable :: "u64 \<Rightarrow> sema_wait \<Rightarrow> bool" where
  "cancelable current w \<longleftrightarrow> (case w of Acquire need generation timed \<Rightarrow> generation = current | Deleting \<Rightarrow> False)"

definition ks_inv :: "sema_wait multiset \<Rightarrow> KernelSema \<Rightarrow> bool" where
  "ks_inv W sem \<longleftrightarrow> tokens_in_range sem \<and> waiterCount sem = int (size (filter_mset acquiring W)) \<and>
     cancelableCount sem = int (size (filter_mset (cancelable (cancelGeneration sem)) W)) \<and>
     (\<forall>w \<in># W. waiter_ok (cancelGeneration sem) (ks_deleted sem) w) \<and>
     (ks_deleted sem \<longrightarrow> count W Deleting = (if ks_freed sem then 0 else 1)) \<and> (ks_freed sem \<longrightarrow> ks_deleted sem \<and> W = {#})"

lemma waiter_simps [simp]:
  "acquiring (Acquire need generation timed)" "\<not> acquiring Deleting"
  "cancelable current (Acquire need generation timed) \<longleftrightarrow> generation = current" "\<not> cancelable current Deleting"
  "waiter_ok current deleted (Acquire need generation timed) \<longleftrightarrow> 0 < sint need \<and> generation \<le> current"
  "waiter_ok current deleted Deleting \<longleftrightarrow> deleted"
  by (simp_all add: acquiring_def cancelable_def waiter_ok_def)

lemma waiter_ok_True: "waiter_ok current deleted w \<Longrightarrow> waiter_ok current True w"
  by (cases w) simp_all

lemmas ks_operations = sceKernelPollSema_def sceKernelSignalSema_def sceKernelCancelSema_def wait_sema_begin_def
  wait_sema_end_def WaiterGuard_def delete_begin_def delete_end_def Let_def

lemma ks_created_inv: "ks_created sem \<Longrightarrow> ks_inv {#} sem"
  by (auto simp: ks_created_def sceKernelCreateSema_def KernelSemaPrivate_def ks_inv_def in_range_def split: if_splits)

lemma take_tokens: "in_range available initial maximal \<Longrightarrow> 0 < sint need \<Longrightarrow> sint need \<le> sint available \<Longrightarrow>
    in_range (available - need) initial maximal"
  using sint_sub_exact [of available need] sint_bounds [of available] by (simp add: in_range_def)

lemma give_tokens: "in_range available initial maximal \<Longrightarrow> 0 \<le> sint tokens \<Longrightarrow> sint tokens \<le> sint (maximal - available) \<Longrightarrow>
    in_range (available + tokens) initial maximal"
  using sint_sub_exact [of maximal available] sint_add_exact [of available tokens] sint_bounds [of maximal]
  by (simp add: in_range_def)

lemma no_wrap: "g \<noteq> - 1 \<Longrightarrow> h \<le> g \<Longrightarrow> h < g + 1" for g h :: u64
proof -
  assume "g \<noteq> - 1" "h \<le> g"
  have "1 + g \<noteq> 0" using \<open>g \<noteq> - 1\<close> unfolding add_eq_0_iff .
  then have "unat (1 + g) = Suc (unat g)" by (rule unatSuc)
  with \<open>h \<le> g\<close> show ?thesis unfolding add.commute [of g] word_less_nat_alt word_le_nat_alt by linarith
qed

lemma ks_inv_cancel:
  assumes "ks_inv W sem" "cancelGeneration sem \<noteq> - 1" "sint tokens \<le> sint (maxCount sem)"
  shows "ks_inv W (ks_sema (sceKernelCancelSema tokens sem))"
proof -
  let ?next = "cancelGeneration sem + 1"
  have w: "\<not> cancelable ?next w \<and> waiter_ok ?next (ks_deleted sem) w" if "w \<in># W" for w
  proof (cases w)
    case (Acquire need generation timed)
    have ok: "waiter_ok (cancelGeneration sem) (ks_deleted sem) w" using assms(1) that unfolding ks_inv_def by blast
    then have "generation < ?next" unfolding Acquire waiter_simps by (intro no_wrap [OF assms(2)]) (rule conjunct2)
    then have "generation \<noteq> ?next" "generation \<le> ?next" by (rule order.strict_implies_not_eq, rule order.strict_implies_order)
    with ok show ?thesis unfolding Acquire waiter_simps by blast
  next
    case Deleting
    have "waiter_ok (cancelGeneration sem) (ks_deleted sem) w" using assms(1) that unfolding ks_inv_def by blast
    then show ?thesis unfolding Deleting by (simp only: waiter_simps simp_thms)
  qed
  have "set_mset (filter_mset (cancelable ?next) W) = {}" unfolding set_mset_filter using w by blast
  then have "filter_mset (cancelable ?next) W = {#}" by (simp only: set_mset_eq_empty_iff)
  moreover have "in_range (if sint tokens < 0 then initCount sem else tokens) (initCount sem) (maxCount sem)"
    using assms by (auto simp: ks_inv_def in_range_def)
  ultimately show ?thesis using assms(1,3) w by (simp add: ks_inv_def sceKernelCancelSema_def)
qed

lemma ks_inv_perform:
  assumes "ks_inv W sem" "\<forall>tokens. c = Cancel tokens \<longrightarrow> cancelGeneration sem \<noteq> - 1" "ks_perform c sem = Some r"
  shows "ks_inv W (ks_sema r)"
proof (cases c)
  case (Poll need)
  then show ?thesis using assms take_tokens
    by (auto simp: sceKernelPollSema_def ks_inv_def split: if_splits)
next
  case (Signal tokens)
  then show ?thesis using assms give_tokens
    by (auto simp: sceKernelSignalSema_def ks_inv_def split: if_splits)
next
  case (Cancel tokens)
  show ?thesis
  proof (cases "sint tokens > sint (maxCount sem)")
    case True
    with Cancel assms(1,3) show ?thesis by (auto simp: sceKernelCancelSema_def)
  next
    case False
    with Cancel assms ks_inv_cancel [OF assms(1)] show ?thesis by auto
  qed
qed

lemma ks_inv_wait:
  assumes "ks_inv W sem" "wait_sema_begin need timed sem = Some (sem', w)" "\<not> ks_freed sem"
  shows "ks_inv (add_mset w W) sem'"
  using assms by (auto simp: wait_sema_begin_def ks_inv_def split: if_splits)

lemma ks_inv_guard:
  "ks_inv (add_mset (Acquire need generation timed) W) sem \<Longrightarrow> ks_inv W (WaiterGuard generation sem)"
  by (auto simp: WaiterGuard_def ks_inv_def Let_def)

lemma ks_inv_end:
  assumes "ks_inv (add_mset (Acquire need generation timed) W) sem" "ks_released sem (Acquire need generation timed) \<noteq> timedOut"
  shows "ks_inv W (ks_sema (wait_sema_end need generation timedOut sem))"
proof -
  consider "ks_deleted sem \<or> cancelGeneration sem \<noteq> generation \<or> timedOut"
    | "\<not> ks_deleted sem" "cancelGeneration sem = generation" "\<not> timedOut" "sint need \<le> sint (tokenCount sem)"
    using assms(2) by auto
  then show ?thesis
  proof cases
    case 1
    with ks_inv_guard [OF assms(1)] show ?thesis by (auto simp: wait_sema_end_def Let_def)
  next
    case 2
    have "ks_inv (add_mset (Acquire need generation timed) W) (sem\<lparr>tokenCount := tokenCount sem - need\<rparr>)"
      using assms(1) 2(4) take_tokens by (simp add: ks_inv_def)
    from ks_inv_guard [OF this] 2 show ?thesis by (simp add: wait_sema_end_def Let_def)
  qed
qed

lemma ks_inv_delete_begin: "ks_inv W sem \<Longrightarrow> \<not> ks_deleted sem \<Longrightarrow> ks_inv (add_mset Deleting W) (delete_begin sem)"
  using waiter_ok_True by (fastforce simp: ks_inv_def delete_begin_def count_eq_zero_iff)

lemma ks_inv_delete_end:
  assumes "ks_inv (add_mset Deleting W) sem" "waiterCount sem = 0"
  shows "ks_inv W (delete_end sem)"
proof -
  have d: "ks_deleted sem" "\<not> ks_freed sem" using assms(1) by (auto simp: ks_inv_def)
  then have "Deleting \<notin># W" using assms(1) by (auto simp: ks_inv_def count_eq_zero_iff)
  moreover have "\<not> acquiring w" if "w \<in># W" for w
    using assms that by (auto simp: ks_inv_def filter_mset_eq_conv)
  ultimately have "W = {#}" unfolding acquiring_def by (metis multiset_nonemptyE)
  with assms(1) d show ?thesis by (simp add: ks_inv_def delete_end_def)
qed

subsection \<open>Notifications\<close>

lemma ks_perform_notifies:
  assumes "ks_inv W sem" "v \<in># W" "ks_perform c sem = Some r" "ks_released (ks_sema r) v" "\<not> ks_released sem v"
  shows "ks_notified r"
proof (cases c)
  case (Poll need)
  have "sint (tokenCount sem - need) \<le> sint (tokenCount sem)" if "0 < sint need" "sint need \<le> sint (tokenCount sem)"
    using sint_sub_exact [of "tokenCount sem" need] sint_bounds [of "tokenCount sem"] that by simp
  with Poll assms(3-5) show ?thesis by (cases v) (auto simp: sceKernelPollSema_def split: if_splits)
qed (use assms(3-5) in \<open>auto simp: ks_operations split: if_splits\<close>)

lemma wait_sema_end_notifies: "ks_notified (wait_sema_end need generation timedOut sem)"
  by (simp add: wait_sema_end_def Let_def)

lemma ks_calls_cases [consumes 1, case_names perform wait delete]:
  assumes "ks_calls sem n sem'"
  obtains c r where "\<not> ks_freed sem" "\<forall>tokens. c = Cancel tokens \<longrightarrow> cancelGeneration sem \<noteq> - 1" "ks_perform c sem = Some r"
      "n = ks_notified r" "sem' = ks_sema r"
  | need timed sem1 generation where "\<not> ks_freed sem" "wait_sema_begin need timed sem = Some (sem1, Acquire need generation timed)"
      "ks_released sem1 (Acquire need generation timed)" "n = ks_notified (wait_sema_end need generation False sem1)"
      "sem' = ks_sema (wait_sema_end need generation False sem1)"
  | "\<not> ks_freed sem" "\<not> ks_deleted sem" "ks_released (delete_begin sem) Deleting" "n" "sem' = delete_end (delete_begin sem)"
  using assms unfolding ks_calls_def by blast

lemma ks_blocks_cases [consumes 1, case_names wait delete]:
  assumes "ks_blocks sem w n sem'"
  obtains need timed where "\<not> ks_freed sem" "\<not> ks_released sem' w" "wait_sema_begin need timed sem = Some (sem', w)" "\<not> n"
  | "\<not> ks_freed sem" "\<not> ks_released sem' Deleting" "\<not> ks_deleted sem" "w = Deleting" "sem' = delete_begin sem" "n"
  using assms unfolding ks_blocks_def by blast

interpretation sema: monitor_object ks_inv "\<lambda>thread. ks_calls" "\<lambda>thread. ks_blocks" ks_released ks_leaves ks_timed
proof (unfold_locales, goal_cases)
  case (1 W s t n s')
  from 1(2,1) show ?case
  proof (cases rule: ks_calls_cases)
    case (perform c r)
    with 1(1) ks_inv_perform show ?thesis by blast
  next
    case (wait need timed sem1 generation)
    with 1(1) ks_inv_wait ks_inv_end [of need generation timed W sem1 False] show ?thesis by simp
  next
    case delete
    with 1(1) ks_inv_delete_begin ks_inv_delete_end show ?thesis by simp
  qed
next
  case (2 W s t w n s')
  from 2(2,1) show ?case
    by (cases rule: ks_blocks_cases) (use ks_inv_wait ks_inv_delete_begin in blast)+
next
  case (3 w W s timedOut n s')
  then show ?case using ks_inv_end ks_inv_delete_end by (cases w) auto
next
  case (4 W s v t n s')
  from 4(3,1,2,4,5) show ?case
    by (cases rule: ks_calls_cases) (use ks_perform_notifies wait_sema_end_notifies in blast)+
next
  case (5 W s t w n s')
  then show ?case by (simp add: ks_blocks_def)
next
  case (6 W s v t w n s')
  from 6(3) show ?case
  proof (cases rule: ks_blocks_cases)
    case (wait need timed)
    then have "s' = s\<lparr>waiterCount := waiterCount s + 1, cancelableCount := cancelableCount s + 1\<rparr>"
      by (auto simp: wait_sema_begin_def split: if_splits)
    with 6(1,4,5) show ?thesis by (cases v) (auto simp: ks_inv_def)
  next
    case delete
    then show ?thesis by simp
  qed
next
  case (7 w W s timedOut n s' v)
  then show ?case by (cases w; cases v) (auto simp: delete_end_def wait_sema_end_notifies)
qed

subsection \<open>What the guest sees\<close>

text \<open>A semaphore of one token: thread 3 waits for it, thread 9 deletes the semaphore.\<close>

definition demo_sema :: KernelSema where
  "demo_sema = KernelSemaPrivate 0 1 True"

fun sema_states :: "nat \<Rightarrow> (KernelSema, sema_wait) monitor" where
  "sema_states 0 = \<lparr>shared = demo_sema, waiting = []\<rparr>"
| "sema_states (Suc 0) = \<lparr>shared = demo_sema\<lparr>waiterCount := 1, cancelableCount := 1\<rparr>, waiting = [(3, Acquire 1 0 False, False)]\<rparr>"
| "sema_states (Suc (Suc 0)) = \<lparr>shared = demo_sema\<lparr>waiterCount := 1, cancelableCount := 1, ks_deleted := True\<rparr>,
     waiting = [(3, Acquire 1 0 False, True), (9, Deleting, False)]\<rparr>"
| "sema_states (Suc (Suc (Suc 0))) = \<lparr>shared = demo_sema\<lparr>ks_deleted := True\<rparr>, waiting = [(9, Deleting, True)]\<rparr>"
| "sema_states (Suc (Suc (Suc (Suc i)))) = \<lparr>shared = demo_sema\<lparr>ks_deleted := True, ks_freed := True\<rparr>, waiting = []\<rparr>"

fun sema_labels :: "nat \<Rightarrow> monitor_label" where
  "sema_labels 0 = Block 3" | "sema_labels (Suc 0) = Block 9" | "sema_labels (Suc (Suc 0)) = Wake 3"
| "sema_labels (Suc (Suc (Suc 0))) = Wake 9" | "sema_labels (Suc (Suc (Suc (Suc i)))) = Outside"

lemma demo_sema_simps: "demo_sema = \<lparr>tokenCount = 0, initCount = 0, maxCount = 1, isFifo = True, ks_deleted = False,
    waiterCount = 0, cancelableCount = 0, cancelGeneration = 0, ks_freed = False\<rparr>"
  by (simp add: demo_sema_def KernelSemaPrivate_def)

lemma demo_sema_created: "ks_created demo_sema"
proof -
  have "sceKernelCreateSema 1 0 1 = Some demo_sema" by code_simp
  then show ?thesis unfolding ks_created_def by blast
qed

lemma demo_sema_waits: "ks_blocks demo_sema (Acquire 1 0 False) False (demo_sema\<lparr>waiterCount := 1, cancelableCount := 1\<rparr>)"
  unfolding ks_blocks_def
  by (intro conjI disjI1 exI [of _ 1] exI [of _ False]) (simp_all add: demo_sema_simps wait_sema_begin_def)

lemma demo_sema_deletes: "ks_blocks (demo_sema\<lparr>waiterCount := 1, cancelableCount := 1\<rparr>) Deleting True
    (demo_sema\<lparr>waiterCount := 1, cancelableCount := 1, ks_deleted := True\<rparr>)"
  by (simp add: ks_blocks_def demo_sema_simps delete_begin_def)

lemma demo_sema_run: "monitor_run ks_step sema_states sema_labels"
proof -
  have "ks_step (sema_states i) (sema_labels i) (sema_states (Suc i))" for i
  proof (cases i rule: sema_labels.cases)
    case 1
    then show ?thesis using monitor_step.block [where blocks = "\<lambda>thread. ks_blocks", OF demo_sema_waits, of 3 "[]"] by (simp add: notify_def)
  next
    case 2
    then show ?thesis
      using monitor_step.block [where blocks = "\<lambda>thread. ks_blocks", OF demo_sema_deletes, of 9 "[(3, Acquire 1 0 False, False)]"]
      by (simp add: notify_def)
  next
    case 3
    have "ks_leaves (demo_sema\<lparr>waiterCount := 1, cancelableCount := 1, ks_deleted := True\<rparr>) (Acquire 1 0 False) False =
        (True, demo_sema\<lparr>ks_deleted := True\<rparr>)"
      by (simp add: demo_sema_simps wait_sema_end_def WaiterGuard_def Let_def)
    from monitor_step.wake [of 3 "Acquire 1 0 False" True "[(3, Acquire 1 0 False, True), (9, Deleting, False)]",
        where leaves = ks_leaves and released = ks_released, OF _ _ this] 3 show ?thesis
      by (simp add: notify_def without_def)
  next
    case 4
    have "ks_leaves (demo_sema\<lparr>ks_deleted := True\<rparr>) Deleting False = (False, demo_sema\<lparr>ks_deleted := True, ks_freed := True\<rparr>)"
      by (simp add: delete_end_def)
    from monitor_step.wake [of 9 Deleting True "[(9, Deleting, True)]", where leaves = ks_leaves and released = ks_released,
        OF _ _ this] 4 show ?thesis by (simp add: notify_def without_def demo_sema_simps)
  next
    case (5 v)
    then show ?thesis by (simp add: monitor_step.outside)
  qed
  then show ?thesis by (simp add: monitor_run_def)
qed

lemma demo_sema_fair: "fair sema_states sema_labels"
proof (rule quiet_fair [of 4])
  fix j :: nat
  assume "4 \<le> j"
  then show "waiting (sema_states j) = []" by (cases j rule: sema_labels.cases) simp_all
qed

lemma demo_sema_reachable: "monitor_reachable ks_step ks_created (sema_states i)"
  by (rule run_reachable [OF demo_sema_run]) (simp_all add: demo_sema_created)

lemma size_acquiring: "size (filter_mset acquiring (waits ws)) = length (filter (\<lambda>(t, w, n). acquiring w) ws)"
  by (induction ws) (auto simp: waits_def)

lemma size_cancelable: "size (filter_mset (cancelable g) (waits ws)) = length (filter (\<lambda>(t, w, n). cancelable g w) ws)"
  by (induction ws) (auto simp: waits_def)

lemma sema_inv_reachable: "monitor_reachable ks_step ks_created m \<Longrightarrow> ks_inv (waits (waiting m)) (shared m)"
  using sema.awake_reachable ks_created_inv sema.awake_def by blast

text \<open>C9. In every reachable state of a semaphore the tokens are between zero and its maximum, so that no token operation
  overflows its 32 bits; \<open>waiterCount\<close> is the number of threads waiting for tokens and \<open>cancelableCount\<close>, which
  \<open>sceKernelCancelSema\<close> reports, the number of those whose wait has not been cancelled; and the object is gone only
  when no thread is left inside.\<close>

theorem semaphore_counts:
  assumes "monitor_reachable ks_step ks_created m"
  shows "0 \<le> sint (tokenCount (shared m)) \<and> sint (tokenCount (shared m)) \<le> sint (maxCount (shared m)) \<and>
    waiterCount (shared m) = int (length (filter (\<lambda>(t, w, n). acquiring w) (waiting m))) \<and>
    cancelableCount (shared m) = int (length (filter (\<lambda>(t, w, n). cancelable (cancelGeneration (shared m)) w) (waiting m))) \<and>
    (ks_freed (shared m) \<longrightarrow> waiting m = [])"
  using sema_inv_reachable [OF assms] unfolding ks_inv_def in_range_def size_acquiring size_cancelable
  by (auto simp: waits_def)

theorem semaphore_counts_witness: "waiterCount (shared (sema_states 2)) = 1 \<and> waiting (sema_states 4) = []"
  using semaphore_counts [OF demo_sema_reachable [of 2]] semaphore_counts [OF demo_sema_reachable [of 4]]
  by (simp add: numeral_2_eq_2 numeral_eq_Suc)

text \<open>C10. No wakeup of a semaphore is lost: a thread that waits for tokens that are there, whose wait was cancelled or
  whose semaphore is being deleted, and a deleting thread whose last waiter has gone, have been notified since they
  last looked.\<close>

theorem semaphore_no_lost_wakeup:
  assumes "monitor_reachable ks_step ks_created m" "(t, w, n) \<in> set (waiting m)" "ks_released (shared m) w"
  shows "n"
  by (rule sema.no_lost_wakeup [OF assms(1) _ assms(2,3)]) (rule ks_created_inv)

theorem semaphore_no_lost_wakeup_witness: "\<exists>n. (9, Deleting, n) \<in> set (waiting (sema_states 3)) \<and> n"
  using semaphore_no_lost_wakeup [OF demo_sema_reachable [of 3], of 9 Deleting True]
  by (intro exI [of _ True]) (simp add: numeral_3_eq_3 demo_sema_simps)

lemma ks_deleted_step: "ks_step m l m' \<Longrightarrow> ks_deleted (shared m) \<Longrightarrow> ks_deleted (shared m')"
proof (induction rule: monitor_step.induct)
  case (call t s n s' ws)
  show ?case
  proof (use call(1) in \<open>cases rule: ks_calls_cases\<close>)
    case (perform c r)
    with call(3) show ?thesis by (cases c) (auto simp: ks_operations split: if_splits)
  next
    case (wait need timed sem1 generation)
    with call(3) show ?thesis by (auto simp: ks_operations split: if_splits)
  next
    case delete
    with call(3) show ?thesis by simp
  qed
next
  case (block t s w n s' ws)
  then show ?case by (auto simp: ks_blocks_def ks_operations split: if_splits)
next
  case (wake t w n ws s m s')
  then show ?case by (cases w) (auto simp: ks_operations)
next
  case (timeout t w n ws s m s')
  then show ?case by (cases w) (auto simp: ks_operations)
qed simp_all

lemma ks_deleted_blocks: "ks_deleted sem \<Longrightarrow> \<not> ks_blocks sem w n sem'"
  by (auto simp: ks_blocks_def wait_sema_begin_def split: if_splits)

lemma no_acquiring:
  assumes "ks_inv (waits ws) sem" "waiterCount sem = 0" "(t, w, n) \<in> set ws"
  shows "w = Deleting"
proof (rule ccontr)
  assume "w \<noteq> Deleting"
  then have "w \<in># filter_mset acquiring (waits ws)" using in_waits [OF assms(3)] by (simp add: acquiring_def)
  then have "size (filter_mset acquiring (waits ws)) \<noteq> 0" by auto
  with assms(1,2) show False by (simp add: ks_inv_def)
qed

lemma ks_emptied_step:
  assumes "ks_step m l m'" "sema.awake m" "ks_deleted (shared m) \<and> waiterCount (shared m) = 0"
  shows "ks_deleted (shared m') \<and> waiterCount (shared m') = 0"
proof -
  have "waiterCount (shared m') = 0"
    using assms
  proof (induction rule: monitor_step.induct)
    case (call t s n s' ws)
    show ?case
    proof (use call(1) in \<open>cases rule: ks_calls_cases\<close>)
      case (perform c r)
      with call(4) show ?thesis by (cases c) (auto simp: ks_operations split: if_splits)
    next
      case (wait need timed sem1 generation)
      with call(4) show ?thesis by (auto simp: ks_operations split: if_splits)
    next
      case delete
      with call(4) show ?thesis by simp
    qed
  next
    case (block t s w n s' ws)
    then show ?case using ks_deleted_blocks by simp
  next
    case (wake t w n ws s m s')
    then have "w = Deleting" using no_acquiring [of ws s] by (auto simp: sema.awake_def)
    with wake show ?case by (auto simp: delete_end_def)
  next
    case (timeout t w n ws s m s')
    then have "w = Deleting" using no_acquiring [of ws s] by (auto simp: sema.awake_def)
    with timeout show ?case by simp
  qed simp_all
  with ks_deleted_step [OF assms(1)] assms(3) show ?thesis by blast
qed

text \<open>C11. \<open>sceKernelDeleteSema\<close> returns: under a scheduler that eventually runs a notified thread, once a semaphore has
  been marked deleted all threads waiting on it leave and the object is freed.\<close>

theorem semaphore_delete_completes:
  assumes "monitor_run ks_step run label" "fair run label" "monitor_reachable ks_step ks_created (run 0)"
    and "ks_deleted (shared (run i))"
  shows "\<exists>j \<ge> i. ks_freed (shared (run j)) \<and> waiting (run j) = []"
proof -
  have awake: "sema.awake (run 0)" by (rule sema.awake_reachable [OF assms(3)]) (rule ks_created_inv)
  have inv: "ks_inv (waits (waiting (run j))) (shared (run j))" for j
    using sema.awake_run [OF assms(1) awake] unfolding sema.awake_def by blast
  have "\<exists>j \<ge> i. ks_deleted (shared (run j)) \<and> pending acquiring (run j) = {}"
  proof (rule sema.drains [OF assms(1,2) awake, where P = ks_deleted, OF assms(4)])
    show "ks_released s w" if "ks_deleted s" "acquiring w" for s w using that by (cases w) simp_all
  qed (use ks_deleted_step ks_deleted_blocks in blast)+
  then obtain j where j: "i \<le> j" "ks_deleted (shared (run j))" "pending acquiring (run j) = {}" by blast
  then have "filter (\<lambda>(t, w, n). acquiring w) (waiting (run j)) = []" by (auto simp: pending_def filter_empty_conv)
  with inv [of j] have "waiterCount (shared (run j)) = 0" by (simp add: ks_inv_def size_acquiring)
  with j(2) have P: "ks_deleted (shared (run j)) \<and> waiterCount (shared (run j)) = 0" by blast
  have "\<exists>k \<ge> j. (ks_deleted (shared (run k)) \<and> waiterCount (shared (run k)) = 0) \<and>
      pending (\<lambda>w. w = Deleting) (run k) = {}"
    by (rule sema.drains [OF assms(1,2) awake, where P = "\<lambda>s. ks_deleted s \<and> waiterCount s = 0", OF P])
      (use ks_emptied_step ks_deleted_blocks in auto)
  then obtain k where k: "j \<le> k" "ks_deleted (shared (run k))" "waiterCount (shared (run k)) = 0"
    "pending (\<lambda>w. w = Deleting) (run k) = {}" by blast
  have "waiting (run k) = []"
  proof (rule ccontr)
    assume "waiting (run k) \<noteq> []"
    then obtain t w n where m: "(t, w, n) \<in> set (waiting (run k))" by (metis list.set_intros(1) neq_Nil_conv prod_cases3)
    with no_acquiring [OF inv k(3) m] k(4) show False by (auto simp: pending_def)
  qed
  moreover from this have "ks_freed (shared (run k))" using inv [of k] k(2) by (simp add: ks_inv_def split: if_splits)
  ultimately show ?thesis using j(1) k(1) by (meson le_trans)
qed

theorem semaphore_delete_completes_witness: "\<exists>j \<ge> 2. ks_freed (shared (sema_states j)) \<and> waiting (sema_states j) = []"
  by (rule semaphore_delete_completes [OF demo_sema_run demo_sema_fair demo_sema_reachable]) (simp add: numeral_2_eq_2)

end
