(* ===== verification/Rwlock.thy ===== *)
theory Rwlock
  imports Kernel_Errors Monitor
begin

text \<open>
  Readers-writer locks, \<open>core/libs/prx/libkernel/Pthread/src/Rwlock.cpp\<close>, on an initialised lock: a thread is a number,
  \<open>std::thread::id{}\<close> is \<open>None\<close>, and the thread-local \<open>readLocksHeld\<close> of the caller is an argument and a result
  (\<open>rw_held\<close>). The locking calls are cut at their waits; the plain and the timed form differ in whether they may time
  out. \<open>RequireRwlock\<close>, which creates the lock on first use, the attribute calls and \<open>Destroy\<close> are not modelled. A
  notification sent right after the mutex is released counts with the critical section before it.
\<close>

definition SCE_KERNEL_ERROR_EDEADLK :: errno where "SCE_KERNEL_ERROR_EDEADLK = 0x8002000B"

record PthreadRwlockPrivate =
  rw_writer :: "nat option"
  rw_readers :: int
  rw_waitingWriters :: int

record rw_return =
  rw_code :: errno
  rw_held :: int
  rw_lock :: PthreadRwlockPrivate
  rw_notified :: bool

definition rw_error :: "errno \<Rightarrow> int \<Rightarrow> PthreadRwlockPrivate \<Rightarrow> rw_return" where
  "rw_error code held lock = \<lparr>rw_code = code, rw_held = held, rw_lock = lock, rw_notified = False\<rparr>"

definition OwnsWrite :: "nat \<Rightarrow> PthreadRwlockPrivate \<Rightarrow> bool" where
  "OwnsWrite thread lock \<longleftrightarrow> rw_writer lock = Some thread"

definition ReaderMayEnter :: "int \<Rightarrow> PthreadRwlockPrivate \<Rightarrow> bool" where
  "ReaderMayEnter readLocksHeld lock \<longleftrightarrow> rw_writer lock = None \<and> (rw_waitingWriters lock = 0 \<or> readLocksHeld \<noteq> 0)"

definition WriterMayEnter :: "PthreadRwlockPrivate \<Rightarrow> bool" where
  "WriterMayEnter lock \<longleftrightarrow> rw_writer lock = None \<and> rw_readers lock = 0"

definition EnterRead :: "int \<Rightarrow> PthreadRwlockPrivate \<Rightarrow> rw_return" where
  "EnterRead readLocksHeld lock =
    \<lparr>rw_code = 0, rw_held = readLocksHeld + 1, rw_lock = lock\<lparr>rw_readers := rw_readers lock + 1\<rparr>, rw_notified = False\<rparr>"

definition EnterWrite :: "nat \<Rightarrow> int \<Rightarrow> PthreadRwlockPrivate \<Rightarrow> rw_return" where
  "EnterWrite thread readLocksHeld lock =
    \<lparr>rw_code = 0, rw_held = readLocksHeld, rw_lock = lock\<lparr>rw_writer := Some thread\<rparr>, rw_notified = False\<rparr>"

definition scePthreadRwlockTryrdlock :: "nat \<Rightarrow> int \<Rightarrow> PthreadRwlockPrivate \<Rightarrow> rw_return" where
  "scePthreadRwlockTryrdlock thread held lock =
    (if OwnsWrite thread lock then rw_error SCE_KERNEL_ERROR_EBUSY held lock
     else if ReaderMayEnter held lock then EnterRead held lock else rw_error SCE_KERNEL_ERROR_EBUSY held lock)"

definition scePthreadRwlockTrywrlock :: "nat \<Rightarrow> int \<Rightarrow> PthreadRwlockPrivate \<Rightarrow> rw_return" where
  "scePthreadRwlockTrywrlock thread held lock =
    (if OwnsWrite thread lock then rw_error SCE_KERNEL_ERROR_EBUSY held lock
     else if WriterMayEnter lock then EnterWrite thread held lock else rw_error SCE_KERNEL_ERROR_EBUSY held lock)"

definition scePthreadRwlockUnlock :: "nat \<Rightarrow> int \<Rightarrow> PthreadRwlockPrivate \<Rightarrow> rw_return" where
  "scePthreadRwlockUnlock thread held lock =
    (if OwnsWrite thread lock
     then \<lparr>rw_code = 0, rw_held = held, rw_lock = lock\<lparr>rw_writer := None\<rparr>, rw_notified = True\<rparr>
     else if rw_writer lock \<noteq> None then rw_error SCE_KERNEL_ERROR_EPERM held lock
     else if rw_readers lock = 0 then rw_error SCE_KERNEL_ERROR_EPERM held lock
     else \<lparr>rw_code = 0, rw_held = (if held \<noteq> 0 then held - 1 else held), rw_lock = lock\<lparr>rw_readers := rw_readers lock - 1\<rparr>,
       rw_notified = (rw_readers lock = 1)\<rparr>)"

subsection \<open>Waiting\<close>

datatype rw_wait = Reader nat int bool | Writer nat int bool

text \<open>Up to the loop.\<close>

definition rdlock_begin :: "nat \<Rightarrow> int \<Rightarrow> bool \<Rightarrow> PthreadRwlockPrivate \<Rightarrow> (PthreadRwlockPrivate \<times> rw_wait) kernel" where
  "rdlock_begin thread held timed lock =
    (if OwnsWrite thread lock then Inl SCE_KERNEL_ERROR_EDEADLK else Inr (lock, Reader thread held timed))"

definition wrlock_begin :: "nat \<Rightarrow> int \<Rightarrow> bool \<Rightarrow> PthreadRwlockPrivate \<Rightarrow> (PthreadRwlockPrivate \<times> rw_wait) kernel" where
  "wrlock_begin thread held timed lock =
    (if OwnsWrite thread lock then Inl SCE_KERNEL_ERROR_EDEADLK
     else Inr (lock\<lparr>rw_waitingWriters := rw_waitingWriters lock + 1\<rparr>, Writer thread held timed))"

fun rw_released :: "PthreadRwlockPrivate \<Rightarrow> rw_wait \<Rightarrow> bool" where
  "rw_released lock (Reader thread held timed) \<longleftrightarrow> ReaderMayEnter held lock"
| "rw_released lock (Writer thread held timed) \<longleftrightarrow> WriterMayEnter lock"

text \<open>From the end of the loop to the return.\<close>

definition rdlock_end :: "int \<Rightarrow> bool \<Rightarrow> PthreadRwlockPrivate \<Rightarrow> rw_return" where
  "rdlock_end held timedOut lock =
    (if timedOut then rw_error SCE_KERNEL_ERROR_ETIMEDOUT held lock else EnterRead held lock)"

definition wrlock_end :: "nat \<Rightarrow> int \<Rightarrow> bool \<Rightarrow> PthreadRwlockPrivate \<Rightarrow> rw_return" where
  "wrlock_end thread held timedOut lock =
    (let lock = lock\<lparr>rw_waitingWriters := rw_waitingWriters lock - 1\<rparr> in
     if \<not> timedOut then EnterWrite thread held lock
     else \<lparr>rw_code = SCE_KERNEL_ERROR_ETIMEDOUT, rw_held = held, rw_lock = lock, rw_notified = True\<rparr>)"

fun rw_end :: "rw_wait \<Rightarrow> bool \<Rightarrow> PthreadRwlockPrivate \<Rightarrow> rw_return" where
  "rw_end (Reader thread held timed) timedOut lock = rdlock_end held timedOut lock"
| "rw_end (Writer thread held timed) timedOut lock = wrlock_end thread held timedOut lock"

subsection \<open>The lock and its threads\<close>

datatype rw_call = Tryrdlock | Trywrlock | Unlock

fun rw_perform :: "rw_call \<Rightarrow> nat \<Rightarrow> int \<Rightarrow> PthreadRwlockPrivate \<Rightarrow> rw_return" where
  "rw_perform Tryrdlock thread held lock = scePthreadRwlockTryrdlock thread held lock"
| "rw_perform Trywrlock thread held lock = scePthreadRwlockTrywrlock thread held lock"
| "rw_perform Unlock thread held lock = scePthreadRwlockUnlock thread held lock"

text \<open>The steps of the thread that calls: it is the thread of every guard.\<close>

definition rw_begins :: "nat \<Rightarrow> PthreadRwlockPrivate \<Rightarrow> rw_wait \<Rightarrow> PthreadRwlockPrivate \<Rightarrow> bool" where
  "rw_begins thread lock w lock' \<longleftrightarrow>
     (\<exists>held timed. rdlock_begin thread held timed lock = Inr (lock', w) \<or> wrlock_begin thread held timed lock = Inr (lock', w))"

definition rw_calls :: "nat \<Rightarrow> PthreadRwlockPrivate \<Rightarrow> bool \<Rightarrow> PthreadRwlockPrivate \<Rightarrow> bool" where
  "rw_calls thread lock notified lock' \<longleftrightarrow>
     (\<exists>c held. lock' = rw_lock (rw_perform c thread held lock) \<and> notified = rw_notified (rw_perform c thread held lock)) \<or>
     (\<exists>lock1 w. rw_begins thread lock w lock1 \<and> rw_released lock1 w \<and> lock' = rw_lock (rw_end w False lock1) \<and>
        notified = rw_notified (rw_end w False lock1))"

definition rw_blocks :: "nat \<Rightarrow> PthreadRwlockPrivate \<Rightarrow> rw_wait \<Rightarrow> bool \<Rightarrow> PthreadRwlockPrivate \<Rightarrow> bool" where
  "rw_blocks thread lock w notified lock' \<longleftrightarrow> \<not> notified \<and> rw_begins thread lock w lock' \<and> \<not> rw_released lock' w"

definition rw_leaves :: "PthreadRwlockPrivate \<Rightarrow> rw_wait \<Rightarrow> bool \<Rightarrow> bool \<times> PthreadRwlockPrivate" where
  "rw_leaves lock w timedOut = (rw_notified (rw_end w timedOut lock), rw_lock (rw_end w timedOut lock))"

fun rw_timed :: "rw_wait \<Rightarrow> bool" where
  "rw_timed (Reader thread held timed) \<longleftrightarrow> timed"
| "rw_timed (Writer thread held timed) \<longleftrightarrow> timed"

definition rw_created :: "PthreadRwlockPrivate \<Rightarrow> bool" where
  "rw_created lock \<longleftrightarrow> lock = \<lparr>rw_writer = None, rw_readers = 0, rw_waitingWriters = 0\<rparr>"

abbreviation rw_step ::
    "(PthreadRwlockPrivate, rw_wait) monitor \<Rightarrow> monitor_label \<Rightarrow> (PthreadRwlockPrivate, rw_wait) monitor \<Rightarrow> bool" where
  "rw_step \<equiv> monitor_step rw_calls rw_blocks rw_released rw_leaves rw_timed"

end
