(* ===== verification/Rwlock_Props.thy ===== *)
theory Rwlock_Props
  imports Rwlock
begin

text \<open>The readers-writer lock is a monitor object: it excludes what it has to, and no wakeup is lost.\<close>

definition writing :: "rw_wait \<Rightarrow> bool" where
  "writing w \<longleftrightarrow> (\<exists>thread held timed. w = Writer thread held timed)"

lemma writing_simps [simp]: "writing (Writer thread held timed)" "\<not> writing (Reader thread held timed)"
  by (auto simp: writing_def)

definition rw_inv :: "rw_wait multiset \<Rightarrow> PthreadRwlockPrivate \<Rightarrow> bool" where
  "rw_inv W lock \<longleftrightarrow> 0 \<le> rw_readers lock \<and> (rw_writer lock \<noteq> None \<longrightarrow> rw_readers lock = 0) \<and>
     rw_waitingWriters lock = int (size (filter_mset writing W))"

lemmas rw_operations = scePthreadRwlockTryrdlock_def scePthreadRwlockTrywrlock_def scePthreadRwlockUnlock_def
  EnterRead_def EnterWrite_def rw_error_def ReaderMayEnter_def WriterMayEnter_def OwnsWrite_def rdlock_begin_def
  wrlock_begin_def rdlock_end_def wrlock_end_def Let_def

lemma rw_created_inv: "rw_created lock \<Longrightarrow> rw_inv {#} lock"
  by (simp add: rw_created_def rw_inv_def)

lemma rw_perform_inv: "rw_inv W lock \<Longrightarrow> rw_inv W (rw_lock (rw_perform c thread held lock))"
  by (cases c) (auto simp: rw_inv_def rw_operations)

lemma rw_perform_notifies:
  "rw_inv W lock \<Longrightarrow> rw_released (rw_lock (rw_perform c thread held lock)) v \<Longrightarrow> \<not> rw_released lock v \<Longrightarrow>
    rw_notified (rw_perform c thread held lock)"
  by (cases c; cases v) (auto simp: rw_inv_def rw_operations split: if_splits)

lemma rw_begins_cases [consumes 1, case_names reader writer]:
  assumes "rw_begins thread lock w lock'"
  obtains held timed where "w = Reader thread held timed" "lock' = lock"
  | held timed where "w = Writer thread held timed" "lock' = lock\<lparr>rw_waitingWriters := rw_waitingWriters lock + 1\<rparr>"
  using assms by (auto simp: rw_begins_def rw_operations split: if_splits)

lemma rw_begins_inv: "rw_begins thread lock w lock' \<Longrightarrow> rw_inv W lock \<Longrightarrow> rw_inv (add_mset w W) lock'"
  by (cases rule: rw_begins_cases) (auto simp: rw_inv_def)

lemma rw_begins_released:
  "rw_begins thread lock w lock' \<Longrightarrow> rw_inv W lock \<Longrightarrow> rw_released lock' v \<Longrightarrow> rw_released lock v"
  by (cases v) (auto simp: rw_inv_def ReaderMayEnter_def WriterMayEnter_def elim!: rw_begins_cases)

lemma rw_end_inv:
  "rw_inv (add_mset w W) lock \<Longrightarrow> rw_released lock w \<noteq> timedOut \<Longrightarrow> rw_inv W (rw_lock (rw_end w timedOut lock))"
  by (cases w) (auto simp: rw_inv_def rw_operations)

lemma rw_end_notifies:
  "rw_inv (add_mset w W) lock \<Longrightarrow> rw_released lock w \<noteq> timedOut \<Longrightarrow> rw_released (rw_lock (rw_end w timedOut lock)) v \<Longrightarrow>
    \<not> rw_released lock v \<Longrightarrow> rw_notified (rw_end w timedOut lock)"
  by (cases w; cases v) (auto simp: rw_inv_def rw_operations split: if_splits)

lemma rw_calls_cases [consumes 1, case_names perform lock]:
  assumes "rw_calls thread lock n lock'"
  obtains c held where "lock' = rw_lock (rw_perform c thread held lock)" "n = rw_notified (rw_perform c thread held lock)"
  | lock1 w where "rw_begins thread lock w lock1" "rw_released lock1 w" "lock' = rw_lock (rw_end w False lock1)"
      "n = rw_notified (rw_end w False lock1)"
  using assms unfolding rw_calls_def by blast

interpretation rwl: monitor_object rw_inv rw_calls rw_blocks rw_released rw_leaves rw_timed
proof (unfold_locales, goal_cases)
  case (1 W s t n s')
  from 1(2,1) show ?case
    by (cases rule: rw_calls_cases) (use rw_perform_inv rw_begins_inv rw_end_inv [where timedOut = False] in auto)
next
  case (2 W s t w n s')
  then show ?case using rw_begins_inv by (auto simp: rw_blocks_def)
next
  case (3 w W s timedOut n s')
  then show ?case using rw_end_inv by (auto simp: rw_leaves_def)
next
  case (4 W s v t n s')
  from 4(3,1,4,5) show ?case
  proof (cases rule: rw_calls_cases)
    case (perform c held)
    with 4 rw_perform_notifies show ?thesis by blast
  next
    case (lock lock1 w)
    then have "rw_inv (add_mset w W) lock1" using 4(1) rw_begins_inv by blast
    moreover have "\<not> rw_released lock1 v" using 4(1,5) lock(1) rw_begins_released by blast
    ultimately show ?thesis using lock 4(4) rw_end_notifies [where timedOut = False] by simp
  qed
next
  case (5 W s t w n s')
  then show ?case by (simp add: rw_blocks_def)
next
  case (6 W s v t w n s')
  then show ?case using rw_begins_released by (auto simp: rw_blocks_def)
next
  case (7 w W s timedOut n s' v)
  then show ?case using rw_end_notifies by (auto simp: rw_leaves_def)
qed

subsection \<open>What the guest sees\<close>

lemma rw_inv_reachable: "monitor_reachable rw_step rw_created m \<Longrightarrow> rw_inv (waits (waiting m)) (shared m)"
  using rwl.awake_reachable rw_created_inv rwl.awake_def by blast

lemma size_writing: "size (filter_mset writing (waits ws)) = length (filter (\<lambda>(t, w, n). writing w) ws)"
  by (induction ws) (auto simp: waits_def)

text \<open>The owner stays the owner until it unlocks.\<close>

lemma rw_owner_perform:
  "rw_writer lock = Some owner \<Longrightarrow> rw_writer (rw_lock (rw_perform c thread held lock)) \<noteq> Some owner \<Longrightarrow>
    c = Unlock \<and> thread = owner \<and> rw_writer (rw_lock (rw_perform c thread held lock)) = None"
  by (cases c) (auto simp: rw_operations split: if_splits)

lemma rw_owner_begins: "rw_begins thread lock w lock' \<Longrightarrow> rw_writer lock' = rw_writer lock"
  by (auto elim!: rw_begins_cases)

lemma rw_owner_end:
  "rw_writer lock = Some owner \<Longrightarrow> rw_released lock w \<noteq> timedOut \<Longrightarrow> rw_writer (rw_lock (rw_end w timedOut lock)) = Some owner"
  by (cases w) (auto simp: rw_operations)

lemma rw_owner_step:
  assumes "rw_step m l m'" "rw_writer (shared m) = Some owner"
  shows "rw_writer (shared m') = Some owner \<or>
    l = Call owner \<and> rw_writer (shared m') = None \<and> (\<exists>held. shared m' = rw_lock (scePthreadRwlockUnlock owner held (shared m)))"
  using assms
proof (induction rule: monitor_step.induct)
  case (call t s n s' ws)
  show ?case
  proof (use call(1) in \<open>cases rule: rw_calls_cases\<close>)
    case (perform c held)
    with call(3) rw_owner_perform [of s owner c t held] show ?thesis by auto
  next
    case (lock lock1 w)
    then show ?thesis using call(3) rw_owner_begins rw_owner_end [where timedOut = False] by simp
  qed
next
  case (block t s w n s' ws)
  then show ?case using rw_owner_begins [of t s w s'] by (simp add: rw_blocks_def)
next
  case (wake t w n ws s m s')
  then show ?case using rw_owner_end [of s owner w False] by (auto simp: rw_leaves_def)
next
  case (timeout t w n ws s m s')
  then show ?case using rw_owner_end [of s owner w True] by (auto simp: rw_leaves_def)
qed simp_all

text \<open>A thread gets the lock for writing by its own step, when nobody holds it.\<close>

definition thread_of :: "rw_wait \<Rightarrow> nat" where
  "thread_of w = (case w of Reader thread held timed \<Rightarrow> thread | Writer thread held timed \<Rightarrow> thread)"

lemma thread_of_simps [simp]: "thread_of (Reader thread held timed) = thread" "thread_of (Writer thread held timed) = thread"
  by (simp_all add: thread_of_def)

lemma rw_begins_thread: "rw_begins thread lock w lock' \<Longrightarrow> thread_of w = thread"
  by (auto elim!: rw_begins_cases)

lemma waiting_thread: "monitor_reachable rw_step rw_created m \<Longrightarrow> (t, w, n) \<in> set (waiting m) \<Longrightarrow> thread_of w = t"
proof (induction arbitrary: t w n rule: monitor_reachable.induct)
  case (more m l m')
  from more(2,3,4) show ?case
    by (induction rule: monitor_step.induct) (auto simp: set_notify set_without set_asleep rw_blocks_def dest: rw_begins_thread)
qed simp

lemma rw_enters_perform:
  "rw_writer (rw_lock (rw_perform c thread held lock)) = Some u \<Longrightarrow> rw_writer lock \<noteq> Some u \<Longrightarrow>
    u = thread \<and> rw_writer lock = None \<and> rw_readers lock = 0"
  by (cases c) (auto simp: rw_operations split: if_splits)

lemma rw_enters_end:
  "rw_writer (rw_lock (rw_end w timedOut lock)) = Some u \<Longrightarrow> rw_writer lock \<noteq> Some u \<Longrightarrow> rw_released lock w \<noteq> timedOut \<Longrightarrow>
    u = thread_of w \<and> rw_writer lock = None \<and> rw_readers lock = 0"
  by (cases w) (auto simp: rw_operations split: if_splits)

lemma rw_begins_readers: "rw_begins thread lock w lock' \<Longrightarrow> rw_readers lock' = rw_readers lock"
  by (auto elim!: rw_begins_cases)

lemma rw_enters_step:
  assumes "rw_step m l m'" "monitor_reachable rw_step rw_created m"
    and "rw_writer (shared m') = Some u" "rw_writer (shared m) \<noteq> Some u"
  shows "l \<in> {Call u, Wake u} \<and> rw_writer (shared m) = None \<and> rw_readers (shared m) = 0"
  using assms
proof (induction rule: monitor_step.induct)
  case (call t s n s' ws)
  show ?case
  proof (use call(1) in \<open>cases rule: rw_calls_cases\<close>)
    case (perform c held)
    with call(4,5) rw_enters_perform [of c t held s u] show ?thesis by simp
  next
    case (lock lock1 w)
    then show ?thesis
      using call(4,5) rw_owner_begins [OF lock(1)] rw_begins_readers [OF lock(1)] rw_begins_thread [OF lock(1)]
        rw_enters_end [of w False lock1 u] by simp
  qed
next
  case (block t s w n s' ws)
  then show ?case using rw_owner_begins [of t s w s'] by (simp add: rw_blocks_def)
next
  case (wake t w n ws s m s')
  then show ?case using rw_enters_end [of w False s u] waiting_thread [OF wake(4), of t w n] by (simp add: rw_leaves_def)
next
  case (timeout t w n ws s m s')
  then show ?case by (cases w) (auto simp: rw_leaves_def rw_operations)
qed simp_all

text \<open>Thread 1 writes, thread 2 waits to read, thread 1 unlocks.\<close>

definition demo_lock :: PthreadRwlockPrivate where
  "demo_lock = \<lparr>rw_writer = None, rw_readers = 0, rw_waitingWriters = 0\<rparr>"

definition demo_write :: "(PthreadRwlockPrivate, rw_wait) monitor" where
  "demo_write = \<lparr>shared = demo_lock\<lparr>rw_writer := Some 1\<rparr>, waiting = []\<rparr>"

definition demo_queue :: "(PthreadRwlockPrivate, rw_wait) monitor" where
  "demo_queue = \<lparr>shared = demo_lock\<lparr>rw_writer := Some 1\<rparr>, waiting = [(2, Reader 2 0 False, False)]\<rparr>"

definition demo_unlocked :: "(PthreadRwlockPrivate, rw_wait) monitor" where
  "demo_unlocked = \<lparr>shared = demo_lock, waiting = [(2, Reader 2 0 False, True)]\<rparr>"

lemma demo_write_reachable: "monitor_reachable rw_step rw_created demo_write"
proof -
  have "rw_calls 1 demo_lock False (demo_lock\<lparr>rw_writer := Some 1\<rparr>)"
    unfolding rw_calls_def
    by (intro disjI1 exI [of _ Trywrlock] exI [of _ 0]) (simp add: demo_lock_def rw_operations)
  from monitor_step.call [where calls = rw_calls, OF this, where ws = "[]"] show ?thesis
    unfolding demo_write_def
    by (intro monitor_reachable.more [OF monitor_reachable.start [of rw_created demo_lock]])
      (simp_all add: notify_def rw_created_def demo_lock_def)
qed

lemma demo_queue_step: "rw_step demo_write (Block 2) demo_queue"
proof -
  have "rw_blocks 2 (demo_lock\<lparr>rw_writer := Some 1\<rparr>) (Reader 2 0 False) False (demo_lock\<lparr>rw_writer := Some 1\<rparr>)"
    unfolding rw_blocks_def rw_begins_def
    by (intro conjI exI [of _ 0] exI [of _ False]) (simp_all add: demo_lock_def rw_operations)
  from monitor_step.block [where blocks = rw_blocks, OF this, where ws = "[]"] show ?thesis
    by (simp add: demo_write_def demo_queue_def notify_def)
qed

lemma demo_unlocked_step: "rw_step demo_queue (Call 1) demo_unlocked"
proof -
  have "rw_calls 1 (demo_lock\<lparr>rw_writer := Some 1\<rparr>) True demo_lock"
    unfolding rw_calls_def
    by (intro disjI1 exI [of _ Unlock] exI [of _ 0]) (simp add: demo_lock_def rw_operations)
  from monitor_step.call [where calls = rw_calls, OF this, where ws = "[(2, Reader 2 0 False, False)]"] show ?thesis
    by (simp add: demo_queue_def demo_unlocked_def notify_def)
qed

lemmas demo_unlocked_reachable =
  monitor_reachable.more [OF monitor_reachable.more [OF demo_write_reachable demo_queue_step] demo_unlocked_step]

text \<open>C8. In every reachable state of a readers-writer lock it is held for writing by one thread, with no reader, or for
  reading by the number of readers it counts, or free; its counter of waiting writers is their number. Only the writing
  thread's own call of unlock takes the lock from it: whatever step the lock takes, the owner stays the owner, or the
  step is a call of the owner and what it did is \<open>scePthreadRwlockUnlock\<close>. A thread becomes the owner by its own call or its own wakeup,
  and only when there is neither an owner nor a reader.\<close>

theorem rwlock_exclusion:
  assumes "monitor_reachable rw_step rw_created m" "rw_step m l m'"
  shows "0 \<le> rw_readers (shared m) \<and> (rw_writer (shared m) \<noteq> None \<longrightarrow> rw_readers (shared m) = 0) \<and>
    rw_waitingWriters (shared m) = int (length (filter (\<lambda>(t, w, n). writing w) (waiting m))) \<and>
    (\<forall>owner. rw_writer (shared m) = Some owner \<longrightarrow>
      rw_writer (shared m') = Some owner \<and> rw_readers (shared m') = 0 \<or>
      l = Call owner \<and> rw_writer (shared m') = None \<and>
        (\<exists>held. shared m' = rw_lock (scePthreadRwlockUnlock owner held (shared m)))) \<and>
    (\<forall>thread. rw_writer (shared m') = Some thread \<longrightarrow> rw_writer (shared m) \<noteq> Some thread \<longrightarrow>
      l \<in> {Call thread, Wake thread} \<and> rw_writer (shared m) = None \<and> rw_readers (shared m) = 0)"
proof -
  have "rw_inv (waits (waiting m)) (shared m)" by (rule rw_inv_reachable [OF assms(1)])
  moreover have "rw_inv (waits (waiting m')) (shared m')" by (rule rw_inv_reachable [OF monitor_reachable.more [OF assms]])
  ultimately show ?thesis
    using rw_owner_step [OF assms(2)] rw_enters_step [OF assms(2,1)] unfolding rw_inv_def size_writing by auto
qed

theorem rwlock_exclusion_witness:
  "rw_writer (shared demo_queue) = Some 1 \<and> rw_writer (shared demo_unlocked) = None \<and> rw_readers (shared demo_queue) = 0 \<and>
    (\<exists>held. shared demo_unlocked = rw_lock (scePthreadRwlockUnlock 1 held (shared demo_queue)))"
  using rwlock_exclusion [OF monitor_reachable.more [OF demo_write_reachable demo_queue_step] demo_unlocked_step]
  by (simp add: demo_queue_def demo_unlocked_def demo_lock_def)

text \<open>C15. No wakeup of a readers-writer lock is lost: a waiting thread that may enter has been notified since it last
  looked.\<close>

theorem rwlock_no_lost_wakeup:
  assumes "monitor_reachable rw_step rw_created m" "(t, w, n) \<in> set (waiting m)" "rw_released (shared m) w"
  shows "n"
  by (rule rwl.no_lost_wakeup [OF assms(1) _ assms(2,3)]) (rule rw_created_inv)

theorem rwlock_no_lost_wakeup_witness: "\<exists>n. (2, Reader 2 0 False, n) \<in> set (waiting demo_unlocked) \<and> n"
  using rwlock_no_lost_wakeup [OF demo_unlocked_reachable, of 2 "Reader 2 0 False" True]
  by (intro exI [of _ True]) (simp add: demo_unlocked_def demo_lock_def ReaderMayEnter_def)

end
