(* ===== verification/Elf_Constants.thy ===== *)
theory Elf_Constants
  imports Prelude
begin

text \<open>
  The constants of \<open>core/relinker/elfpatcher/include/elfpatcher/general/ElfConstants.hpp\<close> that the reader and the Linux
  patcher use; \<open>size_t\<close> is \<open>nat\<close>, a signed dynamic tag its 64 bits. \<open>elf_defs\<close> collects them.
\<close>

named_theorems elf_defs

definition kEhdrOsAbiOffset :: nat where "kEhdrOsAbiOffset = 7"

definition kEhdrAbiVersionOffset :: nat where "kEhdrAbiVersionOffset = 8"

definition kEhdrTypeOffset :: nat where "kEhdrTypeOffset = 0x10"

definition kEhdrEntryOffset :: nat where "kEhdrEntryOffset = 24"

definition kEhdrPhOffOffset :: nat where "kEhdrPhOffOffset = 32"

definition kEhdrShOffOffset :: nat where "kEhdrShOffOffset = 40"

definition kEhdrPhEntSizeOffset :: nat where "kEhdrPhEntSizeOffset = 54"

definition kEhdrPhNumOffset :: nat where "kEhdrPhNumOffset = 56"

definition kEhdrShEntSizeOffset :: nat where "kEhdrShEntSizeOffset = 58"

definition kEhdrShNumOffset :: nat where "kEhdrShNumOffset = 60"

definition kEhdrShStrNdxOffset :: nat where "kEhdrShStrNdxOffset = 62"

definition kShdrNameOffset :: nat where "kShdrNameOffset = 0"

definition kShdrTypeOffset :: nat where "kShdrTypeOffset = 4"

definition kShdrFlagsOffset :: nat where "kShdrFlagsOffset = 8"

definition kShdrAddrOffset :: nat where "kShdrAddrOffset = 16"

definition kShdrFileOffsetOffset :: nat where "kShdrFileOffsetOffset = 24"

definition kShdrSizeOffset :: nat where "kShdrSizeOffset = 32"

definition kShdrLinkOffset :: nat where "kShdrLinkOffset = 40"

definition kShdrInfoOffset :: nat where "kShdrInfoOffset = 44"

definition kShdrAlignOffset :: nat where "kShdrAlignOffset = 48"

definition kShdrEntSizeOffset :: nat where "kShdrEntSizeOffset = 56"

definition kShdrEntrySize :: nat where "kShdrEntrySize = 64"

definition kPhdrTypeOffset :: nat where "kPhdrTypeOffset = 0"

definition kPhdrFlagsOffset :: nat where "kPhdrFlagsOffset = 4"

definition kPhdrOffsetOffset :: nat where "kPhdrOffsetOffset = 8"

definition kPhdrVaddrOffset :: nat where "kPhdrVaddrOffset = 16"

definition kPhdrPaddrOffset :: nat where "kPhdrPaddrOffset = 24"

definition kPhdrFileSizeOffset :: nat where "kPhdrFileSizeOffset = 32"

definition kPhdrMemSizeOffset :: nat where "kPhdrMemSizeOffset = 40"

definition kPhdrAlignOffset :: nat where "kPhdrAlignOffset = 48"

definition kDynEntrySize :: nat where "kDynEntrySize = 16"

definition kSymEntrySize :: u64 where "kSymEntrySize = 24"

definition kRelaEntrySize :: u64 where "kRelaEntrySize = 24"

definition kDynStrAlignment :: nat where "kDynStrAlignment = 24"

definition kDynSymAlignment :: nat where "kDynSymAlignment = 24"

definition kRelaAlignment :: nat where "kRelaAlignment = 24"

definition kRelaPltAlignment :: nat where "kRelaPltAlignment = 8"

definition kElfHeaderSize :: u64 where "kElfHeaderSize = 64"

definition kDefaultLoadAlignment :: u64 where "kDefaultLoadAlignment = 0x1000"

definition kPhdrHeaderAlignment :: u64 where "kPhdrHeaderAlignment = 8"

definition kDynamicHeaderAlignment :: u64 where "kDynamicHeaderAlignment = 8"

definition kInterpHeaderAlignment :: u64 where "kInterpHeaderAlignment = 1"

definition kSyntheticProgramHeaderCount :: u16 where "kSyntheticProgramHeaderCount = 5"

definition PT_NULL :: u32 where "PT_NULL = 0"

definition PT_LOAD :: u32 where "PT_LOAD = 1"

definition PT_DYNAMIC :: u32 where "PT_DYNAMIC = 2"

definition PT_INTERP :: u32 where "PT_INTERP = 3"

definition PT_NOTE :: u32 where "PT_NOTE = 4"

definition PT_PHDR :: u32 where "PT_PHDR = 6"

definition PT_GNU_EH_FRAME :: u32 where "PT_GNU_EH_FRAME = 0x6474e550"

definition PT_GNU_STACK :: u32 where "PT_GNU_STACK = 0x6474e551"

definition PF_X :: u32 where "PF_X = 0x1"

definition PF_W :: u32 where "PF_W = 0x2"

definition PF_R :: u32 where "PF_R = 0x4"

definition ET_EXEC :: u32 where "ET_EXEC = 2"

definition ET_DYN :: u32 where "ET_DYN = 3"

definition PT_SCE_DYNLIBDATA :: u32 where "PT_SCE_DYNLIBDATA = 0x61000000"

definition PT_OS_PROCPARAM :: u32 where "PT_OS_PROCPARAM = 0x61000001"

definition PT_OS_RELRO :: u32 where "PT_OS_RELRO = 0x61000010"

definition PT_LOOS :: u32 where "PT_LOOS = 0x61000000"

definition PT_HIOS :: u32 where "PT_HIOS = 0x6fffffff"

definition DT_DEBUG :: u64 where "DT_DEBUG = 21"

definition DT_NULL :: u64 where "DT_NULL = 0"

definition DT_NEEDED :: u64 where "DT_NEEDED = 1"

definition DT_PLTRELSZ :: u64 where "DT_PLTRELSZ = 2"

definition DT_PLTGOT :: u64 where "DT_PLTGOT = 3"

definition DT_HASH :: u64 where "DT_HASH = 4"

definition DT_STRTAB :: u64 where "DT_STRTAB = 5"

definition DT_SYMTAB :: u64 where "DT_SYMTAB = 6"

definition DT_RELA :: u64 where "DT_RELA = 7"

definition DT_RELASZ :: u64 where "DT_RELASZ = 8"

definition DT_RELAENT :: u64 where "DT_RELAENT = 9"

definition DT_STRSZ :: u64 where "DT_STRSZ = 10"

definition DT_SYMENT :: u64 where "DT_SYMENT = 11"

definition DT_PLTREL :: u64 where "DT_PLTREL = 20"

definition DT_JMPREL :: u64 where "DT_JMPREL = 23"

definition DT_RUNPATH :: u64 where "DT_RUNPATH = 29"

definition DT_FLAGS :: u64 where "DT_FLAGS = 30"

definition DF_BIND_NOW :: u64 where "DF_BIND_NOW = 0x8"

definition R_X86_64_NONE :: u32 where "R_X86_64_NONE = 0"

definition R_X86_64_64 :: u32 where "R_X86_64_64 = 1"

definition R_X86_64_PC32 :: u32 where "R_X86_64_PC32 = 2"

definition R_X86_64_COPY :: u32 where "R_X86_64_COPY = 5"

definition R_X86_64_GLOB_DAT :: u32 where "R_X86_64_GLOB_DAT = 6"

definition R_X86_64_JUMP_SLOT :: u32 where "R_X86_64_JUMP_SLOT = 7"

definition R_X86_64_RELATIVE :: u32 where "R_X86_64_RELATIVE = 8"

definition R_X86_64_32 :: u32 where "R_X86_64_32 = 10"

definition R_X86_64_32S :: u32 where "R_X86_64_32S = 11"

definition R_X86_64_DTPMOD64 :: u32 where "R_X86_64_DTPMOD64 = 16"

definition R_X86_64_DTPOFF64 :: u32 where "R_X86_64_DTPOFF64 = 17"

definition R_X86_64_TPOFF64 :: u32 where "R_X86_64_TPOFF64 = 18"

definition R_X86_64_IRELATIVE :: u32 where "R_X86_64_IRELATIVE = 37"

definition STT_TLS :: u8 where "STT_TLS = 6"

definition SHN_UNDEF :: u16 where "SHN_UNDEF = 0"

definition SHN_LORESERVE :: u16 where "SHN_LORESERVE = 0xff00"

definition SHN_ABS :: u16 where "SHN_ABS = 0xfff1"

definition SHT_NULL :: u32 where "SHT_NULL = 0"

definition SHT_PROGBITS :: u32 where "SHT_PROGBITS = 1"

definition SHT_STRTAB :: u32 where "SHT_STRTAB = 3"

definition SHT_DYNAMIC :: u32 where "SHT_DYNAMIC = 6"

definition SHT_DYNSYM :: u32 where "SHT_DYNSYM = 11"

definition SHF_WRITE :: u32 where "SHF_WRITE = 0x1"

definition SHF_ALLOC :: u32 where "SHF_ALLOC = 0x2"

definition SHF_EXECINSTR :: u32 where "SHF_EXECINSTR = 0x4"

definition kShStrTabNameOffset :: u32 where "kShStrTabNameOffset = 1"

definition kDynStrNameOffset :: u32 where "kDynStrNameOffset = 11"

definition kDynSymNameOffset :: u32 where "kDynSymNameOffset = 19"

definition kDynamicNameOffset :: u32 where "kDynamicNameOffset = 27"

definition kTextNameOffset :: u32 where "kTextNameOffset = 36"

definition kSectionHeaderCount :: nat where "kSectionHeaderCount = 6"

definition kShStrTabIndex :: u32 where "kShStrTabIndex = 1"

definition kNoSpecialAlignment :: u64 where "kNoSpecialAlignment = 1"

definition kDynSymLinkToStrTab :: u32 where "kDynSymLinkToStrTab = 2"

definition kDynSymInfoFirstGlobal :: u32 where "kDynSymInfoFirstGlobal = 1"

definition kDynSymAlign :: u64 where "kDynSymAlign = 8"

definition kDynamicLinkToStrTab :: u32 where "kDynamicLinkToStrTab = 2"

definition kStubOpAndRsp0xf0 :: "u8 list" where "kStubOpAndRsp0xf0 = [0x48, 0x83, 0xe4, 0xf0]"

definition kStubOpMovRdiRsp :: "u8 list" where "kStubOpMovRdiRsp = [0x48, 0x89, 0xe7]"

definition kStubOpXorRsiRsi :: "u8 list" where "kStubOpXorRsiRsi = [0x48, 0x31, 0xf6]"

definition kStubOpPushZero :: "u8 list" where "kStubOpPushZero = [0x6a, 0x00]"

definition kStubOpMovRbpRsp :: "u8 list" where "kStubOpMovRbpRsp = [0x48, 0x89, 0xe5]"

definition kStubOpCallRel32 :: u8 where "kStubOpCallRel32 = 0xe8"

definition kStubCallInstructionSize :: nat where "kStubCallInstructionSize = 5"

definition kStubOpUd2 :: "u8 list" where "kStubOpUd2 = [0x0f, 0x0b]"

definition kShStrTabBlob :: "u8 list" where
  "kShStrTabBlob = [0, 46, 115, 104, 115, 116, 114, 116, 97, 98, 0, 46, 100, 121, 110, 115, 116, 114, 0, 46, 100, 121, 110, 115, 121, 109, 0, 46, 100, 121, 110, 97, 109, 105, 99, 0, 46, 116, 101, 120, 116, 0]"

lemmas elf_constants [elf_defs] =
  kEhdrOsAbiOffset_def
  kEhdrAbiVersionOffset_def
  kEhdrTypeOffset_def
  kEhdrEntryOffset_def
  kEhdrPhOffOffset_def
  kEhdrShOffOffset_def
  kEhdrPhEntSizeOffset_def
  kEhdrPhNumOffset_def
  kEhdrShEntSizeOffset_def
  kEhdrShNumOffset_def
  kEhdrShStrNdxOffset_def
  kShdrNameOffset_def
  kShdrTypeOffset_def
  kShdrFlagsOffset_def
  kShdrAddrOffset_def
  kShdrFileOffsetOffset_def
  kShdrSizeOffset_def
  kShdrLinkOffset_def
  kShdrInfoOffset_def
  kShdrAlignOffset_def
  kShdrEntSizeOffset_def
  kShdrEntrySize_def
  kPhdrTypeOffset_def
  kPhdrFlagsOffset_def
  kPhdrOffsetOffset_def
  kPhdrVaddrOffset_def
  kPhdrPaddrOffset_def
  kPhdrFileSizeOffset_def
  kPhdrMemSizeOffset_def
  kPhdrAlignOffset_def
  kDynEntrySize_def
  kSymEntrySize_def
  kRelaEntrySize_def
  kDynStrAlignment_def
  kDynSymAlignment_def
  kRelaAlignment_def
  kRelaPltAlignment_def
  kElfHeaderSize_def
  kDefaultLoadAlignment_def
  kPhdrHeaderAlignment_def
  kDynamicHeaderAlignment_def
  kInterpHeaderAlignment_def
  kSyntheticProgramHeaderCount_def
  PT_NULL_def
  PT_LOAD_def
  PT_DYNAMIC_def
  PT_INTERP_def
  PT_NOTE_def
  PT_PHDR_def
  PT_GNU_EH_FRAME_def
  PT_GNU_STACK_def
  PF_X_def
  PF_W_def
  PF_R_def
  ET_EXEC_def
  ET_DYN_def
  PT_SCE_DYNLIBDATA_def
  PT_OS_PROCPARAM_def
  PT_OS_RELRO_def
  PT_LOOS_def
  PT_HIOS_def
  DT_DEBUG_def
  DT_NULL_def
  DT_NEEDED_def
  DT_PLTRELSZ_def
  DT_PLTGOT_def
  DT_HASH_def
  DT_STRTAB_def
  DT_SYMTAB_def
  DT_RELA_def
  DT_RELASZ_def
  DT_RELAENT_def
  DT_STRSZ_def
  DT_SYMENT_def
  DT_PLTREL_def
  DT_JMPREL_def
  DT_RUNPATH_def
  DT_FLAGS_def
  DF_BIND_NOW_def
  R_X86_64_NONE_def
  R_X86_64_64_def
  R_X86_64_PC32_def
  R_X86_64_COPY_def
  R_X86_64_GLOB_DAT_def
  R_X86_64_JUMP_SLOT_def
  R_X86_64_RELATIVE_def
  R_X86_64_32_def
  R_X86_64_32S_def
  R_X86_64_DTPMOD64_def
  R_X86_64_DTPOFF64_def
  R_X86_64_TPOFF64_def
  R_X86_64_IRELATIVE_def
  STT_TLS_def
  SHN_UNDEF_def
  SHN_LORESERVE_def
  SHN_ABS_def
  SHT_NULL_def
  SHT_PROGBITS_def
  SHT_STRTAB_def
  SHT_DYNAMIC_def
  SHT_DYNSYM_def
  SHF_WRITE_def
  SHF_ALLOC_def
  SHF_EXECINSTR_def
  kShStrTabNameOffset_def
  kDynStrNameOffset_def
  kDynSymNameOffset_def
  kDynamicNameOffset_def
  kTextNameOffset_def
  kSectionHeaderCount_def
  kShStrTabIndex_def
  kNoSpecialAlignment_def
  kDynSymLinkToStrTab_def
  kDynSymInfoFirstGlobal_def
  kDynSymAlign_def
  kDynamicLinkToStrTab_def
  kStubOpAndRsp0xf0_def
  kStubOpMovRdiRsp_def
  kStubOpXorRsiRsi_def
  kStubOpPushZero_def
  kStubOpMovRbpRsp_def
  kStubOpCallRel32_def
  kStubCallInstructionSize_def
  kStubOpUd2_def
  kShStrTabBlob_def

end
