(* ===== verification/Program_Layout.thy ===== *)
theory Program_Layout
  imports Elf_Constants Byte_Codec
begin

text \<open>
  The program headers of the output, \<open>core/relinker/elfpatcher/src/general/SegmentFilter.cpp\<close> and
  \<open>ProgramHeaderLayoutBuilder.cpp\<close>: the headers of the guest that are kept, and in front of and behind them the
  headers of the blocks that the patcher appends to the file.
\<close>

subsection \<open>\<open>SegmentFilter\<close>\<close>

definition isSceSpecificSegment :: "u32 \<Rightarrow> bool" where
  "isSceSpecificSegment type \<longleftrightarrow>
     type = PT_SCE_DYNLIBDATA \<or> type = PT_OS_PROCPARAM \<or> type = PT_OS_RELRO \<or> PT_LOOS \<le> type \<and> type \<le> PT_HIOS"

definition ShouldSkip :: "ProgramHeader \<Rightarrow> bool" where
  "ShouldSkip ph =
    (if ph_Type ph = PT_OS_PROCPARAM then False
     else if ph_Type ph = PT_GNU_EH_FRAME then False
     else if isSceSpecificSegment (ph_Type ph) then True
     else if ph_Type ph = PT_DYNAMIC \<or> ph_Type ph = PT_PHDR \<or> ph_Type ph = PT_INTERP then True
     else if ph_Type ph = PT_NOTE \<and> ph_MappedAddress ph = 0 \<and> ph_FileSize ph > 0 then True
     else False)"

subsection \<open>Headers\<close>

definition writeProgramHeader :: "u8 list \<Rightarrow> nat \<Rightarrow> ProgramHeader \<Rightarrow> u8 list patch_result" where
  "writeProgramHeader buf off ph =
    bindE (WriteU32 buf (off + kPhdrTypeOffset) (ph_Type ph)) (\<lambda>buf.
    bindE (WriteU32 buf (off + kPhdrFlagsOffset) (ph_Flags ph)) (\<lambda>buf.
    bindE (WriteU64 buf (off + kPhdrOffsetOffset) (ph_Offset ph)) (\<lambda>buf.
    bindE (WriteU64 buf (off + kPhdrVaddrOffset) (ph_MappedAddress ph)) (\<lambda>buf.
    bindE (WriteU64 buf (off + kPhdrPaddrOffset) (ph_PhysicalAddress ph)) (\<lambda>buf.
    bindE (WriteU64 buf (off + kPhdrFileSizeOffset) (ph_FileSize ph)) (\<lambda>buf.
    bindE (WriteU64 buf (off + kPhdrMemSizeOffset) (ph_MemorySize ph)) (\<lambda>buf.
      WriteU64 buf (off + kPhdrAlignOffset) (ph_Alignment ph))))))))"

definition makeLoadHeader :: "u64 \<Rightarrow> u64 \<Rightarrow> u64 \<Rightarrow> u64 \<Rightarrow> u64 \<Rightarrow> u32 \<Rightarrow> ProgramHeader" where
  "makeLoadHeader off vaddr fileSize align memorySize flags =
    \<lparr>ph_Type = PT_LOAD, ph_Flags = flags, ph_Offset = off, ph_MappedAddress = vaddr, ph_PhysicalAddress = vaddr,
      ph_FileSize = fileSize, ph_MemorySize = (if memorySize < fileSize then fileSize else memorySize), ph_Alignment = align\<rparr>"

definition makePhdrHeader :: "u64 \<Rightarrow> u64 \<Rightarrow> u64 \<Rightarrow> ProgramHeader" where
  "makePhdrHeader off vaddr fileSize =
    \<lparr>ph_Type = PT_PHDR, ph_Flags = PF_R, ph_Offset = off, ph_MappedAddress = vaddr, ph_PhysicalAddress = vaddr,
      ph_FileSize = fileSize, ph_MemorySize = fileSize, ph_Alignment = kPhdrHeaderAlignment\<rparr>"

definition makeDynamicHeader :: "u64 \<Rightarrow> u64 \<Rightarrow> u64 \<Rightarrow> ProgramHeader" where
  "makeDynamicHeader off vaddr fileSize =
    \<lparr>ph_Type = PT_DYNAMIC, ph_Flags = PF_R OR PF_W, ph_Offset = off, ph_MappedAddress = vaddr, ph_PhysicalAddress = vaddr,
      ph_FileSize = fileSize, ph_MemorySize = fileSize, ph_Alignment = kDynamicHeaderAlignment\<rparr>"

definition makeInterpHeader :: "u64 \<Rightarrow> u64 \<Rightarrow> u64 \<Rightarrow> ProgramHeader" where
  "makeInterpHeader off vaddr fileSize =
    \<lparr>ph_Type = PT_INTERP, ph_Flags = PF_R, ph_Offset = off, ph_MappedAddress = vaddr, ph_PhysicalAddress = vaddr,
      ph_FileSize = fileSize, ph_MemorySize = fileSize, ph_Alignment = kInterpHeaderAlignment\<rparr>"

definition fixLoadFlags :: "u32 \<Rightarrow> u32" where
  "fixLoadFlags originalFlags = (if originalFlags = 0 then PF_R OR PF_W OR PF_X else originalFlags OR PF_R)"

definition keptHeaders :: "ProgramHeader list \<Rightarrow> ProgramHeader list" where
  "keptHeaders originalHeaders = filter (\<lambda>ph. \<not> ShouldSkip ph) originalHeaders"

definition RequiredProgramHeaderCount :: "ProgramHeader list \<Rightarrow> nat" where
  "RequiredProgramHeaderCount originalHeaders = length (keptHeaders originalHeaders) + unat kSyntheticProgramHeaderCount"

subsection \<open>Addresses\<close>

abbreviation layout_error :: "string \<Rightarrow> 'a patch_result" where
  "layout_error message \<equiv> Inl (RelinkerException message 0)"

text \<open>The loop of \<open>GuestLoadPageEnd\<close>, with \<open>foundLoad\<close> and \<open>highestVaddrEnd\<close>.\<close>

fun highest_end :: "ProgramHeader list \<Rightarrow> bool \<times> u64 \<Rightarrow> (bool \<times> u64) patch_result" where
  "highest_end [] st = Inr st"
| "highest_end (ph # rest) (foundLoad, highestVaddrEnd) =
    (if ShouldSkip ph then highest_end rest (foundLoad, highestVaddrEnd)
     else if ph_Type ph \<noteq> PT_LOAD then highest_end rest (foundLoad, highestVaddrEnd)
     else if ph_MemorySize ph > - 1 - ph_MappedAddress ph then layout_error ''Load segment virtual range overflowed''
     else let vaddrEnd = ph_MappedAddress ph + ph_MemorySize ph in
       highest_end rest (True, if vaddrEnd > highestVaddrEnd then vaddrEnd else highestVaddrEnd))"

definition GuestLoadPageEnd :: "ProgramHeader list \<Rightarrow> u64 patch_result" where
  "GuestLoadPageEnd originalHeaders =
    bindE (highest_end originalHeaders (False, 0)) (\<lambda>(foundLoad, highestVaddrEnd).
      if \<not> foundLoad then layout_error ''No kept PT_LOAD segment to anchor the extra block against''
      else if highestVaddrEnd > - 1 - (kDefaultLoadAlignment - 1) then layout_error ''Extra block vaddr computation overflowed''
      else Inr ((highestVaddrEnd + kDefaultLoadAlignment - 1) AND NOT (kDefaultLoadAlignment - 1)))"

definition ComputeExtraBlockVaddr :: "ProgramHeader list \<Rightarrow> u64 \<Rightarrow> u64 patch_result" where
  "ComputeExtraBlockVaddr originalHeaders extraBlockOffset =
    bindE (GuestLoadPageEnd originalHeaders) (\<lambda>pageFloor.
      let offsetRemainder = extraBlockOffset AND (kDefaultLoadAlignment - 1) in
      if pageFloor > - 1 - offsetRemainder then layout_error ''Extra block vaddr computation overflowed''
      else Inr (pageFloor + offsetRemainder))"

subsection \<open>\<open>WriteLayout\<close>\<close>

record ProgramHeaderLayoutRequest =
  PhOff :: u64
  PhEntSize :: u16
  PhNum :: u16
  OriginalHeaders :: "ProgramHeader list"
  ExtraBlockOffset :: u64
  ExtraBlockVaddr :: u64
  ExtraBlockSize :: u64
  DynamicSegmentOffset :: u64
  DynamicSegmentSize :: u64
  InterpOffset :: u64
  InterpSize :: u64

text \<open>\<open>sortLoadHeaders\<close>: the load headers change places among themselves, in the order of a stable sort.\<close>

fun place_loads :: "ProgramHeader list \<Rightarrow> ProgramHeader list \<Rightarrow> ProgramHeader list" where
  "place_loads [] loads = []"
| "place_loads (ph # headers) loads =
    (if ph_Type ph = PT_LOAD then hd loads # place_loads headers (tl loads) else ph # place_loads headers loads)"

definition sortLoadHeaders :: "ProgramHeader list \<Rightarrow> ProgramHeader list" where
  "sortLoadHeaders headers =
     place_loads headers (sort_key ph_MappedAddress (filter (\<lambda>ph. ph_Type ph = PT_LOAD) headers))"

definition checkedEnd :: "u64 \<Rightarrow> u64 \<Rightarrow> u64 patch_result" where
  "checkedEnd start len =
    (if len > - 1 - start then layout_error ''Program header layout range overflowed'' else Inr (start + len))"

fun decimal :: "nat \<Rightarrow> string" where
  "decimal n = (if n < 10 then [] else decimal (n div 10)) @ [''0123456789'' ! (n mod 10)]"

declare decimal.simps [simp del]

text \<open>The largest alignment of a kept load segment that is a power of two, at least the page size.\<close>

definition header_alignment :: "ProgramHeader list \<Rightarrow> u64" where
  "header_alignment originalHeaders =
     fold (\<lambda>ph align. if ph_Type ph = PT_LOAD \<and> \<not> ShouldSkip ph \<and> ph_Alignment ph > align \<and>
         ph_Alignment ph AND (ph_Alignment ph - 1) = 0 then ph_Alignment ph else align)
       originalHeaders kDefaultLoadAlignment"

text \<open>What the checks and computations of \<open>WriteLayout\<close> leave for the layout.\<close>

record layout_plan =
  lp_kept :: "ProgramHeader list"
  lp_neededPh :: nat
  lp_tableInExtraBlock :: bool
  lp_headerBlockSize :: u64
  lp_headerBlockAlign :: u64
  lp_extraBlockVaddr :: u64
  lp_headerBlockVaddr :: u64

definition plan_table :: "nat \<Rightarrow> ProgramHeaderLayoutRequest \<Rightarrow> nat \<Rightarrow> (bool \<times> u64) patch_result" where
  "plan_table bufSize req neededPh =
    (if neededPh > unat (PhNum req)
     then layout_error (''Not enough program header slots: need '' @ decimal neededPh @ '', available '' @ decimal (unat (PhNum req)))
     else if PhEntSize req < 56 then layout_error ''Program header entry is too small''
     else bindE (checkedEnd (PhOff req) (of_nat neededPh * ucast (PhEntSize req))) (\<lambda>tableEnd.
       if unat tableEnd > bufSize then layout_error ''Program header table exceeds the output file''
       else let tableInExtraBlock = (ExtraBlockOffset req \<le> PhOff req) in
         if tableInExtraBlock \<and> tableEnd - ExtraBlockOffset req > ExtraBlockSize req
         then layout_error ''Program header table does not fit within the extra block''
         else Inr (tableInExtraBlock, if tableInExtraBlock then kElfHeaderSize else tableEnd)))"

definition plan_addresses :: "ProgramHeaderLayoutRequest \<Rightarrow> u64 \<Rightarrow> (u64 \<times> u64 \<times> u64) patch_result" where
  "plan_addresses req headerBlockSize =
    (let headerBlockAlign = header_alignment (OriginalHeaders req) in
     bindE (ComputeExtraBlockVaddr (OriginalHeaders req) (ExtraBlockOffset req)) (\<lambda>extraBlockVaddr.
     if ExtraBlockVaddr req \<noteq> extraBlockVaddr then layout_error ''Extra block vaddr does not match its file offset''
     else bindE (checkedEnd extraBlockVaddr (ExtraBlockSize req)) (\<lambda>extraEnd.
       bindE (checkedEnd extraEnd (headerBlockAlign - 1)) (\<lambda>rounded.
         let headerBlockVaddr = rounded AND NOT (headerBlockAlign - 1) in
         bindE (checkedEnd headerBlockVaddr headerBlockSize) (\<lambda>_. Inr (headerBlockAlign, extraBlockVaddr, headerBlockVaddr))))))"

definition check_members :: "ProgramHeaderLayoutRequest \<Rightarrow> unit patch_result" where
  "check_members req =
    (if DynamicSegmentOffset req < ExtraBlockOffset req then layout_error ''Dynamic segment offset lies before the extra block''
     else if DynamicSegmentOffset req - ExtraBlockOffset req > ExtraBlockSize req \<or>
       DynamicSegmentSize req > ExtraBlockSize req - (DynamicSegmentOffset req - ExtraBlockOffset req)
     then layout_error ''Dynamic segment does not fit within the extra block''
     else if InterpOffset req < ExtraBlockOffset req then layout_error ''Interp offset lies before the extra block''
     else if InterpOffset req - ExtraBlockOffset req > ExtraBlockSize req \<or>
       InterpSize req > ExtraBlockSize req - (InterpOffset req - ExtraBlockOffset req)
     then layout_error ''Interp data does not fit within the extra block''
     else Inr ())"

definition plan_layout :: "nat \<Rightarrow> ProgramHeaderLayoutRequest \<Rightarrow> layout_plan patch_result" where
  "plan_layout bufSize req =
    (let kept = keptHeaders (OriginalHeaders req);
         frameCount = length (filter (\<lambda>ph. ph_Type ph = PT_GNU_EH_FRAME) kept);
         neededPh = length kept + unat kSyntheticProgramHeaderCount;
         keepFrames = (neededPh \<le> unat (PhNum req)) in
     if \<not> keepFrames \<and> frameCount > 0 then layout_error ''No free program header slot for PT_GNU_EH_FRAME''
     else
       bindE (plan_table bufSize req neededPh) (\<lambda>(tableInExtraBlock, headerBlockSize).
       if unat (ExtraBlockOffset req) > bufSize \<or> unat (ExtraBlockSize req) > bufSize - unat (ExtraBlockOffset req)
       then layout_error ''Extra block exceeds the output file''
       else bindE (plan_addresses req headerBlockSize) (\<lambda>(headerBlockAlign, extraBlockVaddr, headerBlockVaddr).
         bindE (check_members req) (\<lambda>_.
         Inr \<lparr>lp_kept = sortLoadHeaders kept, lp_neededPh = neededPh, lp_tableInExtraBlock = tableInExtraBlock,
           lp_headerBlockSize = headerBlockSize, lp_headerBlockAlign = headerBlockAlign,
           lp_extraBlockVaddr = extraBlockVaddr, lp_headerBlockVaddr = headerBlockVaddr\<rparr>))))"

definition build_layout :: "ProgramHeaderLayoutRequest \<Rightarrow> layout_plan \<Rightarrow> ProgramHeader list patch_result" where
  "build_layout req plan =
    (let extraBlockVaddr = lp_extraBlockVaddr plan;
         dynamicSegmentVaddr = extraBlockVaddr + (DynamicSegmentOffset req - ExtraBlockOffset req);
         interpVaddr = extraBlockVaddr + (InterpOffset req - ExtraBlockOffset req);
         phdrVaddr = (if lp_tableInExtraBlock plan then extraBlockVaddr + (PhOff req - ExtraBlockOffset req)
           else lp_headerBlockVaddr plan + PhOff req);
         fixed = map (\<lambda>ph. if ph_Type ph = PT_LOAD then ph\<lparr>ph_Flags := fixLoadFlags (ph_Flags ph)\<rparr> else ph) (lp_kept plan) in
     bindE (checkedEnd extraBlockVaddr (ExtraBlockSize req)) (\<lambda>extraEnd.
     bindE (checkedEnd extraEnd (kDefaultLoadAlignment - 1)) (\<lambda>rounded.
       let extraBlockPageEnd = rounded AND NOT (kDefaultLoadAlignment - 1) in
       Inr ([makePhdrHeader (PhOff req) phdrVaddr (of_nat (lp_neededPh plan) * ucast (PhEntSize req)),
             makeInterpHeader (InterpOffset req) interpVaddr (InterpSize req)] @ fixed @
            [makeLoadHeader (ExtraBlockOffset req) extraBlockVaddr (ExtraBlockSize req) kDefaultLoadAlignment
               (extraBlockPageEnd - extraBlockVaddr) (PF_R OR PF_W OR PF_X),
             makeLoadHeader 0 (lp_headerBlockVaddr plan) (lp_headerBlockSize plan) (lp_headerBlockAlign plan)
               (lp_headerBlockSize plan) PF_R,
             makeDynamicHeader (DynamicSegmentOffset req) dynamicSegmentVaddr (DynamicSegmentSize req)]))))"

fun write_headers :: "u8 list \<Rightarrow> nat \<Rightarrow> nat \<Rightarrow> ProgramHeader list \<Rightarrow> u8 list patch_result" where
  "write_headers buf off entSize [] = Inr buf"
| "write_headers buf off entSize (ph # rest) =
    bindE (writeProgramHeader buf off ph) (\<lambda>buf. write_headers buf (off + entSize) entSize rest)"

definition WriteLayout :: "u8 list \<Rightarrow> ProgramHeaderLayoutRequest \<Rightarrow> (u16 \<times> u8 list) patch_result" where
  "WriteLayout buf req =
    bindE (plan_layout (length buf) req) (\<lambda>plan.
    bindE (build_layout req plan) (\<lambda>layout.
    bindE (write_headers buf (unat (PhOff req)) (unat (PhEntSize req)) layout) (\<lambda>buf.
      Inr (of_nat (length layout), buf))))"

end
