(* ===== verification/Elf_Reader.thy ===== *)
theory Elf_Reader
  imports Elf_Constants Byte_Codec
begin

text \<open>
  The ELF reader, \<open>core/relinker/relinker/src/parsing/ElfReader.cpp\<close>, on a file as a list of bytes. Every access
  goes through a checked read, or follows a check that the code makes; names are the bytes of the \<open>std::string\<close>.
\<close>

record ElfHeader =
  Machine :: u16
  eh_Type :: u16
  OsAbi :: u8
  AbiVersion :: u8
  EntryPoint :: u64
  ProgramHeaderOffset :: u64
  SectionHeaderOffset :: u64
  ProgramHeaderEntrySize :: u32
  ProgramHeaderCount :: u16
  SectionHeaderEntrySize :: u32
  SectionHeaderCount :: u16
  SectionHeaderStringIndex :: u16

record SectionHeader =
  sh_Name :: "u8 list"
  sh_Type :: u32
  sh_Flags :: u64
  sh_MappedAddress :: u64
  sh_Offset :: u64
  SectionSize :: u64
  sh_Link :: u32
  sh_Info :: u32
  EntrySize :: u64

record DynamicTag =
  Tag :: u64
  tag_Value :: u64

definition rangeFits :: "u64 \<Rightarrow> u64 \<Rightarrow> nat \<Rightarrow> bool" where
  "rangeFits off len available \<longleftrightarrow> unat off \<le> available \<and> unat len \<le> available - unat off"

definition hex_digit :: "nat \<Rightarrow> char" where
  "hex_digit n = ''0123456789abcdef'' ! n"

definition formatMagic :: "u8 list \<Rightarrow> string" where
  "formatMagic file = concat (map (\<lambda>i. (if i \<noteq> 0 then '' '' else []) @
     [hex_digit (unat (drop_bit 4 (file ! i))), hex_digit (unat (file ! i AND 0x0f))]) [0..<4])"

definition readU8At :: "u8 list \<Rightarrow> u64 \<Rightarrow> u8 patch_result" where
  "readU8At file off =
    (if length file \<le> unat off then Inl (RelinkerException ''FileByteOffset out of bounds'' off) else Inr (file ! unat off))"

text \<open>The reads of 2, 4 and 8 bytes differ in their width only.\<close>

definition read_at :: "nat \<Rightarrow> u8 list \<Rightarrow> u64 \<Rightarrow> 'a::len word patch_result" where
  "read_at n file off =
    (if \<not> rangeFits off (of_nat n) (length file) then Inl (RelinkerException ''FileByteOffset out of bounds'' off)
     else Inr (le_word (take n (drop (unat off) file))))"

definition readU16At :: "u8 list \<Rightarrow> u64 \<Rightarrow> u16 patch_result" where
  "readU16At = read_at 2"

definition readU32At :: "u8 list \<Rightarrow> u64 \<Rightarrow> u32 patch_result" where
  "readU32At = read_at 4"

definition readU64At :: "u8 list \<Rightarrow> u64 \<Rightarrow> u64 patch_result" where
  "readU64At = read_at 8"

abbreviation relinker_error :: "string \<Rightarrow> u64 \<Rightarrow> 'a patch_result" where
  "relinker_error message off \<equiv> Inl (RelinkerException message off)"

subsection \<open>The ELF header\<close>

definition ReadHeader :: "u8 list \<Rightarrow> ElfHeader patch_result" where
  "ReadHeader file =
    (if length file < 0x40 then relinker_error ''File too small for ELF header'' 0
     else bindE (readU32At file 0) (\<lambda>magic.
       if magic = 0x1d3d154f \<or> magic = 0xeef51454 then relinker_error ''The input is a SELF container, not an ELF'' 0
       else if file ! 0 \<noteq> 0x7f \<or> file ! 1 \<noteq> 0x45 \<or> file ! 2 \<noteq> 0x4c \<or> file ! 3 \<noteq> 0x46
       then relinker_error (''Invalid ELF magic number: '' @ formatMagic file) 0
       else if file ! 4 \<noteq> 2 \<or> file ! 5 \<noteq> 1 \<or> file ! 6 \<noteq> 1
       then relinker_error ''Expected little-endian ELF64 version 1'' 0
       else bindE (readU16At file 0x12) (\<lambda>machine. if machine \<noteq> 62 then relinker_error ''Expected an x86-64 ELF'' 0
       else bindE (readU32At file 0x14) (\<lambda>version.
         if version \<noteq> 1 then relinker_error ''Unsupported ELF object version: expected 1'' 0x14
       else bindE (readU16At file 0x34) (\<lambda>headerSize.
         if headerSize \<noteq> 64 then relinker_error ''Invalid ELF header size: expected 64 bytes'' 0x34
       else
         bindE (readU16At file 0x12) (\<lambda>machine. bindE (readU16At file 0x10) (\<lambda>type.
         bindE (readU8At file 0x07) (\<lambda>abi. bindE (readU8At file 0x08) (\<lambda>abiVersion.
         bindE (readU64At file 0x18) (\<lambda>entry. bindE (readU64At file 0x20) (\<lambda>phOff.
         bindE (readU64At file 0x28) (\<lambda>shOff. bindE (readU16At file 0x36) (\<lambda>phEnt.
         bindE (readU16At file 0x38) (\<lambda>phCount. bindE (readU16At file 0x3a) (\<lambda>shEnt.
         bindE (readU16At file 0x3c) (\<lambda>shCount. bindE (readU16At file 0x3e) (\<lambda>shStr.
           Inr \<lparr>Machine = machine, eh_Type = type, OsAbi = abi, AbiVersion = abiVersion, EntryPoint = entry,
             ProgramHeaderOffset = phOff, SectionHeaderOffset = shOff, ProgramHeaderEntrySize = ucast phEnt,
             ProgramHeaderCount = phCount, SectionHeaderEntrySize = ucast shEnt, SectionHeaderCount = shCount,
             SectionHeaderStringIndex = shStr\<rparr>)))))))))))))))))"

subsection \<open>Program headers\<close>

text \<open>The body of the loop: the eight fields of an entry.\<close>

definition read_program_header :: "u8 list \<Rightarrow> u64 \<Rightarrow> ProgramHeader patch_result" where
  "read_program_header file off =
    bindE (readU32At file off) (\<lambda>type. bindE (readU32At file (off + 0x04)) (\<lambda>flags.
    bindE (readU64At file (off + 0x08)) (\<lambda>offset. bindE (readU64At file (off + 0x10)) (\<lambda>vaddr.
    bindE (readU64At file (off + 0x18)) (\<lambda>paddr. bindE (readU64At file (off + 0x20)) (\<lambda>fileSize.
    bindE (readU64At file (off + 0x28)) (\<lambda>memSize. bindE (readU64At file (off + 0x30)) (\<lambda>align.
      Inr \<lparr>ph_Type = type, ph_Flags = flags, ph_Offset = offset, ph_MappedAddress = vaddr, ph_PhysicalAddress = paddr,
        ph_FileSize = fileSize, ph_MemorySize = memSize, ph_Alignment = align\<rparr>))))))))"

definition check_load :: "u8 list \<Rightarrow> ProgramHeader \<Rightarrow> unit patch_result" where
  "check_load file ph =
    (if ph_Type ph = PT_LOAD \<and> ph_FileSize ph > ph_MemorySize ph
     then relinker_error ''PT_LOAD file size exceeds memory size'' (ph_Offset ph)
     else if ph_Type ph = PT_LOAD \<and> \<not> rangeFits (ph_Offset ph) (ph_FileSize ph) (length file)
     then relinker_error ''Segment offset out of bounds'' (ph_Offset ph)
     else Inr ())"

fun read_program_headers :: "u8 list \<Rightarrow> u64 \<Rightarrow> nat \<Rightarrow> u64 \<Rightarrow> ProgramHeader list patch_result" where
  "read_program_headers file entrySize 0 off = Inr []"
| "read_program_headers file entrySize (Suc n) off =
    bindE (read_program_header file off) (\<lambda>ph.
    bindE (check_load file ph) (\<lambda>_.
    bindE (read_program_headers file entrySize n (off + entrySize)) (\<lambda>rest. Inr (ph # rest))))"

text \<open>Whether a load segment overlaps a RELRO segment, as the code computes it, and whether it covers it.\<close>

definition relro_overlaps :: "ProgramHeader \<Rightarrow> ProgramHeader \<Rightarrow> bool" where
  "relro_overlaps relro load =
    (if ph_MappedAddress relro < ph_MappedAddress load
     then ph_MappedAddress load - ph_MappedAddress relro < ph_MemorySize relro
     else ph_MappedAddress relro - ph_MappedAddress load < ph_MemorySize load)"

fun relro_covered :: "ProgramHeader \<Rightarrow> ProgramHeader list \<Rightarrow> bool \<Rightarrow> bool patch_result" where
  "relro_covered relro [] covered = Inr covered"
| "relro_covered relro (load # rest) covered =
    (if ph_Type load \<noteq> PT_LOAD \<or> ph_MemorySize load = 0 then relro_covered relro rest covered
     else if \<not> relro_overlaps relro load then relro_covered relro rest covered
     else if ph_MappedAddress relro < ph_MappedAddress load \<or>
       ph_MemorySize load - (ph_MappedAddress relro - ph_MappedAddress load) < ph_MemorySize relro
     then relinker_error ''PT_SCE_RELRO partially overlaps a PT_LOAD segment'' (ph_MappedAddress relro)
     else relro_covered relro rest True)"

text \<open>The second loop, over the headers before and behind the current one.\<close>

fun map_relro :: "u8 list \<Rightarrow> ProgramHeader list \<Rightarrow> ProgramHeader list \<Rightarrow> ProgramHeader list patch_result" where
  "map_relro file before [] = Inr before"
| "map_relro file before (relro # rest) =
    (if ph_Type relro \<noteq> PT_OS_RELRO \<or> ph_MemorySize relro = 0 then map_relro file (before @ [relro]) rest
     else bindE (relro_covered relro (before @ relro # rest) False) (\<lambda>covered.
       if covered then map_relro file (before @ [relro]) rest
       else if ph_FileSize relro > ph_MemorySize relro
       then relinker_error ''PT_SCE_RELRO file size exceeds memory size'' (ph_Offset relro)
       else if \<not> rangeFits (ph_Offset relro) (ph_FileSize relro) (length file)
       then relinker_error ''Segment offset out of bounds'' (ph_Offset relro)
       else map_relro file (before @ [relro\<lparr>ph_Type := PT_LOAD, ph_Flags := PF_R OR PF_W\<rparr>]) rest))"

definition ReadProgramHeaders :: "u8 list \<Rightarrow> ProgramHeader list patch_result" where
  "ReadProgramHeaders file =
    bindE (ReadHeader file) (\<lambda>header.
      if ProgramHeaderCount header \<noteq> 0 \<and> ProgramHeaderEntrySize header \<noteq> 56
      then relinker_error ''Invalid ELF program header entry size: expected 56 bytes'' 0x36
      else bindE (read_program_headers file (ucast (ProgramHeaderEntrySize header)) (unat (ProgramHeaderCount header))
          (ProgramHeaderOffset header)) (map_relro file []))"

subsection \<open>Section headers\<close>

definition resolveShdrName :: "u8 list \<Rightarrow> u32 \<Rightarrow> ElfHeader \<Rightarrow> u8 list patch_result" where
  "resolveShdrName file nameOffset header =
    (if SectionHeaderStringIndex header = 0 then Inr []
     else
       let shstrOffset = SectionHeaderOffset header +
             ucast (ucast (SectionHeaderStringIndex header) * SectionHeaderEntrySize header) in
       bindE (readU32At file (shstrOffset + of_nat kShdrTypeOffset)) (\<lambda>type.
         if type \<noteq> SHT_STRTAB then relinker_error ''Section names do not reference a string table'' shstrOffset
         else bindE (readU64At file (shstrOffset + 0x18)) (\<lambda>strTableOffset.
           bindE (readU64At file (shstrOffset + of_nat kShdrSizeOffset)) (\<lambda>strTableSize.
             if \<not> rangeFits strTableOffset strTableSize (length file)
             then relinker_error ''Section name string table out of bounds'' strTableOffset
             else if strTableSize = 0 \<and> nameOffset = 0 then Inr []
             else if strTableSize \<le> ucast nameOffset then relinker_error ''Section name offset out of bounds'' (ucast nameOffset)
             else
               let tail = take (unat strTableSize - unat nameOffset) (drop (unat strTableOffset + unat nameOffset) file);
                   name = takeWhile (\<lambda>b. b \<noteq> 0) tail in
               if length name = length tail
               then relinker_error ''Unterminated section name'' (strTableOffset + ucast nameOffset)
               else Inr name))))"

definition read_section_header :: "u8 list \<Rightarrow> ElfHeader \<Rightarrow> u64 \<Rightarrow> SectionHeader patch_result" where
  "read_section_header file header off =
    bindE (readU32At file off) (\<lambda>nameOffset. bindE (readU32At file (off + 0x04)) (\<lambda>type.
    bindE (readU64At file (off + 0x08)) (\<lambda>flags. bindE (readU64At file (off + 0x10)) (\<lambda>address.
    bindE (readU64At file (off + 0x18)) (\<lambda>offset. bindE (readU64At file (off + 0x20)) (\<lambda>sectionSize.
    bindE (readU32At file (off + 0x28)) (\<lambda>link. bindE (readU32At file (off + 0x2c)) (\<lambda>info.
    bindE (readU64At file (off + of_nat kShdrEntSizeOffset)) (\<lambda>entrySize.
    bindE (resolveShdrName file nameOffset header) (\<lambda>name.
      Inr \<lparr>sh_Name = name, sh_Type = type, sh_Flags = flags, sh_MappedAddress = address, sh_Offset = offset,
        SectionSize = sectionSize, sh_Link = link, sh_Info = info, EntrySize = entrySize\<rparr>))))))))))"

fun read_section_headers :: "u8 list \<Rightarrow> ElfHeader \<Rightarrow> nat \<Rightarrow> u64 \<Rightarrow> SectionHeader list patch_result" where
  "read_section_headers file header 0 off = Inr []"
| "read_section_headers file header (Suc n) off =
    bindE (read_section_header file header off) (\<lambda>sh.
    bindE (read_section_headers file header n (off + ucast (SectionHeaderEntrySize header))) (\<lambda>rest. Inr (sh # rest)))"

definition ReadSectionHeaders :: "u8 list \<Rightarrow> SectionHeader list patch_result" where
  "ReadSectionHeaders file =
    bindE (ReadHeader file) (\<lambda>header.
      if SectionHeaderCount header \<noteq> 0 \<and> SectionHeaderEntrySize header \<noteq> of_nat kShdrEntrySize
      then relinker_error ''Invalid ELF section header entry size: expected 64 bytes'' 0x3a
      else if \<not> rangeFits (SectionHeaderOffset header)
          (ucast (SectionHeaderCount header) * ucast (SectionHeaderEntrySize header)) (length file)
      then relinker_error ''Section header table out of bounds'' (SectionHeaderOffset header)
      else if SectionHeaderStringIndex header \<noteq> 0 \<and> SectionHeaderCount header \<le> SectionHeaderStringIndex header
      then relinker_error ''Section header string table index out of bounds'' 0x3e
      else read_section_headers file header (unat (SectionHeaderCount header)) (SectionHeaderOffset header))"

subsection \<open>Dynamic tags, addresses and contents\<close>

text \<open>
  The tags up to the first null tag. \<open>n\<close> entries of 16 bytes are left between \<open>off\<close> and the end of the segment, which
  lies in the file and is a multiple of 16 bytes long.
\<close>

fun read_dynamic_tags :: "u8 list \<Rightarrow> u64 \<Rightarrow> nat \<Rightarrow> u64 \<Rightarrow> DynamicTag list \<Rightarrow> DynamicTag list patch_result" where
  "read_dynamic_tags file start 0 off tags = relinker_error ''Unterminated dynamic segment'' start"
| "read_dynamic_tags file start (Suc n) off tags =
    bindE (readU64At file off) (\<lambda>tag. bindE (readU64At file (off + 0x08)) (\<lambda>value.
      if tag = 0 then Inr tags
      else read_dynamic_tags file start n (off + 16) (tags @ [\<lparr>Tag = tag, tag_Value = value\<rparr>])))"

definition ReadDynamicTags :: "u8 list \<Rightarrow> ProgramHeader \<Rightarrow> DynamicTag list patch_result" where
  "ReadDynamicTags file dynamicHeader =
    (if \<not> rangeFits (ph_Offset dynamicHeader) (ph_FileSize dynamicHeader) (length file)
     then relinker_error ''Dynamic segment out of bounds'' (ph_Offset dynamicHeader)
     else if unat (ph_FileSize dynamicHeader) mod 16 \<noteq> 0
     then relinker_error ''Invalid dynamic segment size'' (ph_Offset dynamicHeader)
     else read_dynamic_tags file (ph_Offset dynamicHeader) (unat (ph_FileSize dynamicHeader) div 16) (ph_Offset dynamicHeader) [])"

definition maps_address :: "u64 \<Rightarrow> ProgramHeader \<Rightarrow> bool" where
  "maps_address address segment \<longleftrightarrow> ph_Type segment = PT_LOAD \<and> ph_MappedAddress segment \<le> address \<and>
     address - ph_MappedAddress segment < ph_FileSize segment"

definition TranslateVirtualAddress :: "u8 list \<Rightarrow> u64 \<Rightarrow> u64 patch_result" where
  "TranslateVirtualAddress file address =
    bindE (ReadProgramHeaders file) (\<lambda>segments.
      case find (maps_address address) segments of
        Some segment \<Rightarrow> Inr (ph_Offset segment + (address - ph_MappedAddress segment))
      | None \<Rightarrow> relinker_error ''Virtual address not mapped by any PT_LOAD segment'' address)"

definition ReadSection :: "u8 list \<Rightarrow> SectionHeader \<Rightarrow> u8 list patch_result" where
  "ReadSection file header =
    (if \<not> rangeFits (sh_Offset header) (SectionSize header) (length file)
     then relinker_error ''Section offset out of bounds'' (sh_Offset header)
     else Inr (take (unat (SectionSize header)) (drop (unat (sh_Offset header)) file)))"

definition ReadSegment :: "u8 list \<Rightarrow> ProgramHeader \<Rightarrow> u8 list patch_result" where
  "ReadSegment file header =
    (if \<not> rangeFits (ph_Offset header) (ph_FileSize header) (length file)
     then relinker_error ''Segment offset out of bounds'' (ph_Offset header)
     else Inr (take (unat (ph_FileSize header)) (drop (unat (ph_Offset header)) file)))"

end
