(* ===== verification/Program_Table.thy ===== *)
theory Program_Table
  imports Program_Layout Elf_Reader
begin

text \<open>Program header tables: what the writer writes the reader reads.\<close>

subsection \<open>Entries\<close>

definition header_bytes :: "ProgramHeader \<Rightarrow> u8 list" where
  "header_bytes ph = le_bytes 4 (ph_Type ph) @ le_bytes 4 (ph_Flags ph) @ le_bytes 8 (ph_Offset ph) @
     le_bytes 8 (ph_MappedAddress ph) @ le_bytes 8 (ph_PhysicalAddress ph) @ le_bytes 8 (ph_FileSize ph) @
     le_bytes 8 (ph_MemorySize ph) @ le_bytes 8 (ph_Alignment ph)"

lemma length_header_bytes [simp]: "length (header_bytes ph) = 56"
  by (simp add: header_bytes_def)

lemmas phdr_offsets = kPhdrTypeOffset_def kPhdrFlagsOffset_def kPhdrOffsetOffset_def kPhdrVaddrOffset_def
  kPhdrPaddrOffset_def kPhdrFileSizeOffset_def kPhdrMemSizeOffset_def kPhdrAlignOffset_def

lemma write_bytes_adjacent:
  assumes "pos + length as + length bs \<le> length buf" "q = pos + length as"
  shows "write_bytes (write_bytes buf pos as) q bs = write_bytes buf pos (as @ bs)"
  using assms by (simp add: write_bytes_def ac_simps)

lemma writeProgramHeader_Inr:
  assumes "off + 56 \<le> length buf"
  shows "writeProgramHeader buf off ph = Inr (write_bytes buf off (header_bytes ph))"
  using assms
  by (simp add: writeProgramHeader_def writes write_le_Inr phdr_offsets write_bytes_adjacent header_bytes_def)

lemma writeProgramHeader_bounds:
  assumes "writeProgramHeader buf off ph = Inr out"
  shows "off + 56 \<le> length buf"
proof -
  from assms obtain mid where "write_le ''ByteWriter::WriteU64 out of bounds'' 8 mid (off + 48) (ph_Alignment ph) = Inr out"
    "length mid = length buf"
    by (auto simp: writeProgramHeader_def writes phdr_offsets bindE_eq_Inr write_le_eq_Inr)
  then show ?thesis by (simp add: write_le_eq_Inr)
qed

lemma writeProgramHeader_eq_Inr:
  "writeProgramHeader buf off ph = Inr out \<longleftrightarrow> off + 56 \<le> length buf \<and> out = write_bytes buf off (header_bytes ph)"
  using writeProgramHeader_Inr writeProgramHeader_bounds by (metis sum.inject(2))

text \<open>Reads in a file that fits the address space.\<close>

lemma read_at_Inr:
  assumes "length file < 2 ^ 64" "n < 2 ^ 64"
  shows "read_at n file off = Inr v \<longleftrightarrow> unat off + n \<le> length file \<and> v = le_word (take n (drop (unat off) file))"
  using assms by (auto simp: read_at_def rangeFits_def)

lemma unat_plus_small: "unat a + n < 2 ^ 64 \<Longrightarrow> unat (a + of_nat n) = unat a + n" for a :: u64
  by (simp add: unat_word_ariths unat_of_nat)

lemma window_part: "take m (drop pos file) = bs \<Longrightarrow> k + n \<le> m \<Longrightarrow> take n (drop (pos + k) file) = take n (drop k bs)"
  by (auto simp: drop_take min_def add.commute)

lemma read_window:
  assumes "take m (drop (unat off) file) = bs" "length bs = m" "length file < 2 ^ 64" "0 < m" "k + n \<le> m"
  shows "read_at n file (off + of_nat k) = Inr (le_word (take n (drop k bs)))"
proof -
  have fits: "unat off + m \<le> length file" using assms(1,2,4) by (auto simp: min_def split: if_splits)
  have u: "unat (off + of_nat k) = unat off + k" using fits assms(3,5) by (intro unat_plus_small) simp
  have "take n (drop (unat off + k) file) = take n (drop k bs)" by (rule window_part [OF assms(1,5)])
  with fits assms(3,5) show ?thesis by (simp add: read_at_Inr u)
qed

lemma read_header_bytes:
  assumes "take 56 (drop (unat off) file) = header_bytes ph" "length file < 2 ^ 64"
  shows "read_program_header file off = Inr ph"
proof -
  note at = read_window [OF assms(1) length_header_bytes assms(2), simplified]
  have "readU32At file off = Inr (ph_Type ph)" using at [of 0 4, where 'a = 32] by (simp add: readU32At_def header_bytes_def codec)
  moreover have "readU32At file (off + 4) = Inr (ph_Flags ph)"
    using at [of 4 4, where 'a = 32] by (simp add: readU32At_def header_bytes_def codec)
  moreover have "readU64At file (off + 8) = Inr (ph_Offset ph)"
    using at [of 8 8, where 'a = 64] by (simp add: readU64At_def header_bytes_def codec)
  moreover have "readU64At file (off + 16) = Inr (ph_MappedAddress ph)"
    using at [of 16 8, where 'a = 64] by (simp add: readU64At_def header_bytes_def codec)
  moreover have "readU64At file (off + 24) = Inr (ph_PhysicalAddress ph)"
    using at [of 24 8, where 'a = 64] by (simp add: readU64At_def header_bytes_def codec)
  moreover have "readU64At file (off + 32) = Inr (ph_FileSize ph)"
    using at [of 32 8, where 'a = 64] by (simp add: readU64At_def header_bytes_def codec)
  moreover have "readU64At file (off + 40) = Inr (ph_MemorySize ph)"
    using at [of 40 8, where 'a = 64] by (simp add: readU64At_def header_bytes_def codec)
  moreover have "readU64At file (off + 48) = Inr (ph_Alignment ph)"
    using at [of 48 8, where 'a = 64] by (simp add: readU64At_def header_bytes_def codec)
  ultimately show ?thesis by (simp add: read_program_header_def)
qed

subsection \<open>Tables\<close>

definition entry_at :: "nat \<Rightarrow> nat \<Rightarrow> nat \<Rightarrow> nat" where
  "entry_at off entSize i = off + i * entSize"

lemma write_headers_Inr:
  assumes "write_headers buf off entSize phs = Inr out" "56 \<le> entSize"
  shows "length out = length buf \<and>
    (\<forall>i < length phs. entry_at off entSize i + 56 \<le> length buf \<and> take 56 (drop (entry_at off entSize i) out) = header_bytes (phs ! i)) \<and>
    (\<forall>j < length buf. (\<forall>i < length phs. j < entry_at off entSize i \<or> entry_at off entSize i + 56 \<le> j) \<longrightarrow> out ! j = buf ! j)"
  using assms(1)
proof (induction phs arbitrary: buf off)
  case (Cons ph phs)
  from Cons.prems have fits: "off + 56 \<le> length buf"
    and rest: "write_headers (write_bytes buf off (header_bytes ph)) (off + entSize) entSize phs = Inr out"
    by (auto simp: bindE_eq_Inr writeProgramHeader_eq_Inr)
  let ?mid = "write_bytes buf off (header_bytes ph)"
  from Cons.IH [OF rest] fits have len: "length out = length buf"
    and entries: "\<And>i. i < length phs \<Longrightarrow> entry_at off entSize (Suc i) + 56 \<le> length buf \<and>
      take 56 (drop (entry_at off entSize (Suc i)) out) = header_bytes (phs ! i)"
    and same: "\<And>j. j < length buf \<Longrightarrow> (\<forall>i < length phs. j < entry_at off entSize (Suc i) \<or> entry_at off entSize (Suc i) + 56 \<le> j) \<Longrightarrow>
      out ! j = ?mid ! j"
    by (simp_all add: entry_at_def add.assoc)
  have before: "out ! j = ?mid ! j" if "j < off + 56" for j
    using that fits assms(2) by (intro same) (auto simp: entry_at_def)
  have "take 56 (drop off out) = take 56 (drop off ?mid)"
    using fits len before by (intro nth_equalityI) auto
  also have "\<dots> = header_bytes ph" using window_write_same [of off "header_bytes ph" buf] fits by simp
  finally have first: "take 56 (drop off out) = header_bytes ph" .
  show ?case
  proof (intro conjI allI impI)
    show "length out = length buf" by (rule len)
    fix i assume i: "i < length (ph # phs)"
    show "entry_at off entSize i + 56 \<le> length buf" using i fits entries [of "i - 1"] by (cases i) (auto simp: entry_at_def)
    show "take 56 (drop (entry_at off entSize i) out) = header_bytes ((ph # phs) ! i)"
      using i first entries [of "i - 1"] by (cases i) (auto simp: entry_at_def)
  next
    fix j assume j: "j < length buf" "\<forall>i < length (ph # phs). j < entry_at off entSize i \<or> entry_at off entSize i + 56 \<le> j"
    have "out ! j = ?mid ! j" using j by (intro same) auto
    also have "\<dots> = buf ! j" using j(1) j(2) [rule_format, of 0] fits by (auto simp: nth_write_bytes entry_at_def)
    finally show "out ! j = buf ! j" .
  qed
qed simp

text \<open>The reader's loop over a table that the writer has written.\<close>

lemma read_written_headers:
  assumes "\<And>i. i < length phs \<Longrightarrow> take 56 (drop (entry_at (unat off) (unat entSize) i) file) = header_bytes (phs ! i)"
    and "unat off + length phs * unat entSize \<le> length file" "length file < 2 ^ 64"
    and "\<And>ph. ph \<in> set phs \<Longrightarrow> check_load file ph = Inr ()"
  shows "read_program_headers file entSize (length phs) off = Inr phs"
  using assms
proof (induction phs arbitrary: off)
  case (Cons ph phs)
  have first: "read_program_header file off = Inr ph"
    using Cons.prems(1) [of 0] Cons.prems(3) by (intro read_header_bytes) (simp_all add: entry_at_def)
  have u: "unat (off + entSize) = unat off + unat entSize"
    using Cons.prems(2,3) by (simp add: unat_word_ariths)
  have "read_program_headers file entSize (length phs) (off + entSize) = Inr phs"
  proof (rule Cons.IH)
    fix i assume "i < length phs"
    then show "take 56 (drop (entry_at (unat (off + entSize)) (unat entSize) i) file) = header_bytes (phs ! i)"
      using Cons.prems(1) [of "Suc i"] by (simp add: entry_at_def u add.assoc)
  qed (use Cons.prems(2-4) u in auto)
  with first Cons.prems(4) [of ph] show ?case by simp
qed simp

end
