(* ===== verification/Program_Layout_Props.thy ===== *)
theory Program_Layout_Props
  imports Program_Table
begin

text \<open>
  The layout of the output: the appended blocks get addresses behind every segment of the guest and behind each other,
  and the program header table, the interpreter and the dynamic segment are mapped where their headers say.
\<close>

subsection \<open>Page arithmetic on words\<close>

lemma no_overflow: "\<not> len > - 1 - start \<Longrightarrow> unat (start + len) = unat start + unat len" for start len :: u64
proof -
  assume "\<not> len > - 1 - start"
  then have "unat len \<le> unat (- 1 - start)" by (simp add: word_less_nat_alt)
  also have "\<dots> = unat (- 1 :: u64) - unat start" by (rule unat_sub) simp
  also have "\<dots> = 2 ^ 64 - 1 - unat start" by (simp add: unsigned_minus_1_eq_mask mask_eq_exp_minus_1)
  finally have le: "unat len \<le> 2 ^ 64 - 1 - unat start" .
  have "unat start < 2 ^ LENGTH(64)" by (rule unsigned_less)
  with le have "unat start + unat len < 2 ^ LENGTH(64)" by simp
  then show ?thesis by (simp add: unat_word_ariths)
qed

lemma unat_and_not_mask: "unat (v AND NOT (mask n)) = unat v div 2 ^ n * 2 ^ n" if "n < 64" for v :: u64
proof -
  have "v AND NOT (mask n) = push_bit n (drop_bit n v)"
    by (intro bit_word_eqI) (auto simp: bit_simps)
  also have "unat \<dots> = unat v div 2 ^ n * 2 ^ n"
  proof -
    have "unat v div 2 ^ n * 2 ^ n \<le> unat v" by (rule div_times_less_eq_dividend)
    have u: "unat v < 2 ^ LENGTH(64)" by (rule unsigned_less)
    have "unat v div 2 ^ n * 2 ^ n < 2 ^ LENGTH(64)" by (rule le_less_trans) fact+
    with u show ?thesis
      by (simp only: unsigned_push_bit_eq unsigned_drop_bit_eq)
        (simp add: push_bit_eq_mult drop_bit_eq_div take_bit_nat_eq_self)
  qed
  finally show ?thesis .
qed

lemma page_mask: "(0x1000 - 1 :: u64) = mask 12"
  by (simp add: mask_eq_exp_minus_1)

lemma unat_page: "unat (v AND NOT (0x1000 - 1) :: u64) = unat v div 4096 * 4096"
  using unat_and_not_mask [of 12 v] by (simp only: page_mask) simp

lemma unat_page_offset: "unat (v AND (0x1000 - 1) :: u64) = unat v mod 4096"
  by (simp only: page_mask flip: take_bit_eq_mask) (simp add: unsigned_take_bit_eq take_bit_eq_mod unat_mod_distrib)

lemma page_up: "n \<le> (n + 4095) div 4096 * 4096" "(n + 4095) div 4096 * 4096 < n + 4096" for n :: nat
  by linarith+

lemma div_pred: "0 < m \<Longrightarrow> n mod m \<noteq> 0 \<Longrightarrow> (n - 1) div m = n div m" for n m :: nat
proof -
  assume m: "0 < m" and r: "n mod m \<noteq> 0"
  then have "n - 1 = n div m * m + (n mod m - 1)" using div_mult_mod_eq [of n m] by linarith
  moreover have "n mod m - 1 < m" using mod_less_divisor [OF m, of n] by linarith
  ultimately show ?thesis by simp
qed

text \<open>An alignment that is a power of two not below the page size is a multiple of it.\<close>

lemma aligned_page:
  fixes a :: u64
  assumes "a AND (a - 1) = 0" "0x1000 < a"
  shows "unat a mod 4096 = 0"
proof (rule ccontr)
  assume r: "unat a mod 4096 \<noteq> 0"
  have pos: "4096 < unat a" using assms(2) by (simp add: word_less_nat_alt)
  then have "a \<noteq> 0" by (cases "a = 0") simp_all
  then have "unat (a - 1) = unat a - 1" by (rule unat_minus_one)
  then have "unat (a - 1) div 4096 = unat a div 4096" using div_pred [OF _ r] by (simp only: zero_less_numeral)
  then have "unat (drop_bit 12 (a - 1)) = unat (drop_bit 12 a)" by (simp add: unsigned_drop_bit_eq drop_bit_eq_div unat_div_distrib)
  then have same: "drop_bit 12 (a - 1) = drop_bit 12 a" by (simp only: word_unat_eq_iff)
  have "drop_bit 12 (a AND (a - 1)) = drop_bit 12 a AND drop_bit 12 (a - 1)" by (rule drop_bit_and)
  also have "\<dots> = drop_bit 12 a" by (simp only: same and.idem)
  finally have "drop_bit 12 a = 0" by (simp only: assms(1) drop_bit_of_0)
  then have "unat (drop_bit 12 a) = 0" by simp
  then have "unat a div 4096 = 0" by (simp add: unsigned_drop_bit_eq drop_bit_eq_div unat_div_distrib)
  with pos show False by simp
qed

subsection \<open>Ends of segments\<close>

definition is_load :: "ProgramHeader \<Rightarrow> bool" where
  "is_load ph \<longleftrightarrow> ph_Type ph = PT_LOAD"

definition load_end :: "ProgramHeader \<Rightarrow> nat" where
  "load_end ph = unat (ph_MappedAddress ph) + unat (ph_MemorySize ph)"

lemma highest_end_Inr:
  assumes "highest_end phs (found, highest) = Inr (found', highest')"
  shows "highest \<le> highest' \<and> (\<forall>ph \<in> set (keptHeaders phs). is_load ph \<longrightarrow> load_end ph \<le> unat highest')"
  using assms
proof (induction phs arbitrary: found highest)
  case (Cons ph phs)
  consider "ShouldSkip ph" | "\<not> ShouldSkip ph" "ph_Type ph \<noteq> PT_LOAD"
    | "\<not> ShouldSkip ph" "ph_Type ph = PT_LOAD" "\<not> ph_MemorySize ph > - 1 - ph_MappedAddress ph"
    using Cons.prems by (auto split: if_splits)
  then show ?case
  proof cases
    case 1
    with Cons show ?thesis by (simp add: keptHeaders_def)
  next
    case 2
    with Cons show ?thesis by (simp add: keptHeaders_def is_load_def)
  next
    case 3
    let ?stop = "ph_MappedAddress ph + ph_MemorySize ph"
    have e: "unat ?stop = load_end ph" using no_overflow [OF 3(3)] by (simp add: load_end_def)
    from 3 Cons.prems have "highest_end phs (True, if ?stop > highest then ?stop else highest) = Inr (found', highest')"
      by (simp add: Let_def)
    from Cons.IH [OF this] have IH: "(if ?stop > highest then ?stop else highest) \<le> highest'"
      "\<forall>ph \<in> set (keptHeaders phs). is_load ph \<longrightarrow> load_end ph \<le> unat highest'" by blast+
    then have "?stop \<le> highest'" "highest \<le> highest'" by (auto split: if_splits)
    with IH(2) 3(1) e show ?thesis by (auto simp: keptHeaders_def word_le_nat_alt)
  qed
qed (simp add: keptHeaders_def)

lemma GuestLoadPageEnd_Inr:
  assumes "GuestLoadPageEnd phs = Inr page"
  shows "4096 dvd unat page \<and> (\<forall>ph \<in> set (keptHeaders phs). is_load ph \<longrightarrow> load_end ph \<le> unat page)"
proof -
  from assms obtain highest where h: "highest_end phs (False, 0) = Inr (True, highest)" "\<not> highest > - 1 - (0x1000 - 1)"
    "page = (highest + 0x1000 - 1) AND NOT (0x1000 - 1)"
    by (auto simp: GuestLoadPageEnd_def bindE_eq_Inr kDefaultLoadAlignment_def split: if_splits)
  have "unat (0x1000 - 1 + highest) = 4095 + unat highest" using no_overflow [OF h(2)] by simp
  then have "unat page = (unat highest + 4095) div 4096 * 4096"
    unfolding h(3) unat_page by (simp add: algebra_simps)
  with highest_end_Inr [OF h(1)] page_up(1) [of "unat highest"] show ?thesis by (auto intro: le_trans)
qed

lemma ComputeExtraBlockVaddr_Inr:
  assumes "ComputeExtraBlockVaddr phs off = Inr vaddr"
  shows "unat vaddr mod 4096 = unat off mod 4096 \<and> (\<forall>ph \<in> set (keptHeaders phs). is_load ph \<longrightarrow> load_end ph \<le> unat vaddr)"
proof -
  from assms obtain page where p: "GuestLoadPageEnd phs = Inr page" "\<not> page > - 1 - (off AND (0x1000 - 1))"
    "vaddr = page + (off AND (0x1000 - 1))"
    by (auto simp: ComputeExtraBlockVaddr_def bindE_eq_Inr kDefaultLoadAlignment_def Let_def split: if_splits)
  have "unat ((off AND (0x1000 - 1)) + page) = unat off mod 4096 + unat page"
    using no_overflow [OF p(2)] by (simp only: unat_page_offset)
  then have v: "unat vaddr = unat page + unat off mod 4096" by (simp only: p(3) add.commute)
  from GuestLoadPageEnd_Inr [OF p(1)] show ?thesis by (auto simp: v intro: trans_le_add1)
qed

lemma header_alignment_page: "unat (header_alignment phs) mod 4096 = 0 \<and> 0x1000 \<le> header_alignment phs"
proof -
  have "unat (fold (\<lambda>ph align. if ph_Type ph = PT_LOAD \<and> \<not> ShouldSkip ph \<and> ph_Alignment ph > align \<and>
         ph_Alignment ph AND (ph_Alignment ph - 1) = 0 then ph_Alignment ph else align) phs align) mod 4096 = 0 \<and>
      0x1000 \<le> fold (\<lambda>ph align. if ph_Type ph = PT_LOAD \<and> \<not> ShouldSkip ph \<and> ph_Alignment ph > align \<and>
         ph_Alignment ph AND (ph_Alignment ph - 1) = 0 then ph_Alignment ph else align) phs align"
    if "unat align mod 4096 = 0" "0x1000 \<le> align" for align
    using that
  proof (induction phs arbitrary: align)
    case (Cons ph phs)
    let ?a = "ph_Alignment ph"
    have "unat ?a mod 4096 = 0 \<and> 0x1000 \<le> ?a" if "?a > align" "?a AND (?a - 1) = 0"
      using that Cons.prems(2) aligned_page [OF that(2)] by auto
    with Cons show ?case by auto
  qed simp
  then show ?thesis by (simp add: header_alignment_def kDefaultLoadAlignment_def)
qed

lemma mask_split: "(x AND m) + (x AND NOT m) = x" for x m :: u64
proof -
  have "(x AND m) AND (x AND NOT m) = 0" by (rule bit_word_eqI) (auto simp: bit_simps)
  then have "(x AND m) + (x AND NOT m) = (x AND m) OR (x AND NOT m)" by (rule disjunctive_add_eq_or)
  also have "\<dots> = x" by (rule bit_word_eqI) (auto simp: bit_simps)
  finally show ?thesis .
qed

lemma mod_pred: "n mod m = 0 \<Longrightarrow> 0 < n \<Longrightarrow> 0 < m \<Longrightarrow> (n - 1) mod m = m - 1" for n m :: nat
  by (cases n) (auto simp: mod_Suc split: if_splits)

lemma align_up:
  fixes a e :: u64
  assumes "unat a mod 4096 = 0" "0x1000 \<le> a" "\<not> a - 1 > - 1 - e"
  shows "unat e \<le> unat ((e + (a - 1)) AND NOT (a - 1)) \<and> unat ((e + (a - 1)) AND NOT (a - 1)) mod 4096 = 0"
proof -
  let ?x = "e + (a - 1)" and ?h = "(e + (a - 1)) AND NOT (a - 1)"
  have x: "unat ?x = unat e + unat (a - 1)" by (rule no_overflow [OF assms(3)])
  have "unat ?x = unat ((?x AND (a - 1)) + ?h)" by (simp only: mask_split)
  also have "\<dots> \<le> unat (?x AND (a - 1)) + unat ?h" by (simp add: unat_word_ariths)
  also have "unat (?x AND (a - 1)) \<le> unat (a - 1)" unfolding word_le_nat_alt [symmetric] by (rule word_and_le1)
  finally have "unat e \<le> unat ?h" using x by linarith
  moreover have "unat ?h mod 4096 = 0"
  proof -
    have "4096 \<le> unat a" using assms(2) by (simp add: word_le_nat_alt)
    then have "a \<noteq> 0" by (cases "a = 0") simp_all
    then have "unat (a - 1) = unat a - 1" by (rule unat_minus_one)
    moreover have "(unat a - 1) mod 4096 = 4095" using mod_pred [OF assms(1)] \<open>4096 \<le> unat a\<close> by simp
    ultimately have "unat (take_bit 12 (a - 1)) = 4095" by (simp only: unsigned_take_bit_eq) (simp add: take_bit_eq_mod)
    then have "take_bit 12 (a - 1) = mask 12" by (simp add: word_unat_eq_iff mask_eq_exp_minus_1)
    then have low: "bit (take_bit 12 (a - 1)) i = bit (mask 12 :: u64) i" for i by (simp only:)
    have "bit (a - 1) i" if "i < 12" for i using that low [of i] by (simp add: bit_take_bit_iff bit_mask_iff)
    then have "take_bit 12 ?h = 0" by (intro bit_word_eqI) (auto simp: bit_simps)
    then have "unat (take_bit 12 ?h) = 0" by simp
    then show ?thesis by (simp only: unsigned_take_bit_eq) (simp add: take_bit_eq_mod)
  qed
  ultimately show ?thesis by blast
qed

subsection \<open>The order of the load segments\<close>

lemma place_loads:
  assumes "length loads = length (filter is_load headers)" "list_all is_load loads"
  shows "filter is_load (place_loads headers loads) = loads \<and> set (place_loads headers loads) = set loads \<union> {ph \<in> set headers. \<not> is_load ph} \<and>
    length (place_loads headers loads) = length headers"
  using assms
proof (induction headers loads rule: place_loads.induct)
  case (2 ph headers loads)
  show ?case
  proof (cases "ph_Type ph = PT_LOAD")
    case True
    with 2 obtain l loads' where l: "loads = l # loads'" by (cases loads) (auto simp: is_load_def)
    with 2 True show ?thesis by (auto simp: is_load_def)
  next
    case False
    with 2 show ?thesis by (auto simp: is_load_def)
  qed
qed simp

lemma sortLoadHeaders:
  "filter is_load (sortLoadHeaders headers) = sort_key ph_MappedAddress (filter is_load headers)"
  "set (sortLoadHeaders headers) = set headers" "length (sortLoadHeaders headers) = length headers"
proof -
  let ?loads = "sort_key ph_MappedAddress (filter is_load headers)"
  have "filter is_load (place_loads headers ?loads) = ?loads \<and>
      set (place_loads headers ?loads) = set ?loads \<union> {ph \<in> set headers. \<not> is_load ph} \<and> length (place_loads headers ?loads) = length headers"
    by (rule place_loads) (simp_all add: list_all_iff)
  moreover have "sortLoadHeaders headers = place_loads headers ?loads" by (simp add: sortLoadHeaders_def is_load_def [abs_def])
  ultimately show "filter is_load (sortLoadHeaders headers) = ?loads" "set (sortLoadHeaders headers) = set headers"
    "length (sortLoadHeaders headers) = length headers" by auto
qed

subsection \<open>The plan\<close>

lemma checkedEnd_Inr: "checkedEnd start len = Inr e \<longleftrightarrow> \<not> len > - 1 - start \<and> e = start + len"
  by (auto simp: checkedEnd_def)

lemma checkedEnd_unat: "checkedEnd start len = Inr e \<Longrightarrow> unat e = unat start + unat len"
  using no_overflow by (auto simp: checkedEnd_Inr)

text \<open>What the checks of a layout that was accepted say.\<close>

lemma plan_layout_Inr:
  assumes "plan_layout bufSize req = Inr plan"
  obtains tableEnd extraEnd rounded headerEnd where
    "lp_kept plan = sortLoadHeaders (keptHeaders (OriginalHeaders req))"
    "lp_neededPh plan = length (keptHeaders (OriginalHeaders req)) + 5" "lp_neededPh plan \<le> unat (PhNum req)"
    "\<not> PhEntSize req < 56" "checkedEnd (PhOff req) (of_nat (lp_neededPh plan) * ucast (PhEntSize req)) = Inr tableEnd"
    "unat tableEnd \<le> bufSize" "lp_tableInExtraBlock plan \<longleftrightarrow> ExtraBlockOffset req \<le> PhOff req"
    "lp_tableInExtraBlock plan \<longrightarrow> \<not> tableEnd - ExtraBlockOffset req > ExtraBlockSize req"
    "lp_headerBlockSize plan = (if lp_tableInExtraBlock plan then 64 else tableEnd)"
    "unat (ExtraBlockOffset req) + unat (ExtraBlockSize req) \<le> bufSize"
    "lp_headerBlockAlign plan = header_alignment (OriginalHeaders req)"
    "ComputeExtraBlockVaddr (OriginalHeaders req) (ExtraBlockOffset req) = Inr (lp_extraBlockVaddr plan)"
    "ExtraBlockVaddr req = lp_extraBlockVaddr plan"
    "checkedEnd (lp_extraBlockVaddr plan) (ExtraBlockSize req) = Inr extraEnd"
    "checkedEnd extraEnd (lp_headerBlockAlign plan - 1) = Inr rounded"
    "lp_headerBlockVaddr plan = rounded AND NOT (lp_headerBlockAlign plan - 1)"
    "checkedEnd (lp_headerBlockVaddr plan) (lp_headerBlockSize plan) = Inr headerEnd"
    "check_members req = Inr ()"
proof -
  let ?kept = "keptHeaders (OriginalHeaders req)"
  define needed where "needed = length (keptHeaders (OriginalHeaders req)) + unat kSyntheticProgramHeaderCount"
  have five: "needed = length (keptHeaders (OriginalHeaders req)) + 5" by (simp add: needed_def kSyntheticProgramHeaderCount_def)
  from assms obtain tab hbs hba ebv hbv where steps:
    "plan_table bufSize req needed = Inr (tab, hbs)"
    "\<not> (unat (ExtraBlockOffset req) > bufSize \<or> unat (ExtraBlockSize req) > bufSize - unat (ExtraBlockOffset req))"
    "plan_addresses req hbs = Inr (hba, ebv, hbv)" "check_members req = Inr ()"
    "plan = \<lparr>lp_kept = sortLoadHeaders ?kept, lp_neededPh = needed, lp_tableInExtraBlock = tab,
           lp_headerBlockSize = hbs, lp_headerBlockAlign = hba, lp_extraBlockVaddr = ebv, lp_headerBlockVaddr = hbv\<rparr>"
    unfolding plan_layout_def Let_def needed_def [symmetric] by (auto simp: bindE_eq_Inr split: if_splits)
  from steps(1) obtain tableEnd where table: "needed \<le> unat (PhNum req)" "\<not> PhEntSize req < 56"
    "checkedEnd (PhOff req) (of_nat needed * ucast (PhEntSize req)) = Inr tableEnd" "unat tableEnd \<le> bufSize"
    "tab \<longleftrightarrow> ExtraBlockOffset req \<le> PhOff req" "tab \<longrightarrow> \<not> tableEnd - ExtraBlockOffset req > ExtraBlockSize req"
    "hbs = (if tab then kElfHeaderSize else tableEnd)"
    unfolding plan_table_def Let_def by (auto simp: bindE_eq_Inr not_less split: if_splits)
  from steps(3) obtain extraEnd rounded headerEnd where addresses: "hba = header_alignment (OriginalHeaders req)"
    "ComputeExtraBlockVaddr (OriginalHeaders req) (ExtraBlockOffset req) = Inr ebv" "ExtraBlockVaddr req = ebv"
    "checkedEnd ebv (ExtraBlockSize req) = Inr extraEnd" "checkedEnd extraEnd (hba - 1) = Inr rounded"
    "hbv = rounded AND NOT (hba - 1)" "checkedEnd hbv hbs = Inr headerEnd"
    unfolding plan_addresses_def Let_def by (auto simp: bindE_eq_Inr split: if_splits)
  show thesis
    by (rule that [of tableEnd extraEnd rounded headerEnd])
      (use steps(2,4,5) table addresses five in \<open>auto simp: kElfHeaderSize_def\<close>)
qed

subsection \<open>What the layout maps\<close>

text \<open>A load segment that maps a range of the file to an address.\<close>

definition maps_range :: "ProgramHeader \<Rightarrow> u64 \<Rightarrow> u64 \<Rightarrow> u64 \<Rightarrow> bool" where
  "maps_range load off vaddr len \<longleftrightarrow> is_load load \<and> unat (ph_Offset load) \<le> unat off \<and>
     unat off + unat len \<le> unat (ph_Offset load) + unat (ph_FileSize load) \<and>
     vaddr = ph_MappedAddress load + (off - ph_Offset load)"

definition extra_load :: "ProgramHeaderLayoutRequest \<Rightarrow> u64 \<Rightarrow> u64 \<Rightarrow> ProgramHeader" where
  "extra_load req vaddr pageEnd =
     makeLoadHeader (ExtraBlockOffset req) vaddr (ExtraBlockSize req) kDefaultLoadAlignment (pageEnd - vaddr) (PF_R OR PF_W OR PF_X)"

definition header_load :: "layout_plan \<Rightarrow> ProgramHeader" where
  "header_load plan = makeLoadHeader 0 (lp_headerBlockVaddr plan) (lp_headerBlockSize plan) (lp_headerBlockAlign plan)
     (lp_headerBlockSize plan) PF_R"

definition fix_load :: "ProgramHeader \<Rightarrow> ProgramHeader" where
  "fix_load ph = (if ph_Type ph = PT_LOAD then ph\<lparr>ph_Flags := fixLoadFlags (ph_Flags ph)\<rparr> else ph)"

lemma fix_load_simps [simp]:
  "ph_Type (fix_load ph) = ph_Type ph" "ph_Offset (fix_load ph) = ph_Offset ph" "ph_MappedAddress (fix_load ph) = ph_MappedAddress ph"
  "ph_FileSize (fix_load ph) = ph_FileSize ph" "ph_MemorySize (fix_load ph) = ph_MemorySize ph" "is_load (fix_load ph) = is_load ph"
  "load_end (fix_load ph) = load_end ph"
  by (simp_all add: fix_load_def is_load_def load_end_def)

lemma build_layout_Inr:
  assumes "build_layout req plan = Inr layout"
  obtains extraEnd rounded phdrVaddr where
    "checkedEnd (lp_extraBlockVaddr plan) (ExtraBlockSize req) = Inr extraEnd"
    "checkedEnd extraEnd (kDefaultLoadAlignment - 1) = Inr rounded"
    "phdrVaddr = (if lp_tableInExtraBlock plan then lp_extraBlockVaddr plan + (PhOff req - ExtraBlockOffset req)
           else lp_headerBlockVaddr plan + PhOff req)"
    "layout = [makePhdrHeader (PhOff req) phdrVaddr (of_nat (lp_neededPh plan) * ucast (PhEntSize req)),
        makeInterpHeader (InterpOffset req) (lp_extraBlockVaddr plan + (InterpOffset req - ExtraBlockOffset req)) (InterpSize req)] @
      map fix_load (lp_kept plan) @
      [extra_load req (lp_extraBlockVaddr plan) (rounded AND NOT (kDefaultLoadAlignment - 1)), header_load plan,
        makeDynamicHeader (DynamicSegmentOffset req) (lp_extraBlockVaddr plan + (DynamicSegmentOffset req - ExtraBlockOffset req))
          (DynamicSegmentSize req)]"
  using assms unfolding build_layout_def Let_def fix_load_def [abs_def, symmetric] extra_load_def [symmetric] header_load_def [symmetric]
  by (auto simp: bindE_eq_Inr)

lemma makeLoadHeader_simps [simp]:
  "is_load (makeLoadHeader off vaddr fileSize align memorySize flags)"
  "ph_MappedAddress (makeLoadHeader off vaddr fileSize align memorySize flags) = vaddr"
  "ph_Offset (makeLoadHeader off vaddr fileSize align memorySize flags) = off"
  "ph_FileSize (makeLoadHeader off vaddr fileSize align memorySize flags) = fileSize"
  by (simp_all add: makeLoadHeader_def is_load_def)

text \<open>The addresses of the two appended blocks.\<close>

lemma appended_blocks:
  assumes plan: "plan_layout bufSize req = Inr plan" and extra: "checkedEnd (lp_extraBlockVaddr plan) (ExtraBlockSize req) = Inr extraEnd"
    and page: "checkedEnd extraEnd (kDefaultLoadAlignment - 1) = Inr rounded"
  defines "pageEnd \<equiv> rounded AND NOT (kDefaultLoadAlignment - 1)"
  shows "(\<forall>ph \<in> set (keptHeaders (OriginalHeaders req)). is_load ph \<longrightarrow> load_end ph \<le> unat (lp_extraBlockVaddr plan)) \<and>
    unat (lp_extraBlockVaddr plan) mod 4096 = unat (ExtraBlockOffset req) mod 4096 \<and>
    unat (lp_extraBlockVaddr plan) + unat (ExtraBlockSize req) \<le> load_end (extra_load req (lp_extraBlockVaddr plan) pageEnd) \<and>
    load_end (extra_load req (lp_extraBlockVaddr plan) pageEnd) \<le> unat (lp_headerBlockVaddr plan) \<and>
    unat (lp_headerBlockVaddr plan) mod 4096 = 0 \<and>
    load_end (header_load plan) < 2 ^ 64"
proof -
  obtain tableEnd extraEnd' rounded' headerEnd where p:
    "lp_headerBlockAlign plan = header_alignment (OriginalHeaders req)"
    "ComputeExtraBlockVaddr (OriginalHeaders req) (ExtraBlockOffset req) = Inr (lp_extraBlockVaddr plan)"
    "checkedEnd (lp_extraBlockVaddr plan) (ExtraBlockSize req) = Inr extraEnd'"
    "checkedEnd extraEnd' (lp_headerBlockAlign plan - 1) = Inr rounded'"
    "lp_headerBlockVaddr plan = rounded' AND NOT (lp_headerBlockAlign plan - 1)"
    "checkedEnd (lp_headerBlockVaddr plan) (lp_headerBlockSize plan) = Inr headerEnd"
    by (rule plan_layout_Inr [OF plan])
  have e: "extraEnd' = extraEnd" using extra p(3) by simp
  have ends: "unat extraEnd = unat (lp_extraBlockVaddr plan) + unat (ExtraBlockSize req)" by (rule checkedEnd_unat [OF extra])
  have up: "unat extraEnd \<le> unat (lp_headerBlockVaddr plan) \<and> unat (lp_headerBlockVaddr plan) mod 4096 = 0"
    using align_up [of "lp_headerBlockAlign plan" extraEnd] header_alignment_page [of "OriginalHeaders req"] p(1,4,5) e
    by (simp add: checkedEnd_Inr)
  have "unat rounded = unat extraEnd + 4095" using checkedEnd_unat [OF page] by (simp add: kDefaultLoadAlignment_def)
  then have pe: "unat pageEnd = (unat extraEnd + 4095) div 4096 * 4096"
    unfolding pageEnd_def kDefaultLoadAlignment_def unat_page by simp
  have pe_le: "unat pageEnd \<le> unat (lp_headerBlockVaddr plan)"
  proof -
    obtain k where k: "unat (lp_headerBlockVaddr plan) = 4096 * k" using up by (metis dvd_def mod_eq_0_iff_dvd)
    with up have "unat extraEnd \<le> 4096 * k" by simp
    then have "(unat extraEnd + 4095) div 4096 \<le> k" by linarith
    then show ?thesis unfolding pe k by simp
  qed
  have ge: "unat extraEnd \<le> unat pageEnd" unfolding pe by (rule page_up)
  then have d: "unat (pageEnd - lp_extraBlockVaddr plan) = unat pageEnd - unat (lp_extraBlockVaddr plan)"
    using ends by (intro unat_sub) (simp add: word_le_nat_alt)
  have "load_end (extra_load req (lp_extraBlockVaddr plan) pageEnd) = unat pageEnd"
    using d ends ge by (simp add: load_end_def extra_load_def makeLoadHeader_def word_less_nat_alt) linarith
  moreover have "load_end (header_load plan) < 2 ^ 64"
  proof -
    have "load_end (header_load plan) = unat headerEnd"
      using checkedEnd_unat [OF p(6)] by (simp add: load_end_def header_load_def makeLoadHeader_def)
    moreover have "unat headerEnd < 2 ^ LENGTH(64)" by (rule unsigned_less)
    ultimately show ?thesis by simp
  qed
  moreover note ComputeExtraBlockVaddr_Inr [OF p(2)]
  ultimately show ?thesis using up pe_le ge ends by simp
qed

lemma WriteLayout_Inr:
  assumes "WriteLayout buf req = Inr (n, out)"
  obtains plan layout where "plan_layout (length buf) req = Inr plan" "build_layout req plan = Inr layout"
    "write_headers buf (unat (PhOff req)) (unat (PhEntSize req)) layout = Inr out" "n = of_nat (length layout)"
  using assms by (auto simp: WriteLayout_def bindE_eq_Inr)

lemma length_layout:
  "plan_layout bufSize req = Inr plan \<Longrightarrow> build_layout req plan = Inr layout \<Longrightarrow>
    length layout = lp_neededPh plan \<and> length layout \<le> unat (PhNum req)"
  by (elim plan_layout_Inr build_layout_Inr) (simp add: sortLoadHeaders)

text \<open>The loads of the layout: the guest's in the order of their addresses, then the two appended blocks.\<close>

lemma layout_loads:
  assumes "plan_layout bufSize req = Inr plan" "build_layout req plan = Inr layout"
  obtains extra where
    "filter is_load layout =
      map fix_load (sort_key ph_MappedAddress (filter is_load (keptHeaders (OriginalHeaders req)))) @ [extra, header_load plan]"
    "ph_Offset extra = ExtraBlockOffset req" "ph_MappedAddress extra = lp_extraBlockVaddr plan" "ph_FileSize extra = ExtraBlockSize req"
    "unat (ph_FileSize extra) \<le> unat (ph_MemorySize extra)"
    "\<forall>ph \<in> set (keptHeaders (OriginalHeaders req)). is_load ph \<longrightarrow> load_end ph \<le> unat (ph_MappedAddress extra)"
    "load_end extra \<le> unat (ph_MappedAddress (header_load plan))" "load_end (header_load plan) < 2 ^ 64"
    "unat (ph_MappedAddress extra) mod 4096 = unat (ph_Offset extra) mod 4096"
    "unat (ph_MappedAddress (header_load plan)) mod 4096 = 0" "ph_Offset (header_load plan) = 0"
proof -
  obtain extraEnd rounded phdrVaddr where b:
    "checkedEnd (lp_extraBlockVaddr plan) (ExtraBlockSize req) = Inr extraEnd"
    "checkedEnd extraEnd (kDefaultLoadAlignment - 1) = Inr rounded"
    "layout = [makePhdrHeader (PhOff req) phdrVaddr (of_nat (lp_neededPh plan) * ucast (PhEntSize req)),
        makeInterpHeader (InterpOffset req) (lp_extraBlockVaddr plan + (InterpOffset req - ExtraBlockOffset req)) (InterpSize req)] @
      map fix_load (lp_kept plan) @
      [extra_load req (lp_extraBlockVaddr plan) (rounded AND NOT (kDefaultLoadAlignment - 1)), header_load plan,
        makeDynamicHeader (DynamicSegmentOffset req) (lp_extraBlockVaddr plan + (DynamicSegmentOffset req - ExtraBlockOffset req))
          (DynamicSegmentSize req)]"
    by (rule build_layout_Inr [OF assms(2)])
  have kept: "lp_kept plan = sortLoadHeaders (keptHeaders (OriginalHeaders req))" by (rule plan_layout_Inr [OF assms(1)])
  let ?extra = "extra_load req (lp_extraBlockVaddr plan) (rounded AND NOT (kDefaultLoadAlignment - 1))"
  have synthetic: "\<not> is_load (makePhdrHeader x y z)" "\<not> is_load (makeInterpHeader x y z)" "\<not> is_load (makeDynamicHeader x y z)" for x y z
    by (simp_all add: makePhdrHeader_def makeInterpHeader_def makeDynamicHeader_def is_load_def PT_LOAD_def PT_PHDR_def
        PT_INTERP_def PT_DYNAMIC_def)
  have "filter is_load (map fix_load (lp_kept plan)) = map fix_load (filter is_load (lp_kept plan))"
    by (induction "lp_kept plan") (simp_all add: filter_map o_def)
  then have loads: "filter is_load layout =
      map fix_load (sort_key ph_MappedAddress (filter is_load (keptHeaders (OriginalHeaders req)))) @ [?extra, header_load plan]"
    unfolding b(3) by (simp add: synthetic kept sortLoadHeaders extra_load_def header_load_def)
  note blocks = appended_blocks [OF assms(1) b(1,2)]
  show thesis
  proof (rule that [OF loads])
    show "unat (ph_FileSize ?extra) \<le> unat (ph_MemorySize ?extra)"
      by (simp add: extra_load_def makeLoadHeader_def word_less_nat_alt)
  qed (use blocks in \<open>simp_all add: extra_load_def header_load_def\<close>)
qed

subsection \<open>Reading the output back\<close>

definition output_headers :: "ProgramHeaderLayoutRequest \<Rightarrow> u16 \<Rightarrow> u8 list \<Rightarrow> ProgramHeader list patch_result" where
  "output_headers req n out = read_program_headers out (ucast (PhEntSize req)) (unat n) (PhOff req)"

lemma unat_ucast16: "unat (ucast v :: u64) = unat v" for v :: u16
proof -
  have "unat v < 2 ^ LENGTH(16)" by (rule unsigned_less)
  then have "unat v < 2 ^ 64" by simp
  then show ?thesis by (simp add: unsigned_ucast_eq take_bit_nat_eq_self)
qed

lemma table_size:
  assumes "plan_layout bufSize req = Inr plan"
  shows "unat (PhOff req) + lp_neededPh plan * unat (PhEntSize req) \<le> bufSize \<and> 56 \<le> unat (PhEntSize req) \<and> lp_neededPh plan < 2 ^ 16"
proof -
  obtain tableEnd where p: "lp_neededPh plan \<le> unat (PhNum req)" "\<not> PhEntSize req < 56"
    "checkedEnd (PhOff req) (of_nat (lp_neededPh plan) * ucast (PhEntSize req)) = Inr tableEnd" "unat tableEnd \<le> bufSize"
    by (rule plan_layout_Inr [OF assms])
  have "unat (PhNum req) < 2 ^ LENGTH(16)" "unat (PhEntSize req) < 2 ^ LENGTH(16)" by (rule unsigned_less)+
  then have small: "lp_neededPh plan < 2 ^ 16" "unat (PhEntSize req) < 2 ^ 16" using p(1) by simp_all
  then have prod: "lp_neededPh plan * unat (PhEntSize req) < 2 ^ 16 * 2 ^ 16" by (intro mult_strict_mono) simp_all
  note e = unat_ucast16
  have n: "unat (of_nat (lp_neededPh plan) :: u64) = lp_neededPh plan" using small(1) by (intro unat_of_nat64) simp
  have "unat (of_nat (lp_neededPh plan) * ucast (PhEntSize req) :: u64) = lp_neededPh plan * unat (PhEntSize req)"
    using prod by (simp add: unat_word_ariths e n)
  with checkedEnd_unat [OF p(3)] p(2,4) small(1) show ?thesis by (simp add: word_less_nat_alt)
qed

lemma check_load_length: "length file' = length file \<Longrightarrow> check_load file' ph = check_load file ph"
  by (simp add: check_load_def)

lemma check_load_fix [simp]: "check_load file (fix_load ph) = check_load file ph"
  by (simp add: check_load_def)

lemma check_load_not: "\<not> is_load ph \<Longrightarrow> check_load file ph = Inr ()"
  by (simp add: check_load_def is_load_def)

lemma check_load_fits: "ph_FileSize ph \<le> ph_MemorySize ph \<Longrightarrow> rangeFits (ph_Offset ph) (ph_FileSize ph) (length file) \<Longrightarrow> check_load file ph = Inr ()"
  by (simp add: check_load_def not_less)

lemma layout_checks:
  assumes "plan_layout (length buf) req = Inr plan" "build_layout req plan = Inr layout" "64 \<le> length buf"
    and "\<forall>ph \<in> set (OriginalHeaders req). check_load buf ph = Inr ()" "ph \<in> set layout"
  shows "check_load buf ph = Inr ()"
proof (cases "is_load ph")
  case True
  obtain extra where l:
    "filter is_load layout =
      map fix_load (sort_key ph_MappedAddress (filter is_load (keptHeaders (OriginalHeaders req)))) @ [extra, header_load plan]"
    "ph_Offset extra = ExtraBlockOffset req" "ph_FileSize extra = ExtraBlockSize req" "unat (ph_FileSize extra) \<le> unat (ph_MemorySize extra)"
    by (rule layout_loads [OF assms(1,2)])
  obtain tableEnd where p: "unat (ExtraBlockOffset req) + unat (ExtraBlockSize req) \<le> length buf" "unat tableEnd \<le> length buf"
    "lp_headerBlockSize plan = (if lp_tableInExtraBlock plan then 64 else tableEnd)"
    by (rule plan_layout_Inr [OF assms(1)])
  from assms(5) True have "ph \<in> set (filter is_load layout)" by simp
  then consider guest where "guest \<in> set (OriginalHeaders req)" "ph = fix_load guest" | "ph = extra" | "ph = header_load plan"
    unfolding l(1) by (auto simp: keptHeaders_def)
  then show ?thesis
  proof cases
    case 1
    with assms(4) show ?thesis by simp
  next
    case 2
    with l(2-4) p(1) show ?thesis by (intro check_load_fits) (auto simp: word_le_nat_alt rangeFits_def)
  next
    case 3
    with p(2,3) assms(3) show ?thesis
      by (intro check_load_fits) (auto simp: header_load_def makeLoadHeader_def rangeFits_def)
  qed
next
  case False
  then show ?thesis by (rule check_load_not)
qed

lemma output_headers_layout:
  assumes "WriteLayout buf req = Inr (n, out)" "64 \<le> length buf" "length buf < 2 ^ 64"
    and "\<forall>ph \<in> set (OriginalHeaders req). check_load buf ph = Inr ()"
  obtains plan layout where "plan_layout (length buf) req = Inr plan" "build_layout req plan = Inr layout"
    "output_headers req n out = Inr layout" "unat n = length layout" "length out = length buf"
    "\<forall>j < length buf. j < unat (PhOff req) \<or> unat (PhOff req) + unat n * unat (PhEntSize req) \<le> j \<longrightarrow> out ! j = buf ! j"
proof -
  obtain plan layout where w: "plan_layout (length buf) req = Inr plan" "build_layout req plan = Inr layout"
    "write_headers buf (unat (PhOff req)) (unat (PhEntSize req)) layout = Inr out" "n = of_nat (length layout)"
    by (rule WriteLayout_Inr [OF assms(1)])
  note size = table_size [OF w(1)] and len = length_layout [OF w(1,2)]
  have n: "unat n = length layout" using size len w(4) by (simp add: unat_of_nat take_bit_nat_eq_self)
  note wr = write_headers_Inr [OF w(3)] size
  have lo: "length out = length buf" using wr by blast
  note e = unat_ucast16
  have read: "output_headers req n out = Inr layout"
    unfolding output_headers_def n
  proof (rule read_written_headers)
    fix i assume "i < length layout"
    then show "take 56 (drop (entry_at (unat (PhOff req)) (unat (ucast (PhEntSize req) :: u64)) i) out) = header_bytes (layout ! i)"
      using wr unfolding e by blast
  next
    fix ph assume "ph \<in> set layout"
    then show "check_load out ph = Inr ()"
      using layout_checks [OF w(1,2) assms(2,4)] check_load_length [OF lo] by metis
  qed (use size len lo assms(3) e in simp_all)
  have same: "out ! j = buf ! j" if j: "j < length buf" "j < unat (PhOff req) \<or> unat (PhOff req) + unat n * unat (PhEntSize req) \<le> j" for j
  proof -
    have "j < entry_at (unat (PhOff req)) (unat (PhEntSize req)) i \<or> entry_at (unat (PhOff req)) (unat (PhEntSize req)) i + 56 \<le> j"
      if "i < length layout" for i
    proof -
      have "Suc i * unat (PhEntSize req) \<le> unat n * unat (PhEntSize req)" using that n by (intro mult_le_mono1) simp
      with j(2) size show ?thesis by (auto simp: entry_at_def)
    qed
    with wr j(1) show ?thesis by blast
  qed
  show thesis by (rule that [OF w(1,2) read n lo]) (use same in blast)
qed

end
