(* ===== verification/Program_Layout_Contract.thy ===== *)
theory Program_Layout_Contract
  imports Program_Layout_Props "HOL-Library.Multiset"
begin

text \<open>What the header layout promises, on the program headers read back from the output.\<close>

subsection \<open>A layout that is accepted is written\<close>

lemma write_headers_total:
  "off + length phs * entSize \<le> length buf \<Longrightarrow> 56 \<le> entSize \<Longrightarrow> \<exists>out. write_headers buf off entSize phs = Inr out"
proof (induction phs arbitrary: buf off)
  case (Cons ph phs)
  then have "off + 56 \<le> length buf" by simp
  moreover have "\<exists>out. write_headers (write_bytes buf off (header_bytes ph)) (off + entSize) entSize phs = Inr out"
    using Cons.prems by (intro Cons.IH) (simp_all add: add.assoc)
  ultimately show ?case by (simp add: writeProgramHeader_Inr)
qed simp

lemma WriteLayout_total:
  assumes "plan_layout (length buf) req = Inr plan" "build_layout req plan = Inr layout"
  shows "\<exists>out. WriteLayout buf req = Inr (of_nat (length layout), out)"
proof -
  note len = length_layout [OF assms] and size = table_size [OF assms(1)]
  obtain out where "write_headers buf (unat (PhOff req)) (unat (PhEntSize req)) layout = Inr out"
    using write_headers_total [of "unat (PhOff req)" layout "unat (PhEntSize req)" buf] len size by auto
  with assms show ?thesis by (simp add: WriteLayout_def)
qed

text \<open>A guest of one segment, and the layout of a file of 500 bytes with the extra block behind byte 408.\<close>

definition demo_guest :: ProgramHeader where
  "demo_guest = \<lparr>ph_Type = 1, ph_Flags = 5, ph_Offset = 0, ph_MappedAddress = 0x4000, ph_PhysicalAddress = 0x4000,
     ph_FileSize = 400, ph_MemorySize = 0x1234, ph_Alignment = 0x4000\<rparr>"

definition demo_request :: ProgramHeaderLayoutRequest where
  "demo_request = \<lparr>PhOff = 64, PhEntSize = 56, PhNum = 6, OriginalHeaders = [demo_guest], ExtraBlockOffset = 408,
     ExtraBlockVaddr = 0x6198, ExtraBlockSize = 92, DynamicSegmentOffset = 408, DynamicSegmentSize = 32,
     InterpOffset = 440, InterpSize = 28\<rparr>"

definition demo_plan :: layout_plan where
  "demo_plan = \<lparr>lp_kept = [demo_guest], lp_neededPh = 6, lp_tableInExtraBlock = False, lp_headerBlockSize = 400,
     lp_headerBlockAlign = 0x4000, lp_extraBlockVaddr = 0x6198, lp_headerBlockVaddr = 0x8000\<rparr>"

lemma demo_planned: "plan_layout 500 demo_request = Inr demo_plan"
  by code_simp

lemma demo_built: "\<exists>layout. build_layout demo_request demo_plan = Inr layout"
proof -
  have "case build_layout demo_request demo_plan of Inl _ \<Rightarrow> False | Inr layout \<Rightarrow> length layout = 6" by code_simp
  then show ?thesis by (auto split: sum.splits)
qed

lemma demo_written:
  obtains n out where "WriteLayout (replicate 500 0) demo_request = Inr (n, out)"
    "\<forall>ph \<in> set (OriginalHeaders demo_request). check_load (replicate 500 0) ph = Inr ()"
proof -
  from demo_built obtain layout where "build_layout demo_request demo_plan = Inr layout" by blast
  then obtain n out where "WriteLayout (replicate 500 0) demo_request = Inr (n, out)"
    using WriteLayout_total [of "replicate 500 0" demo_request demo_plan] demo_planned by auto
  moreover have "\<forall>ph \<in> set (OriginalHeaders demo_request). check_load (replicate 500 0) ph = Inr ()"
    by (simp add: demo_request_def demo_guest_def check_load_def rangeFits_def)
  ultimately show thesis by (rule that)
qed

subsection \<open>The contract\<close>

text \<open>C17. The program header table of the output: reading the entries back with the reader's own loop succeeds and gives
  the planned layout, entry by entry, and nothing of the file outside the table has changed.\<close>

theorem layout_roundtrip:
  assumes "WriteLayout buf req = Inr (n, out)" "64 \<le> length buf" "length buf < 2 ^ 64"
    and "\<forall>ph \<in> set (OriginalHeaders req). check_load buf ph = Inr ()"
  shows "\<exists>plan layout. plan_layout (length buf) req = Inr plan \<and> build_layout req plan = Inr layout \<and>
    output_headers req n out = Inr layout \<and> unat n = length layout \<and> length out = length buf \<and>
    (\<forall>j < length buf. j < unat (PhOff req) \<or> unat (PhOff req) + unat n * unat (PhEntSize req) \<le> j \<longrightarrow> out ! j = buf ! j)"
  by (rule output_headers_layout [OF assms]) blast

theorem layout_roundtrip_witness: "\<exists>n out layout. output_headers demo_request n out = Inr layout \<and> unat n = length layout"
proof -
  obtain n out where w: "WriteLayout (replicate 500 0) demo_request = Inr (n, out)"
    "\<forall>ph \<in> set (OriginalHeaders demo_request). check_load (replicate 500 0) ph = Inr ()" by (rule demo_written)
  from layout_roundtrip [OF w(1) _ _ w(2)] show ?thesis by auto
qed

definition apart :: "ProgramHeader \<Rightarrow> ProgramHeader \<Rightarrow> bool" where
  "apart a b \<longleftrightarrow> load_end a \<le> unat (ph_MappedAddress b) \<or> load_end b \<le> unat (ph_MappedAddress a)"

lemma apart_sym: "symp apart"
  by (auto simp: apart_def intro: sympI)

lemma sorted_apart:
  assumes "sorted (map ph_MappedAddress phs)" "sorted_wrt apart phs" "\<forall>ph \<in> set phs. ph_MemorySize ph \<noteq> 0"
  shows "sorted_wrt (\<lambda>a b. load_end a \<le> unat (ph_MappedAddress b)) phs"
  using assms
proof (induction phs)
  case (Cons a phs)
  have "load_end a \<le> unat (ph_MappedAddress b)" if "b \<in> set phs" for b
  proof -
    have "unat (ph_MappedAddress a) \<le> unat (ph_MappedAddress b)" "apart a b" "0 < unat (ph_MemorySize b)"
      using Cons.prems that by (auto simp: word_le_nat_alt unat_gt_0)
    then show ?thesis by (auto simp: apart_def load_end_def)
  qed
  with Cons show ?case by simp
qed simp

lemma sorted_wrt_perm: "symp R \<Longrightarrow> mset xs = mset ys \<Longrightarrow> sorted_wrt R xs \<Longrightarrow> sorted_wrt R ys"
proof (induction xs arbitrary: ys)
  case (Cons x xs)
  from Cons.prems(2) have "x \<in> set ys" by (metis list.set_intros(1) mset_eq_setD)
  then obtain as bs where ys: "ys = as @ x # bs" by (meson split_list)
  then have "mset xs = mset (as @ bs)" using Cons.prems(2) by simp
  then have "set xs = set (as @ bs)" by (rule mset_eq_setD)
  moreover from \<open>mset xs = mset (as @ bs)\<close> have "sorted_wrt R (as @ bs)"
    using Cons.IH [of "as @ bs"] Cons.prems(1,3) by simp
  ultimately have rest: "sorted_wrt R (as @ bs)" "set xs = set (as @ bs)" by blast+
  have x: "R x y" "R y x" if "y \<in> set xs" for y using Cons.prems(1,3) that by (auto dest: sympD)
  from rest(1) x show ?case unfolding ys rest(2) by (auto simp: sorted_wrt_append)
qed simp

text \<open>C16. The addresses of the output: its load segments are in ascending order, as the loader requires; when the guest's
  own segments do not overlap, no two segments of the output do; and the segments that the patcher adds are congruent to
  their file offsets modulo the page size.\<close>

theorem layout_addresses:
  assumes "WriteLayout buf req = Inr (n, out)" "64 \<le> length buf" "length buf < 2 ^ 64"
    and "\<forall>ph \<in> set (OriginalHeaders req). check_load buf ph = Inr ()" "output_headers req n out = Inr layout"
  shows "sorted (map ph_MappedAddress (filter is_load layout)) \<and>
    (sorted_wrt apart (filter is_load (keptHeaders (OriginalHeaders req))) \<longrightarrow>
      (\<forall>ph \<in> set (keptHeaders (OriginalHeaders req)). is_load ph \<longrightarrow> ph_MemorySize ph \<noteq> 0) \<longrightarrow>
      sorted_wrt (\<lambda>a b. load_end a \<le> unat (ph_MappedAddress b)) (filter is_load layout)) \<and>
    (\<forall>ph \<in> set layout. is_load ph \<longrightarrow> ph \<in> fix_load ` set (OriginalHeaders req) \<or>
      unat (ph_MappedAddress ph) mod 4096 = unat (ph_Offset ph) mod 4096)"
proof -
  obtain plan layout' where "plan_layout (length buf) req = Inr plan" "build_layout req plan = Inr layout'"
    "output_headers req n out = Inr layout'" by (rule output_headers_layout [OF assms(1-4)])
  with assms(5) have pl: "plan_layout (length buf) req = Inr plan" "build_layout req plan = Inr layout" by simp_all
  let ?guest = "filter is_load (keptHeaders (OriginalHeaders req))"
  let ?sorted = "sort_key ph_MappedAddress ?guest"
  obtain extra where l: "filter is_load layout = map fix_load ?sorted @ [extra, header_load plan]"
    "\<forall>ph \<in> set (keptHeaders (OriginalHeaders req)). is_load ph \<longrightarrow> load_end ph \<le> unat (ph_MappedAddress extra)"
    "load_end extra \<le> unat (ph_MappedAddress (header_load plan))"
    "unat (ph_MappedAddress extra) mod 4096 = unat (ph_Offset extra) mod 4096"
    "unat (ph_MappedAddress (header_load plan)) mod 4096 = 0" "ph_Offset (header_load plan) = 0"
    by (rule layout_loads [OF pl])
  have start: "unat (ph_MappedAddress ph) \<le> load_end ph" for ph by (simp add: load_end_def)
  have "sorted (map (ph_MappedAddress \<circ> fix_load) ?sorted)" by (simp add: o_def)
  moreover have "ph_MappedAddress ph \<le> ph_MappedAddress extra \<and> ph_MappedAddress extra \<le> ph_MappedAddress (header_load plan)"
    if "ph \<in> set ?guest" for ph
    using that l(2,3) start [of ph] start [of extra] by (auto simp: word_le_nat_alt)
  moreover have "ph_MappedAddress extra \<le> ph_MappedAddress (header_load plan)"
    using l(3) start [of extra] by (simp add: word_le_nat_alt)
  ultimately have sorted: "sorted (map ph_MappedAddress (filter is_load layout))"
    unfolding l(1) by (auto simp: sorted_append intro: order_trans)
  have "sorted_wrt (\<lambda>a b. load_end a \<le> unat (ph_MappedAddress b)) (filter is_load layout)"
    if "sorted_wrt apart ?guest" "\<forall>ph \<in> set (keptHeaders (OriginalHeaders req)). is_load ph \<longrightarrow> ph_MemorySize ph \<noteq> 0"
  proof -
    have "sorted_wrt (\<lambda>a b. load_end a \<le> unat (ph_MappedAddress b)) ?sorted"
      using that sorted_wrt_perm [OF apart_sym _ that(1), of ?sorted] by (intro sorted_apart) auto
    moreover have "load_end ph \<le> unat (ph_MappedAddress (header_load plan))" if "ph \<in> set ?guest" for ph
      using that l(2,3) start [of extra] by (auto intro: le_trans)
    ultimately show ?thesis using l(2,3) unfolding l(1) by (auto simp: sorted_wrt_append sorted_wrt_map)
  qed
  moreover have "ph \<in> fix_load ` set (OriginalHeaders req) \<or> unat (ph_MappedAddress ph) mod 4096 = unat (ph_Offset ph) mod 4096"
    if "ph \<in> set layout" "is_load ph" for ph
  proof -
    have "ph \<in> set (filter is_load layout)" using that by simp
    then show ?thesis unfolding l(1) using l(4-6) by (auto simp: keptHeaders_def)
  qed
  ultimately show ?thesis using sorted by blast
qed


theorem layout_addresses_witness:
  "\<exists>n out layout. output_headers demo_request n out = Inr layout \<and> sorted (map ph_MappedAddress (filter is_load layout))"
proof -
  obtain n out where w: "WriteLayout (replicate 500 0) demo_request = Inr (n, out)"
    "\<forall>ph \<in> set (OriginalHeaders demo_request). check_load (replicate 500 0) ph = Inr ()" by (rule demo_written)
  from output_headers_layout [OF w(1) _ _ w(2)] obtain layout where "output_headers demo_request n out = Inr layout" by auto
  from layout_addresses [OF w(1) _ _ w(2) this] this show ?thesis by auto
qed

lemma check_members_Inr:
  "check_members req = Inr () \<Longrightarrow>
    unat (ExtraBlockOffset req) \<le> unat (DynamicSegmentOffset req) \<and>
    unat (DynamicSegmentOffset req) + unat (DynamicSegmentSize req) \<le> unat (ExtraBlockOffset req) + unat (ExtraBlockSize req) \<and>
    unat (ExtraBlockOffset req) \<le> unat (InterpOffset req) \<and>
    unat (InterpOffset req) + unat (InterpSize req) \<le> unat (ExtraBlockOffset req) + unat (ExtraBlockSize req)"
proof -
  assume c: "check_members req = Inr ()"
  have within: "unat off + unat len \<le> unat start + unat total"
    if "start \<le> off" "off - start \<le> total" "len \<le> total - (off - start)" for off len start total :: u64
  proof -
    have d: "unat (off - start) = unat off - unat start" using that(1) by (intro unat_sub)
    have "unat (total - (off - start)) = unat total - unat (off - start)" using that(2) by (intro unat_sub)
    with that d show ?thesis by (simp add: word_le_nat_alt)
  qed
  from c show ?thesis
    using within [of "ExtraBlockOffset req" "DynamicSegmentOffset req" "ExtraBlockSize req" "DynamicSegmentSize req"]
      within [of "ExtraBlockOffset req" "InterpOffset req" "ExtraBlockSize req" "InterpSize req"]
    by (auto simp: check_members_def not_less word_le_nat_alt split: if_splits)
qed

text \<open>C18. The headers that point into the output are mapped where they say: the program header table, the interpreter's
  path and the dynamic segment each lie in the file range of a load segment, which puts them at their address.\<close>

theorem layout_maps_tables:
  assumes "WriteLayout buf req = Inr (n, out)" "64 \<le> length buf" "length buf < 2 ^ 64"
    and "\<forall>ph \<in> set (OriginalHeaders req). check_load buf ph = Inr ()" "output_headers req n out = Inr layout"
  shows "\<exists>phdr interp dynamic. {phdr, interp, dynamic} \<subseteq> set layout \<and>
    ph_Type phdr = PT_PHDR \<and> ph_Offset phdr = PhOff req \<and> ph_FileSize phdr = of_nat (length layout) * ucast (PhEntSize req) \<and>
    ph_Type interp = PT_INTERP \<and> ph_Offset interp = InterpOffset req \<and> ph_FileSize interp = InterpSize req \<and>
    ph_Type dynamic = PT_DYNAMIC \<and> ph_Offset dynamic = DynamicSegmentOffset req \<and> ph_FileSize dynamic = DynamicSegmentSize req \<and>
    (\<forall>ph \<in> {phdr, interp, dynamic}. \<exists>load \<in> set layout.
      maps_range load (ph_Offset ph) (ph_MappedAddress ph) (ph_FileSize ph))"
proof -
  obtain plan layout' where "plan_layout (length buf) req = Inr plan" "build_layout req plan = Inr layout'"
    "output_headers req n out = Inr layout'" by (rule output_headers_layout [OF assms(1-4)])
  with assms(5) have pl: "plan_layout (length buf) req = Inr plan" "build_layout req plan = Inr layout" by simp_all
  obtain pageEnd phdrVaddr where b:
    "phdrVaddr = (if lp_tableInExtraBlock plan then lp_extraBlockVaddr plan + (PhOff req - ExtraBlockOffset req)
           else lp_headerBlockVaddr plan + PhOff req)"
    "layout = [makePhdrHeader (PhOff req) phdrVaddr (of_nat (lp_neededPh plan) * ucast (PhEntSize req)),
        makeInterpHeader (InterpOffset req) (lp_extraBlockVaddr plan + (InterpOffset req - ExtraBlockOffset req)) (InterpSize req)] @
      map fix_load (lp_kept plan) @
      [extra_load req (lp_extraBlockVaddr plan) pageEnd, header_load plan,
        makeDynamicHeader (DynamicSegmentOffset req) (lp_extraBlockVaddr plan + (DynamicSegmentOffset req - ExtraBlockOffset req))
          (DynamicSegmentSize req)]"
    by (rule build_layout_Inr [OF pl(2)])
  obtain tableEnd where p: "checkedEnd (PhOff req) (of_nat (lp_neededPh plan) * ucast (PhEntSize req)) = Inr tableEnd"
    "lp_tableInExtraBlock plan \<longleftrightarrow> ExtraBlockOffset req \<le> PhOff req"
    "lp_tableInExtraBlock plan \<longrightarrow> \<not> tableEnd - ExtraBlockOffset req > ExtraBlockSize req"
    "lp_headerBlockSize plan = (if lp_tableInExtraBlock plan then 64 else tableEnd)" "check_members req = Inr ()"
    by (rule plan_layout_Inr [OF pl(1)])
  let ?extra = "extra_load req (lp_extraBlockVaddr plan) pageEnd"
  have loads: "?extra \<in> set layout" "header_load plan \<in> set layout" unfolding b(2) by simp_all
  have extra: "maps_range ?extra off (lp_extraBlockVaddr plan + (off - ExtraBlockOffset req)) len"
    if "unat (ExtraBlockOffset req) \<le> unat off" "unat off + unat len \<le> unat (ExtraBlockOffset req) + unat (ExtraBlockSize req)" for off len
    using that by (simp add: maps_range_def extra_load_def)
  have "\<exists>load \<in> set layout. maps_range load (PhOff req) phdrVaddr (of_nat (lp_neededPh plan) * ucast (PhEntSize req))"
  proof (cases "lp_tableInExtraBlock plan")
    case True
    with p(2) have le: "ExtraBlockOffset req \<le> PhOff req" by blast
    with checkedEnd_unat [OF p(1)] have "ExtraBlockOffset req \<le> tableEnd" by (simp add: word_le_nat_alt)
    then have "unat (tableEnd - ExtraBlockOffset req) = unat tableEnd - unat (ExtraBlockOffset req)" by (intro unat_sub)
    with True p(3) checkedEnd_unat [OF p(1)] le loads(1) show ?thesis
      unfolding b(1) by (intro bexI [of _ ?extra]) (auto intro!: extra simp: word_le_nat_alt not_less)
  next
    case False
    with p(4) checkedEnd_unat [OF p(1)] loads(2) show ?thesis
      unfolding b(1) by (intro bexI [of _ "header_load plan"]) (auto simp: maps_range_def header_load_def add.commute)
  qed
  moreover note check_members_Inr [OF p(5)]
  moreover have "length layout = lp_neededPh plan" using length_layout [OF pl] by blast
  ultimately show ?thesis
    unfolding b(2)
    by (intro exI [of _ "makePhdrHeader (PhOff req) phdrVaddr (of_nat (lp_neededPh plan) * ucast (PhEntSize req))"]
        exI [of _ "makeInterpHeader (InterpOffset req) (lp_extraBlockVaddr plan + (InterpOffset req - ExtraBlockOffset req)) (InterpSize req)"]
        exI [of _ "makeDynamicHeader (DynamicSegmentOffset req)
          (lp_extraBlockVaddr plan + (DynamicSegmentOffset req - ExtraBlockOffset req)) (DynamicSegmentSize req)"])
      (use extra loads in \<open>auto simp: makePhdrHeader_def makeInterpHeader_def makeDynamicHeader_def b(2)\<close>)
qed

theorem layout_maps_tables_witness:
  "\<exists>layout. \<exists>phdr \<in> set layout. ph_Type phdr = PT_PHDR \<and> ph_Offset phdr = PhOff demo_request \<and>
    (\<exists>load \<in> set layout. maps_range load (ph_Offset phdr) (ph_MappedAddress phdr) (ph_FileSize phdr))"
proof -
  obtain n out where w: "WriteLayout (replicate 500 0) demo_request = Inr (n, out)"
    "\<forall>ph \<in> set (OriginalHeaders demo_request). check_load (replicate 500 0) ph = Inr ()" by (rule demo_written)
  from output_headers_layout [OF w(1) _ _ w(2)] obtain layout where "output_headers demo_request n out = Inr layout" by auto
  from layout_maps_tables [OF w(1) _ _ w(2) this] show ?thesis by (auto intro!: exI [of _ layout])
qed

end
