(* ===== verification/Elf_Reader_Props.thy ===== *)
theory Elf_Reader_Props
  imports Program_Table Program_Layout_Props
begin

text \<open>
  The reader: what it returns lies in the file, RELRO segments end up in one load segment each, addresses are translated
  into the file, and dynamic tags are read up to the null tag.
\<close>

subsection \<open>Bytes\<close>

lemma bit_le_word_bound: "bit (le_word bs :: 'a::len word) i \<Longrightarrow> i < 8 * length bs"
proof (induction bs arbitrary: i)
  case (Cons b bs)
  show ?case
  proof (cases "i < 8")
    case False
    with Cons.prems have "bit (le_word bs :: 'a word) (i - 8)"
      by (auto simp: bit_or_iff bit_push_bit_iff bit_unsigned_iff dest: bit_imp_le_length)
    from Cons.IH [OF this] show ?thesis by simp
  qed simp
qed simp

lemma le_bytes_le_word:
  assumes "8 * length bs \<le> LENGTH('a)"
  shows "le_bytes (length bs) (le_word bs :: 'a::len word) = bs"
  using assms
proof (induction bs)
  case (Cons b bs)
  let ?w = "le_word bs :: 'a word"
  have "ucast (ucast b OR push_bit 8 ?w) = b"
    using Cons.prems by (intro bit_word_eqI) (auto simp: bit_simps dest: bit_imp_le_length)
  moreover have "drop_bit 8 (ucast b OR push_bit 8 ?w) = ?w"
  proof (rule bit_word_eqI)
    fix i assume "i < LENGTH('a)"
    have "8 + i < LENGTH('a)" if "bit ?w i" using bit_le_word_bound [OF that] Cons.prems by simp
    moreover have "\<not> bit b (8 + i)" by (auto dest: bit_imp_le_length)
    ultimately show "bit (drop_bit 8 (ucast b OR push_bit 8 ?w)) i = bit ?w i" by (auto simp: bit_simps)
  qed
  ultimately show ?case using Cons by simp
qed simp

lemma read_at_bytes:
  assumes "read_at n file pos = Inr (v :: 'a::len word)" "8 * n = LENGTH('a)" "n < 2 ^ 64" "length file < 2 ^ 64"
  shows "unat pos + n \<le> length file \<and> take n (drop (unat pos) file) = le_bytes n v"
proof -
  from assms(1) have r: "unat pos + n \<le> length file" "v = le_word (take n (drop (unat pos) file))"
    using read_at_Inr [OF assms(4,3)] by blast+
  then have "length (take n (drop (unat pos) file)) = n" by simp
  with le_bytes_le_word [of "take n (drop (unat pos) file)", where 'a = 'a] r assms(2) show ?thesis by simp
qed

lemma window_append: "take (m + n) (drop pos xs) = take m (drop pos xs) @ take n (drop (pos + m) xs)"
  by (simp add: take_add add.commute)

text \<open>An entry of the table that is read is in the file, and its bytes are those of the header.\<close>

lemma read_program_header_bytes:
  assumes "read_program_header file off = Inr ph" "length file < 2 ^ 64"
  shows "unat off + 56 \<le> length file \<and> take 56 (drop (unat off) file) = header_bytes ph"
proof -
  have add: "unat (off + of_nat k) = unat off + k" if "unat off + k < 2 ^ 64" for k using that by (rule unat_plus_small)
  from assms(1) have r: "read_at 4 file off = Inr (ph_Type ph)" "read_at 4 file (off + 4) = Inr (ph_Flags ph)"
    "read_at 8 file (off + 8) = Inr (ph_Offset ph)" "read_at 8 file (off + 16) = Inr (ph_MappedAddress ph)"
    "read_at 8 file (off + 24) = Inr (ph_PhysicalAddress ph)" "read_at 8 file (off + 32) = Inr (ph_FileSize ph)"
    "read_at 8 file (off + 40) = Inr (ph_MemorySize ph)" "read_at 8 file (off + 48) = Inr (ph_Alignment ph)"
    by (auto simp: read_program_header_def readU32At_def readU64At_def bindE_eq_Inr)
  note len = assms(2) [simplified]
  note w = r [THEN read_at_bytes, simplified, OF len]
  have e4: "unat (off + 4) = unat off + 4" using add [of 4] w(1) assms(2) by simp
  have e8: "unat (off + 8) = unat off + 8" using add [of 8] w(2) e4 assms(2) by simp
  have e16: "unat (off + 16) = unat off + 16" using add [of 16] w(3) e8 assms(2) by simp
  have e24: "unat (off + 24) = unat off + 24" using add [of 24] w(4) e16 assms(2) by simp
  have e32: "unat (off + 32) = unat off + 32" using add [of 32] w(5) e24 assms(2) by simp
  have e40: "unat (off + 40) = unat off + 40" using add [of 40] w(6) e32 assms(2) by simp
  have e48: "unat (off + 48) = unat off + 48" using add [of 48] w(7) e40 assms(2) by simp
  have "take 56 (drop (unat off) file) = take (4 + (4 + (8 + (8 + (8 + (8 + (8 + 8))))))) (drop (unat off) file)" by simp
  also have "\<dots> = header_bytes ph" unfolding window_append header_bytes_def
    using w unfolding e4 e8 e16 e24 e32 e40 e48 by (simp add: add.assoc)
  finally show ?thesis using w(8) unfolding e48 by simp
qed

subsection \<open>Program headers\<close>

lemma read_program_headers_Inr:
  assumes "read_program_headers file entSize n off = Inr phs"
  shows "length phs = n \<and> (\<forall>ph \<in> set phs. check_load file ph = Inr ())"
  using assms
proof (induction n arbitrary: off phs)
  case (Suc n)
  then show ?case by (fastforce simp: bindE_eq_Inr)
qed simp

text \<open>The table of the file: with entries of 56 bytes, its bytes are those of the headers that are read.\<close>

lemma read_program_headers_bytes:
  assumes "read_program_headers file 56 n off = Inr phs" "length file < 2 ^ 64"
  shows "\<forall>i < n. take 56 (drop (unat off + 56 * i) file) = header_bytes (phs ! i)"
  using assms(1)
proof (induction n arbitrary: off phs)
  case (Suc n)
  then obtain ph rest where r: "read_program_header file off = Inr ph" "read_program_headers file 56 n (off + 56) = Inr rest"
    "phs = ph # rest" by (auto simp: bindE_eq_Inr)
  note first = read_program_header_bytes [OF r(1) assms(2)]
  show ?case
  proof (intro allI impI)
    fix i assume i: "i < Suc n"
    show "take 56 (drop (unat off + 56 * i) file) = header_bytes (phs ! i)"
    proof (cases i)
      case (Suc j)
      have "take 56 (drop (unat (off + 56) + 56 * j) file) = header_bytes (rest ! j)" using Suc.IH [OF r(2)] i Suc by simp
      moreover have "unat (off + 56) = unat off + 56"
      proof (cases "unat off + 56 < 2 ^ 64")
        case True
        then show ?thesis using unat_plus_small [of off 56] by simp
      qed (use first assms(2) in simp)
      ultimately show ?thesis using r(3) Suc by (simp add: add.assoc)
    qed (use first r(3) in simp)
  qed
qed simp

text \<open>What the second loop makes of a header: a RELRO segment with memory may become a load segment.\<close>

definition relro_mapped :: "ProgramHeader \<Rightarrow> ProgramHeader \<Rightarrow> bool" where
  "relro_mapped ph ph' \<longleftrightarrow> ph' = ph \<or> ph_Type ph = PT_OS_RELRO \<and> ph_MemorySize ph \<noteq> 0 \<and>
     ph' = ph\<lparr>ph_Type := PT_LOAD, ph_Flags := PF_R OR PF_W\<rparr>"

lemma map_relro_mapped:
  assumes "map_relro file before phs = Inr out"
  shows "\<exists>phs'. out = before @ phs' \<and> list_all2 relro_mapped phs phs'"
  using assms
proof (induction "file" "before" phs rule: map_relro.induct)
  case (2 "file" "before" relro rest)
  have step: ?case if "map_relro file (before @ [new]) rest = Inr out" "relro_mapped relro new"
    "map_relro file (before @ [new]) rest = Inr out \<Longrightarrow> \<exists>phs'. out = (before @ [new]) @ phs' \<and> list_all2 relro_mapped rest phs'" for new
    using that by fastforce
  show ?case
  proof (cases "ph_Type relro \<noteq> PT_OS_RELRO \<or> ph_MemorySize relro = 0")
    case True
    with "2.prems" show ?thesis by (intro step [OF _ _ "2.IH"(1) [OF True]]) (simp_all add: relro_mapped_def)
  next
    case False
    with "2.prems" obtain covered where c: "relro_covered relro (before @ relro # rest) False = Inr covered"
      by (auto simp: bindE_eq_Inr)
    show ?thesis
    proof (cases covered)
      case True
      with "2.prems" False c show ?thesis
        by (intro step [OF _ _ "2.IH"(2) [OF False c True]]) (simp_all add: relro_mapped_def)
    next
      case uncovered: False
      with "2.prems" False c have fits: "\<not> ph_FileSize relro > ph_MemorySize relro"
        "\<not> \<not> rangeFits (ph_Offset relro) (ph_FileSize relro) (length file)"
        "map_relro file (before @ [relro\<lparr>ph_Type := PT_LOAD, ph_Flags := PF_R OR PF_W\<rparr>]) rest = Inr out"
        by (simp_all split: if_splits)
      from False show ?thesis
        by (intro step [OF fits(3) _ "2.IH"(3) [OF False c uncovered fits(1,2)]]) (simp_all add: relro_mapped_def)
    qed
  qed
qed simp

text \<open>Whether two ranges of addresses meet, as natural numbers.\<close>

definition ranges_meet :: "ProgramHeader \<Rightarrow> ProgramHeader \<Rightarrow> bool" where
  "ranges_meet a b \<longleftrightarrow> unat (ph_MappedAddress a) < load_end b \<and> unat (ph_MappedAddress b) < load_end a"

lemma relro_overlaps_meet:
  assumes "ph_MemorySize relro \<noteq> 0" "ph_MemorySize load \<noteq> 0"
  shows "relro_overlaps relro load \<longleftrightarrow> ranges_meet relro load"
proof -
  have pos: "0 < unat (ph_MemorySize relro)" "0 < unat (ph_MemorySize load)" using assms by (simp_all add: unat_gt_0)
  have d: "unat (b - a) = unat b - unat a" if "a \<le> b" for a b :: u64 using that by (rule unat_sub)
  show ?thesis
  proof (cases "ph_MappedAddress relro < ph_MappedAddress load")
    case True
    with d [OF order.strict_implies_order [OF True]] pos show ?thesis
      by (auto simp: relro_overlaps_def ranges_meet_def load_end_def word_less_nat_alt)
  next
    case False
    then have le: "ph_MappedAddress load \<le> ph_MappedAddress relro" by simp
    with d [OF le] pos show ?thesis
      by (auto simp: relro_overlaps_def ranges_meet_def load_end_def word_less_nat_alt word_le_nat_alt not_less)
  qed
qed

definition inside :: "ProgramHeader \<Rightarrow> ProgramHeader \<Rightarrow> bool" where
  "inside relro load \<longleftrightarrow> unat (ph_MappedAddress load) \<le> unat (ph_MappedAddress relro) \<and> load_end relro \<le> load_end load"

definition filled_load :: "ProgramHeader \<Rightarrow> bool" where
  "filled_load ph \<longleftrightarrow> is_load ph \<and> ph_MemorySize ph \<noteq> 0"

text \<open>The inner loop: with no error each filled load segment covers the RELRO segment or does not meet it.\<close>

lemma relro_covered_Inr:
  assumes "relro_covered relro loads covered = Inr covered'" "ph_MemorySize relro \<noteq> 0"
  shows "(\<forall>load \<in> set loads. filled_load load \<longrightarrow> inside relro load \<or> \<not> ranges_meet relro load) \<and>
    (covered' \<longleftrightarrow> covered \<or> (\<exists>load \<in> set loads. filled_load load \<and> ranges_meet relro load))"
  using assms(1)
proof (induction loads arbitrary: covered)
  case (Cons load loads)
  show ?case
  proof (cases "filled_load load \<and> ranges_meet relro load")
    case False
    then have "relro_covered relro (load # loads) covered = relro_covered relro loads covered"
      using relro_overlaps_meet [OF assms(2), of load] by (auto simp: filled_load_def is_load_def)
    with Cons False show ?thesis by (auto simp: filled_load_def)
  next
    case True
    then have f: "ph_Type load = PT_LOAD" "ph_MemorySize load \<noteq> 0" "relro_overlaps relro load"
      using relro_overlaps_meet [OF assms(2), of load] by (auto simp: filled_load_def is_load_def)
    with Cons.prems have c: "\<not> ph_MappedAddress relro < ph_MappedAddress load"
      "\<not> ph_MemorySize load - (ph_MappedAddress relro - ph_MappedAddress load) < ph_MemorySize relro"
      "relro_covered relro loads True = Inr covered'" by (auto split: if_splits)
    have "inside relro load"
    proof -
      have d: "unat (ph_MappedAddress relro - ph_MappedAddress load) = unat (ph_MappedAddress relro) - unat (ph_MappedAddress load)"
        using c(1) by (intro unat_sub) simp
      have "ph_MappedAddress relro - ph_MappedAddress load < ph_MemorySize load" using f(3) c(1) by (simp add: relro_overlaps_def)
      then have "unat (ph_MemorySize load - (ph_MappedAddress relro - ph_MappedAddress load)) =
          unat (ph_MemorySize load) - unat (ph_MappedAddress relro - ph_MappedAddress load)"
        by (intro unat_sub) simp
      with d c(1,2) \<open>_ < ph_MemorySize load\<close> show ?thesis
        by (auto simp: inside_def load_end_def word_less_nat_alt not_less)
    qed
    with True Cons.IH [OF c(3)] show ?thesis by auto
  qed
qed simp

text \<open>
  The second loop. In the result, the headers in front are settled: every RELRO segment with memory lies inside a load
  segment or has become one that meets no other.
\<close>

definition settled :: "ProgramHeader list \<Rightarrow> ProgramHeader \<Rightarrow> bool" where
  "settled phs ph \<longleftrightarrow> ph_Type ph = PT_OS_RELRO \<and> ph_MemorySize ph \<noteq> 0 \<longrightarrow> (\<exists>load \<in> set phs. filled_load load \<and> inside ph load)"

lemma relro_not_load: "PT_OS_RELRO \<noteq> PT_LOAD"
  by (simp add: PT_OS_RELRO_def PT_LOAD_def)

lemma map_relro_Inr:
  assumes "map_relro file before phs = Inr out" "\<forall>ph \<in> set (before @ phs). check_load file ph = Inr ()"
    and "sorted_wrt (\<lambda>a b. filled_load a \<longrightarrow> filled_load b \<longrightarrow> \<not> ranges_meet a b) (before @ phs)"
    and "\<forall>ph \<in> set before. settled (before @ phs) ph"
  shows "length out = length (before @ phs) \<and> (\<forall>ph \<in> set out. check_load file ph = Inr ()) \<and>
    sorted_wrt (\<lambda>a b. filled_load a \<longrightarrow> filled_load b \<longrightarrow> \<not> ranges_meet a b) out \<and> (\<forall>ph \<in> set out. settled out ph)"
  using assms
proof (induction "file" "before" phs rule: map_relro.induct)
  case (2 "file" "before" relro rest)
  let ?all = "before @ relro # rest"
  have assoc: "(before @ [relro]) @ rest = ?all" by simp
  show ?case
  proof (cases "ph_Type relro \<noteq> PT_OS_RELRO \<or> ph_MemorySize relro = 0")
    case True
    then have "settled ?all relro" by (auto simp: settled_def)
    then have s: "\<forall>ph \<in> set (before @ [relro]). settled ((before @ [relro]) @ rest) ph" unfolding assoc using "2.prems"(4) by simp
    have "map_relro file (before @ [relro]) rest = Inr out" using "2.prems"(1) True by simp
    from "2.IH"(1) [OF True this _ _ s] "2.prems"(2,3) show ?thesis unfolding assoc by blast
  next
    case False
    then have mem: "ph_MemorySize relro \<noteq> 0" by blast
    have unfilled: "\<not> filled_load relro" using False relro_not_load by (auto simp: filled_load_def is_load_def)
    from False "2.prems"(1) obtain covered where c: "relro_covered relro ?all False = Inr covered"
      by (auto simp: bindE_eq_Inr)
    note meet = relro_covered_Inr [OF c mem]
    show ?thesis
    proof (cases covered)
      case True
      with meet have "settled ?all relro" unfolding settled_def by blast
      then have s: "\<forall>ph \<in> set (before @ [relro]). settled ((before @ [relro]) @ rest) ph" unfolding assoc using "2.prems"(4) by simp
      have "map_relro file (before @ [relro]) rest = Inr out" using "2.prems"(1) False c True by simp
      from "2.IH"(2) [OF False c True this _ _ s] "2.prems"(2,3) show ?thesis unfolding assoc by blast
    next
      case uncovered: False
      let ?new = "relro\<lparr>ph_Type := PT_LOAD, ph_Flags := PF_R OR PF_W\<rparr>"
      let ?next = "(before @ [?new]) @ rest"
      from "2.prems"(1) False c uncovered have fits: "\<not> ph_FileSize relro > ph_MemorySize relro"
        "\<not> \<not> rangeFits (ph_Offset relro) (ph_FileSize relro) (length file)" "map_relro file (before @ [?new]) rest = Inr out"
        by (simp_all split: if_splits)
      have new: "ranges_meet ?new = ranges_meet relro" by (auto simp: ranges_meet_def load_end_def)
      have no: "\<not> ranges_meet relro load" "\<not> ranges_meet load relro" if "load \<in> set ?all" "filled_load load" for load
        using meet uncovered that by (auto simp: ranges_meet_def)
      have new': "ranges_meet load ?new = ranges_meet load relro" for load by (auto simp: ranges_meet_def load_end_def)
      have sw: "sorted_wrt (\<lambda>a b. filled_load a \<longrightarrow> filled_load b \<longrightarrow> \<not> ranges_meet a b) ?next"
        using "2.prems"(3) no unfolding sorted_wrt_append append_assoc append_Cons append_Nil sorted_wrt.simps
        by (auto simp: new new')
      have s: "\<forall>ph \<in> set (before @ [?new]). settled ?next ph"
      proof
        fix ph assume ph: "ph \<in> set (before @ [?new])"
        show "settled ?next ph"
        proof (cases "ph \<in> set before")
          case True
          with "2.prems"(4) have "settled ?all ph" by blast
          moreover have "load \<in> set ?next" if "load \<in> set ?all" "filled_load load" for load using that unfilled by auto
          ultimately show ?thesis unfolding settled_def by blast
        next
          case False
          with ph have "ph_Type ph = PT_LOAD" by simp
          then show ?thesis using relro_not_load by (simp add: settled_def)
        qed
      qed
      have "check_load file ?new = Inr ()" using fits(1,2) by (simp add: check_load_def)
      then have "\<forall>ph \<in> set ?next. check_load file ph = Inr ()" using "2.prems"(2) by auto
      from "2.IH"(3) [OF False c uncovered fits(1,2,3) this sw s] show ?thesis by simp
    qed
  qed
qed simp

subsection \<open>A file to read\<close>

text \<open>An ELF header with two program headers behind it: a load segment over the file, and a RELRO segment in memory only.\<close>

definition demo_load :: ProgramHeader where
  "demo_load = \<lparr>ph_Type = 1, ph_Flags = 5, ph_Offset = 0, ph_MappedAddress = 0x1000, ph_PhysicalAddress = 0x1000,
     ph_FileSize = 176, ph_MemorySize = 0x1000, ph_Alignment = 0x1000\<rparr>"

definition demo_relro :: ProgramHeader where
  "demo_relro = \<lparr>ph_Type = 0x61000010, ph_Flags = 6, ph_Offset = 0, ph_MappedAddress = 0x2000, ph_PhysicalAddress = 0x2000,
     ph_FileSize = 0, ph_MemorySize = 0x100, ph_Alignment = 16\<rparr>"

definition demo_file :: "u8 list" where
  "demo_file = [0x7f, 0x45, 0x4c, 0x46, 2, 1, 1, 9, 0, 0, 0, 0, 0, 0, 0, 0, 0x10, 0xfe, 62, 0, 1, 0, 0, 0,
     0, 0x10, 0, 0, 0, 0, 0, 0, 64, 0, 0, 0, 0, 0, 0, 0, 0, 0, 0, 0, 0, 0, 0, 0, 0, 0, 0, 0,
     64, 0, 56, 0, 2, 0, 64, 0, 0, 0, 0, 0] @ header_bytes demo_load @ header_bytes demo_relro"

lemma demo_file_read:
  "ReadProgramHeaders demo_file = Inr [demo_load, demo_relro\<lparr>ph_Type := 1, ph_Flags := 6\<rparr>]"
  by code_simp

subsection \<open>The contract\<close>

definition raw_program_headers :: "u8 list \<Rightarrow> ProgramHeader list patch_result" where
  "raw_program_headers file = bindE (ReadHeader file) (\<lambda>header.
     read_program_headers file (ucast (ProgramHeaderEntrySize header)) (unat (ProgramHeaderCount header)) (ProgramHeaderOffset header))"

lemma ReadProgramHeaders_Inr:
  assumes "ReadProgramHeaders file = Inr phs"
  obtains raw where "raw_program_headers file = Inr raw" "map_relro file [] raw = Inr phs"
    "\<forall>ph \<in> set raw. check_load file ph = Inr ()"
  using assms read_program_headers_Inr
  by (fastforce simp: ReadProgramHeaders_def raw_program_headers_def bindE_eq_Inr split: if_splits)

lemma check_load_load: "check_load file ph = Inr () \<Longrightarrow> is_load ph \<Longrightarrow>
    unat (ph_FileSize ph) \<le> unat (ph_MemorySize ph) \<and> unat (ph_Offset ph) + unat (ph_FileSize ph) \<le> length file"
  by (auto simp: check_load_def is_load_def rangeFits_def word_less_nat_alt split: if_splits)

lemma map_relro_checks:
  assumes "map_relro file before phs = Inr out" "\<forall>ph \<in> set (before @ phs). check_load file ph = Inr ()"
  shows "length out = length (before @ phs) \<and> (\<forall>ph \<in> set out. check_load file ph = Inr ())"
  using assms
proof (induction "file" "before" phs rule: map_relro.induct)
  case (2 "file" "before" relro rest)
  have new: "check_load file (relro\<lparr>ph_Type := PT_LOAD, ph_Flags := PF_R OR PF_W\<rparr>) = Inr ()"
    if "\<not> ph_FileSize relro > ph_MemorySize relro" "rangeFits (ph_Offset relro) (ph_FileSize relro) (length file)"
    using that by (simp add: check_load_def)
  show ?case
  proof (cases "ph_Type relro \<noteq> PT_OS_RELRO \<or> ph_MemorySize relro = 0")
    case True
    with "2.IH"(1) [OF True] "2.prems" show ?thesis by simp
  next
    case False
    with "2.prems"(1) obtain covered where c: "relro_covered relro (before @ relro # rest) False = Inr covered"
      by (auto simp: bindE_eq_Inr)
    show ?thesis
    proof (cases covered)
      case True
      with "2.IH"(2) [OF False c True] "2.prems" False c show ?thesis by simp
    next
      case uncovered: False
      with "2.prems"(1) False c have fits: "\<not> ph_FileSize relro > ph_MemorySize relro"
        "\<not> \<not> rangeFits (ph_Offset relro) (ph_FileSize relro) (length file)"
        "map_relro file (before @ [relro\<lparr>ph_Type := PT_LOAD, ph_Flags := PF_R OR PF_W\<rparr>]) rest = Inr out"
        by (simp_all split: if_splits)
      with "2.IH"(3) [OF False c uncovered fits] "2.prems"(2) new show ?thesis by simp
    qed
  qed
qed simp

lemma raw_program_headers_bytes:
  assumes "raw_program_headers file = Inr raw" "ReadProgramHeaders file = Inr phs" "ReadHeader file = Inr header" "length file < 2 ^ 64"
  shows "length raw = unat (ProgramHeaderCount header) \<and>
    (\<forall>i < length raw. take 56 (drop (unat (ProgramHeaderOffset header) + 56 * i) file) = header_bytes (raw ! i))"
proof -
  have r: "read_program_headers file (ucast (ProgramHeaderEntrySize header)) (unat (ProgramHeaderCount header))
      (ProgramHeaderOffset header) = Inr raw" using assms(1,3) by (simp add: raw_program_headers_def)
  have len: "length raw = unat (ProgramHeaderCount header)" using read_program_headers_Inr [OF r] by simp
  show ?thesis
  proof (cases "ProgramHeaderCount header = 0")
    case False
    with assms(2,3) have "ProgramHeaderEntrySize header = 56" by (auto simp: ReadProgramHeaders_def split: if_splits)
    with r have "read_program_headers file 56 (unat (ProgramHeaderCount header)) (ProgramHeaderOffset header) = Inr raw" by simp
    from read_program_headers_bytes [OF this assms(4)] len show ?thesis by simp
  qed (use len in simp)
qed

text \<open>The addresses of the bytes that a load segment has in the file, as natural numbers.\<close>

definition holds_address :: "ProgramHeader \<Rightarrow> u64 \<Rightarrow> bool" where
  "holds_address ph address \<longleftrightarrow> is_load ph \<and> unat (ph_MappedAddress ph) \<le> unat address \<and>
     unat address < unat (ph_MappedAddress ph) + unat (ph_FileSize ph)"

lemma maps_address_holds: "maps_address address ph \<longleftrightarrow> holds_address ph address"
proof (cases "ph_MappedAddress ph \<le> address")
  case True
  then have "unat (address - ph_MappedAddress ph) = unat address - unat (ph_MappedAddress ph)" by (rule unat_sub)
  with True show ?thesis by (auto simp: maps_address_def holds_address_def is_load_def word_less_nat_alt word_le_nat_alt)
qed (auto simp: maps_address_def holds_address_def word_le_nat_alt)

text \<open>C36. The program headers that the reader returns are those of the file, entry by entry: the 56 bytes of entry
  \<open>i\<close> of the table are the bytes of header \<open>i\<close>, of which the reader changes only a RELRO segment with memory, to a load
  segment that can be read and written. Every load segment lies in the file and is no larger there than in memory; and
  when the load segments of the file occupy disjoint memory, so do those that are returned, and every RELRO segment with
  memory lies inside one of them.\<close>

theorem program_headers_read:
  assumes "ReadProgramHeaders file = Inr phs" "ReadHeader file = Inr header" "length file < 2 ^ 64"
  shows "\<exists>raw. length raw = unat (ProgramHeaderCount header) \<and>
    (\<forall>i < length raw. take 56 (drop (unat (ProgramHeaderOffset header) + 56 * i) file) = header_bytes (raw ! i)) \<and>
    list_all2 relro_mapped raw phs \<and>
    (\<forall>ph \<in> set phs. is_load ph \<longrightarrow>
      unat (ph_FileSize ph) \<le> unat (ph_MemorySize ph) \<and> unat (ph_Offset ph) + unat (ph_FileSize ph) \<le> length file) \<and>
    (sorted_wrt (\<lambda>a b. filled_load a \<longrightarrow> filled_load b \<longrightarrow> \<not> ranges_meet a b) raw \<longrightarrow>
      sorted_wrt (\<lambda>a b. filled_load a \<longrightarrow> filled_load b \<longrightarrow> \<not> ranges_meet a b) phs \<and>
      (\<forall>ph \<in> set phs. ph_Type ph = PT_OS_RELRO \<longrightarrow> ph_MemorySize ph \<noteq> 0 \<longrightarrow> (\<exists>load \<in> set phs. filled_load load \<and> inside ph load)))"
proof -
  obtain raw where raw: "raw_program_headers file = Inr raw" "map_relro file [] raw = Inr phs"
    "\<forall>ph \<in> set raw. check_load file ph = Inr ()" by (rule ReadProgramHeaders_Inr [OF assms(1)])
  from raw_program_headers_bytes [OF raw(1) assms] have
    "length raw = unat (ProgramHeaderCount header)"
    "\<forall>i < length raw. take 56 (drop (unat (ProgramHeaderOffset header) + 56 * i) file) = header_bytes (raw ! i)" by simp_all
  moreover have "list_all2 relro_mapped raw phs" using map_relro_mapped [OF raw(2)] by simp
  moreover have "\<forall>ph \<in> set phs. check_load file ph = Inr ()" using map_relro_checks [OF raw(2)] raw(3) by simp
  moreover have "sorted_wrt (\<lambda>a b. filled_load a \<longrightarrow> filled_load b \<longrightarrow> \<not> ranges_meet a b) phs \<and> (\<forall>ph \<in> set phs. settled phs ph)"
    if "sorted_wrt (\<lambda>a b. filled_load a \<longrightarrow> filled_load b \<longrightarrow> \<not> ranges_meet a b) raw"
    using map_relro_Inr [OF raw(2)] raw(3) that by simp
  ultimately show ?thesis using check_load_load unfolding settled_def by blast
qed

lemma demo_file_header: "ReadHeader demo_file = Inr (projr (ReadHeader demo_file))" by code_simp

lemma demo_file_small: "length demo_file < 2 ^ 64" by (simp add: demo_file_def)

theorem program_headers_read_witness:
  "\<exists>raw. length raw = unat (ProgramHeaderCount (projr (ReadHeader demo_file))) \<and>
    list_all2 relro_mapped raw [demo_load, demo_relro\<lparr>ph_Type := 1, ph_Flags := 6\<rparr>]"
  using program_headers_read [OF demo_file_read demo_file_header demo_file_small] by blast

text \<open>C37. An address is translated by the first load segment whose bytes in the file hold it, to the place of that byte,
  which is inside the file; the translation fails only when no load segment holds the address, with the address as the
  offset of the error. When the load segments do not overlap in memory the segment is the only one that holds it.\<close>

theorem address_translated:
  assumes "ReadProgramHeaders file = Inr phs" "length file < 2 ^ 64"
  shows "case TranslateVirtualAddress file address of
      Inr off \<Rightarrow> unat off < length file \<and>
        (\<exists>i < length phs. holds_address (phs ! i) address \<and> (\<forall>j < i. \<not> holds_address (phs ! j) address) \<and>
          unat off = unat (ph_Offset (phs ! i)) + (unat address - unat (ph_MappedAddress (phs ! i))) \<and>
          ((\<forall>a \<in> set phs. \<forall>b \<in> set phs. filled_load a \<and> filled_load b \<and> ranges_meet a b \<longrightarrow> a = b) \<longrightarrow>
            (\<forall>other \<in> set phs. holds_address other address \<longrightarrow> other = phs ! i)))
    | Inl e \<Rightarrow> e = RelinkerException ''Virtual address not mapped by any PT_LOAD segment'' address \<and>
        (\<forall>ph \<in> set phs. \<not> holds_address ph address)"
proof (cases "find (maps_address address) phs")
  case None
  then have "\<forall>ph \<in> set phs. \<not> holds_address ph address" by (simp add: find_None_iff maps_address_holds)
  with assms(1) None show ?thesis by (simp add: TranslateVirtualAddress_def)
next
  case (Some load)
  then obtain i where i: "i < length phs" "load = phs ! i" "holds_address load address" "\<forall>j < i. \<not> holds_address (phs ! j) address"
    by (auto simp: find_Some_iff maps_address_holds)
  obtain raw where raw: "map_relro file [] raw = Inr phs" "\<forall>ph \<in> set raw. check_load file ph = Inr ()"
    by (rule ReadProgramHeaders_Inr [OF assms(1)])
  have size: "unat (ph_FileSize ph) \<le> unat (ph_MemorySize ph) \<and> unat (ph_Offset ph) + unat (ph_FileSize ph) \<le> length file"
    if "ph \<in> set phs" "is_load ph" for ph
    using map_relro_checks [OF raw(1)] raw(2) that by (intro check_load_load) simp_all
  have within: "unat (ph_MappedAddress ph) \<le> unat address \<and> unat address < load_end ph \<and> filled_load ph"
    if "ph \<in> set phs" "holds_address ph address" for ph
    using that size [of ph] by (auto simp: holds_address_def load_end_def filled_load_def)
  have l: "load \<in> set phs" using i by simp
  have inside: "unat (ph_Offset load) + (unat address - unat (ph_MappedAddress load)) < length file"
    using size [OF l] i(3) by (auto simp: holds_address_def)
  have "unat (address - ph_MappedAddress load) = unat address - unat (ph_MappedAddress load)"
    using i(3) by (intro unat_sub) (simp add: holds_address_def word_le_nat_alt)
  with inside assms(2) have off: "unat (ph_Offset load + (address - ph_MappedAddress load)) =
      unat (ph_Offset load) + (unat address - unat (ph_MappedAddress load))"
    by (simp add: unat_word_ariths)
  have "other = load" if "\<forall>a \<in> set phs. \<forall>b \<in> set phs. filled_load a \<and> filled_load b \<and> ranges_meet a b \<longrightarrow> a = b"
    "other \<in> set phs" "holds_address other address" for other
  proof -
    have "ranges_meet other load" using within [OF l i(3)] within [OF that(2,3)] unfolding ranges_meet_def by linarith
    then show ?thesis using that(1,2) l within [OF l i(3)] within [OF that(2,3)] by blast
  qed
  with i inside off assms(1) Some show ?thesis by (auto simp: TranslateVirtualAddress_def)
qed

theorem address_translated_witness:
  "unat (projr (TranslateVirtualAddress demo_file 0x1040)) < length demo_file \<and>
   TranslateVirtualAddress demo_file 0x10 = Inl (RelinkerException ''Virtual address not mapped by any PT_LOAD segment'' 0x10)"
proof -
  have "TranslateVirtualAddress demo_file 0x1040 = Inr 64" by code_simp
  moreover have "TranslateVirtualAddress demo_file 0x10 = Inl (projl (TranslateVirtualAddress demo_file 0x10))" by code_simp
  ultimately show ?thesis
    using address_translated [OF demo_file_read demo_file_small, of "0x1040"]
      address_translated [OF demo_file_read demo_file_small, of "0x10"]
    by (cases "TranslateVirtualAddress demo_file 0x10") auto
qed

subsection \<open>Dynamic tags\<close>

text \<open>The bytes of a table of tags, as \<open>_appendDynEntry\<close> of the patcher writes them.\<close>

definition dynamic_bytes :: "DynamicTag list \<Rightarrow> u8 list" where
  "dynamic_bytes tags = concat (map (\<lambda>t. le_bytes 8 (Tag t) @ le_bytes 8 (tag_Value t)) tags)"

lemma dynamic_bytes_simps [simp]:
  "dynamic_bytes [] = []" "dynamic_bytes (t # tags) = le_bytes 8 (Tag t) @ le_bytes 8 (tag_Value t) @ dynamic_bytes tags"
  "dynamic_bytes (as @ bs) = dynamic_bytes as @ dynamic_bytes bs"
  by (simp_all add: dynamic_bytes_def)

lemma length_dynamic_bytes [simp]: "length (dynamic_bytes tags) = 16 * length tags"
  by (induction tags) simp_all

lemma dynamic_bytes_nonempty: "dynamic_bytes (tags @ [t]) @ rest \<noteq> []"
  by (rule notI) (drule arg_cong [of _ _ length], simp)

lemma read_dynamic_tags_Inr:
  assumes "length file < 2 ^ 64" "unat off + 16 * n \<le> length file"
  shows "read_dynamic_tags file start n off acc = Inr out \<longleftrightarrow>
    (\<exists>tags val rest. out = acc @ tags \<and> (\<forall>t \<in> set tags. Tag t \<noteq> 0) \<and>
      take (16 * n) (drop (unat off) file) = dynamic_bytes (tags @ [\<lparr>Tag = 0, tag_Value = val\<rparr>]) @ rest)"
  using assms(2)
proof (induction n arbitrary: off acc)
  case 0
  show ?case using dynamic_bytes_nonempty by (auto simp del: dynamic_bytes_simps)
next
  case (Suc n)
  let ?window = "take (16 * Suc n) (drop (unat off) file)"
  let ?tag = "le_word (take 8 ?window) :: u64" and ?val = "le_word (take 8 (drop 8 ?window)) :: u64"
  have lw: "length ?window = 16 * Suc n" using Suc.prems by simp
  have u: "unat (off + 16) = unat off + 16" using Suc.prems assms(1) unat_plus_small [of off 16] by simp
  have t: "readU64At file off = Inr ?tag" "readU64At file (off + 8) = Inr ?val"
    using read_window [OF refl lw assms(1), of 0 8, where 'a = 64] read_window [OF refl lw assms(1), of 8 8, where 'a = 64]
    by (simp_all add: readU64At_def)
  have step: "read_dynamic_tags file start (Suc n) off acc = Inr out \<longleftrightarrow>
      (if ?tag = 0 then out = acc else read_dynamic_tags file start n (off + 16) (acc @ [\<lparr>Tag = ?tag, tag_Value = ?val\<rparr>]) = Inr out)"
    using t by auto
  have entry: "?window = le_bytes 8 ?tag @ le_bytes 8 ?val @ take (16 * n) (drop (unat (off + 16)) file)"
  proof -
    have "le_bytes 8 ?tag = take 8 ?window" using le_bytes_le_word [of "take 8 ?window", where 'a = 64] lw by simp
    moreover have "le_bytes 8 ?val = take 8 (drop 8 ?window)"
      using le_bytes_le_word [of "take 8 (drop 8 ?window)", where 'a = 64] lw by simp
    moreover have "take (16 * n) (drop (unat (off + 16)) file) = drop 8 (drop 8 ?window)"
      unfolding u by (simp add: drop_take add.commute)
    ultimately show ?thesis by (simp only: append_take_drop_id)
  qed
  show ?case
  proof (cases "?tag = 0")
    case True
    have "(\<exists>tags val rest. out = acc @ tags \<and> (\<forall>t \<in> set tags. Tag t \<noteq> 0) \<and>
        ?window = dynamic_bytes (tags @ [\<lparr>Tag = 0, tag_Value = val\<rparr>]) @ rest) \<longleftrightarrow> out = acc"
    proof
      assume "\<exists>tags val rest. out = acc @ tags \<and> (\<forall>t \<in> set tags. Tag t \<noteq> 0) \<and>
        ?window = dynamic_bytes (tags @ [\<lparr>Tag = 0, tag_Value = val\<rparr>]) @ rest"
      then obtain tags val rest where w: "out = acc @ tags" "\<forall>t \<in> set tags. Tag t \<noteq> 0"
        "?window = dynamic_bytes (tags @ [\<lparr>Tag = 0, tag_Value = val\<rparr>]) @ rest" by blast
      show "out = acc"
      proof (cases tags)
        case (Cons t ts)
        then have "take 8 ?window = le_bytes 8 (Tag t)" unfolding w(3) by simp
        then have "?tag = Tag t" by (simp only: codec)
        with True Cons w(2) show ?thesis by simp
      qed (use w(1) in simp)
    next
      assume "out = acc"
      moreover have "?window = dynamic_bytes ([] @ [\<lparr>Tag = 0, tag_Value = ?val\<rparr>]) @ take (16 * n) (drop (unat (off + 16)) file)"
        using entry True by simp
      ultimately have "out = acc @ [] \<and> (\<forall>t \<in> set []. Tag t \<noteq> 0) \<and>
        ?window = dynamic_bytes ([] @ [\<lparr>Tag = 0, tag_Value = ?val\<rparr>]) @ take (16 * n) (drop (unat (off + 16)) file)" by simp
      then show "\<exists>tags val rest. out = acc @ tags \<and> (\<forall>t \<in> set tags. Tag t \<noteq> 0) \<and>
        ?window = dynamic_bytes (tags @ [\<lparr>Tag = 0, tag_Value = val\<rparr>]) @ rest" by blast
    qed
    with step True show ?thesis by simp
  next
    case False
    let ?t = "\<lparr>Tag = ?tag, tag_Value = ?val\<rparr>"
    let ?rest = "take (16 * n) (drop (unat (off + 16)) file)"
    have IH: "read_dynamic_tags file start n (off + 16) (acc @ [?t]) = Inr out \<longleftrightarrow>
      (\<exists>tags val rest. out = (acc @ [?t]) @ tags \<and> (\<forall>t \<in> set tags. Tag t \<noteq> 0) \<and>
        ?rest = dynamic_bytes (tags @ [\<lparr>Tag = 0, tag_Value = val\<rparr>]) @ rest)"
      using Suc.prems by (intro Suc.IH) (simp add: u)
    have "(\<exists>tags val rest. out = (acc @ [?t]) @ tags \<and> (\<forall>t \<in> set tags. Tag t \<noteq> 0) \<and>
        ?rest = dynamic_bytes (tags @ [\<lparr>Tag = 0, tag_Value = val\<rparr>]) @ rest) \<longleftrightarrow>
      (\<exists>tags val rest. out = acc @ tags \<and> (\<forall>t \<in> set tags. Tag t \<noteq> 0) \<and>
        ?window = dynamic_bytes (tags @ [\<lparr>Tag = 0, tag_Value = val\<rparr>]) @ rest)" (is "?A \<longleftrightarrow> ?B")
    proof
      assume ?A
      then obtain tags val rest where w: "out = (acc @ [?t]) @ tags" "\<forall>t \<in> set tags. Tag t \<noteq> 0"
        "?rest = dynamic_bytes (tags @ [\<lparr>Tag = 0, tag_Value = val\<rparr>]) @ rest" by blast
      have "?window = dynamic_bytes ((?t # tags) @ [\<lparr>Tag = 0, tag_Value = val\<rparr>]) @ rest"
        by (subst entry) (simp add: w(3))
      with w(1,2) False show ?B
        by (intro exI [of _ "?t # tags"] exI [of _ val] exI [of _ rest]) simp
    next
      assume ?B
      then obtain tags val rest where w: "out = acc @ tags" "\<forall>t \<in> set tags. Tag t \<noteq> 0"
        "?window = dynamic_bytes (tags @ [\<lparr>Tag = 0, tag_Value = val\<rparr>]) @ rest" by blast
      have "tags \<noteq> []"
      proof
        assume "tags = []"
        then have "take 8 ?window = le_bytes 8 (0 :: u64)" unfolding w(3) by simp
        then have "?tag = 0" by (simp only: codec)
        with False show False by simp
      qed
      then obtain t ts where ts: "tags = t # ts" by (cases tags) blast+
      have "le_bytes 8 (Tag t) @ le_bytes 8 (tag_Value t) @ dynamic_bytes (ts @ [\<lparr>Tag = 0, tag_Value = val\<rparr>]) @ rest =
          le_bytes 8 ?tag @ le_bytes 8 ?val @ ?rest"
        using w(3) entry unfolding ts by (simp only: dynamic_bytes_simps append_Cons append_assoc)
      then have parts: "le_bytes 8 (Tag t) = le_bytes 8 ?tag" "le_bytes 8 (tag_Value t) = le_bytes 8 ?val"
        "dynamic_bytes (ts @ [\<lparr>Tag = 0, tag_Value = val\<rparr>]) @ rest = ?rest"
        by (simp_all only: append_eq_append_conv length_le_bytes simp_thms)
      then have "Tag t = ?tag" "tag_Value t = ?val" by (metis le_word_bytes(3))+
      then have "t = ?t" by simp
      with parts(3) w(1,2) ts show ?A
        by (intro exI [of _ ts] exI [of _ val] exI [of _ rest]) simp
    qed
    with step False IH show ?thesis by simp
  qed
qed

text \<open>C38. Reading dynamic tags inverts writing them, and ends: the reader returns \<open>tags\<close> exactly when the segment lies in the
  file, is a whole number of entries, and holds the bytes of \<open>tags\<close>, none of them null, and then a null tag. In
  every other case it throws.\<close>

theorem dynamic_tags_roundtrip:
  assumes "length file < 2 ^ 64"
  shows "ReadDynamicTags file dynamic = Inr tags \<longleftrightarrow>
    unat (ph_Offset dynamic) + unat (ph_FileSize dynamic) \<le> length file \<and> 16 dvd unat (ph_FileSize dynamic) \<and>
    (\<forall>t \<in> set tags. Tag t \<noteq> 0) \<and>
    (\<exists>val rest. take (unat (ph_FileSize dynamic)) (drop (unat (ph_Offset dynamic)) file) =
      dynamic_bytes (tags @ [\<lparr>Tag = 0, tag_Value = val\<rparr>]) @ rest)"
proof (cases "unat (ph_Offset dynamic) + unat (ph_FileSize dynamic) \<le> length file \<and> 16 dvd unat (ph_FileSize dynamic)")
  case True
  then have n: "16 * (unat (ph_FileSize dynamic) div 16) = unat (ph_FileSize dynamic)" by simp
  from True have "ReadDynamicTags file dynamic =
      read_dynamic_tags file (ph_Offset dynamic) (unat (ph_FileSize dynamic) div 16) (ph_Offset dynamic) []"
    by (auto simp: ReadDynamicTags_def rangeFits_def dvd_eq_mod_eq_0)
  also have "\<dots> = Inr tags \<longleftrightarrow> (\<exists>tags' val rest. tags = [] @ tags' \<and> (\<forall>t \<in> set tags'. Tag t \<noteq> 0) \<and>
      take (16 * (unat (ph_FileSize dynamic) div 16)) (drop (unat (ph_Offset dynamic)) file) =
        dynamic_bytes (tags' @ [\<lparr>Tag = 0, tag_Value = val\<rparr>]) @ rest)"
    by (rule read_dynamic_tags_Inr [OF assms]) (use True n in simp)
  finally show ?thesis using True unfolding n by (simp del: dynamic_bytes_simps)
next
  case False
  then have "\<nexists>out. ReadDynamicTags file dynamic = Inr out"
    by (auto simp: ReadDynamicTags_def rangeFits_def dvd_eq_mod_eq_0)
  with False show ?thesis by blast
qed

theorem dynamic_tags_roundtrip_witness:
  "ReadDynamicTags (dynamic_bytes [\<lparr>Tag = 1, tag_Value = 7\<rparr>, \<lparr>Tag = 0, tag_Value = 0\<rparr>])
     (demo_load\<lparr>ph_FileSize := 32\<rparr>) = Inr [\<lparr>Tag = 1, tag_Value = 7\<rparr>]"
  by (subst dynamic_tags_roundtrip) (simp_all add: demo_load_def exI [of "\<lambda>val. \<exists>rest. _ val rest" 0] exI [of _ "[]"])

end
