(* ===== verification/Section_Table.thy ===== *)
theory Section_Table
  imports Elf_Constants Byte_Codec
begin

text \<open>
  The section headers that the patcher writes at the end of the output,
  \<open>core/relinker/elfpatcher/src/general/SectionHeaderTableBuilder.cpp\<close>.
\<close>

record SectionHeaderTableRequest =
  sr_DynStrOffset :: u64
  sr_DynStrSize :: u64
  sr_DynSymOffset :: u64
  sr_DynSymSize :: u64
  sr_DynamicSegmentOffset :: u64
  sr_DynamicSegmentSize :: u64
  sr_StubOffset :: u64
  sr_StubSize :: u64

text \<open>The arguments of \<open>_writeSectionHeader\<close>.\<close>

record section_header =
  sh_nameOff :: u32
  sh_type :: u32
  sh_flags :: u64
  sh_addr :: u64
  sh_fileOffset :: u64
  sh_size :: u64
  sh_link :: u32
  sh_info :: u32
  sh_align :: u64
  sh_entSize :: u64

definition writeSectionHeader :: "u8 list \<Rightarrow> nat \<Rightarrow> section_header \<Rightarrow> u8 list patch_result" where
  "writeSectionHeader buf off sh =
    bindE (WriteU32 buf (off + kShdrNameOffset) (sh_nameOff sh)) (\<lambda>buf.
    bindE (WriteU32 buf (off + kShdrTypeOffset) (sh_type sh)) (\<lambda>buf.
    bindE (WriteU64 buf (off + kShdrFlagsOffset) (sh_flags sh)) (\<lambda>buf.
    bindE (WriteU64 buf (off + kShdrAddrOffset) (sh_addr sh)) (\<lambda>buf.
    bindE (WriteU64 buf (off + kShdrFileOffsetOffset) (sh_fileOffset sh)) (\<lambda>buf.
    bindE (WriteU64 buf (off + kShdrSizeOffset) (sh_size sh)) (\<lambda>buf.
    bindE (WriteU32 buf (off + kShdrLinkOffset) (sh_link sh)) (\<lambda>buf.
    bindE (WriteU32 buf (off + kShdrInfoOffset) (sh_info sh)) (\<lambda>buf.
    bindE (WriteU64 buf (off + kShdrAlignOffset) (sh_align sh)) (\<lambda>buf.
      WriteU64 buf (off + kShdrEntSizeOffset) (sh_entSize sh))))))))))"

subsection \<open>Addresses of sections\<close>

abbreviation runtime_error :: "string \<Rightarrow> 'a patch_result" where
  "runtime_error message \<equiv> Inl (RuntimeError message)"

text \<open>The loop of \<open>mappedAddress\<close>, over the remaining entries of the table from the position \<open>header\<close> on.\<close>

fun find_mapping :: "u8 list \<Rightarrow> nat \<Rightarrow> nat \<Rightarrow> nat \<Rightarrow> u64 \<Rightarrow> u64 \<Rightarrow> u64 patch_result" where
  "find_mapping buf phStride 0 header off sectionSize = runtime_error ''Allocated output section is outside load segments''"
| "find_mapping buf phStride (Suc n) header off sectionSize =
    bindE (ReadU32 buf header) (\<lambda>type.
      if type \<noteq> PT_LOAD then find_mapping buf phStride n (header + phStride) off sectionSize
      else bindE (ReadU64 buf (header + 8)) (\<lambda>start. bindE (ReadU64 buf (header + 32)) (\<lambda>fileSize.
        if off \<ge> start \<and> off - start \<le> fileSize \<and> sectionSize \<le> fileSize - (off - start)
        then let relative = off - start in
          bindE (ReadU64 buf (header + 16)) (\<lambda>address.
            if relative > - 1 - address \<or> sectionSize > - 1 - (address + relative)
            then runtime_error ''Allocated output section address overflowed''
            else Inr (address + relative))
        else find_mapping buf phStride n (header + phStride) off sectionSize)))"

definition mappedAddress :: "u8 list \<Rightarrow> u64 \<Rightarrow> u16 \<Rightarrow> u16 \<Rightarrow> u64 \<Rightarrow> u64 \<Rightarrow> u64 patch_result" where
  "mappedAddress buf phOffset phCount phStride off sectionSize =
    (if unat off > length buf \<or> unat sectionSize > length buf - unat off
     then runtime_error ''Allocated output section exceeds file''
     else find_mapping buf (unat phStride) (unat phCount) (unat phOffset) off sectionSize)"

subsection \<open>\<open>WriteTable\<close>\<close>

text \<open>The six headers, for the position of the string table and the addresses of the four sections.\<close>

definition section_headers ::
    "SectionHeaderTableRequest \<Rightarrow> u64 \<Rightarrow> u64 \<Rightarrow> u64 \<Rightarrow> u64 \<Rightarrow> u64 \<Rightarrow> section_header list" where
  "section_headers req shStrTabOff dynStrAddress dynSymAddress dynamicAddress stubAddress =
    [\<lparr>sh_nameOff = 0, sh_type = SHT_NULL, sh_flags = 0, sh_addr = 0, sh_fileOffset = 0, sh_size = 0, sh_link = 0,
        sh_info = 0, sh_align = 0, sh_entSize = 0\<rparr>,
     \<lparr>sh_nameOff = kShStrTabNameOffset, sh_type = SHT_STRTAB, sh_flags = 0, sh_addr = 0, sh_fileOffset = shStrTabOff,
        sh_size = of_nat (length kShStrTabBlob), sh_link = 0, sh_info = 0, sh_align = kNoSpecialAlignment, sh_entSize = 0\<rparr>,
     \<lparr>sh_nameOff = kDynStrNameOffset, sh_type = SHT_STRTAB, sh_flags = ucast SHF_ALLOC, sh_addr = dynStrAddress,
        sh_fileOffset = sr_DynStrOffset req, sh_size = sr_DynStrSize req, sh_link = 0, sh_info = 0,
        sh_align = kNoSpecialAlignment, sh_entSize = 0\<rparr>,
     \<lparr>sh_nameOff = kDynSymNameOffset, sh_type = SHT_DYNSYM, sh_flags = ucast SHF_ALLOC, sh_addr = dynSymAddress,
        sh_fileOffset = sr_DynSymOffset req, sh_size = sr_DynSymSize req, sh_link = kDynSymLinkToStrTab,
        sh_info = kDynSymInfoFirstGlobal, sh_align = kDynSymAlign, sh_entSize = kSymEntrySize\<rparr>,
     \<lparr>sh_nameOff = kDynamicNameOffset, sh_type = SHT_DYNAMIC, sh_flags = ucast (SHF_ALLOC OR SHF_WRITE), sh_addr = dynamicAddress,
        sh_fileOffset = sr_DynamicSegmentOffset req, sh_size = sr_DynamicSegmentSize req, sh_link = kDynamicLinkToStrTab,
        sh_info = 0, sh_align = kDynSymAlign, sh_entSize = of_nat kDynEntrySize\<rparr>,
     \<lparr>sh_nameOff = kTextNameOffset, sh_type = SHT_PROGBITS, sh_flags = ucast (SHF_ALLOC OR SHF_EXECINSTR), sh_addr = stubAddress,
        sh_fileOffset = sr_StubOffset req, sh_size = sr_StubSize req, sh_link = 0, sh_info = 0,
        sh_align = kNoSpecialAlignment, sh_entSize = 0\<rparr>]"

fun write_sections :: "u8 list \<Rightarrow> nat \<Rightarrow> section_header list \<Rightarrow> u8 list patch_result" where
  "write_sections buf off [] = Inr buf"
| "write_sections buf off (sh # rest) =
    bindE (writeSectionHeader buf off sh) (\<lambda>buf. write_sections buf (off + kShdrEntrySize) rest)"

definition WriteTable :: "u8 list \<Rightarrow> SectionHeaderTableRequest \<Rightarrow> u8 list patch_result" where
  "WriteTable buf req =
    bindE (ReadU64 buf kEhdrPhOffOffset) (\<lambda>phOffset.
    bindE (ReadU16 buf kEhdrPhNumOffset) (\<lambda>phCount.
    bindE (ReadU16 buf kEhdrPhEntSizeOffset) (\<lambda>phStride.
    if phStride < 56 \<or> unat phOffset > length buf \<or> unat phCount > (length buf - unat phOffset) div unat phStride
    then runtime_error ''Output program header table is out of bounds''
    else
      let address = mappedAddress buf phOffset phCount phStride in
      bindE (address (sr_DynStrOffset req) (sr_DynStrSize req)) (\<lambda>dynStrAddress.
      bindE (address (sr_DynSymOffset req) (sr_DynSymSize req)) (\<lambda>dynSymAddress.
      bindE (address (sr_DynamicSegmentOffset req) (sr_DynamicSegmentSize req)) (\<lambda>dynamicAddress.
      bindE (address (sr_StubOffset req) (sr_StubSize req)) (\<lambda>stubAddress.
        let named = buf @ kShStrTabBlob; shOff = length named in
        bindE (write_sections (named @ replicate (kShdrEntrySize * kSectionHeaderCount) 0) shOff
          (section_headers req (of_nat (length buf)) dynStrAddress dynSymAddress dynamicAddress stubAddress)) (\<lambda>buf.
        bindE (WriteU64 buf kEhdrShOffOffset (of_nat shOff)) (\<lambda>buf.
        bindE (WriteU16 buf kEhdrShEntSizeOffset (of_nat kShdrEntrySize)) (\<lambda>buf.
        bindE (WriteU16 buf kEhdrShNumOffset (of_nat kSectionHeaderCount)) (\<lambda>buf.
          WriteU16 buf kEhdrShStrNdxOffset (ucast kShStrTabIndex))))))))))))"

end
