(* ===== verification/Entry_Stub.thy ===== *)
theory Entry_Stub
  imports Elf_Constants Domain_Types Byte_Codec
begin

text \<open>
  The code the loader enters first, \<open>core/relinker/elfpatcher/src/general/EntryStubBuilder.cpp\<close>: it sets up the
  stack as the guest's entry point expects it and calls that entry point.
\<close>

definition stub_prologue :: "u8 list" where
  "stub_prologue = kStubOpMovRdiRsp @ kStubOpAndRsp0xf0 @ kStubOpPushZero @ kStubOpPushZero @ kStubOpMovRbpRsp @ kStubOpXorRsiRsi"

definition BuildEntryStub :: "u64 \<Rightarrow> u64 \<Rightarrow> u8 list patch_result" where
  "BuildEntryStub stubVaddr realEntryVaddr =
    (let s = stub_prologue;
         callInsnVaddr = stubVaddr + of_nat (length s);
         callNextVaddr = callInsnVaddr + of_nat kStubCallInstructionSize;
         displacement = sint (realEntryVaddr - callNextVaddr) in
     if displacement < - (2 ^ 31) \<or> displacement > 2 ^ 31 - 1
     then Inl (RelinkerException ''Entry stub call exceeds rel32 range'' 0)
     else let rel32 = word_of_int displacement :: u32 in
       Inr (s @ [kStubOpCallRel32] @
         [ucast (rel32 AND 0xff), ucast (drop_bit 8 rel32 AND 0xff), ucast (drop_bit 16 rel32 AND 0xff),
          ucast (drop_bit 24 rel32 AND 0xff)] @ kStubOpUd2))"

end
