(* ===== verification/Linux_Patcher.thy ===== *)
theory Linux_Patcher
  imports Trampolines Program_Layout Section_Table Entry_Stub
begin

text \<open>
  The Linux patcher, \<open>core/relinker/elfpatcher/src/linux/LinuxElfPatcher.cpp\<close>: it turns a guest image into an ELF file
  for the host by appending a block of tables, the entry stub and the trampolines' stubs behind the image, and by
  rewriting the headers. With a fixed base it also places every address of the output at that base.
\<close>

subsection \<open>Addresses at a fixed base\<close>

definition kLinuxUserAddressEnd :: u64 where "kLinuxUserAddressEnd = 0x800000000000"

fun hex_digits :: "nat \<Rightarrow> string" where
  "hex_digits n = (if n < 16 then [] else hex_digits (n div 16)) @ [''0123456789abcdef'' ! (n mod 16)]"

declare hex_digits.simps [simp del]

definition Hex :: "u64 \<Rightarrow> string" where
  "Hex v = ''0x'' @ hex_digits (unat v)"

definition Rebased :: "u64 \<Rightarrow> u64 \<Rightarrow> string \<Rightarrow> u64 patch_result" where
  "Rebased base address what =
    (if base > kLinuxUserAddressEnd \<or> address > kLinuxUserAddressEnd - base
     then layout_error (what @ '' '' @ Hex address @ '' lies outside the Linux user address space at fixed base '' @ Hex base)
     else Inr (base + address))"

definition RequireWholeEntries :: "u8 list \<Rightarrow> nat \<Rightarrow> string \<Rightarrow> unit patch_result" where
  "RequireWholeEntries table entrySize what =
    (if length table mod entrySize \<noteq> 0 then layout_error (what @ '' is not a whole number of entries'') else Inr ())"

text \<open>The loops over a table: the number of entries left, and the position of the next.\<close>

fun require_needed :: "u8 list \<Rightarrow> nat \<Rightarrow> nat \<Rightarrow> unit patch_result" where
  "require_needed entries 0 entry = Inr ()"
| "require_needed entries (Suc n) entry =
    bindE (ReadU64 entries entry) (\<lambda>tag.
      if tag \<noteq> DT_NEEDED then layout_error (''Dynamic tag '' @ Hex tag @ '' cannot be placed at a fixed Linux base'')
      else require_needed entries n (entry + kDynEntrySize))"

definition RequireOnlyDependencies :: "u8 list \<Rightarrow> unit patch_result" where
  "RequireOnlyDependencies entries =
    bindE (RequireWholeEntries entries kDynEntrySize ''Executable dependency table'') (\<lambda>_.
      require_needed entries (length entries div kDynEntrySize) 0)"

fun rebase_symbols :: "u64 \<Rightarrow> nat \<Rightarrow> nat \<Rightarrow> u8 list \<Rightarrow> u8 list patch_result" where
  "rebase_symbols base 0 entry rebased = Inr rebased"
| "rebase_symbols base (Suc n) entry rebased =
    bindE (ReadU16 rebased (entry + 6)) (\<lambda>section.
      if section = SHN_UNDEF \<or> section = SHN_ABS \<or> rebased ! (entry + 4) AND 0xf = STT_TLS
      then rebase_symbols base n (entry + unat kSymEntrySize) rebased
      else if section \<ge> SHN_LORESERVE
      then layout_error (''Symbol section index '' @ Hex (ucast section) @ '' cannot be placed at a fixed Linux base'')
      else bindE (ReadU64 rebased (entry + 8)) (\<lambda>symbol. bindE (Rebased base symbol ''Symbol'') (\<lambda>symbol.
        bindE (Io_WriteU64 rebased (entry + 8) symbol) (rebase_symbols base n (entry + unat kSymEntrySize)))))"

definition RebasedSymbols :: "u8 list \<Rightarrow> u64 \<Rightarrow> u8 list patch_result" where
  "RebasedSymbols table base =
    bindE (RequireWholeEntries table (unat kSymEntrySize) ''Dynamic symbol table'') (\<lambda>_.
      rebase_symbols base (length table div unat kSymEntrySize) 0 table)"

text \<open>The switch over the type of a relocation: what it does to the addend, or that it stops.\<close>

definition rebase_addend :: "u64 \<Rightarrow> u32 \<Rightarrow> nat \<Rightarrow> u8 list \<Rightarrow> u8 list patch_result" where
  "rebase_addend base type entry rebased =
    (if type = R_X86_64_RELATIVE \<or> type = R_X86_64_IRELATIVE
     then bindE (ReadU64 rebased (entry + 16)) (\<lambda>addend.
       if sint addend < 0
       then layout_error (''Relocation target -'' @ decimal (nat (- sint addend)) @ '' lies below the image at a fixed Linux base'')
       else bindE (Rebased base addend ''Relocation target'') (Io_WriteU64 rebased (entry + 16)))
     else if type \<in> {R_X86_64_64, R_X86_64_PC32, R_X86_64_COPY, R_X86_64_GLOB_DAT, R_X86_64_JUMP_SLOT, R_X86_64_32,
       R_X86_64_32S, R_X86_64_DTPMOD64, R_X86_64_DTPOFF64, R_X86_64_TPOFF64}
     then Inr rebased
     else layout_error (''Relocation type '' @ decimal (unat type) @ '' cannot be placed at a fixed Linux base''))"

fun rebase_relocations :: "u64 \<Rightarrow> nat \<Rightarrow> nat \<Rightarrow> u8 list \<Rightarrow> u8 list patch_result" where
  "rebase_relocations base 0 entry rebased = Inr rebased"
| "rebase_relocations base (Suc n) entry rebased =
    bindE (ReadU64 rebased (entry + 8)) (\<lambda>info.
      let type = ucast info :: u32 in
      if type = R_X86_64_NONE then rebase_relocations base n (entry + unat kRelaEntrySize) rebased
      else bindE (rebase_addend base type entry rebased) (\<lambda>rebased.
        bindE (ReadU64 rebased entry) (\<lambda>off. bindE (Rebased base off ''Relocation offset'') (\<lambda>off.
          bindE (Io_WriteU64 rebased entry off) (rebase_relocations base n (entry + unat kRelaEntrySize))))))"

definition RebasedRelocations :: "u8 list \<Rightarrow> u64 \<Rightarrow> u8 list patch_result" where
  "RebasedRelocations table base =
    bindE (RequireWholeEntries table (unat kRelaEntrySize) ''Relocation table'') (\<lambda>_.
      rebase_relocations base (length table div unat kRelaEntrySize) 0 table)"

definition rebase_program_header :: "u8 list \<Rightarrow> nat \<Rightarrow> u64 \<Rightarrow> u8 list patch_result" where
  "rebase_program_header buf header base =
    bindE (ReadU32 buf (header + kPhdrTypeOffset)) (\<lambda>type.
      if type = PT_NULL \<or> type = PT_GNU_STACK then Inr buf
      else bindE (ReadU64 buf (header + kPhdrVaddrOffset)) (\<lambda>address.
        bindE (Rebased base address ''Program header address'') (\<lambda>address.
        bindE (ReadU64 buf (header + kPhdrPaddrOffset)) (\<lambda>physical.
        bindE (Rebased base physical ''Program header physical address'') (\<lambda>physical.
        bindE (if type = PT_LOAD
          then bindE (ReadU64 buf (header + kPhdrAlignOffset)) (\<lambda>alignment.
            if alignment > 1 \<and> base mod alignment \<noteq> 0
            then layout_error (''Fixed Linux base '' @ Hex base @ '' is not a multiple of the PT_LOAD alignment '' @ Hex alignment)
            else bindE (ReadU64 buf (header + kPhdrMemSizeOffset)) (\<lambda>memorySize.
              if memorySize > kLinuxUserAddressEnd - address
              then layout_error (''PT_LOAD at '' @ Hex address @ '' ends outside the Linux user address space'')
              else Inr ()))
          else Inr ()) (\<lambda>_.
        bindE (Io_WriteU64 buf (header + kPhdrVaddrOffset) address) (\<lambda>buf.
          Io_WriteU64 buf (header + kPhdrPaddrOffset) physical)))))))"

text \<open>\<open>RebaseProgramHeaders\<close>: the entries from \<open>index\<close> on.\<close>

fun rebase_headers_from :: "nat \<Rightarrow> nat \<Rightarrow> u8 list \<Rightarrow> u64 \<Rightarrow> u16 \<Rightarrow> u64 \<Rightarrow> u8 list patch_result" where
  "rebase_headers_from 0 index buf tableOffset entrySize base = Inr buf"
| "rebase_headers_from (Suc n) index buf tableOffset entrySize base =
    bindE (rebase_program_header buf (unat (tableOffset + of_nat index * ucast entrySize)) base) (\<lambda>buf.
      rebase_headers_from n (Suc index) buf tableOffset entrySize base)"

definition RebaseProgramHeaders :: "u8 list \<Rightarrow> u64 \<Rightarrow> u16 \<Rightarrow> u16 \<Rightarrow> u64 \<Rightarrow> u8 list patch_result" where
  "RebaseProgramHeaders buf tableOffset entrySize entries base =
    rebase_headers_from (unat entries) 0 buf tableOffset entrySize base"

subsection \<open>The tables behind the image\<close>

record SysVDynamicSection =
  DynamicSegmentData :: "u8 list"
  DynSymData :: "u8 list"
  DynStrData :: "u8 list"
  RelaData :: "u8 list"
  RelaPltData :: "u8 list"

text \<open>\<open>address\<close> and \<open>table\<close> of \<open>Patch\<close>.\<close>

definition patch_address :: "u64 option \<Rightarrow> u64 \<Rightarrow> u64 patch_result" where
  "patch_address fixedBase vaddr = (case fixedBase of None \<Rightarrow> Inr vaddr | Some base \<Rightarrow> Rebased base vaddr ''Address'')"

definition patch_table :: "u64 option \<Rightarrow> u8 list \<Rightarrow> bool \<Rightarrow> u8 list patch_result" where
  "patch_table fixedBase data relocations =
    (case fixedBase of None \<Rightarrow> Inr data
     | Some base \<Rightarrow> if relocations then RebasedRelocations data base else RebasedSymbols data base)"

text \<open>\<open>alignBuf\<close>.\<close>

definition alignBuf :: "u8 list \<Rightarrow> nat \<Rightarrow> u8 list" where
  "alignBuf b alignment = b @ replicate ((alignment - length b mod alignment) mod alignment) 0"

text \<open>
  An unchecked load of \<open>n\<close> bytes; the header has been written to before, so that the buffer holds all of it.
\<close>

definition load_at :: "nat \<Rightarrow> u8 list \<Rightarrow> nat \<Rightarrow> 'a::len word" where
  "load_at n buf off = le_word (take n (drop off buf))"

text \<open>
  The identification and the section fields of the ELF header. The first four stores are unchecked: on a buffer of fewer
  than 18 bytes they are undefined in C++ and have no effect here, and the checked store after them throws.
\<close>

definition reset_header :: "u64 option \<Rightarrow> u8 list \<Rightarrow> u8 list patch_result" where
  "reset_header fixedBase buf =
    (let type = (if fixedBase = None then ET_DYN else ET_EXEC);
         buf = buf[kEhdrOsAbiOffset := 0];
         buf = buf[kEhdrAbiVersionOffset := 0];
         buf = buf[kEhdrTypeOffset := ucast (type AND 0xFF)];
         buf = buf[kEhdrTypeOffset + 1 := ucast (drop_bit 8 type AND 0xFF)] in
     bindE (WriteU64 buf kEhdrShOffOffset 0) (\<lambda>buf.
     bindE (WriteU16 buf kEhdrShNumOffset 0) (\<lambda>buf.
       WriteU16 buf kEhdrShStrNdxOffset 0)))"

record table_places =
  tp_dynStrOff :: u64
  tp_runPathStrOff :: u64
  tp_dynStrSize :: u64
  tp_dynSymOff :: u64
  tp_hashOff :: u64
  tp_relaOff :: u64
  tp_relaPltOff :: u64

text \<open>The hash table: one bucket that chains the symbols from the first on.\<close>

definition symbol_hash :: "u32 \<Rightarrow> u8 list" where
  "symbol_hash symbolCount =
    fold (\<lambda>index buf. AppendU32 buf (if index \<noteq> 0 \<and> of_nat index + 1 < symbolCount then of_nat index + 1 else 0))
      [0..<unat symbolCount]
      (AppendU32 (AppendU32 (AppendU32 [] 1) symbolCount) (if symbolCount > 1 then 1 else 0))"

definition append_tables ::
    "u64 option \<Rightarrow> SysVDynamicSection \<Rightarrow> string \<Rightarrow> u8 list \<Rightarrow> (table_places \<times> u8 list) patch_result" where
  "append_tables fixedBase dynSection runPath buf =
    (let dynStrOff = of_nat (length buf) :: u64;
         buf = buf @ DynStrData dynSection;
         runPathStrOff = of_nat (length buf) - dynStrOff;
         buf = buf @ map of_char runPath @ [0];
         dynStrSize = of_nat (length buf) - dynStrOff;
         buf = alignBuf buf kDynStrAlignment;
         dynSymOff = of_nat (length buf) in
     bindE (patch_table fixedBase (DynSymData dynSection) False) (\<lambda>symbols.
       let buf = alignBuf (buf @ symbols) kDynSymAlignment;
           hashOff = of_nat (length buf);
           symbolCount = of_nat (length (DynSymData dynSection) div unat kSymEntrySize);
           buf = alignBuf (buf @ symbol_hash symbolCount) kDynSymAlignment;
           relaOff = of_nat (length buf) in
     bindE (patch_table fixedBase (RelaData dynSection) True) (\<lambda>relocations.
       let buf = alignBuf (buf @ relocations) kRelaAlignment;
           relaPltOff = of_nat (length buf) in
     bindE (patch_table fixedBase (RelaPltData dynSection) True) (\<lambda>pltRelocations.
       Inr (\<lparr>tp_dynStrOff = dynStrOff, tp_runPathStrOff = runPathStrOff, tp_dynStrSize = dynStrSize, tp_dynSymOff = dynSymOff,
           tp_hashOff = hashOff, tp_relaOff = relaOff, tp_relaPltOff = relaPltOff\<rparr>,
         alignBuf (buf @ pltRelocations) kRelaPltAlignment)))))"

subsection \<open>The dynamic segment\<close>

definition appendDynEntry :: "u8 list \<Rightarrow> u64 \<Rightarrow> u64 \<Rightarrow> u8 list" where
  "appendDynEntry buf tag val = AppendU64 (AppendU64 buf tag) val"

fun append_dyn_entries :: "u8 list \<Rightarrow> (u64 \<times> u64 patch_result) list \<Rightarrow> u8 list patch_result" where
  "append_dyn_entries buf [] = Inr buf"
| "append_dyn_entries buf ((tag, val) # rest) = bindE val (\<lambda>val. append_dyn_entries (appendDynEntry buf tag val) rest)"

text \<open>The entries that \<open>Patch\<close> adds, for the address \<open>at\<close> of a position in the extra block.\<close>

definition dynamic_entries ::
    "u64 option \<Rightarrow> (u64 \<Rightarrow> u64 patch_result) \<Rightarrow> SysVDynamicSection \<Rightarrow> u64 \<Rightarrow> bool \<Rightarrow> table_places \<Rightarrow> (u64 \<times> u64 patch_result) list" where
  "dynamic_entries fixedBase at dynSection originalPltGotVaddr lazyBinding places =
    [(DT_STRTAB, at (tp_dynStrOff places)), (DT_STRSZ, Inr (tp_dynStrSize places)), (DT_SYMTAB, at (tp_dynSymOff places)),
     (DT_SYMENT, Inr kSymEntrySize), (DT_HASH, at (tp_hashOff places)), (DT_DEBUG, Inr 0)] @
    (if RelaData dynSection \<noteq> [] then
      [(DT_RELA, at (tp_relaOff places)), (DT_RELASZ, Inr (of_nat (length (RelaData dynSection)))), (DT_RELAENT, Inr kRelaEntrySize)]
     else []) @
    (if RelaPltData dynSection \<noteq> [] then
      [(DT_JMPREL, at (tp_relaPltOff places)), (DT_PLTRELSZ, Inr (of_nat (length (RelaPltData dynSection)))),
       (DT_PLTREL, Inr DT_RELA), (DT_PLTGOT, patch_address fixedBase originalPltGotVaddr)]
     else []) @
    (if \<not> lazyBinding then [(DT_FLAGS, Inr DF_BIND_NOW)] else []) @
    [(DT_RUNPATH, Inr (tp_runPathStrOff places)), (DT_NULL, Inr 0)]"

subsection \<open>\<open>Patch\<close>\<close>

definition kInterp :: "u8 list" where
  "kInterp = map of_char ''/lib64/ld-linux-x86-64.so.2'' @ [0]"

text \<open>The program header table moves behind the interpreter's path when the guest's table has too few slots.\<close>

definition place_header_table ::
    "u64 \<Rightarrow> u16 \<Rightarrow> u16 \<Rightarrow> ProgramHeader list \<Rightarrow> u8 list \<Rightarrow> (u64 \<times> u16 \<times> u8 list) patch_result" where
  "place_header_table phOff phEntSize phNum originalHeaders buf =
    (let required = RequiredProgramHeaderCount originalHeaders in
     if required > unat phNum \<and> int required \<le> 65535
     then let buf = alignBuf buf (unat kPhdrHeaderAlignment); tableOff = of_nat (length buf);
           buf = buf @ replicate (required * unat phEntSize) 0 in
       bindE (WriteU64 buf kEhdrPhOffOffset tableOff) (\<lambda>buf. Inr (tableOff, of_nat required, buf))
     else Inr (phOff, phNum, buf))"

text \<open>
  From the appended tables on: the dynamic segment, the entry stub, the stubs of the trampolines, the interpreter's path
  and the program header table are appended; the outcome is the buffer and the places of what the headers point to.
\<close>

definition append_code ::
    "u64 option \<Rightarrow> SysVDynamicSection \<Rightarrow> u64 \<Rightarrow> bool \<Rightarrow> TrampolineSite list \<Rightarrow> table_places \<Rightarrow> u64 \<Rightarrow>
      u8 list \<Rightarrow> (u64 \<times> u64 \<times> u64 \<times> u64 \<times> u64 \<times> u8 list) patch_result" where
  "append_code fixedBase dynSection originalPltGotVaddr lazyBinding trampolines places extraBlockVaddr buf =
    (let vaddrOf = vaddrOfExtraBlockOffset (tp_dynStrOff places) extraBlockVaddr;
         at = (\<lambda>off. bindE (vaddrOf off) (patch_address fixedBase)) in
     bindE (append_dyn_entries (DynamicSegmentData dynSection)
       (dynamic_entries fixedBase at dynSection originalPltGotVaddr lazyBinding places)) (\<lambda>dynSegBuf.
       let dynSegOff = of_nat (length buf);
           buf = buf @ dynSegBuf;
           realEntryVaddr = load_at 8 buf kEhdrEntryOffset;
           stubOff = of_nat (length buf) in
     bindE (vaddrOf stubOff) (\<lambda>stubVaddr.
     bindE (patch_address fixedBase stubVaddr) (\<lambda>stubAddress.
     bindE (patch_address fixedBase realEntryVaddr) (\<lambda>entryAddress.
     bindE (BuildEntryStub stubAddress entryAddress) (\<lambda>stubBytes.
     bindE (WriteU64 (buf @ stubBytes) kEhdrEntryOffset stubAddress) (\<lambda>buf.
     bindE (append_trampolines vaddrOf (unat (tp_dynStrOff places)) trampolines buf) (\<lambda>buf.
       Inr (dynSegOff, of_nat (length dynSegBuf), stubOff, of_nat (length stubBytes), of_nat (length buf), buf @ kInterp)))))))))"

text \<open>The headers: the program header table, and the section header table behind everything.\<close>

definition write_layout_headers ::
    "u64 option \<Rightarrow> ProgramHeader list \<Rightarrow> SysVDynamicSection \<Rightarrow> table_places \<Rightarrow> u64 \<Rightarrow> u64 \<Rightarrow> u16 \<Rightarrow> u64 \<Rightarrow> u16 \<Rightarrow>
      u64 \<times> u64 \<times> u64 \<times> u64 \<times> u64 \<Rightarrow> u8 list \<Rightarrow> u8 list patch_result" where
  "write_layout_headers fixedBase originalHeaders dynSection places extraBlockVaddr phOff phEntSize tableOff tableSlots pl buf =
    (case pl of (dynSegOff, dynSegSize, stubOff, stubSize, interpOff) \<Rightarrow>
     let layoutRequest = \<lparr>PhOff = tableOff, PhEntSize = phEntSize, PhNum = tableSlots, OriginalHeaders = originalHeaders,
           ExtraBlockOffset = tp_dynStrOff places, ExtraBlockVaddr = extraBlockVaddr,
           ExtraBlockSize = of_nat (length buf) - tp_dynStrOff places, DynamicSegmentOffset = dynSegOff,
           DynamicSegmentSize = dynSegSize, InterpOffset = interpOff, InterpSize = of_nat (length kInterp)\<rparr> in
     bindE (WriteLayout buf layoutRequest) (\<lambda>(writtenPh, buf).
     bindE (WriteU16 buf kEhdrPhNumOffset writtenPh) (\<lambda>buf.
     bindE (case fixedBase of None \<Rightarrow> Inr buf | Some base \<Rightarrow> RebaseProgramHeaders buf phOff phEntSize writtenPh base) (\<lambda>buf.
       WriteTable buf \<lparr>sr_DynStrOffset = tp_dynStrOff places, sr_DynStrSize = tp_dynStrSize places,
         sr_DynSymOffset = tp_dynSymOff places, sr_DynSymSize = of_nat (length (DynSymData dynSection)),
         sr_DynamicSegmentOffset = dynSegOff, sr_DynamicSegmentSize = dynSegSize,
         sr_StubOffset = stubOff, sr_StubSize = stubSize\<rparr>))))"

definition Patch ::
    "u64 option \<Rightarrow> u8 list \<Rightarrow> ProgramHeader list \<Rightarrow> SysVDynamicSection \<Rightarrow> u64 \<Rightarrow> string \<Rightarrow> bool \<Rightarrow> bool \<Rightarrow> TrampolineSite list \<Rightarrow>
      u8 list patch_result" where
  "Patch fixedBase sourceElf originalHeaders dynSection originalPltGotVaddr runPath lazyBinding dependencyDiagnostics trampolines =
    (if dependencyDiagnostics then layout_error ''Linux target does not support --windows-diagnostics''
     else if fixedBase \<noteq> None \<and> lazyBinding
     then layout_error ''A fixed Linux base requires eager binding; --lazy-binding is incompatible''
     else bindE (if fixedBase \<noteq> None then RequireOnlyDependencies (DynamicSegmentData dynSection) else Inr ()) (\<lambda>_.
     bindE (reset_header fixedBase sourceElf) (\<lambda>buf.
       let phOff = load_at 8 buf kEhdrPhOffOffset;
           phEntSize = load_at 2 buf kEhdrPhEntSizeOffset;
           phNum = load_at 2 buf kEhdrPhNumOffset in
     bindE (append_tables fixedBase dynSection runPath buf) (\<lambda>(places, buf).
     bindE (ComputeExtraBlockVaddr originalHeaders (tp_dynStrOff places)) (\<lambda>extraBlockVaddr.
     bindE (append_code fixedBase dynSection originalPltGotVaddr lazyBinding trampolines places extraBlockVaddr buf)
       (\<lambda>(dynSegOff, dynSegSize, stubOff, stubSize, interpOff, buf).
     bindE (place_header_table phOff phEntSize phNum originalHeaders buf) (\<lambda>(tableOff, tableSlots, buf).
       write_layout_headers fixedBase originalHeaders dynSection places extraBlockVaddr phOff phEntSize tableOff tableSlots
         (dynSegOff, dynSegSize, stubOff, stubSize, interpOff) buf)))))))"

end
