(* ===== verification/Fixed_Base.thy ===== *)
theory Fixed_Base
  imports Linux_Patcher Program_Table
begin

text \<open>
  Tables at a fixed base: the loops that rebase a table in place, entry by entry, are maps over its entries.
\<close>

subsection \<open>Relocations\<close>

record rela =
  r_offset :: u64
  r_info :: u64
  r_addend :: u64

definition rela_bytes :: "rela \<Rightarrow> u8 list" where
  "rela_bytes r = le_bytes 8 (r_offset r) @ le_bytes 8 (r_info r) @ le_bytes 8 (r_addend r)"

lemma length_rela_bytes [simp]: "length (rela_bytes r) = 24"
  by (simp add: rela_bytes_def)

definition at_base :: "u64 \<Rightarrow> u64 \<Rightarrow> bool" where
  "at_base base address \<longleftrightarrow> base \<le> kLinuxUserAddressEnd \<and> address \<le> kLinuxUserAddressEnd - base"

lemma Rebased_Inr: "Rebased base address what = Inr v \<longleftrightarrow> at_base base address \<and> v = base + address"
  by (auto simp: Rebased_def at_base_def not_less)

definition r_type :: "rela \<Rightarrow> u32" where
  "r_type r = ucast (r_info r)"

definition symbol_types :: "u32 set" where
  "symbol_types = {R_X86_64_64, R_X86_64_PC32, R_X86_64_COPY, R_X86_64_GLOB_DAT, R_X86_64_JUMP_SLOT, R_X86_64_32,
     R_X86_64_32S, R_X86_64_DTPMOD64, R_X86_64_DTPOFF64, R_X86_64_TPOFF64}"

definition address_types :: "u32 set" where
  "address_types = {R_X86_64_RELATIVE, R_X86_64_IRELATIVE}"

text \<open>What becomes of an entry: nothing at all, its place moves, or its place and the address that it holds move.\<close>

definition rebase_rela :: "u64 \<Rightarrow> rela \<Rightarrow> rela option" where
  "rebase_rela base r =
    (if r_type r = R_X86_64_NONE then Some r
     else if r_type r \<in> address_types \<and> 0 \<le> sint (r_addend r) \<and> at_base base (r_addend r) \<and> at_base base (r_offset r)
     then Some (r\<lparr>r_addend := base + r_addend r, r_offset := base + r_offset r\<rparr>)
     else if r_type r \<in> symbol_types \<and> at_base base (r_offset r) then Some (r\<lparr>r_offset := base + r_offset r\<rparr>)
     else None)"

lemma split_write: "length front = n \<Longrightarrow> length old = length bs \<Longrightarrow> write_bytes (front @ old @ rest) n bs = front @ bs @ rest"
  by (simp add: write_bytes_def)

lemma read_at_front:
  "length front = n \<Longrightarrow> read_le message 8 (front @ le_bytes 8 v @ rest) n = Inr (v :: u64)"
  by (simp add: read_le_def codec)

lemma entry_reads:
  fixes r :: rela
  assumes "length front = n"
  shows "ReadU64 (front @ rela_bytes r @ rest) n = Inr (r_offset r)" "ReadU64 (front @ rela_bytes r @ rest) (n + 8) = Inr (r_info r)"
    "ReadU64 (front @ rela_bytes r @ rest) (n + 16) = Inr (r_addend r)"
  using assms read_at_front [of front n _ "r_offset r"] read_at_front [of "front @ le_bytes 8 (r_offset r)" "n + 8" _ "r_info r"]
    read_at_front [of "front @ le_bytes 8 (r_offset r) @ le_bytes 8 (r_info r)" "n + 16" _ "r_addend r"]
  by (simp_all add: ReadU64_def rela_bytes_def)

lemma entry_writes:
  fixes r :: rela
  assumes "length front = n"
  shows "Io_WriteU64 (front @ rela_bytes r @ rest) n v = Inr (front @ rela_bytes (r\<lparr>r_offset := v\<rparr>) @ rest)"
    "Io_WriteU64 (front @ rela_bytes r @ rest) (n + 16) v = Inr (front @ rela_bytes (r\<lparr>r_addend := v\<rparr>) @ rest)"
  using assms split_write [of front n "le_bytes 8 (r_offset r)" "le_bytes 8 v"]
    split_write [of "front @ le_bytes 8 (r_offset r) @ le_bytes 8 (r_info r)" "n + 16" "le_bytes 8 (r_addend r)" "le_bytes 8 v"]
  by (simp_all add: Io_WriteU64_def write_le_Inr rela_bytes_def)

lemma rebase_addend_entry:
  assumes "length front = n" "r_type r \<noteq> R_X86_64_NONE"
  shows "rebase_addend base (r_type r) n (front @ rela_bytes r @ rest) = Inr out \<longleftrightarrow>
    r_type r \<in> address_types \<and> 0 \<le> sint (r_addend r) \<and> at_base base (r_addend r) \<and>
      out = front @ rela_bytes (r\<lparr>r_addend := base + r_addend r\<rparr>) @ rest \<or>
    r_type r \<notin> address_types \<and> r_type r \<in> symbol_types \<and> out = front @ rela_bytes r @ rest"
proof (cases "r_type r \<in> address_types")
  case True
  then show ?thesis
    using entry_reads(3) [OF assms(1)] entry_writes(2) [OF assms(1)]
    by (auto simp: rebase_addend_def address_types_def bindE_eq_Inr Rebased_Inr)
next
  case False
  then show ?thesis by (auto simp: rebase_addend_def address_types_def symbol_types_def)
qed

lemma rebase_relocations_entries:
  "rebase_relocations base (length rs) (length front) (front @ concat (map rela_bytes rs)) = Inr out \<longleftrightarrow>
    (\<exists>rs'. those (map (rebase_rela base) rs) = Some rs' \<and> out = front @ concat (map rela_bytes rs'))"
proof (induction rs arbitrary: front)
  case (Cons r rs)
  let ?n = "length front" and ?rest = "concat (map rela_bytes rs)"
  let ?next = "\<lambda>r'. rebase_relocations base (length rs) (?n + 24) (front @ rela_bytes r' @ ?rest)"
  have IH: "?next r' = Inr out \<longleftrightarrow>
      (\<exists>rs'. those (map (rebase_rela base) rs) = Some rs' \<and> out = front @ rela_bytes r' @ concat (map rela_bytes rs'))" for r'
    using Cons.IH [of "front @ rela_bytes r'"] by simp
  have entry: "unat kRelaEntrySize = 24" by (simp add: kRelaEntrySize_def)
  have "rebase_relocations base (length (r # rs)) ?n (front @ concat (map rela_bytes (r # rs))) = Inr out \<longleftrightarrow>
      (\<exists>r'. rebase_rela base r = Some r' \<and> ?next r' = Inr out)"
  proof (cases "r_type r = R_X86_64_NONE")
    case True
    then show ?thesis using entry_reads(2) [of front ?n r ?rest]
      by (simp add: rebase_rela_def r_type_def [symmetric] entry)
  next
    case False
    note add = rebase_addend_entry [where front = front and n = ?n and base = base and rest = ?rest, OF refl False]
    have reads: "ReadU64 (front @ rela_bytes r' @ ?rest) ?n = Inr (r_offset r')" for r' by (rule entry_reads) simp
    have writes: "Io_WriteU64 (front @ rela_bytes r' @ ?rest) ?n v = Inr (front @ rela_bytes (r'\<lparr>r_offset := v\<rparr>) @ ?rest)" for r' v
      by (rule entry_writes) simp
    have disjoint: "t \<notin> symbol_types" if "t \<in> address_types" for t
      using that by (auto simp: address_types_def symbol_types_def elf_defs)
    have "rebase_relocations base (length (r # rs)) ?n (front @ concat (map rela_bytes (r # rs))) = Inr out \<longleftrightarrow>
        (\<exists>mid. rebase_addend base (r_type r) ?n (front @ rela_bytes r @ ?rest) = Inr mid \<and>
          (\<exists>off. ReadU64 mid ?n = Inr off \<and> at_base base off \<and>
            (\<exists>last. Io_WriteU64 mid ?n (base + off) = Inr last \<and> rebase_relocations base (length rs) (?n + 24) last = Inr out)))"
      using False entry_reads(2) [of front ?n r ?rest]
      by (simp add: r_type_def [symmetric] entry bindE_eq_Inr Rebased_Inr)
    also have "\<dots> \<longleftrightarrow> (\<exists>r'. rebase_rela base r = Some r' \<and> ?next r' = Inr out)"
      unfolding add rebase_rela_def using False disjoint [of "r_type r"] by (auto simp: reads writes)
    finally show ?thesis .
  qed
  also have "\<dots> \<longleftrightarrow> (\<exists>rs'. those (map (rebase_rela base) (r # rs)) = Some rs' \<and> out = front @ concat (map rela_bytes rs'))"
    unfolding IH by (cases "rebase_rela base r") auto
  finally show ?case .
qed auto

lemma length_entries: "length (concat (map rela_bytes rs)) = 24 * length rs"
  by (induction rs) simp_all

subsection \<open>Symbols\<close>

record sym =
  s_name :: u32
  s_info :: u8
  s_other :: u8
  s_section :: u16
  s_value :: u64
  s_size :: u64

definition sym_bytes :: "sym \<Rightarrow> u8 list" where
  "sym_bytes s = le_bytes 4 (s_name s) @ [s_info s, s_other s] @ le_bytes 2 (s_section s) @ le_bytes 8 (s_value s) @ le_bytes 8 (s_size s)"

lemma length_sym_bytes [simp]: "length (sym_bytes s) = 24"
  by (simp add: sym_bytes_def)

text \<open>A symbol without an address in the image stays as it is.\<close>

definition fixed_symbol :: "sym \<Rightarrow> bool" where
  "fixed_symbol s \<longleftrightarrow> s_section s = SHN_UNDEF \<or> s_section s = SHN_ABS \<or> s_info s AND 0xf = STT_TLS"

definition rebase_sym :: "u64 \<Rightarrow> sym \<Rightarrow> sym option" where
  "rebase_sym base s =
    (if fixed_symbol s then Some s
     else if s_section s < SHN_LORESERVE \<and> at_base base (s_value s) then Some (s\<lparr>s_value := base + s_value s\<rparr>) else None)"

lemma symbol_reads:
  fixes s :: sym
  assumes "length front = n"
  shows "ReadU16 (front @ sym_bytes s @ rest) (n + 6) = Inr (s_section s)" "ReadU64 (front @ sym_bytes s @ rest) (n + 8) = Inr (s_value s)"
    "(front @ sym_bytes s @ rest) ! (n + 4) = s_info s"
    "Io_WriteU64 (front @ sym_bytes s @ rest) (n + 8) v = Inr (front @ sym_bytes (s\<lparr>s_value := v\<rparr>) @ rest)"
proof -
  let ?head = "le_bytes 4 (s_name s) @ [s_info s, s_other s]"
  show "ReadU16 (front @ sym_bytes s @ rest) (n + 6) = Inr (s_section s)"
    using assms by (simp add: ReadU16_def read_le_def sym_bytes_def codec)
  show "ReadU64 (front @ sym_bytes s @ rest) (n + 8) = Inr (s_value s)"
    using assms read_at_front [of "front @ ?head @ le_bytes 2 (s_section s)" "n + 8"] by (simp add: ReadU64_def sym_bytes_def)
  show "(front @ sym_bytes s @ rest) ! (n + 4) = s_info s" using assms by (simp add: sym_bytes_def nth_append)
  show "Io_WriteU64 (front @ sym_bytes s @ rest) (n + 8) v = Inr (front @ sym_bytes (s\<lparr>s_value := v\<rparr>) @ rest)"
    using assms split_write [of "front @ ?head @ le_bytes 2 (s_section s)" "n + 8" "le_bytes 8 (s_value s)" "le_bytes 8 v"]
    by (simp add: Io_WriteU64_def write_le_Inr sym_bytes_def)
qed

lemma rebase_symbols_entries:
  "rebase_symbols base (length ss) (length front) (front @ concat (map sym_bytes ss)) = Inr out \<longleftrightarrow>
    (\<exists>ss'. those (map (rebase_sym base) ss) = Some ss' \<and> out = front @ concat (map sym_bytes ss'))"
proof (induction ss arbitrary: front)
  case (Cons s ss)
  let ?n = "length front" and ?rest = "concat (map sym_bytes ss)"
  let ?next = "\<lambda>s'. rebase_symbols base (length ss) (?n + 24) (front @ sym_bytes s' @ ?rest)"
  have IH: "?next s' = Inr out \<longleftrightarrow>
      (\<exists>ss'. those (map (rebase_sym base) ss) = Some ss' \<and> out = front @ sym_bytes s' @ concat (map sym_bytes ss'))" for s'
    using Cons.IH [of "front @ sym_bytes s'"] by simp
  have "rebase_symbols base (length (s # ss)) ?n (front @ concat (map sym_bytes (s # ss))) = Inr out \<longleftrightarrow>
      (\<exists>s'. rebase_sym base s = Some s' \<and> ?next s' = Inr out)"
    using symbol_reads [of front ?n s ?rest]
    by (auto simp: rebase_sym_def fixed_symbol_def kSymEntrySize_def bindE_eq_Inr Rebased_Inr not_le)
  also have "\<dots> \<longleftrightarrow> (\<exists>ss'. those (map (rebase_sym base) (s # ss)) = Some ss' \<and> out = front @ concat (map sym_bytes ss'))"
    unfolding IH by (cases "rebase_sym base s") auto
  finally show ?case .
qed auto

subsection \<open>The contract\<close>

text \<open>C19. The tables of a file with a fixed base: rebasing the bytes of a relocation or symbol table in place is rebasing
  its entries one by one. It succeeds when every entry can be rebased, and then gives the bytes of the rebased entries;
  the relocation of an address moves the address as well, thread-local, absolute and undefined symbols stay.\<close>

theorem fixed_base_tables:
  "(RebasedRelocations (concat (map rela_bytes rs)) base = Inr out \<longleftrightarrow>
      (\<exists>rs'. those (map (rebase_rela base) rs) = Some rs' \<and> out = concat (map rela_bytes rs'))) \<and>
   (RebasedSymbols (concat (map sym_bytes ss)) base = Inr out \<longleftrightarrow>
      (\<exists>ss'. those (map (rebase_sym base) ss) = Some ss' \<and> out = concat (map sym_bytes ss')))"
proof
  have "length (concat (map rela_bytes rs)) = 24 * length rs" by (rule length_entries)
  then show "RebasedRelocations (concat (map rela_bytes rs)) base = Inr out \<longleftrightarrow>
      (\<exists>rs'. those (map (rebase_rela base) rs) = Some rs' \<and> out = concat (map rela_bytes rs'))"
    using rebase_relocations_entries [of base rs "[]" out] by (simp add: RebasedRelocations_def RequireWholeEntries_def kRelaEntrySize_def)
  have "length (concat (map sym_bytes ss)) = 24 * length ss" by (induction ss) simp_all
  then show "RebasedSymbols (concat (map sym_bytes ss)) base = Inr out \<longleftrightarrow>
      (\<exists>ss'. those (map (rebase_sym base) ss) = Some ss' \<and> out = concat (map sym_bytes ss'))"
    using rebase_symbols_entries [of base ss "[]" out] by (simp add: RebasedSymbols_def RequireWholeEntries_def kSymEntrySize_def)
qed

end
