(* ===== verification/Frame.thy ===== *)
theory Frame
  imports Byte_Codec
begin

text \<open>Buffers that grow: which positions of a buffer a sequence of writes and appends may have changed.\<close>

definition frame :: "nat set \<Rightarrow> u8 list \<Rightarrow> u8 list \<Rightarrow> bool" where
  "frame S a b \<longleftrightarrow> length a \<le> length b \<and> (\<forall>i < length a. i \<notin> S \<longrightarrow> b ! i = a ! i)"

lemma frame_refl [simp]: "frame S a a"
  by (simp add: frame_def)

lemma frame_append [simp]: "frame S a (a @ t)"
  by (simp add: frame_def nth_append)

lemma frame_trans: "frame S a b \<Longrightarrow> frame T b c \<Longrightarrow> frame (S \<union> T) a c"
  by (auto simp: frame_def)

lemma frame_mono: "frame S a b \<Longrightarrow> S \<subseteq> T \<Longrightarrow> frame T a b"
  by (auto simp: frame_def)

lemma frame_length: "frame S a b \<Longrightarrow> length a \<le> length b"
  by (simp add: frame_def)

lemma frame_nth: "frame S a b \<Longrightarrow> i < length a \<Longrightarrow> i \<notin> S \<Longrightarrow> b ! i = a ! i"
  by (simp add: frame_def)

lemma frame_update [simp]: "frame {i} a (a[i := v])"
  by (simp add: frame_def)

lemma frame_write: "off + length bs \<le> length a \<Longrightarrow> frame {off..<off + length bs} a (write_bytes a off bs)"
  by (simp add: frame_def nth_write_bytes)

lemma write_le_frame:
  assumes "write_le message n a off v = Inr b"
  shows "frame {off..<off + n} a b" "length b = length a" "off + n \<le> length a" "take n (drop off b) = le_bytes n v"
  using assms frame_write [of off "le_bytes n v" a] window_write_same [of off "le_bytes n v" a] by (auto simp: write_le_eq_Inr)

lemma frame_window:
  assumes "frame S a b" "off + n \<le> length a" "{off..<off + n} \<inter> S = {}"
  shows "take n (drop off b) = take n (drop off a)"
proof (rule nth_equalityI)
  show "length (take n (drop off b)) = length (take n (drop off a))" using assms(1,2) by (auto dest: frame_length)
  fix i assume "i < length (take n (drop off b))"
  then have i: "i < n" by simp
  then have "off + i \<in> {off..<off + n}" by simp
  with assms(3) have "off + i \<notin> S" by blast
  then have "b ! (off + i) = a ! (off + i)" using assms(1,2) i by (intro frame_nth) simp_all
  with i assms(1,2) show "take n (drop off b) ! i = take n (drop off a) ! i" by (auto dest: frame_length)
qed

end
