(* ===== verification/Linux_Patcher_Props.thy ===== *)
theory Linux_Patcher_Props
  imports Linux_Patcher Frame
begin

text \<open>What each stage of the Linux patcher changes in the buffer.\<close>

subsection \<open>The stages\<close>

lemma header_offsets:
  "kEhdrOsAbiOffset = 7" "kEhdrAbiVersionOffset = 8" "kEhdrTypeOffset = 16" "kEhdrEntryOffset = 24"
  "kEhdrPhOffOffset = 32" "kEhdrShOffOffset = 40" "kEhdrPhEntSizeOffset = 54" "kEhdrPhNumOffset = 56" "kEhdrShEntSizeOffset = 58"
  "kEhdrShNumOffset = 60" "kEhdrShStrNdxOffset = 62"
  by (simp_all add: elf_defs)

definition identity_fields :: "nat set" where
  "identity_fields = {7, 8, 16, 17} \<union> {40..<48} \<union> {60..<64}"

lemma reset_header_Inr:
  assumes "reset_header fixedBase src = Inr buf"
  shows "frame identity_fields src buf" "length buf = length src" "64 \<le> length src"
proof -
  let ?t = "if fixedBase = None then ET_DYN else ET_EXEC"
  let ?a = "src[7 := 0, 8 := 0, 16 := ucast (?t AND 0xFF), 16 + 1 := ucast (drop_bit 8 ?t AND 0xFF)]"
  from assms obtain b c where w: "WriteU64 ?a 40 0 = Inr b" "WriteU16 b 60 0 = Inr c" "WriteU16 c 62 0 = Inr buf"
    unfolding reset_header_def Let_def header_offsets bindE_eq_Inr by (elim exE conjE) (rule that)
  note w = w [unfolded writes, THEN write_le_frame(1)] w [unfolded writes, THEN write_le_frame(2)]
    w [unfolded writes, THEN write_le_frame(3)]
  have "frame {7, 8, 16, 17} src ?a" by (simp add: frame_def)
  from frame_trans [OF frame_trans [OF frame_trans [OF this w(1)] w(2)] w(3)]
  show "frame identity_fields src buf" by (rule frame_mono) (auto simp: identity_fields_def)
  show "length buf = length src" "64 \<le> length src" using w(4-9) by simp_all
qed

lemma alignBuf: "\<exists>t. alignBuf buf n = buf @ t"
  by (simp add: alignBuf_def)

lemma append_tables_Inr:
  assumes "append_tables fixedBase dynSection runPath buf = Inr (places, out)"
  shows "(\<exists>t. out = buf @ t) \<and> tp_dynStrOff places = of_nat (length buf)"
proof -
  have grows: "\<exists>t. alignBuf (buf @ x) n = buf @ t" for x n using alignBuf [of "buf @ x" n] by auto
  define b1 where "b1 = alignBuf ((buf @ DynStrData dynSection) @ map of_char runPath @ [0]) kDynStrAlignment"
  have 1: "\<exists>t. b1 = buf @ t" unfolding b1_def using grows by (simp del: append.simps)
  from assms obtain symbols relocations plt where t: "patch_table fixedBase (DynSymData dynSection) False = Inr symbols"
    "patch_table fixedBase (RelaData dynSection) True = Inr relocations"
    "patch_table fixedBase (RelaPltData dynSection) True = Inr plt"
    unfolding append_tables_def Let_def bindE_eq_Inr by (elim exE conjE) (rule that)
  have step: "\<exists>t. alignBuf (b @ x) n = buf @ t" if "\<exists>t. b = buf @ t" for b x n
    using that alignBuf [of "b @ x" n] by auto
  show ?thesis
    using assms step [OF step [OF step [OF step [OF 1]]]]
    unfolding append_tables_def Let_def t bindE_simps b1_def by auto
qed

lemma slot_limit: "int n \<le> 65535 \<longleftrightarrow> n \<le> 65535"
  by simp

lemma place_header_table_cases:
  assumes "place_header_table phOff phEntSize phNum phs buf = Inr (tableOff, tableSlots, out)"
  obtains "tableOff = phOff" "tableSlots = phNum" "out = buf"
  | t k where "unat phNum < RequiredProgramHeaderCount phs" "RequiredProgramHeaderCount phs \<le> 65535"
      "tableOff = of_nat (length (buf @ t))" "tableSlots = of_nat (RequiredProgramHeaderCount phs)"
      "write_le ''ByteWriter::WriteU64 out of bounds'' 8 ((buf @ t) @ replicate k 0) 32 tableOff = Inr out"
proof (cases "RequiredProgramHeaderCount phs > unat phNum \<and> RequiredProgramHeaderCount phs \<le> 65535")
  case True
  obtain t where t: "alignBuf buf (unat kPhdrHeaderAlignment) = buf @ t" using alignBuf by blast
  let ?b = "(buf @ t) @ replicate (RequiredProgramHeaderCount phs * unat phEntSize) 0"
  from True assms have "bindE (write_le ''ByteWriter::WriteU64 out of bounds'' 8 ?b 32 (of_nat (length (buf @ t)) :: u64))
      (\<lambda>b. Inr (of_nat (length (buf @ t)), of_nat (RequiredProgramHeaderCount phs), b)) = Inr (tableOff, tableSlots, out)"
    unfolding place_header_table_def Let_def header_offsets t WriteU64_def slot_limit by (simp only: simp_thms if_True)
  then have "write_le ''ByteWriter::WriteU64 out of bounds'' 8 ?b 32 tableOff = Inr out" "tableOff = of_nat (length (buf @ t))"
    "tableSlots = of_nat (RequiredProgramHeaderCount phs)"
    by (auto simp: bindE_eq_Inr simp del: append_assoc length_append of_nat_add)
  with True show thesis by (intro that(2) [of t]) (simp_all only: simp_thms)
next
  case False
  with assms show thesis by (intro that(1)) (simp_all add: place_header_table_def Let_def slot_limit)
qed

lemma place_header_table_Inr:
  assumes "place_header_table phOff phEntSize phNum phs buf = Inr (tableOff, tableSlots, out)" "length out < 2 ^ 64"
  shows "frame {32..<40} buf out \<and>
     (tableOff = phOff \<and> tableSlots = phNum \<and> out = buf \<or>
      length buf \<le> unat tableOff \<and> unat tableOff \<le> length out \<and> take 8 (drop 32 out) = le_bytes 8 tableOff \<and>
      unat phNum < unat tableSlots)"
  using assms(1)
proof (cases rule: place_header_table_cases)
  case (2 t k)
  note w = write_le_frame [OF 2(5)]
  have "frame {32..<40} buf out" using frame_trans [of "{}" buf "(buf @ t) @ replicate k 0" "{32..<40}" out] w(1) by simp
  moreover have "length (buf @ t) < 2 ^ 64" using w(2) assms(2) by simp
  then have "unat tableOff = length (buf @ t)" unfolding 2(3) by (rule unat_of_nat64)
  moreover have "unat tableSlots = RequiredProgramHeaderCount phs" using 2(2,4) by (simp add: unat_of_nat take_bit_nat_eq_self)
  ultimately show ?thesis using w(2,4) 2(1) by simp
qed simp

lemma write_le_take:
  "write_le message n buf off v = Inr out \<Longrightarrow> k \<le> off \<Longrightarrow> length out = length buf \<and> take k out = take k buf"
  by (auto simp: write_le_eq_Inr write_bytes_def)

lemma writeSectionHeader_Inr:
  assumes "writeSectionHeader buf off sh = Inr out" "k \<le> off"
  shows "length out = length buf \<and> take k out = take k buf"
proof -
  from assms(1) obtain b1 b2 b3 b4 b5 b6 b7 b8 b9 where w:
    "WriteU32 buf (off + kShdrNameOffset) (sh_nameOff sh) = Inr b1" "WriteU32 b1 (off + kShdrTypeOffset) (sh_type sh) = Inr b2"
    "WriteU64 b2 (off + kShdrFlagsOffset) (sh_flags sh) = Inr b3" "WriteU64 b3 (off + kShdrAddrOffset) (sh_addr sh) = Inr b4"
    "WriteU64 b4 (off + kShdrFileOffsetOffset) (sh_fileOffset sh) = Inr b5" "WriteU64 b5 (off + kShdrSizeOffset) (sh_size sh) = Inr b6"
    "WriteU32 b6 (off + kShdrLinkOffset) (sh_link sh) = Inr b7" "WriteU32 b7 (off + kShdrInfoOffset) (sh_info sh) = Inr b8"
    "WriteU64 b8 (off + kShdrAlignOffset) (sh_align sh) = Inr b9" "WriteU64 b9 (off + kShdrEntSizeOffset) (sh_entSize sh) = Inr out"
    unfolding writeSectionHeader_def bindE_eq_Inr by (elim exE conjE) (rule that)
  have "k \<le> off + x" for x using assms(2) by simp
  from w [unfolded writes, THEN write_le_take, OF this] show ?thesis by simp
qed

lemma write_sections_Inr:
  "write_sections buf off hs = Inr out \<Longrightarrow> k \<le> off \<Longrightarrow> length out = length buf \<and> take k out = take k buf"
proof (induction hs arbitrary: buf off)
  case (Cons h hs)
  from Cons.prems(1) obtain b where b: "writeSectionHeader buf off h = Inr b" "write_sections b (off + kShdrEntrySize) hs = Inr out"
    by (auto simp: bindE_eq_Inr)
  have "k \<le> off + kShdrEntrySize" using Cons.prems(2) by simp
  from Cons.IH [OF b(2) this] writeSectionHeader_Inr [OF b(1) Cons.prems(2)] show ?case by simp
qed simp

lemma WriteTable_Inr:
  assumes "WriteTable buf req = Inr out"
  shows "frame ({40..<48} \<union> {58..<64}) buf out"
proof -
  obtain named a b c d hs where w: "named = buf @ kShStrTabBlob"
    "write_sections (named @ replicate (kShdrEntrySize * kSectionHeaderCount) 0) (length named) hs = Inr a"
    "WriteU64 a 40 (of_nat (length named)) = Inr b" "WriteU16 b 58 (of_nat kShdrEntrySize) = Inr c"
    "WriteU16 c 60 (of_nat kSectionHeaderCount) = Inr d" "WriteU16 d 62 (ucast kShStrTabIndex) = Inr out"
    using assms unfolding WriteTable_def Let_def header_offsets
    by (auto simp: bindE_eq_Inr simp del: append_assoc split: if_splits)
  from write_sections_Inr [OF w(2) order_refl]
  have a: "length named \<le> length a" "take (length named) a = named" by simp_all
  then have "a = named @ drop (length named) a" by (metis append_take_drop_id)
  then have "frame {} buf a" unfolding w(1) by (metis append_assoc frame_append)
  from frame_trans [OF frame_trans [OF frame_trans [OF frame_trans [OF this
      w(3) [unfolded writes, THEN write_le_frame(1)]] w(4) [unfolded writes, THEN write_le_frame(1)]]
      w(5) [unfolded writes, THEN write_le_frame(1)]] w(6) [unfolded writes, THEN write_le_frame(1)]]
  show ?thesis by (rule frame_mono) auto
qed

subsection \<open>The whole run\<close>

lemma patch_address_None [simp]: "patch_address None v = Inr v"
  by (simp add: patch_address_def)

text \<open>The steps of \<open>append_code\<close>.\<close>

lemma append_code_Inr:
  assumes "append_code fixedBase dynSection pltGot lazy sites places extraVaddr buf = Inr (dynSegOff, dynSegSize, stubOff, stubSize, interpOff, out)"
  obtains seg stubVaddr stubAddress entryAddress stubBytes b1 b2 where
    "vaddrOfExtraBlockOffset (tp_dynStrOff places) extraVaddr (of_nat (length (buf @ seg))) = Inr stubVaddr"
    "patch_address fixedBase stubVaddr = Inr stubAddress"
    "patch_address fixedBase (load_at 8 (buf @ seg) 24) = Inr entryAddress"
    "BuildEntryStub stubAddress entryAddress = Inr stubBytes"
    "write_le ''ByteWriter::WriteU64 out of bounds'' 8 ((buf @ seg) @ stubBytes) 24 stubAddress = Inr b1"
    "append_trampolines (vaddrOfExtraBlockOffset (tp_dynStrOff places) extraVaddr) (unat (tp_dynStrOff places)) sites b1 = Inr b2"
    "out = b2 @ kInterp" "dynSegOff = of_nat (length buf)" "dynSegSize = of_nat (length seg)" "stubOff = of_nat (length (buf @ seg))"
    "stubSize = of_nat (length stubBytes)" "interpOff = of_nat (length b2)"
  using assms unfolding append_code_def Let_def header_offsets WriteU64_def bindE_eq_Inr prod.inject sum.inject
  by (elim exE conjE) (rule that, assumption+, simp_all only:)

lemma Patch_Inr:
  assumes "Patch fixedBase src phs dynSection pltGot runPath lazy diagnostics sites = Inr out"
  obtains h places t extraVaddr dynSegOff dynSegSize stubOff stubSize interpOff code tableOff tableSlots placed where
    "reset_header fixedBase src = Inr h"
    "append_tables fixedBase dynSection runPath h = Inr (places, h @ t)"
    "ComputeExtraBlockVaddr phs (tp_dynStrOff places) = Inr extraVaddr"
    "append_code fixedBase dynSection pltGot lazy sites places extraVaddr (h @ t) =
       Inr (dynSegOff, dynSegSize, stubOff, stubSize, interpOff, code)"
    "place_header_table (load_at 8 h 32) (load_at 2 h 54) (load_at 2 h 56) phs code = Inr (tableOff, tableSlots, placed)"
    "write_layout_headers fixedBase phs dynSection places extraVaddr (load_at 8 h 32) (load_at 2 h 54) tableOff tableSlots
       (dynSegOff, dynSegSize, stubOff, stubSize, interpOff) placed = Inr out"
proof -
  have "\<not> diagnostics" by (rule notI) (use assms in \<open>simp add: Patch_def\<close>)
  moreover have "\<not> (fixedBase \<noteq> None \<and> lazy)"
    by (rule notI, cases diagnostics) (use assms in \<open>simp_all add: Patch_def del: not_None_eq\<close>)
  ultimately have "\<not> diagnostics" "\<not> (fixedBase \<noteq> None \<and> lazy)" .
  note run = assms [unfolded Patch_def Let_def header_offsets if_not_P [OF this(1)] if_not_P [OF this(2)] bindE_eq_Inr]
  from run obtain h where h: "reset_header fixedBase src = Inr h"
    and "\<exists>a. append_tables fixedBase dynSection runPath h = Inr a \<and> (case a of (places, buf) \<Rightarrow>
      \<exists>v. ComputeExtraBlockVaddr phs (tp_dynStrOff places) = Inr v \<and>
       (\<exists>c. append_code fixedBase dynSection pltGot lazy sites places v buf = Inr c \<and> (case c of
         (dynSegOff, dynSegSize, stubOff, stubSize, interpOff, buf) \<Rightarrow>
         \<exists>p. place_header_table (load_at 8 h 32) (load_at 2 h 54) (load_at 2 h 56) phs buf = Inr p \<and> (case p of
           (tableOff, tableSlots, buf) \<Rightarrow> write_layout_headers fixedBase phs dynSection places v (load_at 8 h 32) (load_at 2 h 54)
             tableOff tableSlots (dynSegOff, dynSegSize, stubOff, stubSize, interpOff) buf = Inr out))))"
    by (auto simp: bindE_eq_Inr)
  then obtain places buf v dynSegOff dynSegSize stubOff stubSize interpOff code tableOff tableSlots placed where
    "append_tables fixedBase dynSection runPath h = Inr (places, buf)" "ComputeExtraBlockVaddr phs (tp_dynStrOff places) = Inr v"
    "append_code fixedBase dynSection pltGot lazy sites places v buf = Inr (dynSegOff, dynSegSize, stubOff, stubSize, interpOff, code)"
    "place_header_table (load_at 8 h 32) (load_at 2 h 54) (load_at 2 h 56) phs code = Inr (tableOff, tableSlots, placed)"
    "write_layout_headers fixedBase phs dynSection places v (load_at 8 h 32) (load_at 2 h 54) tableOff tableSlots
       (dynSegOff, dynSegSize, stubOff, stubSize, interpOff) placed = Inr out"
    by (auto simp: split_paired_all)
  moreover from append_tables_Inr [OF this(1)] obtain t where "buf = h @ t" by blast
  ultimately show thesis using that [OF h] by blast
qed

text \<open>The layout request, and the two header tables it leads to.\<close>

lemma write_layout_headers_Inr:
  assumes "write_layout_headers fixedBase phs dynSection places extraVaddr phOff phEntSize tableOff tableSlots
    (dynSegOff, dynSegSize, stubOff, stubSize, interpOff) buf = Inr out"
  obtains req n b1 b2 b3 sr where
    "PhOff req = tableOff" "PhEntSize req = phEntSize" "PhNum req = tableSlots" "OriginalHeaders req = phs"
    "ExtraBlockOffset req = tp_dynStrOff places" "ExtraBlockVaddr req = extraVaddr"
    "ExtraBlockSize req = of_nat (length buf) - tp_dynStrOff places"
    "WriteLayout buf req = Inr (n, b1)" "write_le ''ByteWriter::WriteU16 out of bounds'' 2 b1 56 n = Inr b2"
    "(case fixedBase of None \<Rightarrow> Inr b2 | Some base \<Rightarrow> RebaseProgramHeaders b2 phOff phEntSize n base) = Inr b3"
    "WriteTable b3 sr = Inr out"
proof -
  let ?req = "\<lparr>PhOff = tableOff, PhEntSize = phEntSize, PhNum = tableSlots, OriginalHeaders = phs,
           ExtraBlockOffset = tp_dynStrOff places, ExtraBlockVaddr = extraVaddr,
           ExtraBlockSize = of_nat (length buf) - tp_dynStrOff places, DynamicSegmentOffset = dynSegOff,
           DynamicSegmentSize = dynSegSize, InterpOffset = interpOff, InterpSize = of_nat (length kInterp)\<rparr>"
  from assms obtain n b1 b2 b3 sr where "WriteLayout buf ?req = Inr (n, b1)" "WriteU16 b1 56 n = Inr b2"
    "(case fixedBase of None \<Rightarrow> Inr b2 | Some base \<Rightarrow> RebaseProgramHeaders b2 phOff phEntSize n base) = Inr b3"
    "WriteTable b3 sr = Inr out"
    unfolding write_layout_headers_def Let_def header_offsets by (auto simp: bindE_eq_Inr split_paired_all)
  then show thesis by (intro that [of ?req n b1 b2 b3 sr]) (simp_all add: WriteU16_def)
qed

end
