(* ===== verification/Patched_Program.thy ===== *)
theory Patched_Program
  imports Linux_Patcher_Props Trampoline_Linking Program_Layout_Contract Elf_Reader_Props
begin

text \<open>The program that the Linux patcher writes: the output as the ELF reader, and the loader, see it.\<close>

subsection \<open>The entry stub\<close>

definition call_at :: "u8 list \<Rightarrow> nat \<Rightarrow> u64 \<Rightarrow> u64 \<Rightarrow> bool" where
  "call_at bytes pos source target \<longleftrightarrow> pos + 5 \<le> length bytes \<and> bytes ! pos = 0xE8 \<and>
     (\<exists>disp. read_s32 bytes (pos + 1) = Inr disp \<and> source + 5 + word_of_int disp = target)"

lemma length_stub_prologue [simp]: "length stub_prologue = 17"
  by (simp add: stub_prologue_def elf_defs)

lemma low_bytes:
  "[ucast (v AND 0xff), ucast (drop_bit 8 v AND 0xff), ucast (drop_bit 16 v AND 0xff), ucast (drop_bit 24 v AND 0xff)] =
    le32_bytes (v :: u32)"
proof -
  have "w AND 0xff = take_bit 8 w" for w :: u32 by (simp add: take_bit_eq_mask mask_eq_exp_minus_1)
  then have "ucast (w AND 0xff) = (ucast w :: u8)" for w :: u32 by (intro bit_word_eqI) (simp add: bit_simps)
  then show ?thesis by (simp add: le32_bytes_def)
qed

lemma BuildEntryStub_Inr:
  assumes "BuildEntryStub vaddr entry = Inr s"
  shows "length s = 24 \<and> take 17 s = stub_prologue \<and> call_at s 17 (vaddr + 17) entry"
proof -
  let ?d = "sint (entry - (vaddr + 17 + 5))" and ?rel = "word_of_int (sint (entry - (vaddr + 17 + 5))) :: u32"
  from assms have d: "- (2 ^ 31) \<le> ?d" "?d \<le> 2 ^ 31 - 1"
    and s: "s = stub_prologue @ [0xE8] @ le32_bytes ?rel @ [0x0f, 0x0b]"
    unfolding BuildEntryStub_def Let_def low_bytes
    by (auto simp: kStubCallInstructionSize_def kStubOpCallRel32_def kStubOpUd2_def not_less split: if_splits)
  have "s = write_bytes (stub_prologue @ [0xE8] @ replicate 4 0 @ [0x0f, 0x0b]) 18 (le32_bytes ?rel)"
    by (simp add: s write_bytes_def)
  also have "read_s32 \<dots> 18 = Inr ?d" using d by (intro read_s32_write_same) simp_all
  finally have "read_s32 s (17 + 1) = Inr ?d" by simp
  moreover have "vaddr + 17 + 5 + word_of_int ?d = entry" by simp
  ultimately show ?thesis unfolding call_at_def by (auto simp: s nth_append simp del: of_int_sint)
qed

subsection \<open>The ELF header\<close>

lemma read_at_ok: "unat off + n \<le> length file \<Longrightarrow> n < 2 ^ 64 \<Longrightarrow> read_at n file off = Inr (le_word (take n (drop (unat off) file)))"
  by (simp add: read_at_def rangeFits_def)

definition file_header :: "u8 list \<Rightarrow> ElfHeader" where
  "file_header file =
    \<lparr>Machine = le_word (take 2 (drop 18 file)), eh_Type = le_word (take 2 (drop 16 file)), OsAbi = file ! 7, AbiVersion = file ! 8,
      EntryPoint = le_word (take 8 (drop 24 file)), ProgramHeaderOffset = le_word (take 8 (drop 32 file)),
      SectionHeaderOffset = le_word (take 8 (drop 40 file)),
      ProgramHeaderEntrySize = ucast (le_word (take 2 (drop 54 file)) :: u16),
      ProgramHeaderCount = le_word (take 2 (drop 56 file)),
      SectionHeaderEntrySize = ucast (le_word (take 2 (drop 58 file)) :: u16),
      SectionHeaderCount = le_word (take 2 (drop 60 file)), SectionHeaderStringIndex = le_word (take 2 (drop 62 file))\<rparr>"

definition known_identity :: "u8 list \<Rightarrow> bool" where
  "known_identity file \<longleftrightarrow> (le_word (take 4 file) :: u32) \<notin> {0x1d3d154f, 0xeef51454} \<and>
     file ! 0 = 0x7f \<and> file ! 1 = 0x45 \<and> file ! 2 = 0x4c \<and> file ! 3 = 0x46 \<and> file ! 4 = 2 \<and> file ! 5 = 1 \<and> file ! 6 = 1 \<and>
     (le_word (take 2 (drop 18 file)) :: u16) = 62 \<and> (le_word (take 4 (drop 20 file)) :: u32) = 1 \<and>
     (le_word (take 2 (drop 52 file)) :: u16) = 64"

lemma ReadHeader_Inr: "ReadHeader file = Inr h \<longleftrightarrow> 64 \<le> length file \<and> known_identity file \<and> h = file_header file"
proof (cases "64 \<le> length file")
  case True
  have at: "unat off + n \<le> 64 \<Longrightarrow> read_at n file off = Inr (le_word (take n (drop (unat off) file)))" for n and off :: u64
    using True by (intro read_at_ok) simp_all
  have "readU8At file 7 = Inr (file ! 7)" "readU8At file 8 = Inr (file ! 8)" using True by (simp_all add: readU8At_def)
  then show ?thesis
    using True by (auto simp: ReadHeader_def known_identity_def file_header_def readU16At_def readU32At_def readU64At_def at)
qed (simp add: ReadHeader_def)

text \<open>The fields of the ELF header that the patcher writes; \<open>patched_header\<close> are their positions.\<close>

definition patched_header :: "nat set" where
  "patched_header = {7, 8, 16, 17} \<union> {24..<48} \<union> {56..<64}"

lemma ReadHeader_frame:
  assumes "ReadHeader src = Inr h" "frame S src out" "S \<inter> {0..<64} \<subseteq> patched_header"
  shows "ReadHeader out = Inr (file_header out) \<and> take 2 (drop 54 out) = take 2 (drop 54 src)"
proof -
  from assms(1) have src: "64 \<le> length src" "known_identity src" by (simp_all add: ReadHeader_Inr)
  then have len: "64 \<le> length out" using frame_length [OF assms(2)] by simp
  have same: "take n (drop k out) = take n (drop k src)" if "k + n \<le> 64" "{k..<k + n} \<inter> patched_header = {}" for k n
    using that assms(3) src(1) by (intro frame_window [OF assms(2)]) auto
  have "{0..<4} \<inter> patched_header = {}" "{18..<20} \<inter> patched_header = {}" "{20..<24} \<inter> patched_header = {}"
    "{52..<54} \<inter> patched_header = {}" "{54..<56} \<inter> patched_header = {}"
    by (auto simp: patched_header_def)
  then have "take 4 out = take 4 src" "take 2 (drop 18 out) = take 2 (drop 18 src)" "take 4 (drop 20 out) = take 4 (drop 20 src)"
    "take 2 (drop 52 out) = take 2 (drop 52 src)" "take 2 (drop 54 out) = take 2 (drop 54 src)"
    using same [of 0 4] same [of 18 2] same [of 20 4] same [of 52 2] same [of 54 2] by simp_all
  moreover have "out ! i = src ! i" if "i < 7" for i
    using that assms(3) src(1) by (intro frame_nth [OF assms(2)]) (auto simp: patched_header_def)
  ultimately show ?thesis using src(2) len by (simp add: ReadHeader_Inr known_identity_def)
qed

subsection \<open>Rebasing program headers\<close>

lemma rebase_program_header_frame:
  assumes "rebase_program_header buf header base = Inr out"
  shows "frame {header + 16..<header + 32} buf out"
proof -
  from assms have "out = buf \<or> (\<exists>mid v p. Io_WriteU64 buf (header + 16) v = Inr mid \<and> Io_WriteU64 mid (header + 24) p = Inr out)"
    by (auto simp: rebase_program_header_def bindE_eq_Inr elf_defs split: if_splits)
  then show ?thesis
  proof
    assume "\<exists>mid v p. Io_WriteU64 buf (header + 16) v = Inr mid \<and> Io_WriteU64 mid (header + 24) p = Inr out"
    then obtain mid v p where w: "Io_WriteU64 buf (header + 16) v = Inr mid" "Io_WriteU64 mid (header + 24) p = Inr out" by blast
    from frame_trans [OF w(1) [unfolded Io_WriteU64_def, THEN write_le_frame(1)] w(2) [unfolded Io_WriteU64_def, THEN write_le_frame(1)]]
    show ?thesis by (rule frame_mono) auto
  qed simp
qed

lemma rebase_headers_length: "rebase_headers_from n index buf off stride base = Inr out \<Longrightarrow> length buf \<le> length out"
  by (induction n arbitrary: index buf) (fastforce simp: bindE_eq_Inr dest: rebase_program_header_frame [THEN frame_length])+

lemma rebased_length:
  assumes "(case fixedBase of None \<Rightarrow> Inr buf | Some base \<Rightarrow> RebaseProgramHeaders buf off stride n base) = Inr out"
  shows "length buf \<le> length out"
  using assms rebase_headers_length by (cases fixedBase) (fastforce simp: RebaseProgramHeaders_def)+

lemma rebase_headers_frame:
  assumes "rebase_headers_from n index buf off stride base = Inr out" "32 \<le> unat stride"
    and "unat off + (index + n) * unat stride < 2 ^ 64"
  shows "frame {unat off..<unat off + (index + n) * unat stride} buf out"
  using assms(1,3)
proof (induction n arbitrary: index buf)
  case (Suc n)
  let ?at = "unat off + index * unat stride"
  have le: "Suc index * unat stride \<le> (index + Suc n) * unat stride" by (intro mult_le_mono1) simp
  have "?at \<le> unat off + (index + Suc n) * unat stride" by (intro add_left_mono mult_le_mono1) simp
  then have small: "?at < 2 ^ 64" using Suc.prems(2) by (rule le_less_trans)
  have s: "ucast stride = (of_nat (unat stride) :: u64)" by (metis unat_ucast16 of_nat_unat ucast_id)
  have i: "unat (of_nat index * ucast stride :: u64) = index * unat stride"
    unfolding s of_nat_mult [symmetric] using small by (intro unat_of_nat64) simp
  have at: "unat (off + of_nat index * ucast stride) = ?at"
    using small i by (simp add: unat_word_ariths)
  from Suc.prems(1) obtain mid where mid: "rebase_program_header buf ?at base = Inr mid"
    "rebase_headers_from n (Suc index) mid off stride base = Inr out"
    by (auto simp: bindE_eq_Inr at)
  have "unat off + (Suc index + n) * unat stride < 2 ^ 64" using Suc.prems(2) by simp
  from frame_trans [OF rebase_program_header_frame [OF mid(1)] Suc.IH [OF mid(2) this]]
  show ?case
  proof (rule frame_mono)
    have "?at + 32 \<le> unat off + Suc index * unat stride" using assms(2) by simp
    also have "\<dots> \<le> unat off + (index + Suc n) * unat stride" using le by (rule add_left_mono)
    finally have "?at + 32 \<le> unat off + (index + Suc n) * unat stride" .
    then show "{?at + 16..<?at + 32} \<union> {unat off..<unat off + (Suc index + n) * unat stride} \<subseteq>
        {unat off..<unat off + (index + Suc n) * unat stride}" by auto
  qed
qed simp

subsection \<open>The buffers of a run\<close>

lemma unat_of_nat_le: "unat (of_nat n :: 'a::len word) \<le> n"
  by (simp add: unat_of_nat take_bit_nat_less_eq_self)

lemma load_at_frame: "frame S a b \<Longrightarrow> off + n \<le> length a \<Longrightarrow> {off..<off + n} \<inter> S = {} \<Longrightarrow> load_at n b off = load_at n a off"
  by (simp only: load_at_def frame_window)

lemma WriteLayout_length:
  assumes "WriteLayout buf req = Inr (n, out)"
  shows "length out = length buf"
proof -
  obtain plan layout where w: "plan_layout (length buf) req = Inr plan"
    "write_headers buf (unat (PhOff req)) (unat (PhEntSize req)) layout = Inr out" by (rule WriteLayout_Inr [OF assms])
  have "56 \<le> unat (PhEntSize req)" using table_size [OF w(1)] by blast
  with write_headers_Inr [OF w(2)] show ?thesis by blast
qed

lemma place_header_table_slots:
  assumes "place_header_table phOff stride phNum phs buf = Inr (tableOff, slots, out)" "length out < 2 ^ 64"
  shows "frame {32..<40} buf out \<and>
    (tableOff = phOff \<and> slots = phNum \<and> out = buf \<or>
     length buf \<le> unat tableOff \<and> take 8 (drop 32 out) = le_bytes 8 tableOff \<and> unat slots = RequiredProgramHeaderCount phs) \<and>
    (unat phNum < RequiredProgramHeaderCount phs \<and> RequiredProgramHeaderCount phs \<le> 65535 \<longrightarrow>
      length buf \<le> unat tableOff \<and> take 8 (drop 32 out) = le_bytes 8 tableOff \<and> unat slots = RequiredProgramHeaderCount phs)"
proof (cases "unat phNum < RequiredProgramHeaderCount phs \<and> RequiredProgramHeaderCount phs \<le> 65535")
  case True
  then have "slots = of_nat (RequiredProgramHeaderCount phs)"
    using assms(1) unfolding place_header_table_def Let_def slot_limit by (auto simp: bindE_eq_Inr)
  then have "unat slots = RequiredProgramHeaderCount phs" using True by (simp add: unat_of_nat take_bit_nat_eq_self)
  then show ?thesis using place_header_table_Inr [OF assms] True by auto
next
  case False
  then have "tableOff = phOff \<and> slots = phNum \<and> out = buf"
    using assms(1) unfolding place_header_table_def Let_def slot_limit by auto
  with False show ?thesis by simp
qed

text \<open>
  A successful run, by its buffers: \<open>B\<close> ends before the entry stub, \<open>b1\<close> before and \<open>b2\<close> behind the stubs of the
  trampolines, \<open>placed\<close> has room for the program headers of \<open>l1\<close>, whose number \<open>l2\<close> has and which \<open>l3\<close> has rebased.
\<close>

lemma Patch_stages:
  assumes "Patch fixedBase src phs dynSection pltGot runPath lazy diagnostics sites = Inr out" "length out < 2 ^ 64"
    and "\<forall>s \<in> set sites. stub_of (site_body s) \<and> length (site_Body s) < 2 ^ 31" "sorted_wrt disjoint_sites sites"
  obtains B stubVaddr stubAddress entryAddress stubBytes b1 b2 placed req n l1 l2 l3 where
    "frame identity_fields src B" "64 \<le> length src"
    "vaddrOfExtraBlockOffset (of_nat (length src)) (ExtraBlockVaddr req) (of_nat (length B)) = Inr stubVaddr"
    "patch_address fixedBase stubVaddr = Inr stubAddress" "patch_address fixedBase (load_at 8 src 24) = Inr entryAddress"
    "BuildEntryStub stubAddress entryAddress = Inr stubBytes"
    "frame {24..<32} (B @ stubBytes) b1" "take 8 (drop 24 b1) = le_bytes 8 stubAddress"
    "append_trampolines (vaddrOfExtraBlockOffset (of_nat (length src)) (ExtraBlockVaddr req)) (length src) sites b1 = Inr b2"
    "frame {32..<40} b2 placed"
    "PhOff req = load_at 8 src 32 \<and> PhNum req = load_at 2 src 56 \<and> take 8 (drop 32 placed) = take 8 (drop 32 b2) \<or>
     length b2 \<le> unat (PhOff req) \<and> take 8 (drop 32 placed) = le_bytes 8 (PhOff req) \<and>
     unat (PhNum req) = RequiredProgramHeaderCount phs"
    "unat (load_at 2 src 56 :: u16) < RequiredProgramHeaderCount phs \<and> RequiredProgramHeaderCount phs \<le> 65535 \<longrightarrow>
     length b2 \<le> unat (PhOff req) \<and> take 8 (drop 32 placed) = le_bytes 8 (PhOff req) \<and>
     unat (PhNum req) = RequiredProgramHeaderCount phs"
    "PhEntSize req = load_at 2 src 54" "OriginalHeaders req = phs" "ExtraBlockOffset req = of_nat (length src)"
    "ExtraBlockSize req = of_nat (length placed) - of_nat (length src)"
    "WriteLayout placed req = Inr (n, l1)" "frame {56..<58} l1 l2" "take 2 (drop 56 l2) = le_bytes 2 n"
    "(case fixedBase of None \<Rightarrow> Inr l2 | Some base \<Rightarrow> RebaseProgramHeaders l2 (load_at 8 src 32) (load_at 2 src 54) n base) = Inr l3"
    "frame ({40..<48} \<union> {58..<64}) l3 out" "length placed \<le> length out"
proof -
  obtain h places t extraVaddr dynSegOff dynSegSize stubOff stubSize interpOff code tableOff tableSlots placed where run:
    "reset_header fixedBase src = Inr h"
    "append_tables fixedBase dynSection runPath h = Inr (places, h @ t)"
    "append_code fixedBase dynSection pltGot lazy sites places extraVaddr (h @ t) =
       Inr (dynSegOff, dynSegSize, stubOff, stubSize, interpOff, code)"
    "place_header_table (load_at 8 h 32) (load_at 2 h 54) (load_at 2 h 56) phs code = Inr (tableOff, tableSlots, placed)"
    "write_layout_headers fixedBase phs dynSection places extraVaddr (load_at 8 h 32) (load_at 2 h 54) tableOff tableSlots
       (dynSegOff, dynSegSize, stubOff, stubSize, interpOff) placed = Inr out"
    by (rule Patch_Inr [OF assms(1)])
  note h = reset_header_Inr [OF run(1)]
  have places: "tp_dynStrOff places = of_nat (length src)" using append_tables_Inr [OF run(2)] h(2) by simp
  obtain seg stubVaddr stubAddress entryAddress stubBytes b1 b2 where code:
    "vaddrOfExtraBlockOffset (tp_dynStrOff places) extraVaddr (of_nat (length ((h @ t) @ seg))) = Inr stubVaddr"
    "patch_address fixedBase stubVaddr = Inr stubAddress"
    "patch_address fixedBase (load_at 8 ((h @ t) @ seg) 24) = Inr entryAddress"
    "BuildEntryStub stubAddress entryAddress = Inr stubBytes"
    "write_le ''ByteWriter::WriteU64 out of bounds'' 8 (((h @ t) @ seg) @ stubBytes) 24 stubAddress = Inr b1"
    "append_trampolines (vaddrOfExtraBlockOffset (tp_dynStrOff places) extraVaddr) (unat (tp_dynStrOff places)) sites b1 = Inr b2"
    "code = b2 @ kInterp"
    by (rule append_code_Inr [OF run(3)])
  obtain req n l1 l2 l3 sr where layout:
    "PhOff req = tableOff" "PhEntSize req = load_at 2 h 54" "PhNum req = tableSlots" "OriginalHeaders req = phs"
    "ExtraBlockOffset req = tp_dynStrOff places" "ExtraBlockVaddr req = extraVaddr"
    "ExtraBlockSize req = of_nat (length placed) - tp_dynStrOff places"
    "WriteLayout placed req = Inr (n, l1)" "write_le ''ByteWriter::WriteU16 out of bounds'' 2 l1 56 n = Inr l2"
    "(case fixedBase of None \<Rightarrow> Inr l2 | Some base \<Rightarrow> RebaseProgramHeaders l2 (load_at 8 h 32) (load_at 2 h 54) n base) = Inr l3"
    "WriteTable l3 sr = Inr out"
    by (rule write_layout_headers_Inr [OF run(5)])
  have same: "load_at 8 h 32 = load_at 8 src 32" "load_at 2 h 54 = load_at 2 src 54" "load_at 2 h 56 = load_at 2 src 56"
    using h(3) by (auto intro!: load_at_frame [OF h(1)] simp: identity_fields_def)
  have "load_at 8 ((h @ t) @ seg) 24 = load_at 8 (h @ t @ seg) 24" by simp
  also have "\<dots> = load_at 8 h 24" using h(2,3) by (intro load_at_frame [OF frame_append [of "{}"]]) simp_all
  also have "\<dots> = load_at 8 src 24" using h(3) by (auto intro!: load_at_frame [OF h(1)] simp: identity_fields_def)
  finally have entry: "load_at 8 ((h @ t) @ seg) 24 = (load_at 8 src 24 :: u64)" .
  note w1 = write_le_frame [OF code(5)] and w2 = write_le_frame [OF layout(9)] and wt = WriteTable_Inr [OF layout(11)]
  have len: "length placed \<le> length out"
    using WriteLayout_length [OF layout(8)] w2(2) rebased_length [OF layout(10)] frame_length [OF wt] by simp
  then have small: "length placed < 2 ^ 64" using assms(2) by simp
  note pl = place_header_table_slots [OF run(4) small, unfolded same]
  have "unat (of_nat (length src) :: u64) \<le> length src" by (rule unat_of_nat_le)
  then have b1: "unat (tp_dynStrOff places) \<le> length b1" "length src \<le> length b1" using w1(2) h(2) places by simp_all
  then have b2: "length b1 \<le> length b2" using append_trampolines_linked [OF code(6) b1(1) assms(3,4)] by blast
  moreover have "length b2 \<le> length placed" using frame_length [OF conjunct1 [OF pl]] code(7) by simp
  ultimately have start: "unat (of_nat (length src) :: u64) = length src" using b1(2) small by (intro unat_of_nat64) simp
  show thesis
  proof (rule that)
    show "frame identity_fields src ((h @ t) @ seg)" using frame_trans [OF h(1) frame_append [of "{}" h "t @ seg"]] by simp
    show "vaddrOfExtraBlockOffset (of_nat (length src)) (ExtraBlockVaddr req) (of_nat (length ((h @ t) @ seg))) = Inr stubVaddr"
      using code(1) places layout(6) by simp
    show "append_trampolines (vaddrOfExtraBlockOffset (of_nat (length src)) (ExtraBlockVaddr req)) (length src) sites b1 = Inr b2"
      using code(6) places layout(6) start by simp
    show "frame {32..<40} b2 placed" using frame_trans [OF frame_append [of "{}" b2 kInterp]] conjunct1 [OF pl] code(7) by simp
    show "PhOff req = load_at 8 src 32 \<and> PhNum req = load_at 2 src 56 \<and> take 8 (drop 32 placed) = take 8 (drop 32 b2) \<or>
       length b2 \<le> unat (PhOff req) \<and> take 8 (drop 32 placed) = le_bytes 8 (PhOff req) \<and>
       unat (PhNum req) = RequiredProgramHeaderCount phs"
      using conjunct1 [OF conjunct2 [OF pl]] layout(1,3) code(7) b1(2) b2 h(3) by auto
    show "unat (load_at 2 src 56 :: u16) < RequiredProgramHeaderCount phs \<and> RequiredProgramHeaderCount phs \<le> 65535 \<longrightarrow>
       length b2 \<le> unat (PhOff req) \<and> take 8 (drop 32 placed) = le_bytes 8 (PhOff req) \<and>
       unat (PhNum req) = RequiredProgramHeaderCount phs"
      using conjunct2 [OF conjunct2 [OF pl]] layout(1,3) code(7) by auto
    show "frame {56..<58} l1 l2" using w2(1) by simp
    show "frame ({40..<48} \<union> {58..<64}) l3 out" using wt by simp
    show "(case fixedBase of None \<Rightarrow> Inr l2 | Some base \<Rightarrow> RebaseProgramHeaders l2 (load_at 8 src 32) (load_at 2 src 54) n base) = Inr l3"
      using layout(10) by (simp only: same)
  qed (use h code(2,3,4) entry w1 w2 layout places same len in \<open>simp_all\<close>)
qed

subsection \<open>The layout in the output\<close>

definition written_range :: "ProgramHeaderLayoutRequest \<Rightarrow> u16 \<Rightarrow> nat set" where
  "written_range req n = {unat (PhOff req)..<unat (PhOff req) + unat n * unat (PhEntSize req)}"

lemma check_load_mono: "check_load a ph = Inr () \<Longrightarrow> length a \<le> length b \<Longrightarrow> check_load b ph = Inr ()"
  by (auto simp: check_load_def rangeFits_def split: if_splits)

lemma WriteLayout_frame:
  assumes "WriteLayout buf req = Inr (n, out)"
  shows "frame (written_range req n) buf out" "unat (PhOff req) + unat n * unat (PhEntSize req) \<le> length buf"
    "56 \<le> unat (PhEntSize req)"
proof -
  obtain plan layout where w: "plan_layout (length buf) req = Inr plan" "build_layout req plan = Inr layout"
    "write_headers buf (unat (PhOff req)) (unat (PhEntSize req)) layout = Inr out" "n = of_nat (length layout)"
    by (rule WriteLayout_Inr [OF assms])
  note size = table_size [OF w(1)] and len = length_layout [OF w(1,2)]
  have n: "unat n = length layout" using size len w(4) by (simp add: unat_of_nat take_bit_nat_eq_self)
  show e: "56 \<le> unat (PhEntSize req)" using size by blast
  note wr = write_headers_Inr [OF w(3) e]
  show "unat (PhOff req) + unat n * unat (PhEntSize req) \<le> length buf" using size len n by simp
  have entry: "entry_at (unat (PhOff req)) (unat (PhEntSize req)) i + 56 \<le> unat (PhOff req) + unat n * unat (PhEntSize req)"
    if "i < length layout" for i
  proof -
    have "Suc i * unat (PhEntSize req) \<le> length layout * unat (PhEntSize req)" using that by (intro mult_le_mono1) simp
    then show ?thesis using e n by (simp add: entry_at_def)
  qed
  show "frame (written_range req n) buf out"
    unfolding frame_def
  proof (intro conjI allI impI)
    fix j assume j: "j < length buf" "j \<notin> written_range req n"
    have "j < entry_at (unat (PhOff req)) (unat (PhEntSize req)) i \<or> entry_at (unat (PhOff req)) (unat (PhEntSize req)) i + 56 \<le> j"
      if i: "i < length layout" for i
      using j(2) entry [OF i] by (auto simp: written_range_def entry_at_def)
    with wr j(1) show "out ! j = buf ! j" by blast
  qed (simp add: WriteLayout_length [OF assms])
qed

lemma layout_read:
  assumes "WriteLayout buf req = Inr (n, mid)" "frame S mid out" "S \<inter> written_range req n = {}" "64 \<le> length buf"
    and "\<forall>ph \<in> set (OriginalHeaders req). check_load buf ph = Inr ()" "length out < 2 ^ 64"
  obtains plan layout where "plan_layout (length buf) req = Inr plan" "build_layout req plan = Inr layout"
    "read_program_headers out (ucast (PhEntSize req)) (unat n) (PhOff req) = Inr layout" "frame (written_range req n) buf mid"
    "unat n \<le> unat (PhNum req)"
proof -
  obtain plan layout where w: "plan_layout (length buf) req = Inr plan" "build_layout req plan = Inr layout"
    "write_headers buf (unat (PhOff req)) (unat (PhEntSize req)) layout = Inr mid" "n = of_nat (length layout)"
    by (rule WriteLayout_Inr [OF assms(1)])
  note size = table_size [OF w(1)] and len = length_layout [OF w(1,2)] and mid = WriteLayout_length [OF assms(1)]
  have n: "unat n = length layout" using size len w(4) by (simp add: unat_of_nat take_bit_nat_eq_self)
  have e: "56 \<le> unat (PhEntSize req)" using size by blast
  note wr = write_headers_Inr [OF w(3) e]
  have within: "unat (PhOff req) + length layout * unat (PhEntSize req) \<le> length buf" using size len by simp
  have entry: "{entry_at (unat (PhOff req)) (unat (PhEntSize req)) i..<entry_at (unat (PhOff req)) (unat (PhEntSize req)) i + 56}
      \<subseteq> written_range req n" if "i < length layout" for i
  proof -
    have "Suc i * unat (PhEntSize req) \<le> length layout * unat (PhEntSize req)" using that by (intro mult_le_mono1) simp
    then show ?thesis using e n by (auto simp: entry_at_def written_range_def)
  qed
  have grow: "length buf \<le> length out" using frame_length [OF assms(2)] mid by simp
  have read: "read_program_headers out (ucast (PhEntSize req)) (length layout) (PhOff req) = Inr layout"
  proof (rule read_written_headers)
    fix i assume i: "i < length layout"
    let ?at = "entry_at (unat (PhOff req)) (unat (PhEntSize req)) i"
    have "take 56 (drop ?at out) = take 56 (drop ?at mid)"
      using wr i entry [OF i] assms(3) mid by (intro frame_window [OF assms(2)]) auto
    also have "\<dots> = header_bytes (layout ! i)" using wr i by blast
    finally show "take 56 (drop (entry_at (unat (PhOff req)) (unat (ucast (PhEntSize req) :: u64)) i) out) = header_bytes (layout ! i)"
      by (simp only: unat_ucast16)
  next
    fix ph assume "ph \<in> set layout"
    from layout_checks [OF w(1,2) assms(4,5) this] grow show "check_load out ph = Inr ()" by (rule check_load_mono)
  next
    show "unat (PhOff req) + length layout * unat (ucast (PhEntSize req) :: u64) \<le> length out"
      unfolding unat_ucast16 using within grow by simp
    show "length out < 2 ^ 64" by (rule assms(6))
  qed
  show thesis using that [OF w(1,2)] read n len WriteLayout_frame(1) [OF assms(1)] by simp
qed

text \<open>Code at a position of the file that an executable segment loads at an address.\<close>

definition loads_code :: "ProgramHeader list \<Rightarrow> nat \<Rightarrow> u64 \<Rightarrow> nat \<Rightarrow> bool" where
  "loads_code layout pos vaddr n \<longleftrightarrow>
     (\<exists>load \<in> set layout. maps_range load (of_nat pos) vaddr (of_nat n) \<and> ph_Flags load AND PF_X \<noteq> 0)"

lemma extra_block_loaded:
  assumes "plan_layout (length buf) req = Inr plan" "build_layout req plan = Inr layout" "length buf < 2 ^ 64"
    and "ExtraBlockOffset req = of_nat start" "ExtraBlockSize req = of_nat (length buf) - of_nat start"
    and "start \<le> pos" "pos + n \<le> length buf"
    and "vaddrOfExtraBlockOffset (of_nat start) (ExtraBlockVaddr req) (of_nat pos) = Inr vaddr"
  shows "loads_code layout pos vaddr n"
proof -
  have ev: "ExtraBlockVaddr req = lp_extraBlockVaddr plan" by (rule plan_layout_Inr [OF assms(1)])
  obtain pageEnd where extra: "extra_load req (lp_extraBlockVaddr plan) pageEnd \<in> set layout" (is "?e \<in> _")
    by (rule build_layout_Inr [OF assms(2)]) auto
  have small: "start < 2 ^ 64" "pos < 2 ^ 64" "n < 2 ^ 64" "length buf < 2 ^ 64" "start \<le> length buf" using assms(3,6,7) by linarith+
  have "of_nat (length buf) - of_nat start = (of_nat (length buf - start) :: u64)" using small(5) by simp
  then have fs: "unat (ExtraBlockSize req) = length buf - start" using small(4) unfolding assms(5) by simp
  have "vaddr = ExtraBlockVaddr req + (of_nat pos - of_nat start)"
    using assms(8) by (simp add: vaddrOfExtraBlockOffset_def split: if_splits)
  then have "maps_range ?e (of_nat pos) vaddr (of_nat n)"
    using small assms(4,6,7) fs ev by (simp add: maps_range_def extra_load_def)
  moreover have "ph_Flags ?e AND PF_X \<noteq> 0" by (simp add: extra_load_def makeLoadHeader_def elf_defs)
  ultimately show ?thesis using extra unfolding loads_code_def by blast
qed

lemma layout_keeps_loads:
  assumes "plan_layout bufSize req = Inr plan" "build_layout req plan = Inr layout"
  shows "\<forall>ph \<in> set (keptHeaders (OriginalHeaders req)). is_load ph \<longrightarrow> fix_load ph \<in> set layout"
proof -
  have "lp_kept plan = sortLoadHeaders (keptHeaders (OriginalHeaders req))" by (rule plan_layout_Inr [OF assms(1)])
  then have kept: "set (lp_kept plan) = set (keptHeaders (OriginalHeaders req))" by (simp add: sortLoadHeaders)
  obtain xs ys where "layout = xs @ map fix_load (lp_kept plan) @ ys" by (rule build_layout_Inr [OF assms(2)]) (rule that)
  then show ?thesis unfolding kept [symmetric] by simp
qed

subsection \<open>The guest and the room for the headers\<close>

definition table_range :: "ElfHeader \<Rightarrow> nat set" where
  "table_range header = {unat (ProgramHeaderOffset header)..<
     unat (ProgramHeaderOffset header) + unat (ProgramHeaderCount header) * unat (ProgramHeaderEntrySize header)}"

definition site_range :: "TrampolineSite list \<Rightarrow> nat set" where
  "site_range sites = {i. \<exists>s \<in> set sites. inside_site s i}"

text \<open>
  The program header table lies in the file behind the ELF header, and no site of a trampoline is in either of them: the
  sites are in code.
\<close>

definition header_room :: "u8 list \<Rightarrow> ElfHeader \<Rightarrow> TrampolineSite list \<Rightarrow> bool" where
  "header_room src header sites \<longleftrightarrow> 64 \<le> unat (ProgramHeaderOffset header) \<and>
     unat (ProgramHeaderOffset header) + unat (ProgramHeaderCount header) * unat (ProgramHeaderEntrySize header) \<le> length src \<and>
     site_range sites \<inter> ({0..<64} \<union> table_range header) = {}"

lemma frame_restrict: "frame S a b \<Longrightarrow> S \<inter> {0..<length a} \<subseteq> T \<Longrightarrow> frame T a b"
  by (auto simp: frame_def)

lemma site_range_within:
  assumes "append_trampolines vaddrOf extra sites buf = Inr out"
  shows "site_range sites \<subseteq> {0..<extra}"
  using append_trampolines_within [OF assms] by (fastforce simp: site_range_def inside_site_def)

lemma unat_ucast16_32: "unat (ucast v :: u32) = unat v" for v :: u16
proof -
  have "unat v < 2 ^ LENGTH(16)" by (rule unsigned_less)
  then have "unat v < 2 ^ 32" by simp
  then show ?thesis by (simp add: unsigned_ucast_eq take_bit_nat_eq_self)
qed

lemma ucast_ucast16: "ucast (ucast v :: u32) = (ucast v :: u64)" for v :: u16
  by (rule bit_word_eqI) (auto simp: bit_simps dest: bit_imp_le_length)

lemma written_range_bounds:
  assumes "n \<le> PhNum req" "header_room src header sites" "ReadHeader src = Inr header" "PhEntSize req = load_at 2 src 54"
    and "PhOff req = load_at 8 src 32 \<and> PhNum req = load_at 2 src 56 \<or> low \<le> unat (PhOff req)" "64 \<le> low"
  shows "written_range req n \<subseteq> table_range header \<union> {low..} \<and> written_range req n \<inter> {0..<64} = {}"
  using assms(5)
proof
  assume own: "PhOff req = load_at 8 src 32 \<and> PhNum req = load_at 2 src 56"
  have h: "header = file_header src" using assms(3) by (simp add: ReadHeader_Inr)
  have "unat (ProgramHeaderEntrySize header) = unat (PhEntSize req)"
    unfolding h assms(4) by (simp only: file_header_def load_at_def ElfHeader.simps unat_ucast16_32)
  moreover have off: "ProgramHeaderOffset header = PhOff req" "ProgramHeaderCount header = PhNum req"
    using own by (simp_all add: h file_header_def load_at_def)
  ultimately have table: "table_range header = {unat (PhOff req)..<unat (PhOff req) + unat (PhNum req) * unat (PhEntSize req)}"
    by (simp add: table_range_def)
  have "unat n * unat (PhEntSize req) \<le> unat (PhNum req) * unat (PhEntSize req)"
    using assms(1) by (intro mult_le_mono1) (simp add: word_le_nat_alt)
  then have "written_range req n \<subseteq> table_range header" unfolding table written_range_def by auto
  moreover have "64 \<le> unat (PhOff req)" using assms(2) off(1) by (simp add: header_room_def)
  then have "written_range req n \<inter> {0..<64} = {}" by (auto simp: written_range_def)
  ultimately show ?thesis by blast
next
  assume "low \<le> unat (PhOff req)"
  with assms(6) show ?thesis by (auto simp: written_range_def)
qed

lemma WriteLayout_slots:
  assumes "WriteLayout buf req = Inr (n, out)"
  shows "n \<le> PhNum req"
proof -
  obtain plan layout where w: "plan_layout (length buf) req = Inr plan" "build_layout req plan = Inr layout" "n = of_nat (length layout)"
    by (rule WriteLayout_Inr [OF assms])
  have "unat n \<le> length layout" unfolding w(3) by (rule unat_of_nat_le)
  with length_layout [OF w(1,2)] show ?thesis by (simp add: word_le_nat_alt)
qed

lemma call_at_window:
  assumes "call_at s k source target" "take (length s) (drop pos bytes) = s" "pos + length s \<le> length bytes"
  shows "call_at bytes (pos + k) source target"
proof -
  have "bytes ! (pos + i) = s ! i" if "i < length s" for i
    using that assms(2,3) by (metis nth_take nth_drop add_leD1)
  note at = this
  from assms(1) have k: "k + 5 \<le> length s" by (simp add: call_at_def)
  have "read_s32 bytes (pos + k + 1) = read_s32 s (k + 1)"
    using k assms(3) at [of "k + 1"] at [of "k + 1 + 1"] at [of "k + 1 + 2"] at [of "k + 1 + 3"]
    by (simp add: read_s32_def read_le32_def ac_simps)
  with assms(1,3) k at [of k] show ?thesis by (simp add: call_at_def)
qed

lemma append_trampolines_valid:
  "append_trampolines vaddrOf extra sites buf = Inr out \<Longrightarrow> s \<in> set sites \<Longrightarrow> valid_site s"
proof (induction sites arbitrary: buf)
  case (Cons t sites)
  then show ?case by (auto simp: bindE_eq_Inr appendTrampoline_def Let_def split: if_split_asm)
qed simp

lemma frame_agree: "frame S a b \<Longrightarrow> hi \<le> length a \<Longrightarrow> {lo..<hi} \<inter> S = {} \<Longrightarrow> agree a b lo hi"
  by (auto simp: agree_def frame_def disjoint_iff)

text \<open>
  The rebased headers of the output: the loop at a fixed base starts at the guest's table and has an entry for each
  program header of the output, which may be more than the table has.
\<close>

fun rebased_range :: "u64 option \<Rightarrow> ElfHeader \<Rightarrow> ProgramHeader list \<Rightarrow> nat set" where
  "rebased_range None header phs = {}"
| "rebased_range (Some base) header phs = {unat (ProgramHeaderOffset header)..<unat (ProgramHeaderOffset header) +
     max (unat (ProgramHeaderCount header)) (RequiredProgramHeaderCount phs) * unat (ProgramHeaderEntrySize header)}"

lemma rebased_table:
  assumes "WriteLayout buf req = Inr (n, l1)" "RebaseProgramHeaders l2 off (PhEntSize req) n base = Inr l3"
    and "unat off + unat n * unat (PhEntSize req) < 2 ^ 64"
  shows "frame {unat off..<unat off + unat n * unat (PhEntSize req)} l2 l3"
proof -
  have stride: "32 \<le> unat (PhEntSize req)" using WriteLayout_frame(3) [OF assms(1)] by simp
  from rebase_headers_frame [OF assms(2) [unfolded RebaseProgramHeaders_def] stride] assms(3) show ?thesis by simp
qed

text \<open>What a run changes of the image, with a fixed base or without.\<close>

lemma Patch_frame:
  assumes patch: "Patch fixedBase src phs dynSection pltGot runPath lazy diagnostics sites = Inr out" "length out < 2 ^ 64"
    and sites: "\<forall>s \<in> set sites. stub_of (site_body s) \<and> length (site_Body s) < 2 ^ 31" "sorted_wrt disjoint_sites sites"
    and guest: "ReadHeader src = Inr header" "header_room src header sites"
  shows "frame (patched_header \<union> table_range header \<union> site_range sites \<union> rebased_range fixedBase header phs) src out"
proof -
  obtain B stubVaddr stubAddress entryAddress stubBytes b1 b2 placed req n l1 l2 l3 where st:
    "frame identity_fields src B" "64 \<le> length src"
    "vaddrOfExtraBlockOffset (of_nat (length src)) (ExtraBlockVaddr req) (of_nat (length B)) = Inr stubVaddr"
    "patch_address fixedBase stubVaddr = Inr stubAddress" "patch_address fixedBase (load_at 8 src 24) = Inr entryAddress"
    "BuildEntryStub stubAddress entryAddress = Inr stubBytes"
    "frame {24..<32} (B @ stubBytes) b1" "take 8 (drop 24 b1) = le_bytes 8 stubAddress"
    "append_trampolines (vaddrOfExtraBlockOffset (of_nat (length src)) (ExtraBlockVaddr req)) (length src) sites b1 = Inr b2"
    "frame {32..<40} b2 placed"
    "PhOff req = load_at 8 src 32 \<and> PhNum req = load_at 2 src 56 \<and> take 8 (drop 32 placed) = take 8 (drop 32 b2) \<or>
     length b2 \<le> unat (PhOff req) \<and> take 8 (drop 32 placed) = le_bytes 8 (PhOff req) \<and>
     unat (PhNum req) = RequiredProgramHeaderCount phs"
    "unat (load_at 2 src 56 :: u16) < RequiredProgramHeaderCount phs \<and> RequiredProgramHeaderCount phs \<le> 65535 \<longrightarrow>
     length b2 \<le> unat (PhOff req) \<and> take 8 (drop 32 placed) = le_bytes 8 (PhOff req) \<and>
     unat (PhNum req) = RequiredProgramHeaderCount phs"
    "PhEntSize req = load_at 2 src 54" "OriginalHeaders req = phs" "ExtraBlockOffset req = of_nat (length src)"
    "ExtraBlockSize req = of_nat (length placed) - of_nat (length src)"
    "WriteLayout placed req = Inr (n, l1)" "frame {56..<58} l1 l2" "take 2 (drop 56 l2) = le_bytes 2 n"
    "(case fixedBase of None \<Rightarrow> Inr l2 | Some base \<Rightarrow> RebaseProgramHeaders l2 (load_at 8 src 32) (load_at 2 src 54) n base) = Inr l3"
    "frame ({40..<48} \<union> {58..<64}) l3 out" "length placed \<le> length out"
    by (rule Patch_stages [OF patch sites])
  have header: "ProgramHeaderOffset header = load_at 8 src 32" "ProgramHeaderCount header = load_at 2 src 56"
    "unat (ProgramHeaderEntrySize header) = unat (PhEntSize req)"
    using guest(1) by (simp_all add: ReadHeader_Inr file_header_def load_at_def unat_ucast16_32 st(13))
  have len: "length src \<le> length b1"
    using frame_length [OF st(1)] frame_length [OF st(7)] by simp
  then have f12: "frame (site_range sites) b1 b2"
    using append_trampolines_linked [OF st(9) len sites] by (simp add: frame_def site_range_def)
  have lens: "length src \<le> length b2" "64 \<le> length b2" "length b2 \<le> length placed" "length placed < 2 ^ 64"
    using frame_length [OF f12] frame_length [OF st(10)] len st(2,22) patch(2) by linarith+
  have n: "n \<le> PhNum req" by (rule WriteLayout_slots [OF st(17)])
  have wr: "written_range req n \<subseteq> table_range header \<union> {length b2..}"
    using written_range_bounds [OF n guest(2,1) st(13) _ lens(2)] st(11) by blast
  have rebased: "frame (rebased_range fixedBase header phs) l2 l3"
  proof (cases fixedBase)
    case (Some base)
    let ?e = "unat (PhEntSize req)"
    have "unat n \<le> unat (PhNum req)" using n by (simp add: word_le_nat_alt)
    moreover have "unat (PhNum req) = unat (ProgramHeaderCount header) \<or> unat (PhNum req) = RequiredProgramHeaderCount phs"
      using st(11) header(2) by auto
    ultimately have count: "unat n \<le> max (unat (ProgramHeaderCount header)) (RequiredProgramHeaderCount phs)" by linarith
    have "unat (ProgramHeaderOffset header) + unat n * ?e \<le> length placed"
      using WriteLayout_frame(2) [OF st(17)] st(11) guest(2) lens header(1) by (fastforce simp: header_room_def)
    then have "unat (ProgramHeaderOffset header) + unat n * ?e < 2 ^ 64" using lens(4) by simp
    moreover have "RebaseProgramHeaders l2 (ProgramHeaderOffset header) (PhEntSize req) n base = Inr l3"
      using st(20) unfolding Some st(13) header(1) by simp
    ultimately have "frame {unat (ProgramHeaderOffset header)..<unat (ProgramHeaderOffset header) + unat n * ?e} l2 l3"
      by (rule rebased_table [OF st(17), rotated])
    moreover have "unat n * ?e \<le> max (unat (ProgramHeaderCount header)) (RequiredProgramHeaderCount phs) * ?e"
      using count by (rule mult_le_mono1)
    then have "{unat (ProgramHeaderOffset header)..<unat (ProgramHeaderOffset header) + unat n * ?e} \<subseteq> rebased_range fixedBase header phs"
      unfolding Some by (simp add: header(3))
    ultimately show ?thesis by (rule frame_mono)
  qed (use st(20) in simp)
  have "frame (identity_fields \<union> {} \<union> {24..<32} \<union> site_range sites) src b2"
    by (rule frame_trans [OF frame_trans [OF frame_trans [OF st(1) frame_append [of "{}"]] st(7)] f12])
  note run = frame_trans [OF frame_trans [OF frame_trans [OF frame_trans [OF frame_trans [OF this st(10)] WriteLayout_frame(1) [OF st(17)]]
    st(18)] rebased] st(21)]
  show ?thesis
  proof (rule frame_restrict [OF run])
    have "written_range req n \<inter> {0..<length src} \<subseteq> table_range header" using wr lens(1) by auto
    then show "(identity_fields \<union> {} \<union> {24..<32} \<union> site_range sites \<union> {32..<40} \<union> written_range req n \<union> {56..<58} \<union>
        rebased_range fixedBase header phs \<union> ({40..<48} \<union> {58..<64})) \<inter> {0..<length src} \<subseteq>
        patched_header \<union> table_range header \<union> site_range sites \<union> rebased_range fixedBase header phs"
      by (auto simp: identity_fields_def patched_header_def)
  qed
qed

subsection \<open>The contract\<close>

lemma Patch_program:
  assumes patch: "Patch None src phs dynSection pltGot runPath lazy diagnostics sites = Inr out" "length out < 2 ^ 64"
    and sites: "\<forall>s \<in> set sites. stub_of (site_body s) \<and> length (site_Body s) < 2 ^ 31" "sorted_wrt disjoint_sites sites"
    and guest: "ReadHeader src = Inr header" "header_room src header sites" "\<forall>ph \<in> set phs. check_load src ph = Inr ()"
  obtains layout stub where
    "frame (patched_header \<union> table_range header \<union> site_range sites) src out"
    "ReadHeader out = Inr (file_header out)" "raw_program_headers out = Inr layout"
    "\<forall>ph \<in> set (keptHeaders phs). is_load ph \<longrightarrow> fix_load ph \<in> set layout"
    "loads_code layout stub (EntryPoint (file_header out)) 24"
    "take 17 (drop stub out) = stub_prologue" "call_at out (stub + 17) (EntryPoint (file_header out) + 17) (EntryPoint header)"
    "\<forall>s \<in> set sites. \<exists>pos vaddr. pos mod 16 = 0 \<and> trampoline_linked s pos vaddr out \<and> loads_code layout pos vaddr (length (site_Body s))"
proof -
  obtain B stubVaddr stubAddress entryAddress stubBytes b1 b2 placed req n l1 l2 l3 where run:
    "frame identity_fields src B" "64 \<le> length src"
    "vaddrOfExtraBlockOffset (of_nat (length src)) (ExtraBlockVaddr req) (of_nat (length B)) = Inr stubVaddr"
    "patch_address None stubVaddr = Inr stubAddress" "patch_address None (load_at 8 src 24) = Inr entryAddress"
    "BuildEntryStub stubAddress entryAddress = Inr stubBytes"
    "frame {24..<32} (B @ stubBytes) b1" "take 8 (drop 24 b1) = le_bytes 8 stubAddress"
    "append_trampolines (vaddrOfExtraBlockOffset (of_nat (length src)) (ExtraBlockVaddr req)) (length src) sites b1 = Inr b2"
    "frame {32..<40} b2 placed"
    "PhOff req = load_at 8 src 32 \<and> PhNum req = load_at 2 src 56 \<and> take 8 (drop 32 placed) = take 8 (drop 32 b2) \<or>
     length b2 \<le> unat (PhOff req) \<and> take 8 (drop 32 placed) = le_bytes 8 (PhOff req) \<and>
     unat (PhNum req) = RequiredProgramHeaderCount phs"
    "unat (load_at 2 src 56 :: u16) < RequiredProgramHeaderCount phs \<and> RequiredProgramHeaderCount phs \<le> 65535 \<longrightarrow>
     length b2 \<le> unat (PhOff req) \<and> take 8 (drop 32 placed) = le_bytes 8 (PhOff req) \<and>
     unat (PhNum req) = RequiredProgramHeaderCount phs"
    "PhEntSize req = load_at 2 src 54" "OriginalHeaders req = phs" "ExtraBlockOffset req = of_nat (length src)"
    "ExtraBlockSize req = of_nat (length placed) - of_nat (length src)"
    "WriteLayout placed req = Inr (n, l1)" "frame {56..<58} l1 l2" "take 2 (drop 56 l2) = le_bytes 2 n"
    "(case None of None \<Rightarrow> Inr l2 | Some base \<Rightarrow> RebaseProgramHeaders l2 (load_at 8 src 32) (load_at 2 src 54) n base) = Inr l3"
    "frame ({40..<48} \<union> {58..<64}) l3 out" "length placed \<le> length out"
    by (rule Patch_stages [OF patch sites])
  then have st:
    "frame identity_fields src B" "64 \<le> length src"
    "vaddrOfExtraBlockOffset (of_nat (length src)) (ExtraBlockVaddr req) (of_nat (length B)) = Inr stubVaddr"
    "BuildEntryStub stubVaddr (load_at 8 src 24) = Inr stubBytes"
    "frame {24..<32} (B @ stubBytes) b1" "take 8 (drop 24 b1) = le_bytes 8 stubVaddr"
    "append_trampolines (vaddrOfExtraBlockOffset (of_nat (length src)) (ExtraBlockVaddr req)) (length src) sites b1 = Inr b2"
    "frame {32..<40} b2 placed"
    "PhOff req = load_at 8 src 32 \<and> PhNum req = load_at 2 src 56 \<and> take 8 (drop 32 placed) = take 8 (drop 32 b2) \<or>
     length b2 \<le> unat (PhOff req) \<and> take 8 (drop 32 placed) = le_bytes 8 (PhOff req)"
    "PhEntSize req = load_at 2 src 54" "OriginalHeaders req = phs" "ExtraBlockOffset req = of_nat (length src)"
    "ExtraBlockSize req = of_nat (length placed) - of_nat (length src)"
    "WriteLayout placed req = Inr (n, l1)" "frame {56..<58} l1 l2" "take 2 (drop 56 l2) = le_bytes 2 n"
    "frame ({40..<48} \<union> {58..<64}) l2 out" "length placed \<le> length out"
    by (auto simp: patch_address_None)
  note stub = BuildEntryStub_Inr [OF st(4)]
  have len1: "length src \<le> length B" "length B + 24 \<le> length b1"
    using frame_length [OF st(1)] frame_length [OF st(5)] stub by simp_all
  then have extra: "length src \<le> length b1" by simp
  note link = append_trampolines_linked [OF st(7) extra sites]
  then have f12: "frame (site_range sites) b1 b2" by (simp add: frame_def site_range_def)
  have lens: "length src \<le> length b2" "64 \<le> length b2" "length B + 24 \<le> length b2" "length b2 \<le> length placed" "length placed < 2 ^ 64"
    using frame_length [OF f12] frame_length [OF st(8)] extra st(2,18) patch(2) len1 by linarith+
  have wr: "written_range req n \<subseteq> table_range header \<union> {length b2..}" "written_range req n \<inter> {0..<64} = {}"
    using written_range_bounds [OF WriteLayout_slots [OF st(14)] guest(2,1) st(10) _ lens(2)] st(9) by blast+
  have tail: "frame ({40..<48} \<union> {56..<64}) l1 out"
    by (rule frame_mono [OF frame_trans [OF st(15,17)]]) auto
  have "({40..<48} \<union> {56..<64}) \<inter> written_range req n = {}" using wr(2) by auto
  moreover have "\<forall>ph \<in> set (OriginalHeaders req). check_load placed ph = Inr ()"
    using guest(3) lens st(11) by (auto intro: check_load_mono)
  ultimately obtain plan layout where layout: "plan_layout (length placed) req = Inr plan" "build_layout req plan = Inr layout"
    "read_program_headers out (ucast (PhEntSize req)) (unat n) (PhOff req) = Inr layout" "frame (written_range req n) placed l1"
    using layout_read [OF st(14) tail] lens patch(2) by (metis order_trans)
  let ?late = "{32..<48} \<union> {56..<64} \<union> written_range req n"
  have fp: "frame ({40..<48} \<union> {56..<64} \<union> written_range req n) placed out"
    by (rule frame_mono [OF frame_trans [OF layout(4) tail]]) auto
  have f2: "frame ?late b2 out" by (rule frame_mono [OF frame_trans [OF st(8) fp]]) auto
  have f1: "frame (site_range sites \<union> ?late) b1 out" by (rule frame_trans [OF f12 f2])
  have fs: "frame (identity_fields \<union> {24..<32} \<union> site_range sites) src b2"
    by (rule frame_mono [OF frame_trans [OF frame_trans [OF frame_trans [OF st(1) frame_append [of "{}"]] st(5)] f12]]) auto
  have room: "site_range sites \<inter> {0..<64} = {}" "site_range sites \<inter> table_range header = {}"
    using guest(2) by (auto simp: header_room_def)
  have whole: "frame (patched_header \<union> table_range header \<union> site_range sites) src out"
    using Patch_frame [OF patch sites guest(1,2)] by simp
  have "(patched_header \<union> table_range header \<union> site_range sites) \<inter> {0..<64} \<subseteq> patched_header"
    using room guest(2) by (auto simp: header_room_def table_range_def)
  note reader = ReadHeader_frame [OF guest(1) whole this]
  have "take 8 (drop 24 out) = take 8 (drop 24 b1)"
    using lens(2) len1(2) st(2) room wr(2) len1 by (intro frame_window [OF f1]) auto
  then have entry: "EntryPoint (file_header out) = stubVaddr" by (simp add: file_header_def st(6) codec)
  have "take 8 (drop 32 out) = take 8 (drop 32 placed)"
    using lens wr(2) by (intro frame_window [OF fp]) auto
  moreover have "take 8 (drop 32 b2) = take 8 (drop 32 src)"
    using st(2) room by (intro frame_window [OF fs]) (auto simp: identity_fields_def)
  ultimately have "ProgramHeaderOffset (file_header out) = PhOff req"
    using st(9) by (auto simp: file_header_def load_at_def codec)
  moreover have "take 2 (drop 56 out) = take 2 (drop 56 l2)"
    using frame_length [OF st(15)] frame_length [OF layout(4)] lens by (intro frame_window [OF st(17)]) auto
  then have "ProgramHeaderCount (file_header out) = n" by (simp add: file_header_def st(16) codec)
  moreover have "ProgramHeaderEntrySize (file_header out) = ucast (PhEntSize req)"
    using reader by (simp add: file_header_def st(10) load_at_def)
  ultimately have raw: "raw_program_headers out = Inr layout"
    using reader layout(3) by (simp add: raw_program_headers_def ucast_ucast16)
  have guestLoads: "\<forall>ph \<in> set (keptHeaders phs). is_load ph \<longrightarrow> fix_load ph \<in> set layout"
    using layout_keeps_loads [OF layout(1,2)] st(11) by simp
  note loaded = extra_block_loaded [OF layout(1,2) lens(5) st(12,13)]
  have low: "site_range sites \<subseteq> {0..<length src}" "table_range header \<subseteq> {0..<length src}"
    using site_range_within [OF st(7)] guest(2) by (auto simp: header_room_def table_range_def)
  have late: "?late \<inter> {0..<length b2} \<subseteq> {0..<64} \<union> table_range header" using wr(1) by auto
  have "{0..<length src} \<subseteq> {0..<length b2}" using lens(1) by auto
  then have "site_range sites \<subseteq> {0..<length b2}" using low(1) by (rule order_trans [rotated])
  then have free: "site_range sites \<inter> ?late = {}" using late room by blast
  have behind: "{lo..<hi} \<inter> (site_range sites \<union> ?late) = {}" if "length src \<le> lo" "hi \<le> length b2" for lo hi
  proof -
    have "{0..<64} \<union> table_range header \<union> site_range sites \<subseteq> {0..<length src}" using st(2) low by auto
    moreover have "{lo..<hi} \<inter> {0..<length src} = {}" using that(1) by auto
    ultimately have "{lo..<hi} \<inter> ({0..<64} \<union> table_range header \<union> site_range sites) = {}" by blast
    moreover have "{lo..<hi} \<subseteq> {0..<length b2}" using that(2) by auto
    ultimately show ?thesis using late by blast
  qed
  have "take 24 (drop (length B) out) = take 24 (drop (length B) b1)"
    using len1 lens(3) by (intro frame_window [OF f1] behind)
  also have "\<dots> = take 24 (drop (length B) (B @ stubBytes))"
    using len1 st(2) stub by (intro frame_window [OF st(5)]) auto
  finally have code: "take 24 (drop (length B) out) = stubBytes" using stub by simp
  have "EntryPoint header = load_at 8 src 24" using guest(1) by (simp add: ReadHeader_Inr file_header_def load_at_def)
  then have call: "call_at out (length B + 17) (stubVaddr + 17) (EntryPoint header)"
    using call_at_window [of stubBytes 17 _ _ "length B" out] stub code lens st(18) by simp
  have prologue: "take 17 (drop (length B) out) = stub_prologue"
    using arg_cong [OF code, of "take 17"] stub by (simp add: min_def)
  have linked: "\<exists>pos vaddr. pos mod 16 = 0 \<and> trampoline_linked s pos vaddr out \<and> loads_code layout pos vaddr (length (site_Body s))"
    if s: "s \<in> set sites" for s
  proof -
    from bspec [OF conjunct1 [OF conjunct2 [OF link]] s] obtain pos vaddr where l: "length b1 \<le> pos" "pos mod 16 = 0"
      "vaddrOfExtraBlockOffset (of_nat (length src)) (ExtraBlockVaddr req) (of_nat pos) = Inr vaddr" "trampoline_linked s pos vaddr b2"
      by (elim exE conjE) (rule that)
    then have fits: "pos + length (site_Body s) \<le> length b2" "unat (site_Offset s) + site_Length s \<le> length b2"
      unfolding trampoline_linked_def by blast+
    have "{unat (site_Offset s)..<unat (site_Offset s) + site_Length s} \<subseteq> site_range sites"
      using s by (auto simp: site_range_def inside_site_def)
    then have "{unat (site_Offset s)..<unat (site_Offset s) + site_Length s} \<inter> ?late = {}" using free by blast
    then have "agree b2 out (unat (site_Offset s)) (unat (site_Offset s) + site_Length s)" by (rule frame_agree [OF f2 fits(2)])
    moreover have "length src \<le> pos" using l(1) extra by simp
    then have "{pos..<pos + length (site_Body s)} \<inter> ?late = {}" using behind [OF _ fits(1)] by blast
    then have "agree b2 out pos (pos + length (site_Body s))" by (rule frame_agree [OF f2 fits(1)])
    ultimately have "trampoline_linked s pos vaddr out"
      using trampoline_linked_agree [OF l(4) append_trampolines_valid [OF st(7) s]] by blast
    moreover have "loads_code layout pos vaddr (length (site_Body s))"
      using l(1,3) extra fits(1) lens(4) by (intro loaded) simp_all
    ultimately show ?thesis using l(2) by (intro exI [of _ pos] exI [of _ vaddr] conjI)
  qed
  have "loads_code layout (length B) stubVaddr 24" using st(3) len1 lens by (intro loaded) simp_all
  then show thesis
    by (intro that [OF whole _ raw guestLoads, of "length B"])
      (simp_all only: entry reader prologue call, use linked in blast)
qed

end
