(* ===== verification/Section_Table_Props.thy ===== *)
theory Section_Table_Props
  imports Section_Table Program_Table
begin

text \<open>The section header table: the addresses of its sections, and when it can be written.\<close>

subsection \<open>Addresses\<close>

definition covers :: "u64 \<Rightarrow> u64 \<Rightarrow> ProgramHeader \<Rightarrow> bool" where
  "covers off sectionSize ph \<longleftrightarrow> ph_Type ph = PT_LOAD \<and> ph_Offset ph \<le> off \<and> off - ph_Offset ph \<le> ph_FileSize ph \<and>
     sectionSize \<le> ph_FileSize ph - (off - ph_Offset ph)"

text \<open>The address of a section, from the program headers as the reader sees them.\<close>

definition section_address :: "ProgramHeader list \<Rightarrow> u64 \<Rightarrow> u64 \<Rightarrow> u64 patch_result" where
  "section_address phs off sectionSize =
    (case find (covers off sectionSize) phs of
       None \<Rightarrow> runtime_error ''Allocated output section is outside load segments''
     | Some ph \<Rightarrow>
         if off - ph_Offset ph > - 1 - ph_MappedAddress ph \<or>
           sectionSize > - 1 - (ph_MappedAddress ph + (off - ph_Offset ph))
         then runtime_error ''Allocated output section address overflowed''
         else Inr (ph_MappedAddress ph + (off - ph_Offset ph)))"

lemma read_at_eq:
  "read_at n file off = Inr v \<Longrightarrow> length file < 2 ^ 64 \<Longrightarrow> n < 2 ^ 64 \<Longrightarrow> read_le message n file (unat off) = Inr v"
  by (auto simp: read_at_Inr read_le_def)

text \<open>The fields that the loop reads of an entry are those of the header the reader reads there.\<close>

lemma read_entry:
  assumes "read_program_header file off = Inr ph" "length file < 2 ^ 64"
  shows "unat off + 56 \<le> length file" "ReadU32 file (unat off) = Inr (ph_Type ph)" "ReadU64 file (unat off + 8) = Inr (ph_Offset ph)"
    "ReadU64 file (unat off + 16) = Inr (ph_MappedAddress ph)" "ReadU64 file (unat off + 32) = Inr (ph_FileSize ph)"
proof -
  have add: "unat (off + of_nat k) = unat off + k" if "unat off + k < 2 ^ 64" for k using that by (rule unat_plus_small)
  from assms(1) have r: "read_at 4 file off = Inr (ph_Type ph)" "read_at 8 file (off + 8) = Inr (ph_Offset ph)"
    "read_at 8 file (off + 16) = Inr (ph_MappedAddress ph)" "read_at 8 file (off + 32) = Inr (ph_FileSize ph)"
    "read_at 8 file (off + 48) = Inr (ph_Alignment ph)" "read_at 4 file (off + 4) = Inr (ph_Flags ph)"
    "read_at 8 file (off + 24) = Inr (ph_PhysicalAddress ph)" "read_at 8 file (off + 40) = Inr (ph_MemorySize ph)"
    by (auto simp: read_program_header_def readU32At_def readU64At_def bindE_eq_Inr)
  then have b: "unat off + 4 \<le> length file" "unat (off + 4) + 4 \<le> length file" "unat (off + 8) + 8 \<le> length file"
    "unat (off + 16) + 8 \<le> length file" "unat (off + 24) + 8 \<le> length file" "unat (off + 32) + 8 \<le> length file"
    "unat (off + 40) + 8 \<le> length file" "unat (off + 48) + 8 \<le> length file"
    using assms(2) by (simp_all add: read_at_Inr)
  have e4: "unat (off + 4) = unat off + 4" using add [of 4] b(1) assms(2) by simp
  have e8: "unat (off + 8) = unat off + 8" using add [of 8] b(2) e4 assms(2) by simp
  have e16: "unat (off + 16) = unat off + 16" using add [of 16] b(3) e8 assms(2) by simp
  have e24: "unat (off + 24) = unat off + 24" using add [of 24] b(4) e16 assms(2) by simp
  have e32: "unat (off + 32) = unat off + 32" using add [of 32] b(5) e24 assms(2) by simp
  have e40: "unat (off + 40) = unat off + 40" using add [of 40] b(6) e32 assms(2) by simp
  have e48: "unat (off + 48) = unat off + 48" using add [of 48] b(7) e40 assms(2) by simp
  show "unat off + 56 \<le> length file" using b(8) e48 by simp
  show "ReadU32 file (unat off) = Inr (ph_Type ph)" "ReadU64 file (unat off + 8) = Inr (ph_Offset ph)"
    "ReadU64 file (unat off + 16) = Inr (ph_MappedAddress ph)" "ReadU64 file (unat off + 32) = Inr (ph_FileSize ph)"
    using r(1-4) [THEN read_at_eq [OF _ assms(2)]] by (simp_all add: ReadU32_def ReadU64_def e8 e16 e32)
qed

lemma find_mapping_eq:
  assumes "read_program_headers file (ucast stride) n off = Inr phs" "length file < 2 ^ 64"
    and "unat off + n * unat (stride :: u16) \<le> length file"
  shows "find_mapping file (unat stride) n (unat off) at sectionSize = section_address phs at sectionSize"
  using assms(1,3)
proof (induction n arbitrary: off phs)
  case 0
  then show ?case by (simp add: section_address_def)
next
  case (Suc n)
  from Suc.prems(1) obtain ph rest where ph: "read_program_header file off = Inr ph" "phs = ph # rest"
    and rest: "read_program_headers file (ucast stride) n (off + ucast stride) = Inr rest"
    by (auto simp: bindE_eq_Inr)
  note reads = read_entry [OF ph(1) assms(2)]
  have small: "unat off + unat stride < 2 ^ 64" using Suc.prems(2) assms(2) by simp
  have s: "unat (ucast stride :: u64) = unat stride"
  proof -
    have "unat stride < 2 ^ LENGTH(16)" by (rule unsigned_less)
    then have "unat stride < 2 ^ 64" by simp
    then show ?thesis by (simp add: unsigned_ucast_eq take_bit_nat_eq_self)
  qed
  have u: "unat (off + ucast stride) = unat off + unat stride" using small s by (simp add: unat_word_ariths)
  have IH: "find_mapping file (unat stride) n (unat off + unat stride) at sectionSize = section_address rest at sectionSize"
    using Suc.IH [OF rest] Suc.prems(2) u by simp
  show ?case using reads(2-5) IH by (auto simp: ph(2) section_address_def covers_def Let_def)
qed

subsection \<open>Writing the table\<close>

definition section_bytes :: "section_header \<Rightarrow> u8 list" where
  "section_bytes sh = le_bytes 4 (sh_nameOff sh) @ le_bytes 4 (sh_type sh) @ le_bytes 8 (sh_flags sh) @ le_bytes 8 (sh_addr sh) @
     le_bytes 8 (sh_fileOffset sh) @ le_bytes 8 (sh_size sh) @ le_bytes 4 (sh_link sh) @ le_bytes 4 (sh_info sh) @
     le_bytes 8 (sh_align sh) @ le_bytes 8 (sh_entSize sh)"

lemma length_section_bytes [simp]: "length (section_bytes sh) = 64"
  by (simp add: section_bytes_def)

lemmas shdr_offsets = kShdrNameOffset_def kShdrTypeOffset_def kShdrFlagsOffset_def kShdrAddrOffset_def kShdrFileOffsetOffset_def
  kShdrSizeOffset_def kShdrLinkOffset_def kShdrInfoOffset_def kShdrAlignOffset_def kShdrEntSizeOffset_def

lemma writeSectionHeader_ok:
  "off + 64 \<le> length buf \<Longrightarrow> writeSectionHeader buf off sh = Inr (write_bytes buf off (section_bytes sh))"
  by (simp add: writeSectionHeader_def writes write_le_Inr shdr_offsets write_bytes_adjacent section_bytes_def)

lemma write_sections_ok:
  "off + 64 * length hs \<le> length buf \<Longrightarrow> write_sections buf off hs = Inr (write_bytes buf off (concat (map section_bytes hs)))"
proof (induction hs arbitrary: buf off)
  case Nil
  then show ?case by (simp add: write_bytes_def)
next
  case (Cons h hs)
  have n: "length (concat (map section_bytes hs)) = 64 * length hs" by (induction hs) simp_all
  have "write_sections buf off (h # hs) = write_sections (write_bytes buf off (section_bytes h)) (off + 64) hs"
    using Cons.prems by (simp add: writeSectionHeader_ok kShdrEntrySize_def)
  also have "\<dots> = Inr (write_bytes (write_bytes buf off (section_bytes h)) (off + 64) (concat (map section_bytes hs)))"
    using Cons.prems by (intro Cons.IH) simp
  also have "\<dots> = Inr (write_bytes buf off (section_bytes h @ concat (map section_bytes hs)))"
    using Cons.prems n by (simp add: write_bytes_adjacent)
  finally show ?case by simp
qed

lemma write_at_end: "write_bytes (buf @ replicate (length bs) x) (length buf) bs = buf @ bs"
  by (simp add: write_bytes_def)

text \<open>The sections that have an address.\<close>

definition allocated :: "SectionHeaderTableRequest \<Rightarrow> (u64 \<times> u64) list" where
  "allocated req = [(sr_DynStrOffset req, sr_DynStrSize req), (sr_DynSymOffset req, sr_DynSymSize req),
     (sr_DynamicSegmentOffset req, sr_DynamicSegmentSize req), (sr_StubOffset req, sr_StubSize req)]"

lemma WriteTable_total:
  assumes "ReadU64 buf 32 = Inr phOffset" "ReadU16 buf 56 = Inr phCount" "ReadU16 buf 54 = Inr phStride"
    and "56 \<le> phStride" "unat phOffset + unat phCount * unat phStride \<le> length buf" "length buf < 2 ^ 64"
    and "read_program_headers buf (ucast phStride) (unat phCount) phOffset = Inr phs"
    and "\<forall>(off, len) \<in> set (allocated req). unat off + unat len \<le> length buf \<and> (\<exists>a. section_address phs off len = Inr a)"
  shows "\<exists>out. WriteTable buf req = Inr out \<and> length out = length buf + 426"
proof -
  have "0 < unat phStride" using assms(4) by (simp add: word_le_nat_alt)
  then have fits: "\<not> (phStride < 56 \<or> unat phOffset > length buf \<or> unat phCount > (length buf - unat phOffset) div unat phStride)"
    using assms(4,5) by (auto simp: not_less not_le less_eq_div_iff_mult_less_eq)
  have "mappedAddress buf phOffset phCount phStride off len = section_address phs off len" if "unat off + unat len \<le> length buf" for off len
    using that find_mapping_eq [OF assms(7,6,5)] by (auto simp: mappedAddress_def)
  with assms(8) obtain a b c d where addresses:
    "mappedAddress buf phOffset phCount phStride (sr_DynStrOffset req) (sr_DynStrSize req) = Inr a"
    "mappedAddress buf phOffset phCount phStride (sr_DynSymOffset req) (sr_DynSymSize req) = Inr b"
    "mappedAddress buf phOffset phCount phStride (sr_DynamicSegmentOffset req) (sr_DynamicSegmentSize req) = Inr c"
    "mappedAddress buf phOffset phCount phStride (sr_StubOffset req) (sr_StubSize req) = Inr d"
    by (auto simp: allocated_def)
  let ?named = "buf @ kShStrTabBlob" and ?hs = "section_headers req (of_nat (length buf)) a b c d"
  let ?b = "?named @ concat (map section_bytes ?hs)"
  have len: "length (concat (map section_bytes ?hs)) = 384" by (simp add: section_headers_def)
  have "length ?hs = 6" by (simp add: section_headers_def)
  then have "write_sections (?named @ replicate 384 0) (length ?named) ?hs = Inr ?b"
    using write_at_end [of ?named "concat (map section_bytes ?hs)" 0] len by (subst write_sections_ok) simp_all
  moreover have "64 \<le> length ?b" "length ?b = length buf + 426" by (simp_all add: len kShStrTabBlob_def)
  ultimately have "\<exists>out. bindE (write_sections (?named @ replicate 384 0) (length ?named) ?hs) (\<lambda>buf.
      bindE (WriteU64 buf 40 (of_nat (length ?named))) (\<lambda>buf. bindE (WriteU16 buf 58 (of_nat kShdrEntrySize)) (\<lambda>buf.
      bindE (WriteU16 buf 60 (of_nat kSectionHeaderCount)) (\<lambda>buf. WriteU16 buf 62 (ucast kShStrTabIndex))))) = Inr out \<and>
      length out = length buf + 426"
    by (simp add: writes write_le_Inr)
  then show ?thesis
    using assms(1-3) fits addresses
    unfolding WriteTable_def Let_def kEhdrPhOffOffset_def kEhdrPhNumOffset_def kEhdrPhEntSizeOffset_def kEhdrShOffOffset_def
      kEhdrShEntSizeOffset_def kEhdrShNumOffset_def kEhdrShStrNdxOffset_def
    by (simp add: kShdrEntrySize_def kSectionHeaderCount_def)
qed

end
