(* ===== verification/Relinked_Program.thy ===== *)
theory Relinked_Program
  imports Patched_Program Relinking Section_Table_Props
begin

text \<open>
  From the guest's image to the file that the host runs: the code generator and the Linux patcher together.
\<close>

subsection \<open>An example\<close>

text \<open>An ELF file of one program header and the code of \<open>sample_program\<close>, mapped at \<open>0x1078\<close>.\<close>

definition demo_header :: ProgramHeader where
  "demo_header = \<lparr>ph_Type = 1, ph_Flags = 5, ph_Offset = 120, ph_MappedAddress = 0x1078, ph_PhysicalAddress = 0x1078,
     ph_FileSize = 10, ph_MemorySize = 10, ph_Alignment = 0\<rparr>"

definition demo_elf :: "u8 list" where
  "demo_elf = [0x7F, 0x45, 0x4C, 0x46, 2, 1, 1, 0] @ replicate 8 0 @ [2, 0, 62, 0, 1, 0, 0, 0] @ [0x78, 0x10, 0, 0, 0, 0, 0, 0] @
     [64, 0, 0, 0, 0, 0, 0, 0] @ replicate 8 0 @ [0, 0, 0, 0, 64, 0, 56, 0, 1, 0, 0, 0, 0, 0, 0, 0] @
     header_bytes demo_header @ sample_program"

definition demo_tables :: SysVDynamicSection where
  "demo_tables = \<lparr>DynamicSegmentData = [], DynSymData = [], DynStrData = [0], RelaData = [], RelaPltData = []\<rparr>"

definition demo_places :: table_places where
  "demo_places = \<lparr>tp_dynStrOff = 130, tp_runPathStrOff = 1, tp_dynStrSize = 2, tp_dynSymOff = 144, tp_hashOff = 144,
     tp_relaOff = 168, tp_relaPltOff = 168\<rparr>"

definition demo_buf :: "u8 list" where
  "demo_buf = demo_elf[16 := 3] @ replicate 14 0 @ [1] @ replicate 23 0"

definition demo_layout_request :: ProgramHeaderLayoutRequest where
  "demo_layout_request = \<lparr>PhOff = 432, PhEntSize = 56, PhNum = 6, OriginalHeaders = [demo_header], ExtraBlockOffset = 130,
     ExtraBlockVaddr = 0x2082, ExtraBlockSize = 638, DynamicSegmentOffset = 168, DynamicSegmentSize = 144,
     InterpOffset = 400, InterpSize = 28\<rparr>"

definition demo_output_plan :: layout_plan where
  "demo_output_plan = \<lparr>lp_kept = [demo_header], lp_neededPh = 6, lp_tableInExtraBlock = True, lp_headerBlockSize = 64,
     lp_headerBlockAlign = 4096, lp_extraBlockVaddr = 0x2082, lp_headerBlockVaddr = 0x3000\<rparr>"

definition demo_layout :: "ProgramHeader list" where
  "demo_layout =
    [makePhdrHeader 432 0x21B0 336, makeInterpHeader 400 0x2190 28, demo_header,
     makeLoadHeader 130 0x2082 638 4096 3966 7, makeLoadHeader 0 0x3000 64 4096 64 4,
     makeDynamicHeader 168 0x20A8 144]"

lemma demo_steps:
  "reset_header None demo_elf = Inr (demo_elf[16 := 3])"
  "append_tables None demo_tables [] (demo_elf[16 := 3]) = Inr (demo_places, demo_buf)"
  "ComputeExtraBlockVaddr [demo_header] 130 = Inr 0x2082"
  "plan_layout 768 demo_layout_request = Inr demo_output_plan"
  "build_layout demo_layout_request demo_output_plan = Inr demo_layout"
  "RequiredProgramHeaderCount [demo_header] = 6"
  by code_simp+

lemma demo_loads:
  "load_at 8 (demo_elf[16 := 3]) 32 = (64 :: u64) \<and> load_at 2 (demo_elf[16 := 3]) 54 = (56 :: u16) \<and>
   load_at 2 (demo_elf[16 := 3]) 56 = (1 :: u16) \<and> length demo_elf = 130"
  by code_simp

lemma demo_addresses:
  "section_address demo_layout 130 2 = Inr 0x2082" "section_address demo_layout 144 0 = Inr 0x2090"
  "section_address demo_layout 168 144 = Inr 0x20A8" "section_address demo_layout 312 24 = Inr 0x2138"
  by code_simp+

lemma demo_code_appended:
  "case Convert (MakeAmd64OnlyInstructionMatcher Intel) demo_elf [demo_header] of Inl _ \<Rightarrow> False | Inr r \<Rightarrow>
     map (\<lambda>s. (site_Offset s, site_Length s, length (site_Body s))) (Trampolines r) = [(123, 6, 64)] \<and>
     (case append_code None demo_tables 0 False (Trampolines r) demo_places 0x2082 demo_buf of Inl _ \<Rightarrow> False
      | Inr (dynSegOff, dynSegSize, stubOff, stubSize, interpOff, code) \<Rightarrow>
        (dynSegOff, dynSegSize, stubOff, stubSize, interpOff) = (168, 144, 312, 24, 400) \<and> length code = 428 \<and>
        take 2 (drop 54 code) = [56, 0])"
  by code_simp

lemma demo_placed:
  assumes "length code = 428" "take 2 (drop 54 code) = [56, 0]"
  shows "\<exists>placed. place_header_table 64 56 1 [demo_header] code = Inr (432, 6, placed) \<and> length placed = 768 \<and>
    take 8 (drop 32 placed) = le_bytes 8 (432 :: u64) \<and> take 2 (drop 54 placed) = [56, 0]"
proof -
  let ?b = "(code @ replicate 4 0) @ replicate 336 0"
  have b: "alignBuf code 8 = code @ replicate 4 0" using assms(1) by (simp add: alignBuf_def)
  let ?out = "write_bytes ?b 32 (le_bytes 8 (432 :: u64))"
  have "place_header_table 64 56 1 [demo_header] code = Inr (432, 6, ?out)"
    using assms(1) b unfolding place_header_table_def Let_def demo_steps(6)
    by (simp add: elf_defs writes write_le_Inr del: append_assoc)
  moreover have "length ?out = 768" using assms(1) by simp
  moreover have "take 8 (drop 32 ?out) = le_bytes 8 (432 :: u64)"
    using window_write_same [of 32 "le_bytes 8 (432 :: u64)" ?b] assms(1) by simp
  moreover have "take 2 (drop 54 ?out) = [56, 0]"
    using window_write_other [of 32 "le_bytes 8 (432 :: u64)" ?b 54 2] assms by simp
  ultimately show ?thesis by blast
qed

lemma demo_headers:
  assumes "length placed = 768" "take 8 (drop 32 placed) = le_bytes 8 (432 :: u64)" "take 2 (drop 54 placed) = [56, 0]"
  shows "\<exists>out. write_layout_headers None [demo_header] demo_tables demo_places 0x2082 64 56 432 6 (168, 144, 312, 24, 400) placed = Inr out \<and>
    length out = 1194"
proof -
  have "plan_layout (length placed) demo_layout_request = Inr demo_output_plan" using demo_steps(4) assms(1) by simp
  from WriteLayout_total [OF this demo_steps(5)] obtain mid where mid: "WriteLayout placed demo_layout_request = Inr (6, mid)"
    by (auto simp: demo_layout_def)
  have lm: "length mid = 768" using WriteLayout_length [OF mid] assms(1) by simp
  obtain buf where buf: "write_le ''ByteWriter::WriteU16 out of bounds'' 2 mid 56 (6 :: u16) = Inr buf"
    using lm by (simp add: write_le_Inr)
  note w = write_le_frame [OF buf]
  have range: "written_range demo_layout_request 6 = {432..<768}" by (simp add: written_range_def demo_layout_request_def)
  have checks: "\<forall>ph \<in> set (OriginalHeaders demo_layout_request). check_load placed ph = Inr ()"
    using assms(1) by (simp add: demo_layout_request_def demo_header_def check_load_def rangeFits_def)
  obtain plan layout where "plan_layout (length placed) demo_layout_request = Inr plan" "build_layout demo_layout_request plan = Inr layout"
    and read: "read_program_headers buf (ucast (PhEntSize demo_layout_request)) (unat (6 :: u16)) (PhOff demo_layout_request) = Inr layout"
    and fm: "frame (written_range demo_layout_request 6) placed mid"
    by (rule layout_read [OF mid w(1) _ _ checks]) (use assms(1) lm w(2) in \<open>simp_all add: range\<close>)
  then have layout: "layout = demo_layout" using demo_steps(4,5) assms(1) by simp
  have f: "frame ({432..<768} \<union> {56..<58}) placed buf" using frame_trans [OF fm w(1)] unfolding range by simp
  have free: "{32..<40} \<inter> ({432..<768} \<union> {56..<58}) = ({} :: nat set)" "{54..<56} \<inter> ({432..<768} \<union> {56..<58}) = ({} :: nat set)"
    by auto
  have "take 8 (drop 32 buf) = le_bytes 8 (432 :: u64)" using frame_window [OF f, of 32 8] assms(1,2) free by simp
  moreover have "take 2 (drop 54 buf) = [56, 0]" using frame_window [OF f, of 54 2] assms(1,3) free by simp
  ultimately have reads: "ReadU64 buf 32 = Inr 432" "ReadU16 buf 56 = Inr 6" "ReadU16 buf 54 = Inr 56"
    using w(4) lm w(2) by (simp_all add: ReadU64_def ReadU16_def read_le_def codec)
  let ?req = "\<lparr>sr_DynStrOffset = 130, sr_DynStrSize = 2, sr_DynSymOffset = 144, sr_DynSymSize = 0,
    sr_DynamicSegmentOffset = 168, sr_DynamicSegmentSize = 144, sr_StubOffset = 312, sr_StubSize = 24\<rparr>"
  have "\<exists>out. WriteTable buf ?req = Inr out \<and> length out = length buf + 426"
    by (rule WriteTable_total [OF reads, of demo_layout])
      (use lm w(2) read layout demo_addresses in \<open>simp_all add: demo_layout_request_def allocated_def\<close>)
  then obtain out where out: "WriteTable buf ?req = Inr out" "length out = 1194" using lm w(2) by auto
  have req: "\<lparr>PhOff = 432, PhEntSize = 56, PhNum = 6, OriginalHeaders = [demo_header],
      ExtraBlockOffset = tp_dynStrOff demo_places, ExtraBlockVaddr = 0x2082, ExtraBlockSize = of_nat (length placed) - tp_dynStrOff demo_places,
      DynamicSegmentOffset = 168, DynamicSegmentSize = 144, InterpOffset = 400, InterpSize = of_nat (length kInterp)\<rparr> = demo_layout_request"
    using assms(1) by (simp add: demo_layout_request_def demo_places_def kInterp_def)
  from mid buf out show ?thesis
    unfolding write_layout_headers_def Let_def prod.case req
    by (simp add: elf_defs WriteU16_def demo_places_def demo_tables_def)
qed

lemma demo_patched:
  obtains r out where "Convert (MakeAmd64OnlyInstructionMatcher Intel) demo_elf [demo_header] = Inr r"
    "Patch None demo_elf [demo_header] demo_tables 0 [] False False (Trampolines r) = Inr out" "length out = 1194"
    "map (\<lambda>s. (site_Offset s, site_Length s, length (site_Body s))) (Trampolines r) = [(123, 6, 64)]"
proof -
  obtain r code where r: "Convert (MakeAmd64OnlyInstructionMatcher Intel) demo_elf [demo_header] = Inr r"
    "map (\<lambda>s. (site_Offset s, site_Length s, length (site_Body s))) (Trampolines r) = [(123, 6, 64)]"
    "append_code None demo_tables 0 False (Trampolines r) demo_places 0x2082 demo_buf = Inr (168, 144, 312, 24, 400, code)"
    "length code = 428" "take 2 (drop 54 code) = [56, 0]"
    using demo_code_appended by (auto split: sum.splits)
  obtain placed where p: "place_header_table 64 56 1 [demo_header] code = Inr (432, 6, placed)" "length placed = 768"
    "take 8 (drop 32 placed) = le_bytes 8 (432 :: u64)" "take 2 (drop 54 placed) = [56, 0]"
    using demo_placed [OF r(4,5)] by blast
  obtain out where "write_layout_headers None [demo_header] demo_tables demo_places 0x2082 64 56 432 6 (168, 144, 312, 24, 400) placed = Inr out"
    "length out = 1194" using demo_headers [OF p(2-4)] by blast
  moreover have "tp_dynStrOff demo_places = 130" by (simp add: demo_places_def)
  ultimately have "Patch None demo_elf [demo_header] demo_tables 0 [] False False (Trampolines r) = Inr out"
    using demo_steps(1-3) demo_loads r(3) p(1) by (simp add: Patch_def header_offsets)
  then show thesis by (rule that [OF r(1) _ \<open>length out = 1194\<close> r(2)])
qed

lemma demo_sites:
  assumes "map (\<lambda>s. (site_Offset s, site_Length s, length (site_Body s))) (Trampolines r) = [(123, 6, 64)]"
  shows "header_room demo_elf (file_header demo_elf) (Trampolines r)" "\<forall>s \<in> set (Trampolines r). length (site_Body s) < 2 ^ 31"
    "\<exists>s. Trampolines r = [s]"
proof -
  from assms obtain s where s: "Trampolines r = [s]" "site_Offset s = 123" "site_Length s = 6" "length (site_Body s) = 64" by auto
  have "unat (ProgramHeaderOffset (file_header demo_elf)) = 64 \<and> unat (ProgramHeaderCount (file_header demo_elf)) = 1 \<and>
      unat (ProgramHeaderEntrySize (file_header demo_elf)) = 56" by code_simp
  moreover have "site_range (Trampolines r) = {123..<129}" using s by (auto simp: site_range_def inside_site_def)
  ultimately show "header_room demo_elf (file_header demo_elf) (Trampolines r)"
    using demo_loads by (auto simp: header_room_def table_range_def)
  show "\<forall>s \<in> set (Trampolines r). length (site_Body s) < 2 ^ 31" "\<exists>s. Trampolines r = [s]" using s by simp_all
qed

lemma demo_guest: "ReadHeader demo_elf = Inr (file_header demo_elf)" "\<forall>ph \<in> set [demo_header]. check_load demo_elf ph = Inr ()"
proof -
  have "known_identity demo_elf" by code_simp
  then show "ReadHeader demo_elf = Inr (file_header demo_elf)" using demo_loads by (simp add: ReadHeader_Inr)
  show "\<forall>ph \<in> set [demo_header]. check_load demo_elf ph = Inr ()"
    using demo_loads by (simp add: demo_header_def check_load_def rangeFits_def)
qed

subsection \<open>The contract\<close>

lemma Convert_Intel_stubs:
  assumes "Convert (MakeAmd64OnlyInstructionMatcher Intel) bytes segments = Inr result" "length bytes < 2 ^ 64"
    and "sorted_wrt segments_apart (filter executable_load segments)"
  shows "\<forall>s \<in> set (Trampolines result). stub_of (site_body s)" "sorted_wrt disjoint_sites (Trampolines result)"
    "\<forall>s \<in> set (Trampolines result). site_end s \<le> length bytes \<and> (\<exists>ph \<in> set segments. executable_load ph \<and> site_within ph s)"
proof -
  from assms(1) obtain bytes' result' where c:
    "convert_segments (MakeAmd64OnlyInstructionMatcher Intel) segments segments (bytes, empty_result) = Inr (bytes', result')"
    "result = result'\<lparr>conv_Bytes := bytes'\<rparr>"
    by (auto simp: Convert_def bindE_eq_Inr)
  with intel.convert_segments [OF c(1) assms(2,3)]
  show "\<forall>s \<in> set (Trampolines result). stub_of (site_body s)" "sorted_wrt disjoint_sites (Trampolines result)"
    "\<forall>s \<in> set (Trampolines result). site_end s \<le> length bytes \<and> (\<exists>ph \<in> set segments. executable_load ph \<and> site_within ph s)"
    by (auto simp: empty_result_def site_ok_def)
qed

lemma fixed_flags_executable: "f AND PF_X \<noteq> 0 \<Longrightarrow> fixLoadFlags f AND PF_X \<noteq> 0"
proof -
  have "(f OR PF_R) AND PF_X = (f AND PF_X) OR (PF_R AND PF_X)" by (rule bit.conj_disj_distrib2)
  then show "f AND PF_X \<noteq> 0 \<Longrightarrow> fixLoadFlags f AND PF_X \<noteq> 0" by (simp add: fixLoadFlags_def elf_defs)
qed

lemma executable_kept:
  assumes "executable_load ph" "ph \<in> set phs"
  shows "ph \<in> set (keptHeaders phs)" "is_load ph" "ph_Flags (fix_load ph) AND PF_X \<noteq> 0"
proof -
  from assms(1) have load: "ph_Type ph = PT_LOAD" "ph_Flags ph AND PF_X \<noteq> 0" by (simp_all add: executable_load_def elf_defs)
  then have "\<not> ShouldSkip ph" by (simp add: ShouldSkip_def isSceSpecificSegment_def elf_defs word_le_nat_alt)
  with assms(2) show "ph \<in> set (keptHeaders phs)" by (simp add: keptHeaders_def)
  show "is_load ph" using load(1) by (simp add: is_load_def)
  show "ph_Flags (fix_load ph) AND PF_X \<noteq> 0" using load fixed_flags_executable by (simp add: fix_load_def)
qed

text \<open>A site is loaded, at its address, by the header that the layout has for its segment.\<close>

lemma site_loaded:
  assumes "site_within ph s" "executable_load ph" "ph \<in> set phs" "\<forall>ph \<in> set (keptHeaders phs). is_load ph \<longrightarrow> fix_load ph \<in> set layout"
    and "site_end s < 2 ^ 64"
  shows "loads_code layout (unat (site_Offset s)) (site_Address s) (site_Length s)"
proof -
  have "site_Length s < 2 ^ 64" using assms(5) by (simp add: site_end_def)
  then have "unat (of_nat (site_Length s) :: u64) = site_Length s" by (rule unat_of_nat64)
  then have "maps_range (fix_load ph) (of_nat (unat (site_Offset s))) (site_Address s) (of_nat (site_Length s))"
    using assms(1) executable_kept [OF assms(2,3)] by (simp add: maps_range_def site_within_def site_end_def)
  then show ?thesis using executable_kept [OF assms(2,3)] assms(4) unfolding loads_code_def by blast
qed

text \<open>C1. The whole way, from the image to the file that is run, without a fixed base: when the code generator has
  converted the guest for Intel and the Linux patcher has written the output, the ELF reader reads that output back, with
  a program header for every load segment of the guest; the entry point is the address at which an executable segment
  loads the prologue and a call of the guest's entry point; and every site of a trampoline, which an executable segment
  loads at the address the site is recorded with, leads from there to its stub, which an executable segment loads at the
  address the jump has, and back behind the site.\<close>

theorem relinked_program:
  assumes "Convert (MakeAmd64OnlyInstructionMatcher Intel) bytes segments = Inr result" "length bytes < 2 ^ 64"
    and "sorted_wrt segments_apart (filter executable_load segments)"
    and "\<forall>s \<in> set (Trampolines result). length (site_Body s) < 2 ^ 31"
    and "Patch None src phs dynSection pltGot runPath lazy diagnostics (Trampolines result) = Inr out" "length out < 2 ^ 64"
    and "ReadHeader src = Inr header" "header_room src header (Trampolines result)" "\<forall>ph \<in> set phs. check_load src ph = Inr ()"
    and "\<forall>ph \<in> set segments. executable_load ph \<longrightarrow> ph \<in> set phs"
  shows "\<exists>layout stub. ReadHeader out = Inr (file_header out) \<and> raw_program_headers out = Inr layout \<and>
    (\<forall>ph \<in> set (keptHeaders phs). is_load ph \<longrightarrow> fix_load ph \<in> set layout) \<and>
    loads_code layout stub (EntryPoint (file_header out)) 24 \<and> take 17 (drop stub out) = stub_prologue \<and>
    call_at out (stub + 17) (EntryPoint (file_header out) + 17) (EntryPoint header) \<and>
    (\<forall>s \<in> set (Trampolines result). loads_code layout (unat (site_Offset s)) (site_Address s) (site_Length s) \<and>
      (\<exists>pos vaddr. pos mod 16 = 0 \<and> trampoline_linked s pos vaddr out \<and> loads_code layout pos vaddr (length (site_Body s))))"
proof -
  note sites = Convert_Intel_stubs [OF assms(1-3)]
  have "\<forall>s \<in> set (Trampolines result). stub_of (site_body s) \<and> length (site_Body s) < 2 ^ 31"
    using sites(1) assms(4) by blast
  from Patch_program [OF assms(5,6) this sites(2) assms(7-9)]
  obtain layout stub where out:
    "frame (patched_header \<union> table_range header \<union> site_range (Trampolines result)) src out"
    "ReadHeader out = Inr (file_header out)" "raw_program_headers out = Inr layout"
    "\<forall>ph \<in> set (keptHeaders phs). is_load ph \<longrightarrow> fix_load ph \<in> set layout"
    "loads_code layout stub (EntryPoint (file_header out)) 24"
    "take 17 (drop stub out) = stub_prologue" "call_at out (stub + 17) (EntryPoint (file_header out) + 17) (EntryPoint header)"
    "\<forall>s \<in> set (Trampolines result). \<exists>pos vaddr. pos mod 16 = 0 \<and> trampoline_linked s pos vaddr out \<and>
      loads_code layout pos vaddr (length (site_Body s))" .
  have "loads_code layout (unat (site_Offset s)) (site_Address s) (site_Length s)" if "s \<in> set (Trampolines result)" for s
    using sites(3) assms(2,10) that by (blast intro: site_loaded [OF _ _ _ out(4)] order_le_less_trans)
  with out show ?thesis by (intro exI [of _ layout] exI [of _ stub] conjI) blast+
qed

theorem relinked_program_witness:
  "\<exists>(r :: ConvertResult) s out layout pos vaddr.
    Patch None demo_elf [demo_header] demo_tables 0 [] False False (Trampolines r) = Inr out \<and> Trampolines r = [s] \<and>
    raw_program_headers out = Inr layout \<and> loads_code layout (unat (site_Offset s)) (site_Address s) (site_Length s) \<and>
    trampoline_linked s pos vaddr out \<and> loads_code layout pos vaddr (length (site_Body s))"
proof -
  obtain r out where r: "Convert (MakeAmd64OnlyInstructionMatcher Intel) demo_elf [demo_header] = Inr r"
    "Patch None demo_elf [demo_header] demo_tables 0 [] False False (Trampolines r) = Inr out" "length out = 1194"
    "map (\<lambda>s. (site_Offset s, site_Length s, length (site_Body s))) (Trampolines r) = [(123, 6, 64)]" by (rule demo_patched)
  obtain s where s: "Trampolines r = [s]" using demo_sites(3) [OF r(4)] by blast
  have c: "length demo_elf < 2 ^ 64" "sorted_wrt segments_apart (filter executable_load [demo_header])" "length out < 2 ^ 64"
    "\<forall>ph \<in> set [demo_header]. executable_load ph \<longrightarrow> ph \<in> set [demo_header]"
    using demo_loads r(3) by simp_all
  from relinked_program [OF r(1) c(1,2) demo_sites(2) [OF r(4)] r(2) c(3) demo_guest(1) demo_sites(1) [OF r(4)] demo_guest(2) c(4)]
  obtain layout pos vaddr where "raw_program_headers out = Inr layout" "trampoline_linked s pos vaddr out"
    "loads_code layout (unat (site_Offset s)) (site_Address s) (site_Length s)"
    "loads_code layout pos vaddr (length (site_Body s))" unfolding s by auto
  with r(2) s show ?thesis by blast
qed

text \<open>C4. The patcher changes nothing else of the guest's image, with a fixed base or without: apart from fields of the
  ELF header, the program header table and the sites of the trampolines, the output starts with the bytes of the image.
  With a fixed base there is one exception more: the entries that the loop over the output's program headers goes
  through when it starts at the guest's table, which reach behind that table when the output needs more headers than it
  has slots.\<close>

theorem patched_image_kept:
  assumes "Patch fixedBase src phs dynSection pltGot runPath lazy diagnostics sites = Inr out" "length out < 2 ^ 64"
    and "\<forall>s \<in> set sites. stub_of (site_body s) \<and> length (site_Body s) < 2 ^ 31" "sorted_wrt disjoint_sites sites"
    and "ReadHeader src = Inr header" "header_room src header sites"
  shows "length src \<le> length out \<and>
    (\<forall>i < length src. i \<notin> patched_header \<and> i \<notin> table_range header \<and> i \<notin> site_range sites \<and>
      i \<notin> rebased_range fixedBase header phs \<longrightarrow> out ! i = src ! i)"
  using Patch_frame [OF assms] by (simp add: frame_def)

theorem patched_image_kept_witness:
  "\<exists>(r :: ConvertResult) out. Patch None demo_elf [demo_header] demo_tables 0 [] False False (Trampolines r) = Inr out \<and>
    out ! 120 = demo_elf ! 120"
proof -
  obtain r out where r: "Convert (MakeAmd64OnlyInstructionMatcher Intel) demo_elf [demo_header] = Inr r"
    "Patch None demo_elf [demo_header] demo_tables 0 [] False False (Trampolines r) = Inr out" "length out = 1194"
    "map (\<lambda>s. (site_Offset s, site_Length s, length (site_Body s))) (Trampolines r) = [(123, 6, 64)]" by (rule demo_patched)
  have c: "length demo_elf < 2 ^ 64" "sorted_wrt segments_apart (filter executable_load [demo_header])" "length out < 2 ^ 64"
    using demo_loads r(3) by simp_all
  have sites: "\<forall>s \<in> set (Trampolines r). stub_of (site_body s) \<and> length (site_Body s) < 2 ^ 31"
    using Convert_Intel_stubs(1) [OF r(1) c(1,2)] demo_sites(2) [OF r(4)] by blast
  have at: "120 \<notin> patched_header" "120 \<notin> table_range (file_header demo_elf)" "120 \<notin> site_range (Trampolines r)"
  proof -
    show "120 \<notin> patched_header" by (simp add: patched_header_def)
    show "120 \<notin> table_range (file_header demo_elf)" unfolding table_range_def by code_simp
    show "120 \<notin> site_range (Trampolines r)" using r(4) by (auto simp: site_range_def inside_site_def)
  qed
  from patched_image_kept [OF r(2) c(3) sites Convert_Intel_stubs(2) [OF r(1) c(1,2)] demo_guest(1) demo_sites(1) [OF r(4)]]
    at demo_loads have "out ! 120 = demo_elf ! 120" by simp
  with r(2) show ?thesis by blast
qed

end
