(* ===== verification/Fixed_Headers.thy ===== *)
theory Fixed_Headers
  imports Relinked_Program Fixed_Base
begin

text \<open>
  The program header table at a fixed base, when the guest's table is too small and a new one is written behind the image.
\<close>

subsection \<open>An example\<close>






















end
